(* ===== verification/Prelude.thy ===== *)
theory Prelude
  imports Main "HOL-Library.AList" "HOL-Library.Multiset" "HOL-Library.List_Lexorder" "HOL-Library.Char_ord"
begin

text \<open>
  What every component of the development shares: Go's fixed-width integer conversions, the
  functions of package \<open>strings\<close> that the program calls, Go maps, results with an error, and the
  "try each until one succeeds" loop that five functions of the program are written as.
\<close>

named_theorems go_simps \<open>equations that evaluate the Go primitives\<close>

section \<open>Integers\<close>

text \<open>
  \<open>int64 x\<close>, \<open>uint64 x\<close> and \<open>int32 x\<close> are Go's conversions of an integer to the type: the
  value modulo \<open>2^n\<close>, read as two's complement for the signed types. Arithmetic on such a type
  is the exact operation followed by the conversion. Division truncates towards zero.
\<close>

definition int64 :: "int \<Rightarrow> int" where
  "int64 x = (x + 2^63) mod 2^64 - 2^63"

definition int32 :: "int \<Rightarrow> int" where
  "int32 x = (x + 2^31) mod 2^32 - 2^31"

definition uint64 :: "int \<Rightarrow> int" where
  "uint64 x = x mod 2^64"

definition go_div :: "int \<Rightarrow> int \<Rightarrow> int" where
  "go_div a b = sgn a * sgn b * (\<bar>a\<bar> div \<bar>b\<bar>)"

definition go_mod :: "int \<Rightarrow> int \<Rightarrow> int" where
  "go_mod a b = a - b * go_div a b"

lemma int64_id: "- (2^63) \<le> x \<Longrightarrow> x < 2^63 \<Longrightarrow> int64 x = x"
  by (simp add: int64_def)

lemma int32_id: "- (2^31) \<le> x \<Longrightarrow> x < 2^31 \<Longrightarrow> int32 x = x"
  by (simp add: int32_def)

lemma uint64_id: "0 \<le> x \<Longrightarrow> x < 2^64 \<Longrightarrow> uint64 x = x"
  by (simp add: uint64_def)

lemma uint64_range: "0 \<le> uint64 x \<and> uint64 x < 2^64"
  by (simp add: uint64_def)

lemma go_div_nonneg: "0 \<le> a \<Longrightarrow> 0 < b \<Longrightarrow> go_div a b = a div b"
  by (cases "a = 0") (simp_all add: go_div_def)

lemma go_mod_nonneg: "0 \<le> a \<Longrightarrow> 0 < b \<Longrightarrow> go_mod a b = a mod b"
  by (simp add: go_mod_def go_div_nonneg minus_mult_div_eq_mod)

section \<open>Strings\<close>

text \<open>
  Go strings are byte strings, as HOL's are. \<open>strings.ToLower\<close> is modelled on ASCII letters;
  other bytes are left as they are.
\<close>

definition lower_table :: "(char \<times> char) list" where
  "lower_table = zip ''ABCDEFGHIJKLMNOPQRSTUVWXYZ'' ''abcdefghijklmnopqrstuvwxyz''"

definition lower_char :: "char \<Rightarrow> char" where
  "lower_char c = (case map_of lower_table c of None \<Rightarrow> c | Some d \<Rightarrow> d)"

definition to_lower :: "string \<Rightarrow> string" where
  "to_lower s = map lower_char s"

fun has_prefix :: "string \<Rightarrow> string \<Rightarrow> bool" where
  "has_prefix s [] = True"
| "has_prefix [] (p # ps) = False"
| "has_prefix (c # s) (p # ps) = (c = p \<and> has_prefix s ps)"

fun contains :: "string \<Rightarrow> string \<Rightarrow> bool" where
  "contains [] p = (p = [])"
| "contains (c # s) p = (has_prefix (c # s) p \<or> contains s p)"

fun split_on :: "char \<Rightarrow> string \<Rightarrow> string list" where
  "split_on c [] = [[]]"
| "split_on c (x # xs) =
     (if x = c then [] # split_on c xs
      else (case split_on c xs of [] \<Rightarrow> [[x]] | w # ws \<Rightarrow> (x # w) # ws))"

fun join_with :: "string \<Rightarrow> string list \<Rightarrow> string" where
  "join_with sep [] = []"
| "join_with sep [w] = w"
| "join_with sep (w # v # ws) = w @ sep @ join_with sep (v # ws)"

lemma has_prefix_append [simp]: "has_prefix (p @ s) p"
  by (induction p) simp_all

lemma has_prefix_iff: "has_prefix s p \<longleftrightarrow> (\<exists>t. s = p @ t)"
  by (induction s p rule: has_prefix.induct) auto

lemma split_on_nonempty [simp]: "split_on c s \<noteq> []"
  by (induction s) (auto split: list.splits)

lemma split_on_no_sep: "c \<notin> set w \<Longrightarrow> split_on c w = [w]"
  by (induction w) auto

lemma split_on_append: "c \<notin> set w \<Longrightarrow> split_on c (w @ c # s) = w # split_on c s"
  by (induction w) auto

lemma join_with_cons: "ws \<noteq> [] \<Longrightarrow> join_with sep (w # ws) = w @ sep @ join_with sep ws"
  by (cases ws) simp_all

lemma split_join:
  "ws \<noteq> [] \<Longrightarrow> \<forall>w \<in> set ws. c \<notin> set w \<Longrightarrow> split_on c (join_with [c] ws) = ws"
proof (induction ws)
  case (Cons w ws)
  have w: "c \<notin> set w" using Cons.prems(2) by auto
  show ?case
  proof (cases "ws = []")
    case True
    with split_on_no_sep [OF w] show ?thesis by simp
  next
    case False
    have IH: "split_on c (join_with [c] ws) = ws"
      by (rule Cons.IH [OF False]) (use Cons.prems(2) in auto)
    have "join_with [c] (w # ws) = w @ c # join_with [c] ws"
      unfolding join_with_cons [OF False] by simp
    with split_on_append [OF w] IH show ?thesis by metis
  qed
qed simp

lemma join_with_inj:
  assumes "ws \<noteq> []" "vs \<noteq> []" "\<forall>w \<in> set ws. c \<notin> set w" "\<forall>v \<in> set vs. c \<notin> set v"
    and "join_with [c] ws = join_with [c] vs"
  shows "ws = vs"
  using assms by (metis split_join)

section \<open>Maps\<close>

text \<open>
  A Go map is modelled as an association list with distinct keys. The list's order stands for
  the order in which one run of \<open>range\<close> happens to visit the entries, which Go leaves open: a
  theorem over every such list is a theorem over every iteration order.
\<close>

type_synonym ('k, 'v) gomap = "('k \<times> 'v) list"

abbreviation mget :: "('k, 'v) gomap \<Rightarrow> 'k \<Rightarrow> 'v option" where
  "mget m k \<equiv> map_of m k"

abbreviation mput :: "'k \<Rightarrow> 'v \<Rightarrow> ('k, 'v) gomap \<Rightarrow> ('k, 'v) gomap" where
  "mput k v m \<equiv> AList.update k v m"

abbreviation mdel :: "'k \<Rightarrow> ('k, 'v) gomap \<Rightarrow> ('k, 'v) gomap" where
  "mdel k m \<equiv> AList.delete k m"

abbreviation mkeys :: "('k, 'v) gomap \<Rightarrow> 'k set" where
  "mkeys m \<equiv> fst ` set m"

definition mget_default :: "'v \<Rightarrow> ('k, 'v) gomap \<Rightarrow> 'k \<Rightarrow> 'v" where
  "mget_default z m k = (case mget m k of None \<Rightarrow> z | Some v \<Rightarrow> v)"

definition wf_map :: "('k, 'v) gomap \<Rightarrow> bool" where
  "wf_map m \<longleftrightarrow> distinct (map fst m)"

lemma mget_put [simp]: "mget (mput k v m) j = (if j = k then Some v else mget m j)"
  by (simp add: update_conv)

lemma mget_del [simp]: "mget (mdel k m) j = (if j = k then None else mget m j)"
  by (simp add: AList.delete_conv)

lemma mkeys_put [simp]: "mkeys (mput k v m) = insert k (mkeys m)"
  by (simp add: dom_map_of_conv_image_fst [symmetric] update_conv')

lemma mkeys_del [simp]: "mkeys (mdel k m) = mkeys m - {k}"
  by (simp add: dom_map_of_conv_image_fst [symmetric] delete_conv')

lemma mput_fresh: "k \<notin> mkeys m \<Longrightarrow> mput k v m = m @ [(k, v)]"
  by (induction m) auto

lemma wf_map_Nil [simp]: "wf_map []"
  by (simp add: wf_map_def)

lemma wf_map_put [simp]: "wf_map m \<Longrightarrow> wf_map (mput k v m)"
  unfolding wf_map_def by (rule distinct_update)

lemma wf_map_del [simp]: "wf_map m \<Longrightarrow> wf_map (mdel k m)"
  unfolding wf_map_def by (rule distinct_delete)

lemma mget_None_iff: "mget m k = None \<longleftrightarrow> k \<notin> mkeys m"
  by (simp add: map_of_eq_None_iff)

lemma wf_map_mget: "wf_map m \<Longrightarrow> mget m k = Some v \<longleftrightarrow> (k, v) \<in> set m"
  by (simp add: wf_map_def)

section \<open>Results\<close>

text \<open>
  A Go function with an \<open>error\<close> result is modelled by a sum: \<open>Inl e\<close> when it returns a non-nil
  error, \<open>Inr r\<close> otherwise. \<open>try_each f errs ps\<close> is the loop
  \<^verbatim>\<open>
  for _, p := range ps { r, err := f(p); if err == nil { return r, nil }
                         errs = append(errs, err) }
  \<close>
  which returns the first success, or every error.
\<close>

fun try_each :: "('p \<Rightarrow> 'e + 'r) \<Rightarrow> 'e list \<Rightarrow> 'p list \<Rightarrow> 'e list + 'r" where
  "try_each f errs [] = Inl errs"
| "try_each f errs (p # ps) =
     (case f p of Inr r \<Rightarrow> Inr r | Inl e \<Rightarrow> try_each f (errs @ [e]) ps)"

definition fails :: "('p \<Rightarrow> 'e + 'r) \<Rightarrow> 'p \<Rightarrow> bool" where
  "fails f p \<longleftrightarrow> (case f p of Inl e \<Rightarrow> True | Inr r \<Rightarrow> False)"

lemma try_each_fail:
  "\<forall>p \<in> set ps. fails f p \<Longrightarrow> try_each f errs ps = Inl (errs @ map (projl \<circ> f) ps)"
  by (induction ps arbitrary: errs) (auto simp: fails_def split: sum.splits)

lemma try_each_success:
  assumes "f p = Inr r" and "\<forall>q \<in> set qs. fails f q"
  shows "try_each f errs (qs @ p # ps) = Inr r"
  using assms by (induction qs arbitrary: errs) (auto simp: fails_def split: sum.splits)

lemma try_each_Inr_split:
  "try_each f errs ps = Inr r \<Longrightarrow>
     \<exists>qs p rs. ps = qs @ p # rs \<and> f p = Inr r \<and> (\<forall>q \<in> set qs. fails f q)"
proof (induction ps arbitrary: errs)
  case (Cons p ps)
  show ?case
  proof (cases "f p")
    case (Inl e)
    with Cons.prems have "try_each f (errs @ [e]) ps = Inr r" by simp
    from Cons.IH [OF this] obtain qs q rs
      where q: "ps = qs @ q # rs" "f q = Inr r" "\<forall>q \<in> set qs. fails f q" by blast
    with Inl have "\<forall>q \<in> set (p # qs). fails f q" by (simp add: fails_def)
    with q show ?thesis by (intro exI [of _ "p # qs"] exI [of _ q] exI [of _ rs]) simp
  next
    case (Inr r')
    with Cons.prems show ?thesis by (intro exI [of _ "[]"] exI [of _ p] exI [of _ ps]) simp
  qed
qed simp

lemma try_each_Inr_iff:
  "try_each f errs ps = Inr r \<longleftrightarrow>
     (\<exists>qs p rs. ps = qs @ p # rs \<and> f p = Inr r \<and> (\<forall>q \<in> set qs. fails f q))"
  using try_each_Inr_split [of f errs ps r] try_each_success [of f _ r _ errs] by blast

lemma try_each_map_Inr_iff:
  "try_each f errs (map g ns) = Inr r \<longleftrightarrow>
     (\<exists>as n bs. ns = as @ n # bs \<and> f (g n) = Inr r \<and> (\<forall>m \<in> set as. fails f (g m)))"
proof
  assume "try_each f errs (map g ns) = Inr r"
  then obtain qs p rs where "map g ns = qs @ p # rs" "f p = Inr r" "\<forall>q \<in> set qs. fails f q"
    unfolding try_each_Inr_iff by blast
  moreover from this(1) obtain as n bs where "ns = as @ n # bs" "qs = map g as" "p = g n"
    by (auto simp: map_eq_append_conv map_eq_Cons_conv)
  ultimately show "\<exists>as n bs. ns = as @ n # bs \<and> f (g n) = Inr r \<and> (\<forall>m \<in> set as. fails f (g m))"
    by auto
next
  assume "\<exists>as n bs. ns = as @ n # bs \<and> f (g n) = Inr r \<and> (\<forall>m \<in> set as. fails f (g m))"
  then show "try_each f errs (map g ns) = Inr r"
    by (auto simp: try_each_success)
qed

lemma try_each_Inl_iff:
  "(\<exists>es. try_each f errs ps = Inl es) \<longleftrightarrow> (\<forall>p \<in> set ps. fails f p)"
  by (induction ps arbitrary: errs) (auto simp: fails_def split: sum.splits)

end
