(* ===== verification/Go_Float.thy ===== *)
theory Go_Float
  imports Prelude
begin

text \<open>
  Go's \<open>float64\<close>: IEEE 754 binary64 with round-to-nearest, ties to even. A finite value is
  \<open>Fin s m e\<close>, which stands for \<open>(-1)^s * m * 2^e\<close> with \<open>m < 2^53\<close> and \<open>-1074 \<le> e \<le> 971\<close>; both
  zeros have \<open>m = 0\<close>. Every operation is the exact one on fractions of integers followed by
  \<open>rnd\<close>, with the standard's rules for infinities, NaNs and signed zeros, so it evaluates.
\<close>

datatype float64 = NaN | Inf bool | Fin bool int int

text \<open>\<open>pow2 e = 2^e\<close> and the length of \<open>n\<close> in bits, in logarithmically many steps.\<close>

function pow2 :: "int \<Rightarrow> int" where
  "pow2 e = (if e \<le> 0 then 1 else if e mod 2 = 0 then (let h = pow2 (e div 2) in h * h)
             else 2 * pow2 (e - 1))"
  by pat_completeness auto
termination by (relation "measure nat") auto

function blen :: "int \<Rightarrow> int" where
  "blen n = (if n \<le> 0 then 0 else 1 + blen (n div 2))"
  by pat_completeness auto
termination by (relation "measure nat") auto

declare pow2.simps [simp del] blen.simps [simp del]

text \<open>\<open>rdiv n d\<close> is \<open>n / d\<close> rounded to an integer, ties to even.\<close>

definition rdiv :: "int \<Rightarrow> int \<Rightarrow> int" where
  "rdiv n d = (let q = n div d; r = n mod d in
     if 2 * r < d then q else if d < 2 * r then q + 1 else q + q mod 2)"

text \<open>\<open>n / d\<close> in units of \<open>2^e\<close>, as a fraction.\<close>

definition scale :: "int \<Rightarrow> int \<Rightarrow> int \<Rightarrow> int \<times> int" where
  "scale n d e = (if 0 \<le> e then (n, d * pow2 e) else (n * pow2 (- e), d))"

text \<open>The exponent of the last place of \<open>n / d\<close>: 53 significant bits, or the subnormal unit.\<close>

definition ulp_exp :: "int \<Rightarrow> int \<Rightarrow> int" where
  "ulp_exp n d =
     (let e = blen n - blen d - 53; (a, b) = scale n d e
      in max (if 9007199254740992 \<le> a div b then e + 1 else e) (-1074))"

definition rnd :: "bool \<Rightarrow> int \<Rightarrow> int \<Rightarrow> float64" where
  "rnd s n d =
     (if n = 0 then Fin s 0 (-1074)
      else let e = ulp_exp n d; (a, b) = scale n d e; m = rdiv a b;
               (m', e') = (if m = 9007199254740992 then (4503599627370496, e + 1) else (m, e))
           in if 971 < e' then Inf s else Fin s m' e')"

definition float_of_int :: "int \<Rightarrow> float64" where
  "float_of_int i = rnd (i < 0) \<bar>i\<bar> 1"

text \<open>A decimal literal of the source, \<open>lit 49 100\<close> for \<open>0.49\<close>.\<close>

definition lit :: "int \<Rightarrow> int \<Rightarrow> float64" where
  "lit n d = rnd False n d"

section \<open>Operations\<close>

definition signed :: "bool \<Rightarrow> int \<Rightarrow> int" where
  "signed s m = (if s then - m else m)"

text \<open>Two finite values over their common, smaller, exponent.\<close>

definition align :: "bool \<Rightarrow> int \<Rightarrow> int \<Rightarrow> bool \<Rightarrow> int \<Rightarrow> int \<Rightarrow> int \<times> int \<times> int" where
  "align s m e t k f = (let g = min e f
     in (signed s m * pow2 (e - g), signed t k * pow2 (f - g), g))"

definition rnd_exp :: "bool \<Rightarrow> int \<Rightarrow> int \<Rightarrow> float64" where
  "rnd_exp s n e = (if 0 \<le> e then rnd s (n * pow2 e) 1 else rnd s n (pow2 (- e)))"

fun fneg :: "float64 \<Rightarrow> float64" where
  "fneg NaN = NaN"
| "fneg (Inf s) = Inf (\<not> s)"
| "fneg (Fin s m e) = Fin (\<not> s) m e"

fun fadd :: "float64 \<Rightarrow> float64 \<Rightarrow> float64" where
  "fadd NaN y = NaN"
| "fadd (Inf s) y = (case y of NaN \<Rightarrow> NaN | Inf t \<Rightarrow> if s = t then Inf s else NaN
                             | Fin t k f \<Rightarrow> Inf s)"
| "fadd (Fin s m e) y = (case y of NaN \<Rightarrow> NaN | Inf t \<Rightarrow> Inf t
     | Fin t k f \<Rightarrow>
         if m = 0 \<and> k = 0 then Fin (s \<and> t) 0 (-1074)
         else if m = 0 then y else if k = 0 then Fin s m e
         else let (a, b, g) = align s m e t k f
              in rnd_exp (a + b < 0) \<bar>a + b\<bar> g)"

fun fmul :: "float64 \<Rightarrow> float64 \<Rightarrow> float64" where
  "fmul NaN y = NaN"
| "fmul (Inf s) y = (case y of NaN \<Rightarrow> NaN | Inf t \<Rightarrow> Inf (s \<noteq> t)
                             | Fin t k f \<Rightarrow> if k = 0 then NaN else Inf (s \<noteq> t))"
| "fmul (Fin s m e) y = (case y of NaN \<Rightarrow> NaN
     | Inf t \<Rightarrow> if m = 0 then NaN else Inf (s \<noteq> t)
     | Fin t k f \<Rightarrow> rnd_exp (s \<noteq> t) (m * k) (e + f))"

fun fdiv :: "float64 \<Rightarrow> float64 \<Rightarrow> float64" where
  "fdiv NaN y = NaN"
| "fdiv (Inf s) y = (case y of NaN \<Rightarrow> NaN | Inf t \<Rightarrow> NaN | Fin t k f \<Rightarrow> Inf (s \<noteq> t))"
| "fdiv (Fin s m e) y = (case y of NaN \<Rightarrow> NaN | Inf t \<Rightarrow> Fin (s \<noteq> t) 0 (-1074)
     | Fin t k f \<Rightarrow>
         if k = 0 then (if m = 0 then NaN else Inf (s \<noteq> t))
         else if f \<le> e then rnd (s \<noteq> t) (m * pow2 (e - f)) k
         else rnd (s \<noteq> t) m (k * pow2 (f - e)))"

fun flt :: "float64 \<Rightarrow> float64 \<Rightarrow> bool" where
  "flt NaN y = False"
| "flt (Inf s) y = (case y of NaN \<Rightarrow> False | Inf t \<Rightarrow> s \<and> \<not> t | Fin t k f \<Rightarrow> s)"
| "flt (Fin s m e) y = (case y of NaN \<Rightarrow> False | Inf t \<Rightarrow> \<not> t
     | Fin t k f \<Rightarrow> (let (a, b, g) = align s m e t k f in a < b))"

fun fle :: "float64 \<Rightarrow> float64 \<Rightarrow> bool" where
  "fle NaN y = False"
| "fle (Inf s) y = (case y of NaN \<Rightarrow> False | Inf t \<Rightarrow> s \<or> \<not> t | Fin t k f \<Rightarrow> s)"
| "fle (Fin s m e) y = (case y of NaN \<Rightarrow> False | Inf t \<Rightarrow> \<not> t
     | Fin t k f \<Rightarrow> (let (a, b, g) = align s m e t k f in a \<le> b))"

text \<open>Go's \<open>==\<close> on \<open>float64\<close>: a NaN equals nothing, the two zeros are equal.\<close>

definition feq :: "float64 \<Rightarrow> float64 \<Rightarrow> bool" where
  "feq x y \<longleftrightarrow> fle x y \<and> fle y x"

instantiation float64 :: "{plus, minus, times, inverse, zero, one, ord, uminus}"
begin

definition plus_float64 :: "float64 \<Rightarrow> float64 \<Rightarrow> float64" where
  "plus_float64 = fadd"

definition uminus_float64 :: "float64 \<Rightarrow> float64" where
  "uminus_float64 = fneg"

definition minus_float64 :: "float64 \<Rightarrow> float64 \<Rightarrow> float64" where
  "minus_float64 x y = fadd x (fneg y)"

definition times_float64 :: "float64 \<Rightarrow> float64 \<Rightarrow> float64" where
  "times_float64 = fmul"

definition divide_float64 :: "float64 \<Rightarrow> float64 \<Rightarrow> float64" where
  "divide_float64 = fdiv"

definition inverse_float64 :: "float64 \<Rightarrow> float64" where
  "inverse_float64 x = fdiv (Fin False 4503599627370496 (-52)) x"

definition zero_float64 :: float64 where
  "zero_float64 = Fin False 0 (-1074)"

definition one_float64 :: float64 where
  "one_float64 = Fin False 4503599627370496 (-52)"

definition less_float64 :: "float64 \<Rightarrow> float64 \<Rightarrow> bool" where
  "less_float64 = flt"

definition less_eq_float64 :: "float64 \<Rightarrow> float64 \<Rightarrow> bool" where
  "less_eq_float64 = fle"

instance ..

end

text \<open>
  \<open>int64(x)\<close>: truncated towards zero; out of range, amd64 gives the least value.
\<close>

definition trunc_int64 :: "float64 \<Rightarrow> int" where
  "trunc_int64 x = (case x of
     NaN \<Rightarrow> - (2 ^ 63)
   | Inf s \<Rightarrow> - (2 ^ 63)
   | Fin s m e \<Rightarrow>
       let v = signed s (if 0 \<le> e then m * pow2 e else m div pow2 (- e))
       in if - (2 ^ 63) \<le> v \<and> v < 2 ^ 63 then v else - (2 ^ 63))"

section \<open>Signs\<close>

text \<open>Not a NaN and not below zero: what a price, a duration and a product of them are.\<close>

definition nonneg :: "float64 \<Rightarrow> bool" where
  "nonneg x = (case x of NaN \<Rightarrow> False | Inf s \<Rightarrow> \<not> s | Fin s m e \<Rightarrow> \<not> s \<and> 0 \<le> m)"

lemma nonneg_simps [simp]:
  "\<not> nonneg NaN" "nonneg (Inf s) \<longleftrightarrow> \<not> s" "nonneg (Fin s m e) \<longleftrightarrow> \<not> s \<and> 0 \<le> m"
  by (simp_all add: nonneg_def)

lemma zero_nonneg [simp]: "nonneg 0"
  by (simp add: zero_float64_def)

lemma pow2_eq: "pow2 e = 2 ^ nat e"
proof (induction e rule: pow2.induct)
  case (1 e)
  consider "e \<le> 0" | "0 < e" "e mod 2 = 0" | "0 < e" "e mod 2 \<noteq> 0" by linarith
  then show ?case
  proof cases
    case 2
    then have "e = e div 2 + e div 2" "0 \<le> e div 2" by presburger+
    then have "nat e = nat (e div 2) + nat (e div 2)" by linarith
    with 1 2 show ?thesis by (simp add: pow2.simps [of e] power_add Let_def)
  next
    case 3
    then have "nat e = Suc (nat (e - 1))" by linarith
    with 1 3 show ?thesis by (simp add: pow2.simps [of e])
  qed (simp add: pow2.simps [of e])
qed

lemma pow2_pos [simp]: "0 < pow2 e" "0 \<le> pow2 e"
  by (simp_all add: pow2_eq)

lemma rdiv_nonneg: "0 \<le> n \<Longrightarrow> 0 < d \<Longrightarrow> 0 \<le> rdiv n d"
  by (simp add: rdiv_def Let_def pos_imp_zdiv_nonneg_iff)

lemma scale_nonneg: "scale n d e = (a, b) \<Longrightarrow> 0 \<le> n \<Longrightarrow> 0 < d \<Longrightarrow> 0 \<le> a \<and> 0 < b"
  by (auto simp: scale_def split: if_splits)

lemma rnd_nonneg: "0 \<le> n \<Longrightarrow> 0 < d \<Longrightarrow> nonneg (rnd False n d)"
  by (auto simp: rnd_def Let_def dest!: scale_nonneg intro: rdiv_nonneg split: prod.split)

lemma rnd_exp_nonneg: "0 \<le> n \<Longrightarrow> nonneg (rnd_exp False n e)"
  by (simp add: rnd_exp_def rnd_nonneg)

lemma lit_nonneg: "0 \<le> n \<Longrightarrow> 0 < d \<Longrightarrow> nonneg (lit n d)"
  by (simp add: lit_def rnd_nonneg)

lemma float_of_int_nonneg: "0 \<le> i \<Longrightarrow> nonneg (float_of_int i)"
  by (simp add: float_of_int_def rnd_nonneg)

lemma align_nonneg:
  "align False m e False k f = (a, b, g) \<Longrightarrow> 0 \<le> m \<Longrightarrow> 0 \<le> k \<Longrightarrow> 0 \<le> a + b"
  by (auto simp: align_def signed_def Let_def)

lemma rnd_exp_sum_nonneg:
  assumes "0 \<le> m" "0 \<le> k"
  shows "nonneg (case align False m e False k f of (a, b, g) \<Rightarrow>
     rnd_exp (a + b < 0) \<bar>a + b\<bar> g)"
proof -
  obtain a b g where abg: "align False m e False k f = (a, b, g)" by (metis surj_pair)
  with align_nonneg [OF abg assms] rnd_exp_nonneg [of "a + b" g] show ?thesis by simp
qed

lemma add_nonneg:
  assumes "nonneg x" "nonneg y" shows "nonneg (x + y)"
  using assms rnd_exp_sum_nonneg
  by (cases x; cases y) (simp_all add: plus_float64_def)

lemma mul_nonneg:
  assumes "nonneg x" "nonneg (Fin s m e)" "0 < m" shows "nonneg (x * Fin s m e)"
  using assms by (cases x) (simp_all add: times_float64_def rnd_exp_nonneg)

lemma feq_refl: "x \<noteq> NaN \<Longrightarrow> feq x x"
  by (cases x) (auto simp: feq_def align_def Let_def)

end
