(* ===== verification/Time_Series.thy ===== *)
theory Time_Series
  imports Go_Float
begin

text \<open>
  The time series that the data sources return: \<open>common.TimeSeries\<close> of the crane library, of
  which the program builds and reads the two fields. The file \<open>ctx.go\<close> of package \<open>prom\<close> merges
  two of them with \<open>MergeSortedTimeSeries\<close>; the merge and what it promises are here.
  \<open>SortSampleAsc\<close> is library code: it is a parameter, and \<open>asc_sort\<close> is what its documentation
  promises.
\<close>

record sample =
  Timestamp :: int
  SValue :: float64

record time_series =
  Labels :: "(string \<times> string) list"
  Samples :: "sample list"

definition NewTimeSeries :: time_series where
  "NewTimeSeries = \<lparr>Labels = [], Samples = []\<rparr>"

definition asc_sort :: "(sample list \<Rightarrow> sample list) \<Rightarrow> bool" where
  "asc_sort srt \<longleftrightarrow> (\<forall>xs. sorted (map Timestamp (srt xs)) \<and> set (srt xs) = set xs)"

definition SortSampleAsc :: "(sample list \<Rightarrow> sample list) \<Rightarrow> time_series \<Rightarrow> time_series" where
  "SortSampleAsc srt ts = ts\<lparr>Samples := srt (Samples ts)\<rparr>"

section \<open>MergeSortedTimeSeries\<close>

text \<open>
  The body of each loop: append the sample unless the last one appended has its timestamp. The
  code's \<open>k\<close> is always the length of the output, so \<open>ts.Samples[k-1]\<close> is its last element.
\<close>

definition push :: "sample list \<Rightarrow> sample \<Rightarrow> sample list" where
  "push out s = (if out \<noteq> [] \<and> Timestamp (last out) = Timestamp s then out else out @ [s])"

text \<open>The two inner loops; the lists are the samples from \<open>i\<close> and from \<open>j\<close> on.\<close>

fun take_first :: "sample list \<Rightarrow> sample list \<Rightarrow> sample list \<Rightarrow> sample list \<times> sample list" where
  "take_first (x # xs) (y # ys) out =
     (if Timestamp x \<le> Timestamp y then take_first xs (y # ys) (push out x) else (x # xs, out))"
| "take_first xs ys out = (xs, out)"

fun take_second :: "sample list \<Rightarrow> sample list \<Rightarrow> sample list \<Rightarrow> sample list \<times> sample list" where
  "take_second (x # xs) (y # ys) out =
     (if Timestamp y < Timestamp x then take_second (x # xs) ys (push out y) else (y # ys, out))"
| "take_second xs ys out = (ys, out)"

lemma take_first_length: "length (fst (take_first xs ys out)) \<le> length xs"
  by (induction xs ys out rule: take_first.induct) auto

lemma take_second_length: "length (fst (take_second xs ys out)) \<le> length ys"
  by (induction xs ys out rule: take_second.induct) auto

lemma take_first_cases:
  "Timestamp x \<le> Timestamp y \<Longrightarrow> length (fst (take_first (x # xs) (y # ys) out)) < Suc (length xs)"
  using take_first_length [of xs "y # ys"] by (simp add: le_imp_less_Suc)

lemma merge_progress:
  assumes "take_first (x # xs) (y # ys) out = (xs', out')"
    and "take_second xs' (y # ys) out' = (ys', out'')"
  shows "length xs' + length ys' < Suc (Suc (length xs + length ys))"
proof (cases "Timestamp x \<le> Timestamp y")
  case True
  then show ?thesis
    using take_first_cases [OF True, of xs ys out] take_second_length [of xs' "y # ys" out'] assms
    by simp
next
  case False
  with assms have "xs' = x # xs" "length ys' \<le> length ys"
    using take_second_length [of xs' ys "push out' y"] by auto
  then show ?thesis by simp
qed

function merge_loop ::
    "sample list \<Rightarrow> sample list \<Rightarrow> sample list \<Rightarrow> sample list \<times> sample list \<times> sample list" where
  "merge_loop (x # xs) (y # ys) out =
     (let (xs', out') = take_first (x # xs) (y # ys) out;
          (ys', out'') = take_second xs' (y # ys) out'
      in merge_loop xs' ys' out'')"
| "merge_loop [] ys out = ([], ys, out)"
| "merge_loop (x # xs) [] out = (x # xs, [], out)"
  by pat_completeness auto
termination
  by (relation "measure (\<lambda>(xs, ys, out). length xs + length ys)")
     (auto simp del: take_first.simps take_second.simps split: prod.splits
           dest: merge_progress [OF sym sym])

definition MergeSortedTimeSeries :: "time_series \<Rightarrow> time_series \<Rightarrow> time_series" where
  "MergeSortedTimeSeries ts1 ts2 =
     (let (xs, ys, out) = merge_loop (Samples ts1) (Samples ts2) [];
          out = foldl push out xs;
          out = foldl push out ys
      in \<lparr>Labels = Labels ts1, Samples = out\<rparr>)"

section \<open>What the merge promises\<close>

text \<open>The same merge as one recursion: the smaller head first, the first series on a tie.\<close>

fun merge_ref :: "sample list \<Rightarrow> sample list \<Rightarrow> sample list" where
  "merge_ref (x # xs) (y # ys) =
     (if Timestamp x \<le> Timestamp y then x # merge_ref xs (y # ys) else y # merge_ref (x # xs) ys)"
| "merge_ref [] ys = ys"
| "merge_ref xs [] = xs"

lemma merge_ref_Nil [simp]: "merge_ref xs [] = xs"
  by (cases xs) simp_all

lemma take_first_merge:
  "foldl push out (merge_ref xs ys) =
     (let (xs', out') = take_first xs ys out in foldl push out' (merge_ref xs' ys))"
  by (induction xs ys out rule: take_first.induct) auto

lemma take_second_merge:
  "foldl push out (merge_ref xs ys) =
     (let (ys', out') = take_second xs ys out in foldl push out' (merge_ref xs ys'))"
  by (induction xs ys out rule: take_second.induct) auto

lemma merge_loop_merge:
  "foldl push out (merge_ref xs ys) =
     (let (xs', ys', out') = merge_loop xs ys out in foldl push (foldl push out' xs') ys')"
proof (induction xs ys out rule: merge_loop.induct)
  case (1 x xs y ys out)
  obtain xs' out' where f: "take_first (x # xs) (y # ys) out = (xs', out')" by fastforce
  obtain ys' out'' where g: "take_second xs' (y # ys) out' = (ys', out'')" by fastforce
  have "foldl push out (merge_ref (x # xs) (y # ys)) = foldl push out' (merge_ref xs' (y # ys))"
    using take_first_merge [of out "x # xs" "y # ys"] unfolding f by simp
  also have "\<dots> = foldl push out'' (merge_ref xs' ys')"
    using take_second_merge [of out' xs' "y # ys"] unfolding g by simp
  finally show ?case
    using 1 [OF f [symmetric] refl g [symmetric] refl] f g
    by (simp del: take_first.simps take_second.simps)
qed simp_all

lemma Samples_MergeSorted:
  "Samples (MergeSortedTimeSeries ts1 ts2) = foldl push [] (merge_ref (Samples ts1) (Samples ts2))"
  by (simp add: MergeSortedTimeSeries_def Let_def merge_loop_merge split: prod.split)

text \<open>The value a series has at a timestamp: that of its first sample with it.\<close>

definition at_time :: "sample list \<Rightarrow> int \<Rightarrow> sample option" where
  "at_time xs t = find (\<lambda>s. Timestamp s = t) xs"

abbreviation times :: "sample list \<Rightarrow> int list" where
  "times xs \<equiv> map Timestamp xs"

lemma set_merge_ref: "set (merge_ref xs ys) = set xs \<union> set ys"
  by (induction xs ys rule: merge_ref.induct) auto

lemma sorted_merge_ref:
  "sorted (times xs) \<Longrightarrow> sorted (times ys) \<Longrightarrow> sorted (times (merge_ref xs ys))"
  by (induction xs ys rule: merge_ref.induct) (auto simp: set_merge_ref)

lemma at_time_Nil [simp]: "at_time [] t = None"
  by (simp add: at_time_def)

lemma at_time_Cons: "at_time (x # xs) t = (if Timestamp x = t then Some x else at_time xs t)"
  by (simp add: at_time_def)

lemma at_time_None: "at_time xs t = None \<longleftrightarrow> t \<notin> set (times xs)"
  by (auto simp: at_time_def find_None_iff)

lemma in_times_iff: "t \<in> set (times xs) \<longleftrightarrow> at_time xs t \<noteq> None"
  by (simp add: at_time_None)

lemma at_time_append:
  "at_time (xs @ ys) t = (case at_time xs t of Some s \<Rightarrow> Some s | None \<Rightarrow> at_time ys t)"
  by (induction xs) (auto simp: at_time_Cons)

lemma at_time_merge_ref:
  "sorted (times xs) \<Longrightarrow> sorted (times ys) \<Longrightarrow>
     at_time (merge_ref xs ys) t =
       (case at_time xs t of Some s \<Rightarrow> Some s | None \<Rightarrow> at_time ys t)"
proof (induction xs ys rule: merge_ref.induct)
  case (1 x xs y ys)
  show ?case
  proof (cases "Timestamp x \<le> Timestamp y")
    case False
    then have "\<forall>z \<in> set (x # xs). Timestamp y < Timestamp z"
      using 1(3) by auto
    then have "Timestamp y = t \<Longrightarrow> at_time (x # xs) t = None"
      unfolding at_time_None by (metis imageE less_irrefl list.set_map)
    with False 1 show ?thesis by (auto simp: at_time_Cons split: option.split)
  qed (use 1 in \<open>auto simp: at_time_Cons split: option.split\<close>)
qed (auto split: option.split)

text \<open>Appending with \<open>push\<close> what is sorted leaves each timestamp's first sample.\<close>

lemma at_time_push: "at_time (push out y @ ys) t = at_time (out @ y # ys) t"
proof (cases "out \<noteq> [] \<and> Timestamp (last out) = Timestamp y")
  case True
  then have "at_time out (Timestamp y) \<noteq> None"
    unfolding at_time_None by (metis imageI last_in_set list.set_map)
  with True show ?thesis
    by (auto simp: push_def at_time_append at_time_Cons split: option.split)
qed (auto simp: push_def at_time_append at_time_Cons split: option.split)

lemma push_all:
  assumes "sorted (times ys)" "sorted_wrt (<) (times out)"
    and "out \<noteq> [] \<Longrightarrow> \<forall>y \<in> set ys. Timestamp (last out) \<le> Timestamp y"
  shows "sorted_wrt (<) (times (foldl push out ys)) \<and>
    at_time (foldl push out ys) t = at_time (out @ ys) t"
  using assms
proof (induction ys arbitrary: out)
  case (Cons y ys)
  have last: "Timestamp z \<le> Timestamp (last out)" if "z \<in> set out" for z
    using that Cons.prems(2)
    by (induction out) (auto simp: less_imp_le split: if_splits)
  have 1: "sorted_wrt (<) (times (push out y))"
    using Cons.prems last by (fastforce simp: push_def sorted_wrt_append)
  have 2: "push out y \<noteq> [] \<and> Timestamp (last (push out y)) = Timestamp y"
    by (simp add: push_def)
  have 3: "at_time (push out y @ ys) t = at_time (out @ y # ys) t"
    by (rule at_time_push)
  show ?case
    using Cons.IH [OF _ 1] Cons.prems(1) 2 3 by auto
qed (simp add: at_time_append split: option.split)

lemma merge_at_time:
  assumes "sorted (times (Samples a))" "sorted (times (Samples b))"
  shows "at_time (Samples (MergeSortedTimeSeries a b)) t =
    (case at_time (Samples a) t of Some s \<Rightarrow> Some s | None \<Rightarrow> at_time (Samples b) t)"
  using push_all [OF sorted_merge_ref [OF assms], of "[]" t]
  by (simp add: Samples_MergeSorted at_time_merge_ref [OF assms])

lemma merge_strict:
  assumes "sorted (times (Samples a))" "sorted (times (Samples b))"
  shows "sorted_wrt (<) (times (Samples (MergeSortedTimeSeries a b)))"
  using push_all [OF sorted_merge_ref [OF assms], of "[]"] by (simp add: Samples_MergeSorted)

lemma merge_times:
  assumes "sorted (times (Samples a))" "sorted (times (Samples b))"
  shows "set (times (Samples (MergeSortedTimeSeries a b))) =
    set (times (Samples a)) \<union> set (times (Samples b))"
proof -
  have "t \<in> set (times (Samples (MergeSortedTimeSeries a b))) \<longleftrightarrow>
      t \<in> set (times (Samples a)) \<union> set (times (Samples b))" for t
    unfolding in_times_iff Un_iff merge_at_time [OF assms, of t]
    by (simp split: option.split)
  then show ?thesis by blast
qed

lemma merge_labels [simp]: "Labels (MergeSortedTimeSeries a b) = Labels a"
  by (simp add: MergeSortedTimeSeries_def Let_def split: prod.split)

lemma sort_times: "asc_sort srt \<Longrightarrow> set (times (srt xs)) = set (times xs)"
  by (simp add: asc_sort_def)

lemma sort_sorted: "asc_sort srt \<Longrightarrow> sorted (times (srt xs))"
  by (simp add: asc_sort_def)

text \<open>
  MergeSortedTimeSeries on two series sorted by timestamp gives a series whose timestamps
  strictly increase, are those of the two inputs together, and whose value at a timestamp is
  the first series' where it has one and the second's elsewhere; the labels are the first's.
\<close>

theorem merge_correct:
  assumes "sorted (times (Samples a))" "sorted (times (Samples b))"
  shows "sorted_wrt (<) (times (Samples (MergeSortedTimeSeries a b))) \<and>
    set (times (Samples (MergeSortedTimeSeries a b))) =
      set (times (Samples a)) \<union> set (times (Samples b)) \<and>
    (\<forall>t. at_time (Samples (MergeSortedTimeSeries a b)) t =
      (case at_time (Samples a) t of Some s \<Rightarrow> Some s | None \<Rightarrow> at_time (Samples b) t)) \<and>
    Labels (MergeSortedTimeSeries a b) = Labels a"
  using merge_strict [OF assms] merge_times [OF assms] merge_at_time [OF assms] by simp

definition example_series :: "int list \<Rightarrow> float64 \<Rightarrow> time_series" where
  "example_series ts v =
     \<lparr>Labels = [], Samples = map (\<lambda>t. \<lparr>Timestamp = t, SValue = v\<rparr>) ts\<rparr>"

theorem merge_correct_witness:
  "times (Samples (MergeSortedTimeSeries (example_series [1, 2, 4] 0) (example_series [2, 3] 1)))
     = [1, 2, 3, 4] \<and>
   set (times (Samples (MergeSortedTimeSeries (example_series [1, 2, 4] 0)
     (example_series [2, 3] 1)))) = {1, 2, 4} \<union> {2, 3}"
  using merge_correct [of "example_series [1, 2, 4] 0" "example_series [2, 3] 1"]
  by (simp add: example_series_def MergeSortedTimeSeries_def push_def)

end
