(* ===== verification/Prom_Query.thy ===== *)
theory Prom_Query
  imports Time_Series
begin

text \<open>
  \<open>pkg/datasource-providers/prom/ctx.go\<close>: range queries against Prometheus. A range with too
  many points is cut into windows, each window is queried in its own goroutine, the answers are
  converted into time series keyed by metric, and series of one metric are merged. Instants are
  in nanoseconds; \<open>time.Duration\<close> is an \<open>int64\<close>. The HTTP API is a parameter (the two fields of
  the context), as are the library's \<open>SortSampleAsc\<close> and \<open>Metric.String\<close>. The order in which
  the goroutines' answers arrive is an argument.
\<close>

section \<open>Windows\<close>

record prom_range =
  Start :: int
  End :: int
  Step :: int

datatype prom_error =
    ApiError string
  | AssertFailed string
  | ScalarUnsupported
  | StringUnsupported
  | ValueTypeNone
  | UnknownValueType string
  | ShardErrors "prom_error list"
  | PanicDivideByZero

text \<open>
  The counting loop of \<open>ComputeWindowShards\<close>: it does not end when the start is not after the
  end and the step does not advance.
\<close>

partial_function (option) count_points :: "int \<Rightarrow> int \<Rightarrow> int \<Rightarrow> int \<Rightarrow> int option" where
  [code]: "count_points start en step n =
     (if start < en \<or> start = en then count_points (start + step) en step (n + 1) else Some n)"

fun shard_loop :: "nat \<Rightarrow> prom_range \<Rightarrow> int \<Rightarrow> int \<Rightarrow> int \<Rightarrow> prom_range list" where
  "shard_loop 0 w mx s e = []"
| "shard_loop (Suc i) w mx s e =
     (let width = int64 (int64 (mx - 1) * Step w);
          e = e + width;
          e = (if End w < e then End w else e)
      in \<lparr>Start = s, End = e, Step = Step w\<rparr> # shard_loop i w mx e e)"

definition shards_num :: "int \<Rightarrow> int \<Rightarrow> int" where
  "shards_num points mx =
     (if 0 < go_mod points mx then go_div points mx + 1 else go_div points mx)"

definition ComputeWindowShards ::
    "prom_range \<Rightarrow> int \<Rightarrow> (prom_error + prom_range list) option" where
  "ComputeWindowShards w mx = map_option (\<lambda>points.
     if mx = 0 then Inl PanicDivideByZero
     else Inr (shard_loop (nat (shards_num points mx)) w mx (Start w) (Start w)))
     (count_points (Start w) (End w) (Step w) 0)"

text \<open>\<open>CheckMaxLimit\<close> counts the same points without the last bound.\<close>

partial_function (option) count_before :: "int \<Rightarrow> int \<Rightarrow> int \<Rightarrow> int \<Rightarrow> int option" where
  [code]: "count_before start en step n =
     (if start < en then count_before (start + step) en step (n + 1) else Some n)"

definition CheckMaxLimit :: "prom_range \<Rightarrow> bool option" where
  "CheckMaxLimit w = map_option (\<lambda>n. 11000 < n) (count_before (Start w) (End w) (Step w) 0)"

section \<open>The counting loop\<close>

lemma count_points_stop: "en < s \<Longrightarrow> count_points s en d n = Some n"
  by (subst count_points.simps) auto

lemma count_points_some:
  assumes "0 < d"
  shows "count_points s en d n = Some (n + (if s \<le> en then (en - s) div d + 1 else 0))"
proof (induction "nat (en - s + d)" arbitrary: s n rule: less_induct)
  case less
  show ?case
  proof (cases "s \<le> en")
    case True
    have "count_points (s + d) en d (n + 1) =
        Some (n + 1 + (if s + d \<le> en then (en - (s + d)) div d + 1 else 0))"
      using less [of "s + d" "n + 1"] True assms by simp
    moreover have "(en - (s + d)) div d = (en - s) div d - 1"
      using div_add_self2 [of d "en - (s + d)"] assms by (simp add: algebra_simps)
    moreover have "\<not> s + d \<le> en \<Longrightarrow> (en - s) div d = 0"
      using True by (simp add: div_pos_pos_trivial)
    ultimately show ?thesis
      using True by (subst count_points.simps) auto
  next
    case False
    then show ?thesis by (simp add: count_points_stop)
  qed
qed

lemma count_points_sound:
  "count_points s en d n = Some k \<Longrightarrow> en < s \<or> 0 < d"
  by (rule count_points.raw_induct [of "\<lambda>s en d n k. en < s \<or> 0 < d"])
     (auto split: if_splits, fastforce+)

lemma count_points_None_iff: "count_points s en d n = None \<longleftrightarrow> s \<le> en \<and> d \<le> 0"
proof
  assume "count_points s en d n = None"
  then show "s \<le> en \<and> d \<le> 0"
    using count_points_some [of d s en n] count_points_stop [of en s d n] by force
next
  assume "s \<le> en \<and> d \<le> 0"
  then show "count_points s en d n = None"
    using count_points_sound [of s en d n] by (cases "count_points s en d n") auto
qed

section \<open>Closed form of the windows\<close>

text \<open>The points of a range: what a range query evaluates the query at.\<close>

definition points :: "prom_range \<Rightarrow> int set" where
  "points w = {t. Start w \<le> t \<and> t \<le> End w \<and> (t - Start w) mod Step w = 0}"

definition point_count :: "prom_range \<Rightarrow> int" where
  "point_count w = (if Start w \<le> End w then (End w - Start w) div Step w + 1 else 0)"

text \<open>A range and a limit on which no \<open>int64\<close> product wraps.\<close>

definition sane :: "prom_range \<Rightarrow> int \<Rightarrow> bool" where
  "sane w mx \<longleftrightarrow> 0 < Step w \<and> 1 \<le> mx \<and> mx < 2^63 \<and> (mx - 1) * Step w < 2^63"

definition window :: "prom_range \<Rightarrow> int \<Rightarrow> int \<Rightarrow> prom_range" where
  "window w mx i =
     (let width = (mx - 1) * Step w
      in \<lparr>Start = min (End w) (Start w + i * width),
          End = min (End w) (Start w + (i + 1) * width), Step = Step w\<rparr>)"

lemma sane_width_nonneg: "sane w mx \<Longrightarrow> 0 \<le> (mx - 1) * Step w"
  by (simp add: sane_def)

lemma sane_width:
  assumes "sane w mx" shows "int64 (int64 (mx - 1) * Step w) = (mx - 1) * Step w"
proof -
  have "int64 (mx - 1) = mx - 1"
    using assms by (intro int64_id) (simp_all add: sane_def)
  moreover have "int64 ((mx - 1) * Step w) = (mx - 1) * Step w"
    using sane_width_nonneg [OF assms] assms by (intro int64_id) (simp_all only: sane_def, linarith)
  ultimately show ?thesis by simp
qed

lemma next_end:
  assumes "sane w mx"
  shows "(if End w < Start (window w mx i) + (mx - 1) * Step w then End w
          else Start (window w mx i) + (mx - 1) * Step w) = End (window w mx i)"
proof -
  define d where "d = (mx - 1) * Step w"
  have "0 \<le> d" unfolding d_def by (rule sane_width_nonneg [OF assms])
  moreover have "(i + 1) * d = i * d + d" by (simp add: distrib_right)
  ultimately show ?thesis
    unfolding window_def Let_def d_def [symmetric] by auto
qed

lemma window_chain: "End (window w mx i) = Start (window w mx (i + 1))"
  by (simp add: window_def Let_def)

lemma window_eta:
  "\<lparr>Start = Start (window w mx i), End = Start (window w mx (i + 1)), Step = Step w\<rparr>
    = window w mx i"
  by (simp add: window_def Let_def)

lemma shard_loop_closed:
  assumes "sane w mx"
  shows "shard_loop n w mx (Start (window w mx i)) (Start (window w mx i)) =
    map (\<lambda>k. window w mx (i + int k)) [0..<n]"
proof (induction n arbitrary: i)
  case (Suc n)
  have "shard_loop (Suc n) w mx (Start (window w mx i)) (Start (window w mx i)) =
    window w mx i # shard_loop n w mx (Start (window w mx (i + 1))) (Start (window w mx (i + 1)))"
    by (simp only: shard_loop.simps sane_width [OF assms] Let_def next_end [OF assms] window_eta
        window_chain)
  then show ?case
    by (simp add: Suc map_upt_Suc algebra_simps del: upt_Suc shard_loop.simps)
qed simp

lemma ComputeWindowShards_closed:
  assumes "sane w mx" "Start w \<le> End w"
  shows "ComputeWindowShards w mx =
    Some (Inr (map (\<lambda>k. window w mx (int k)) [0..<nat (shards_num (point_count w) mx)]))"
  using assms shard_loop_closed [OF assms(1), of _ 0]
  by (simp add: ComputeWindowShards_def count_points_some sane_def point_count_def
      window_def [of w mx 0])

lemma shards_num_ceil:
  assumes "0 < mx" "0 < p"
  shows "0 < shards_num p mx" "p \<le> shards_num p mx * mx" "(shards_num p mx - 1) * mx < p"
proof -
  define q where "q = p div mx"
  define r where "r = p mod mx"
  have p: "p = q * mx + r" and r: "0 \<le> r" "r < mx"
    using assms by (simp_all add: q_def r_def)
  have s: "shards_num p mx = (if 0 < r then q + 1 else q)"
    using assms by (simp add: shards_num_def go_mod_nonneg go_div_nonneg q_def r_def)
  show a: "p \<le> shards_num p mx * mx"
    unfolding s using p r by (auto simp: distrib_right)
  show "(shards_num p mx - 1) * mx < p"
    unfolding s using p r assms(1) by (auto simp: left_diff_distrib distrib_right)
  show "0 < shards_num p mx"
    using a assms zero_less_mult_pos2 [of "shards_num p mx" mx] by linarith
qed

section \<open>Which points the windows cover\<close>

lemma point_count_pos: "0 < Step w \<Longrightarrow> Start w \<le> End w \<Longrightarrow> 0 < point_count w"
  by (simp add: point_count_def pos_imp_zdiv_nonneg_iff add_strict_increasing2)

lemma point_count_bound:
  assumes "0 < Step w" "Start w \<le> End w"
  shows "Start w + (point_count w - 1) * Step w \<le> End w"
proof -
  have "(End w - Start w) div Step w * Step w \<le> End w - Start w"
    using assms(1) by (metis mult.commute pos_mod_sign mod_mult_div_eq le_add_same_cancel2)
  then show ?thesis using assms by (simp add: point_count_def)
qed

lemma window_start:
  assumes "sane w mx" "Start w \<le> End w" "0 \<le> k" "k < shards_num (point_count w) mx"
  shows "Start (window w mx k) = Start w + k * ((mx - 1) * Step w)"
proof -
  have mx: "0 < mx" "0 < Step w" using assms(1) by (simp_all add: sane_def)
  note p = point_count_pos [OF mx(2) assms(2)]
  have "k * mx \<le> (shards_num (point_count w) mx - 1) * mx"
    using assms(4) mx by (intro mult_right_mono) auto
  also have "\<dots> < point_count w" by (rule shards_num_ceil(3) [OF mx(1) p])
  finally have "k * (mx - 1) \<le> point_count w - 1"
    using assms(3) by (simp add: right_diff_distrib)
  then have "k * (mx - 1) * Step w \<le> (point_count w - 1) * Step w"
    using mx by (intro mult_right_mono) auto
  with point_count_bound [OF mx(2) assms(2)] show ?thesis
    by (simp add: window_def Let_def mult.assoc)
qed

lemma chain_cover:
  fixes t :: int
  assumes "s \<le> t" "t \<le> s + int n * d" "0 < n"
  shows "\<exists>k < n. s + int k * d \<le> t \<and> t \<le> s + (int k + 1) * d"
  using assms(2, 3)
proof (induction n)
  case (Suc n)
  show ?case
  proof (cases "t \<le> s + int n * d \<and> 0 < n")
    case True
    with Suc.IH show ?thesis using less_SucI by blast
  next
    case False
    with Suc assms(1) have "s + int n * d \<le> t \<and> t \<le> s + (int n + 1) * d"
      by (auto simp: distrib_right)
    then show ?thesis by blast
  qed
qed simp

lemma points_window:
  assumes "Start (window w mx k) = Start w + k * ((mx - 1) * Step w)"
    and "0 \<le> k * ((mx - 1) * Step w)"
  shows "points (window w mx k) =
    {t \<in> points w. Start w + k * ((mx - 1) * Step w) \<le> t \<and>
                   t \<le> Start w + (k + 1) * ((mx - 1) * Step w)}"
proof -
  have "(t - (Start w + k * ((mx - 1) * Step w))) mod Step w = (t - Start w) mod Step w" for t
    using mod_mult_self1 [of "t - Start w" "- (k * (mx - 1))" "Step w"]
    by (simp add: algebra_simps)
  moreover have "End (window w mx k) = min (End w) (Start w + (k + 1) * ((mx - 1) * Step w))"
    and "Step (window w mx k) = Step w"
    by (simp_all add: window_def Let_def)
  ultimately show ?thesis
    using assms(2) unfolding points_def assms(1) by auto
qed

lemma windows_cover:
  assumes "sane w mx" "Start w \<le> End w" and n: "n = nat (shards_num (point_count w) mx)"
  shows "(\<Union>k<n. points (window w mx (int k))) =
    {t \<in> points w. t \<le> Start w + int n * ((mx - 1) * Step w)}"
proof -
  define d where "d = (mx - 1) * Step w"
  have d: "0 \<le> d" unfolding d_def by (rule sane_width_nonneg [OF assms(1)])
  have mx: "0 < mx" "0 < Step w" using assms(1) by (simp_all add: sane_def)
  have "0 < n"
    unfolding n using shards_num_ceil(1) [OF mx(1) point_count_pos [OF mx(2) assms(2)]] by simp
  have P: "points (window w mx (int k)) =
      {t \<in> points w. Start w + int k * d \<le> t \<and> t \<le> Start w + (int k + 1) * d}" if "k < n" for k
    unfolding d_def using that n sane_width_nonneg [OF assms(1)]
    by (intro points_window window_start [OF assms(1, 2)]) auto
  have up: "(int k + 1) * d \<le> int n * d" if "k < n" for k
    using that d by (intro mult_right_mono) auto
  show ?thesis
    unfolding d_def [symmetric]
  proof (intro set_eqI iffI)
    fix t assume "t \<in> (\<Union>k<n. points (window w mx (int k)))"
    then obtain k where "k < n" "t \<in> points w" "t \<le> Start w + (int k + 1) * d"
      using P by auto
    with up [of k] show "t \<in> {t \<in> points w. t \<le> Start w + int n * d}" by auto
  next
    fix t assume t: "t \<in> {t \<in> points w. t \<le> Start w + int n * d}"
    then have "Start w \<le> t" by (simp add: points_def)
    with t \<open>0 < n\<close> chain_cover [of "Start w" t n d] obtain k
      where "k < n" "Start w + int k * d \<le> t" "t \<le> Start w + (int k + 1) * d" by auto
    with t P show "t \<in> (\<Union>k<n. points (window w mx (int k)))" by blast
  qed
qed

lemma window_span:
  assumes "sane w mx"
  shows "Start (window w mx k) \<le> End (window w mx k)"
    "End (window w mx k) - Start (window w mx k) \<le> (mx - 1) * Step w"
    "End (window w mx k) \<le> End w"
    "0 \<le> k \<Longrightarrow> Start w \<le> End w \<Longrightarrow> Start w \<le> Start (window w mx k)"
proof -
  define d where "d = (mx - 1) * Step w"
  have d: "0 \<le> d" unfolding d_def by (rule sane_width_nonneg [OF assms])
  have k: "(k + 1) * d = k * d + d" by (simp add: distrib_right)
  show "Start (window w mx k) \<le> End (window w mx k)"
    "End (window w mx k) - Start (window w mx k) \<le> (mx - 1) * Step w"
    "End (window w mx k) \<le> End w"
    using d k unfolding window_def Let_def d_def [symmetric] by auto
  show "0 \<le> k \<Longrightarrow> Start w \<le> End w \<Longrightarrow> Start w \<le> Start (window w mx k)"
    using d unfolding window_def Let_def d_def [symmetric] by simp
qed

lemma windows_union:
  assumes "sane w mx" "Start w \<le> End w" "ComputeWindowShards w mx = Some (Inr ws)"
  shows "(\<Union>s \<in> set ws. points s) =
    {t \<in> points w. t \<le> Start w + int (length ws) * ((mx - 1) * Step w)}"
proof -
  define n where "n = nat (shards_num (point_count w) mx)"
  have ws: "ws = map (\<lambda>k. window w mx (int k)) [0..<n]"
    using assms(3) ComputeWindowShards_closed [OF assms(1, 2)] by (simp add: n_def)
  have "(\<Union>s \<in> set ws. points s) = (\<Union>k<n. points (window w mx (int k)))"
    by (simp add: ws atLeast0LessThan)
  also have "\<dots> = {t \<in> points w. t \<le> Start w + int n * ((mx - 1) * Step w)}"
    by (rule windows_cover [OF assms(1, 2) n_def])
  finally show ?thesis by (simp add: ws)
qed

text \<open>
  ComputeWindowShards returns exactly when its counting loop ends: it never returns when
  the range is not empty and the step is not positive.
\<close>

theorem ComputeWindowShards_returns:
  "ComputeWindowShards w mx = None \<longleftrightarrow> Start w \<le> End w \<and> Step w \<le> 0"
  by (simp add: ComputeWindowShards_def count_points_None_iff)

text \<open>
  C8. On a non-empty range with a positive step and limit, the windows number the points divided
  by the limit, rounded up; the first starts where the range starts, each starts where the one
  before it ends, each lies in the range and none spans more points than the limit.
\<close>

theorem ComputeWindowShards_windows:
  assumes "sane w mx" "Start w \<le> End w"
  shows "\<exists>ws. ComputeWindowShards w mx = Some (Inr ws) \<and>
    point_count w \<le> int (length ws) * mx \<and> (int (length ws) - 1) * mx < point_count w \<and>
    (\<forall>i. i < length ws \<longrightarrow>
      Start (ws ! i) = (if i = 0 then Start w else End (ws ! (i - 1))) \<and>
      Start w \<le> Start (ws ! i) \<and> Start (ws ! i) \<le> End (ws ! i) \<and> End (ws ! i) \<le> End w \<and>
      End (ws ! i) - Start (ws ! i) \<le> (mx - 1) * Step w \<and> Step (ws ! i) = Step w)"
proof -
  define n where "n = nat (shards_num (point_count w) mx)"
  have mx: "0 < mx" "0 < Step w" using assms(1) by (simp_all add: sane_def)
  note c = shards_num_ceil [OF mx(1) point_count_pos [OF mx(2) assms(2)]]
  have first: "Start (window w mx 0) = Start w"
    using assms(2) by (simp add: window_def)
  have prev: "Start (window w mx (int i)) = End (window w mx (int (i - 1)))" if "0 < i" for i
    using window_chain [of w mx "int (i - 1)"] that by (simp add: of_nat_diff)
  show ?thesis
  proof (intro exI conjI allI impI)
    show "ComputeWindowShards w mx = Some (Inr (map (\<lambda>k. window w mx (int k)) [0..<n]))"
      unfolding n_def by (rule ComputeWindowShards_closed [OF assms])
  qed (use c first prev window_span [OF assms(1)] assms(2) in
      \<open>auto simp: n_def window_def [of w mx] Let_def split: if_splits\<close>)
qed

text \<open>
  C9. The points that the windows cover between them are the points of the range up to the end
  of the last window: the start plus, for every window, the limit less one steps.
\<close>

theorem ComputeWindowShards_points:
  assumes "sane w mx" "Start w \<le> End w" "ComputeWindowShards w mx = Some (Inr ws)"
  shows "(\<Union>s \<in> set ws. points s) =
    {t \<in> points w. t \<le> Start w + int (length ws) * ((mx - 1) * Step w)}"
  by (rule windows_union [OF assms])

text \<open>
  Because neighbouring windows share a point, the number of windows computed from the points
  and the limit is too small: when the points fill two or more windows exactly, the last point
  of the range is in none of them and is never queried.
\<close>

theorem ComputeWindowShards_loses_last_point:
  assumes "sane w mx" "Start w \<le> End w" "point_count w = q * mx" "2 \<le> q"
    and "ComputeWindowShards w mx = Some (Inr ws)"
  shows "\<exists>t \<in> points w. \<forall>s \<in> set ws. t \<notin> points s"
proof -
  have mx: "0 < mx" "0 < Step w" using assms(1) by (simp_all add: sane_def)
  have ws: "ws = map (\<lambda>k. window w mx (int k)) [0..<nat (shards_num (q * mx) mx)]"
    using assms(5) ComputeWindowShards_closed [OF assms(1, 2)] assms(3) by simp
  have "shards_num (q * mx) mx = q"
    using mx assms(4) by (simp add: shards_num_def go_mod_nonneg go_div_nonneg)
  with ws assms(4) have len: "int (length ws) = q" by simp
  define t where "t = Start w + (q * mx - 1) * Step w"
  have "1 \<le> q * mx" using mx assms(4) by (metis int_one_le_iff_zero_less mult_pos_pos order_less_le_trans zero_less_numeral)
  then have "0 \<le> (q * mx - 1) * Step w" using mx by simp
  then have t: "t \<in> points w"
    using point_count_bound [OF mx(2) assms(2)] assms(3) by (simp add: points_def t_def)
  have "(q * mx - q) * Step w < (q * mx - 1) * Step w"
    using mx assms(4) by (intro mult_strict_right_mono) auto
  then have "\<not> t \<le> Start w + q * ((mx - 1) * Step w)"
    by (simp add: t_def right_diff_distrib mult.assoc [symmetric])
  then have "t \<notin> (\<Union>s \<in> set ws. points s)"
    unfolding windows_union [OF assms(1, 2, 5)] len by simp
  with t show ?thesis by blast
qed

definition example_range :: prom_range where
  "example_range = \<lparr>Start = 0, End = 30, Step = 10\<rparr>"

lemma example_range_facts:
  "sane example_range 2" "Start example_range \<le> End example_range"
  "point_count example_range = 2 * 2"
  "ComputeWindowShards example_range 2 =
     Some (Inr [\<lparr>Start = 0, End = 10, Step = 10\<rparr>, \<lparr>Start = 10, End = 20, Step = 10\<rparr>])"
  by (simp_all add: sane_def example_range_def point_count_def ComputeWindowShards_closed
      shards_num_def go_mod_def go_div_def window_def upt_rec numeral_2_eq_2)

theorem ComputeWindowShards_windows_witness:
  "\<exists>ws. ComputeWindowShards example_range 2 = Some (Inr ws) \<and> 4 \<le> int (length ws) * 2"
  using ComputeWindowShards_windows [OF example_range_facts(1, 2)] example_range_facts(3) by auto

theorem ComputeWindowShards_points_witness:
  "points \<lparr>Start = 0, End = 10, Step = 10\<rparr> \<union> points \<lparr>Start = 10, End = 20, Step = 10\<rparr> =
     {t \<in> points example_range. t \<le> 20}"
  using ComputeWindowShards_points [OF example_range_facts(1, 2, 4)]
  by (simp add: example_range_def)

theorem ComputeWindowShards_loses_last_point_witness:
  "\<exists>t \<in> points example_range. t \<notin> points \<lparr>Start = 0, End = 10, Step = 10\<rparr> \<and>
     t \<notin> points \<lparr>Start = 10, End = 20, Step = 10\<rparr>"
  using ComputeWindowShards_loses_last_point [OF example_range_facts(1, 2, 3) _ example_range_facts(4)]
  by simp

section \<open>Converting the answers\<close>

text \<open>
  \<open>prommodel.Value\<close> is an interface: its \<open>Type()\<close> and its dynamic type are independent, and the
  code checks both. A nil element of a matrix or of a vector is \<open>None\<close>. Timestamps are in
  milliseconds.
\<close>

type_synonym metric = "(string, string) gomap"

record sample_stream =
  StreamMetric :: metric
  StreamValues :: "(int \<times> float64) list"

record prom_sample =
  SampleMetric :: metric
  SampleTimestamp :: int
  SampleValue :: float64

datatype value_type = ValNone | ValScalar | ValVector | ValMatrix | ValString | ValOther string

datatype dyn_value =
  Matrix "sample_stream option list" | Vector "prom_sample option list" | OtherValue

record prom_value =
  VType :: value_type
  VDyn :: dyn_value

fun type_name :: "value_type \<Rightarrow> string" where
  "type_name ValNone = ''<ValNone>''"
| "type_name ValScalar = ''scalar''"
| "type_name ValVector = ''vector''"
| "type_name ValMatrix = ''matrix''"
| "type_name ValString = ''string''"
| "type_name (ValOther n) = n"

definition stream_series :: "sample_stream \<Rightarrow> time_series" where
  "stream_series st =
     \<lparr>Labels = map (\<lambda>(k, v). (k, v)) (StreamMetric st),
      Samples = map (\<lambda>(t, v). \<lparr>Timestamp = int64 (go_div t 1000), SValue = v\<rparr>) (StreamValues st)\<rparr>"

definition sample_series :: "prom_sample \<Rightarrow> time_series" where
  "sample_series sa =
     \<lparr>Labels = map (\<lambda>(k, v). (k, v)) (SampleMetric sa),
      Samples = [\<lparr>Timestamp = int64 (go_div (SampleTimestamp sa) 1000), SValue = SampleValue sa\<rparr>]\<rparr>"

fun matrix_series :: "sample_stream option list \<Rightarrow> time_series list" where
  "matrix_series [] = []"
| "matrix_series (None # xs) = matrix_series xs"
| "matrix_series (Some st # xs) = stream_series st # matrix_series xs"

fun vector_series :: "prom_sample option list \<Rightarrow> time_series list" where
  "vector_series [] = []"
| "vector_series (None # xs) = vector_series xs"
| "vector_series (Some sa # xs) = sample_series sa # vector_series xs"

definition convertPromResultsToTimeSeries :: "prom_value \<Rightarrow> prom_error + time_series list" where
  "convertPromResultsToTimeSeries v = (case VType v of
     ValMatrix \<Rightarrow> (case VDyn v of Matrix m \<Rightarrow> Inr (matrix_series m)
                   | _ \<Rightarrow> Inl (AssertFailed (type_name ValMatrix)))
   | ValVector \<Rightarrow> (case VDyn v of Vector m \<Rightarrow> Inr (vector_series m)
                   | _ \<Rightarrow> Inl (AssertFailed (type_name ValVector)))
   | ValScalar \<Rightarrow> Inl ScalarUnsupported
   | ValString \<Rightarrow> Inl StringUnsupported
   | ValNone \<Rightarrow> Inl ValueTypeNone
   | ValOther n \<Rightarrow> Inl (UnknownValueType n))"

type_synonym series_map = "(string, time_series) gomap"

text \<open>The same into a map keyed by the metric's string, \<open>mstr\<close>; a later stream replaces.\<close>

fun matrix_map ::
    "(metric \<Rightarrow> string) \<Rightarrow> sample_stream option list \<Rightarrow> series_map \<Rightarrow> series_map" where
  "matrix_map mstr [] m = m"
| "matrix_map mstr (None # xs) m = matrix_map mstr xs m"
| "matrix_map mstr (Some st # xs) m =
     matrix_map mstr xs (mput (mstr (StreamMetric st)) (stream_series st) m)"

fun vector_map ::
    "(metric \<Rightarrow> string) \<Rightarrow> prom_sample option list \<Rightarrow> series_map \<Rightarrow> series_map" where
  "vector_map mstr [] m = m"
| "vector_map mstr (None # xs) m = vector_map mstr xs m"
| "vector_map mstr (Some sa # xs) m =
     vector_map mstr xs (mput (mstr (SampleMetric sa)) (sample_series sa) m)"

definition convertPromResultsToTimeSeriesMap ::
    "(metric \<Rightarrow> string) \<Rightarrow> prom_value \<Rightarrow> prom_error + series_map" where
  "convertPromResultsToTimeSeriesMap mstr v = (case VType v of
     ValMatrix \<Rightarrow> (case VDyn v of Matrix m \<Rightarrow> Inr (matrix_map mstr m [])
                   | _ \<Rightarrow> Inl (AssertFailed (type_name ValMatrix)))
   | ValVector \<Rightarrow> (case VDyn v of Vector m \<Rightarrow> Inr (vector_map mstr m [])
                   | _ \<Rightarrow> Inl (AssertFailed (type_name ValVector)))
   | ValScalar \<Rightarrow> Inl ScalarUnsupported
   | ValString \<Rightarrow> Inl StringUnsupported
   | ValNone \<Rightarrow> Inl ValueTypeNone
   | ValOther n \<Rightarrow> Inl (UnknownValueType n))"

section \<open>Queries\<close>

record prom_context =
  QueryRange :: "string \<Rightarrow> prom_range \<Rightarrow> prom_error + prom_value"
  Query :: "string \<Rightarrow> int \<Rightarrow> prom_error + prom_value"
  maxPointsPerTimeSeries :: int

text \<open>
  The library functions the queries call: \<open>Metric.String\<close> and \<open>SortSampleAsc\<close>; and the order
  in which the answers of the goroutines are received from the channel.
\<close>

record prom_env =
  MetricString :: "metric \<Rightarrow> string"
  SortSamples :: "sample list \<Rightarrow> sample list"
  Arrival :: "(prom_error + series_map) list \<Rightarrow> (prom_error + series_map) list"

definition query_window ::
    "prom_env \<Rightarrow> prom_context \<Rightarrow> string \<Rightarrow> prom_range \<Rightarrow> prom_error + series_map" where
  "query_window env c q w = (case QueryRange c q w of
     Inl e \<Rightarrow> Inl e
   | Inr v \<Rightarrow> convertPromResultsToTimeSeriesMap (MetricString env) v)"

definition absorb_series ::
    "(sample list \<Rightarrow> sample list) \<Rightarrow> series_map \<Rightarrow> string \<times> time_series \<Rightarrow> series_map" where
  "absorb_series srt m kv = (case kv of (k, ts2) \<Rightarrow>
     (case mget m k of
        Some ts1 \<Rightarrow> mput k (MergeSortedTimeSeries (SortSampleAsc srt ts1) (SortSampleAsc srt ts2)) m
      | None \<Rightarrow> mput k ts2 m))"

fun collect ::
    "(sample list \<Rightarrow> sample list) \<Rightarrow> (prom_error + series_map) list \<Rightarrow>
     prom_error list \<times> series_map \<Rightarrow> prom_error list \<times> series_map" where
  "collect srt [] (errs, m) = (errs, m)"
| "collect srt (Inl e # rs) (errs, m) = collect srt rs (errs @ [e], m)"
| "collect srt (Inr d # rs) (errs, m) = collect srt rs (errs, foldl (absorb_series srt) m d)"

text \<open>A Go function that returns results beside an error: the error is \<open>None\<close> for nil.\<close>

definition queryByShards ::
    "prom_env \<Rightarrow> prom_context \<Rightarrow> string \<Rightarrow> prom_range list \<Rightarrow> time_series list \<times> prom_error option" where
  "queryByShards env c q ws =
     (let (errs, m) = collect (SortSamples env) (Arrival env (map (query_window env c q) ws)) ([], []);
          results = map snd m
      in if errs \<noteq> [] then (results, Some (ShardErrors errs)) else (results, None))"

definition QueryRangeSync ::
    "prom_env \<Rightarrow> prom_context \<Rightarrow> string \<Rightarrow> int \<Rightarrow> int \<Rightarrow> int \<Rightarrow>
     (time_series list \<times> prom_error option) option" where
  "QueryRangeSync env c q start en step =
     (let r = \<lparr>Start = start, End = en, Step = step\<rparr>
      in case ComputeWindowShards r (maxPointsPerTimeSeries c) of
           None \<Rightarrow> None
         | Some (Inl p) \<Rightarrow> Some ([], Some p)
         | Some (Inr ws) \<Rightarrow> Some (
             if length ws \<le> 1 then
               (case QueryRange c q r of
                  Inl e \<Rightarrow> ([], Some e)
                | Inr v \<Rightarrow> (case convertPromResultsToTimeSeries v of
                    Inl e \<Rightarrow> ([], Some e) | Inr ts \<Rightarrow> (ts, None)))
             else queryByShards env c q ws))"

definition QuerySync ::
    "prom_context \<Rightarrow> string \<Rightarrow> int \<Rightarrow> time_series list \<times> prom_error option" where
  "QuerySync c q now = (case Query c q now of
     Inl e \<Rightarrow> ([], Some e)
   | Inr v \<Rightarrow> (case convertPromResultsToTimeSeries v of
       Inl e \<Rightarrow> ([], Some e) | Inr ts \<Rightarrow> (ts, None)))"

section \<open>What the queries promise\<close>

definition key_times :: "series_map \<Rightarrow> string \<Rightarrow> int set" where
  "key_times m k = (case mget m k of None \<Rightarrow> {} | Some ts \<Rightarrow> set (times (Samples ts)))"

definition entry_times :: "series_map \<Rightarrow> string \<Rightarrow> int set" where
  "entry_times d k = (\<Union>(j, ts) \<in> set d. if j = k then set (times (Samples ts)) else {})"

lemma absorb_times:
  assumes "asc_sort srt"
  shows "key_times (absorb_series srt m (j, ts)) k =
    key_times m k \<union> (if j = k then set (times (Samples ts)) else {})"
proof (cases "mget m j")
  case (Some ts1)
  have "set (times (Samples (MergeSortedTimeSeries (SortSampleAsc srt ts1) (SortSampleAsc srt ts))))
      = set (times (Samples ts1)) \<union> set (times (Samples ts))"
    using merge_times [of "SortSampleAsc srt ts1" "SortSampleAsc srt ts"]
      sort_sorted [OF assms] sort_times [OF assms] by (simp add: SortSampleAsc_def)
  with Some show ?thesis by (auto simp: absorb_series_def key_times_def)
qed (auto simp: absorb_series_def key_times_def)

lemma absorb_all_times:
  "asc_sort srt \<Longrightarrow> key_times (foldl (absorb_series srt) m d) k = key_times m k \<union> entry_times d k"
proof (induction d arbitrary: m)
  case (Cons kv d)
  obtain j ts where "kv = (j, ts)" by fastforce
  with Cons show ?case by (simp add: absorb_times entry_times_def Un_assoc)
qed (simp add: entry_times_def)

fun errors_of :: "('e + 'd) list \<Rightarrow> 'e list" where
  "errors_of [] = []"
| "errors_of (Inl e # rs) = e # errors_of rs"
| "errors_of (Inr d # rs) = errors_of rs"

lemma errors_of_conv: "errors_of rs = map projl (filter isl rs)"
  by (induction rs rule: errors_of.induct) simp_all

lemma collect_errors: "fst (collect srt rs (errs, m)) = errs @ errors_of rs"
  by (induction srt rs "(errs, m)" arbitrary: errs m rule: collect.induct) simp_all

lemma collect_times:
  "asc_sort srt \<Longrightarrow> key_times (snd (collect srt rs (errs, m))) k =
     key_times m k \<union> (\<Union>d \<in> {d. Inr d \<in> set rs}. entry_times d k)"
proof (induction srt rs "(errs, m)" arbitrary: errs m rule: collect.induct)
  case (3 srt d rs errs m)
  have "{d'. Inr d' \<in> set (Inr d # rs)} = insert d {d'. Inr d' \<in> set rs}" by auto
  with 3 show ?case by (simp only: collect.simps absorb_all_times) auto
qed auto

text \<open>
  C36. The results of the windows, in whatever order they arrive, are collected into the errors
  of the windows that failed and, for every metric, a series with exactly the timestamps that
  the successful windows returned for it.
\<close>

theorem collect_correct:
  assumes "asc_sort srt" "collect srt rs ([], []) = (errs, m)"
  shows "errs = errors_of rs \<and>
    key_times m k = (\<Union>d \<in> {d. Inr d \<in> set rs}. entry_times d k)"
  using collect_errors [of srt rs "[]" "[]"] collect_times [OF assms(1), of rs "[]" "[]" k] assms(2)
  by (simp add: key_times_def [of "[]"])

lemma asc_sort_sort_key: "asc_sort (sort_key Timestamp)"
  by (simp add: asc_sort_def)

theorem collect_correct_witness:
  "key_times (snd (collect (sort_key Timestamp)
      [Inr [(''m'', example_series [3, 4] 0)], Inl ValueTypeNone, Inr [(''m'', example_series [1, 3] 0)]]
      ([], []))) ''m'' = {1, 3, 4}"
  using collect_correct [OF asc_sort_sort_key prod.collapse [symmetric], of
      "[Inr [(''m'', example_series [3, 4] 0)], Inl ValueTypeNone, Inr [(''m'', example_series [1, 3] 0)]]"
      "''m''"]
  by (auto simp: entry_times_def example_series_def)

text \<open>
  A sharded query answers without an error exactly when every window was queried and
  converted; otherwise its error carries the error of each failed window, and the series of the
  windows that succeeded are still returned beside it.
\<close>

theorem queryByShards_errors:
  assumes "\<And>rs. mset (Arrival env rs) = mset rs"
    and "queryByShards env c q ws = (results, err)"
  shows "(err = None \<longleftrightarrow> (\<forall>w \<in> set ws. \<not> fails (query_window env c q) w)) \<and>
    (\<forall>es. err = Some (ShardErrors es) \<longrightarrow>
       mset es = mset (errors_of (map (query_window env c q) ws)))"
proof -
  define rs where "rs = Arrival env (map (query_window env c q) ws)"
  have m: "mset rs = mset (map (query_window env c q) ws)"
    unfolding rs_def by (rule assms(1))
  then have e: "mset (errors_of rs) = mset (errors_of (map (query_window env c q) ws))"
    unfolding errors_of_conv mset_map mset_filter by simp
  have "errors_of (map f ws) = [] \<longleftrightarrow> (\<forall>w \<in> set ws. \<not> fails f w)" for f :: "prom_range \<Rightarrow> prom_error + series_map"
    by (induction ws) (auto simp: fails_def split: sum.splits)
  with e have nil: "errors_of rs = [] \<longleftrightarrow> (\<forall>w \<in> set ws. \<not> fails (query_window env c q) w)"
    by (metis mset_zero_iff)
  have "err = (if errors_of rs \<noteq> [] then Some (ShardErrors (errors_of rs)) else None)"
    using assms(2) collect_errors [of "SortSamples env" rs "[]" "[]"]
    by (auto simp: queryByShards_def Let_def rs_def split: prod.splits if_splits)
  with nil e show ?thesis by (auto split: if_splits)
qed

definition example_env :: prom_env where
  "example_env = \<lparr>MetricString = (\<lambda>m. join_with '','' (map fst m)),
     SortSamples = sort_key Timestamp, Arrival = rev\<rparr>"

definition example_context :: prom_context where
  "example_context = \<lparr>QueryRange = (\<lambda>q w. if Start w = 0 then Inl (ApiError ''timeout'')
       else Inr \<lparr>VType = ValScalar, VDyn = OtherValue\<rparr>),
     Query = (\<lambda>q t. Inl (ApiError ''down'')), maxPointsPerTimeSeries = 2\<rparr>"

theorem queryByShards_errors_witness:
  "queryByShards example_env example_context ''q''
     [\<lparr>Start = 0, End = 10, Step = 10\<rparr>, \<lparr>Start = 10, End = 20, Step = 10\<rparr>] =
     ([], Some (ShardErrors [ScalarUnsupported, ApiError ''timeout''])) \<and>
   mset [ScalarUnsupported, ApiError ''timeout''] = mset (errors_of (map (query_window example_env
     example_context ''q'') [\<lparr>Start = 0, End = 10, Step = 10\<rparr>, \<lparr>Start = 10, End = 20, Step = 10\<rparr>]))"
proof -
  have "queryByShards example_env example_context ''q''
     [\<lparr>Start = 0, End = 10, Step = 10\<rparr>, \<lparr>Start = 10, End = 20, Step = 10\<rparr>] =
     ([], Some (ShardErrors [ScalarUnsupported, ApiError ''timeout'']))"
    by (simp add: queryByShards_def example_env_def example_context_def query_window_def
        convertPromResultsToTimeSeriesMap_def)
  with queryByShards_errors [OF _ this] show ?thesis by (simp add: example_env_def)
qed

definition stream_keys :: "(metric \<Rightarrow> string) \<Rightarrow> dyn_value \<Rightarrow> string list" where
  "stream_keys mstr d = (case d of
     Matrix xs \<Rightarrow> map (mstr \<circ> StreamMetric) (List.map_filter (\<lambda>x. x) xs)
   | Vector xs \<Rightarrow> map (mstr \<circ> SampleMetric) (List.map_filter (\<lambda>x. x) xs)
   | OtherValue \<Rightarrow> [])"

lemma matrix_map_series:
  "distinct (map fst m @ stream_keys mstr (Matrix xs)) \<Longrightarrow>
     map snd (matrix_map mstr xs m) = map snd m @ matrix_series xs"
  by (induction mstr xs m rule: matrix_map.induct)
     (auto simp: mput_fresh stream_keys_def List.map_filter_simps)

lemma vector_map_series:
  "distinct (map fst m @ stream_keys mstr (Vector xs)) \<Longrightarrow>
     map snd (vector_map mstr xs m) = map snd m @ vector_series xs"
  by (induction mstr xs m rule: vector_map.induct)
     (auto simp: mput_fresh stream_keys_def List.map_filter_simps)

text \<open>
  The two conversions of a Prometheus value agree: they fail on the same values with the
  same error, and when no two streams share a metric string the map holds, in the same order,
  the series that the list holds.
\<close>

theorem conversions_agree:
  assumes "distinct (stream_keys mstr (VDyn v))"
  shows "convertPromResultsToTimeSeries v =
    (case convertPromResultsToTimeSeriesMap mstr v of Inl e \<Rightarrow> Inl e | Inr m \<Rightarrow> Inr (map snd m))"
  using assms matrix_map_series [of "[]" mstr] vector_map_series [of "[]" mstr]
  by (cases "VDyn v")
     (simp_all add: convertPromResultsToTimeSeries_def convertPromResultsToTimeSeriesMap_def
       split: value_type.split)

theorem conversions_agree_witness:
  "\<exists>ts. convertPromResultsToTimeSeries \<lparr>VType = ValVector, VDyn = Vector [None, Some
      \<lparr>SampleMetric = [(''a'', ''b'')], SampleTimestamp = 1999, SampleValue = 0\<rparr>]\<rparr> = Inr [ts] \<and>
    Samples ts = [\<lparr>Timestamp = 1, SValue = 0\<rparr>]"
  using conversions_agree [of "MetricString example_env" "\<lparr>VType = ValVector, VDyn = Vector [None,
      Some \<lparr>SampleMetric = [(''a'', ''b'')], SampleTimestamp = 1999, SampleValue = 0\<rparr>]\<rparr>"]
  by (simp add: convertPromResultsToTimeSeriesMap_def sample_series_def go_div_def int64_def
      stream_keys_def List.map_filter_simps)

end
