(* ===== verification/Registry.thy ===== *)
theory Registry
  imports Prelude
begin

text \<open>
  The interface of the program's registries (the two data source proxies, the query builder
  factories and the cloud providers): a \<open>put\<close> that may refuse, and a lookup that returns what
  was put last under the key.
\<close>

fun put_all :: "('k \<Rightarrow> 'v \<Rightarrow> 'm \<Rightarrow> 'm option) \<Rightarrow> ('k \<times> 'v) list \<Rightarrow> 'm \<Rightarrow> 'm option" where
  "put_all put [] m = Some m"
| "put_all put ((k, v) # kvs) m =
     (case put k v m of None \<Rightarrow> None | Some m' \<Rightarrow> put_all put kvs m')"

locale registry =
  fixes inv :: "'m \<Rightarrow> bool"
    and get :: "'m \<Rightarrow> 'k \<Rightarrow> 'v option"
    and put :: "'k \<Rightarrow> 'v \<Rightarrow> 'm \<Rightarrow> 'm option"
  assumes put_inv: "inv m \<Longrightarrow> put k v m = Some m' \<Longrightarrow> inv m'"
    and get_put: "inv m \<Longrightarrow> put k v m = Some m' \<Longrightarrow> get m' j = (if j = k then Some v else get m j)"
begin

lemma put_all_inv: "inv m \<Longrightarrow> put_all put kvs m = Some m' \<Longrightarrow> inv m'"
proof (induction kvs arbitrary: m)
  case (Cons kv kvs)
  then show ?case by (cases kv) (auto split: option.splits intro: Cons.IH [OF put_inv])
qed simp

lemma get_put_all:
  "inv m \<Longrightarrow> put_all put kvs m = Some m' \<Longrightarrow>
     get m' j = (case map_of (rev kvs) j of Some v \<Rightarrow> Some v | None \<Rightarrow> get m j)"
proof (induction kvs arbitrary: m)
  case (Cons kv kvs)
  obtain k v where kv: "kv = (k, v)" by fastforce
  from Cons.prems(2) obtain m1 where m1: "put k v m = Some m1" "put_all put kvs m1 = Some m'"
    by (auto simp: kv split: option.splits)
  from Cons.IH [OF put_inv [OF Cons.prems(1) m1(1)] m1(2)] get_put [OF Cons.prems(1) m1(1), of j]
  show ?case by (auto simp: kv map_add_def split: option.splits)
qed simp

lemma put_all_order:
  assumes "inv m" "put_all put kvs m = Some m1" "put_all put kvs' m = Some m2"
    and "distinct (map fst kvs)" "mset kvs = mset kvs'"
  shows "get m1 = get m2"
proof -
  have "mset (map fst kvs) = mset (map fst kvs')" using assms(5) by simp
  with assms(4) have d: "distinct (map fst kvs')" by (metis mset_eq_imp_distinct_iff)
  have s: "set kvs = set kvs'" using assms(5) by (rule mset_eq_setD)
  have "map_of (rev kvs) = map_of (rev kvs')"
  proof (rule ext)
    fix j
    have "distinct (map fst (rev kvs))" "distinct (map fst (rev kvs'))"
      unfolding rev_map [symmetric] distinct_rev by (rule assms(4), rule d)
    then have "map_of (rev kvs) j = Some v \<longleftrightarrow> map_of (rev kvs') j = Some v" for v
      by (simp only: map_of_eq_Some_iff set_rev s)
    then show "map_of (rev kvs) j = map_of (rev kvs') j"
      by (metis option.exhaust)
  qed
  then show ?thesis
    using get_put_all [OF assms(1, 2)] get_put_all [OF assms(1, 3)] by (simp add: fun_eq_iff)
qed

end

text \<open>A registry that entries can be removed from.\<close>

locale deletable_registry = registry +
  fixes del :: "'k \<Rightarrow> 'm \<Rightarrow> 'm"
  assumes del_inv: "inv m \<Longrightarrow> inv (del k m)"
    and get_del: "inv m \<Longrightarrow> get (del k m) j = (if j = k then None else get m j)"
begin

lemma del_put: "inv m \<Longrightarrow> get m k = None \<Longrightarrow> put k v m = Some m' \<Longrightarrow> get (del k m') = get m"
  using put_inv [of m k v m'] get_put [of m k v m'] get_del [of m' k] by (auto simp: fun_eq_iff)

end

end
