(* ===== verification/Metric_Query.thy ===== *)
theory Metric_Query
  imports Registry
begin

text \<open>
  What is asked of a data source: the metrics of \<open>pkg/metricquery/type.go\<close> with their checks and
  keys, the namers of \<open>pkg/metricnaming/naming.go\<close> that make them, and the registry of query
  builders of \<open>pkg/querybuilder/query.go\<close>. Label selectors are Kubernetes' own: a selector is a
  value of type \<open>'s\<close>, a requirement one of \<open>'r\<close>, and what the program calls on them are the fields
  of \<open>selector_ops\<close>. A nil selector is \<open>None\<close>.
\<close>

record ('s, 'r) selector_ops =
  SelString :: "'s \<Rightarrow> string"
  SelAdd :: "'s \<Rightarrow> 'r list \<Rightarrow> 's"
  SelRequirements :: "'s \<Rightarrow> 'r list \<times> bool"
  SelFromSet :: "(string, string) gomap \<Rightarrow> 's"
  SelExactMatch :: "'s \<Rightarrow> string \<Rightarrow> string option"

section \<open>Metrics\<close>

datatype metric_type = WorkloadMetricType | PodMetricType | ContainerMetricType | NodeMetricType |
  PromQLMetricType | OtherMetricType string

fun type_string :: "metric_type \<Rightarrow> string" where
  "type_string WorkloadMetricType = ''workload''"
| "type_string PodMetricType = ''pod''"
| "type_string ContainerMetricType = ''container''"
| "type_string NodeMetricType = ''node''"
| "type_string PromQLMetricType = ''promql''"
| "type_string (OtherMetricType s) = s"

record 's WorkloadNamerInfo =
  WNamespace :: string
  WKind :: string
  WName :: string
  WAPIVersion :: string
  WSelector :: "'s option"

record 's ContainerNamerInfo =
  CNamespace :: string
  CWorkloadName :: string
  CKind :: string
  CAPIVersion :: string
  CContainerName :: string
  CSelector :: "'s option"

record 's PodNamerInfo =
  PNamespace :: string
  PName :: string
  PSelector :: "'s option"

record 's NodeNamerInfo =
  NName :: string
  NSelector :: "'s option"

record 's PromNamerInfo =
  QueryExpr :: string
  QNamespace :: string
  QSelector :: "'s option"

record 's metric =
  Type :: metric_type
  MetricName :: string
  Workload :: "'s WorkloadNamerInfo option"
  Container :: "'s ContainerNamerInfo option"
  Pod :: "'s PodNamerInfo option"
  Node :: "'s NodeNamerInfo option"
  Prom :: "'s PromNamerInfo option"

datatype metric_error = MetricNil | NotMatch metric_type | WorkloadNoSelector | NotSupported metric_type |
  UnsupportedMetric metric_type string | UnsupportedKind metric_type string

definition ValidateMetric :: "'s metric option \<Rightarrow> metric_error option" where
  "ValidateMetric metric = (case metric of
     None \<Rightarrow> Some MetricNil
   | Some m \<Rightarrow> (case Type m of
       WorkloadMetricType \<Rightarrow> (case Workload m of
         None \<Rightarrow> Some (NotMatch WorkloadMetricType)
       | Some w \<Rightarrow> if WSelector w = None then Some WorkloadNoSelector else None)
     | ContainerMetricType \<Rightarrow> if Container m = None then Some (NotMatch ContainerMetricType) else None
     | PodMetricType \<Rightarrow> if Pod m = None then Some (NotMatch PodMetricType) else None
     | NodeMetricType \<Rightarrow> if Node m = None then Some (NotMatch NodeMetricType) else None
     | PromQLMetricType \<Rightarrow> if Prom m = None then Some (NotMatch PromQLMetricType) else None
     | OtherMetricType s \<Rightarrow> Some (NotSupported (OtherMetricType s))))"

section \<open>Keys\<close>

definition selector_string :: "('s, 'r) selector_ops \<Rightarrow> 's option \<Rightarrow> string" where
  "selector_string ops s = (case s of None \<Rightarrow> [] | Some x \<Rightarrow> SelString ops x)"

text \<open>What each key joins; the metric is one that \<open>ValidateMetric\<close> accepts.\<close>

definition keyByWorkload :: "('s, 'r) selector_ops \<Rightarrow> 's metric \<Rightarrow> 's WorkloadNamerInfo \<Rightarrow> string list" where
  "keyByWorkload ops m w = [type_string (Type m), to_lower (MetricName m), WKind w, WAPIVersion w,
     WNamespace w, WName w, selector_string ops (WSelector w)]"

definition keyByContainer :: "('s, 'r) selector_ops \<Rightarrow> 's metric \<Rightarrow> 's ContainerNamerInfo \<Rightarrow> string list" where
  "keyByContainer ops m c = [type_string (Type m), to_lower (MetricName m), CNamespace c,
     CWorkloadName c, CContainerName c, selector_string ops (CSelector c)]"

definition keyByPod :: "('s, 'r) selector_ops \<Rightarrow> 's metric \<Rightarrow> 's PodNamerInfo \<Rightarrow> string list" where
  "keyByPod ops m p = [type_string (Type m), to_lower (MetricName m), PNamespace p, PName p,
     selector_string ops (PSelector p)]"

definition keyByNode :: "('s, 'r) selector_ops \<Rightarrow> 's metric \<Rightarrow> 's NodeNamerInfo \<Rightarrow> string list" where
  "keyByNode ops m n = [type_string (Type m), to_lower (MetricName m), NName n,
     selector_string ops (NSelector n)]"

definition keyByPromQL :: "('s, 'r) selector_ops \<Rightarrow> 's metric \<Rightarrow> 's PromNamerInfo \<Rightarrow> string list" where
  "keyByPromQL ops m p = [type_string (Type m), QNamespace p, to_lower (MetricName m), QueryExpr p,
     selector_string ops (QSelector p)]"

definition key_parts :: "('s, 'r) selector_ops \<Rightarrow> 's metric \<Rightarrow> string list" where
  "key_parts ops m = (case Type m of
     WorkloadMetricType \<Rightarrow> keyByWorkload ops m (the (Workload m))
   | ContainerMetricType \<Rightarrow> keyByContainer ops m (the (Container m))
   | PodMetricType \<Rightarrow> keyByPod ops m (the (Pod m))
   | NodeMetricType \<Rightarrow> keyByNode ops m (the (Node m))
   | PromQLMetricType \<Rightarrow> keyByPromQL ops m (the (Prom m))
   | OtherMetricType s \<Rightarrow> [])"

definition BuildUniqueKey :: "('s, 'r) selector_ops \<Rightarrow> 's metric option \<Rightarrow> string" where
  "BuildUniqueKey ops metric = (case metric of
     None \<Rightarrow> []
   | Some m \<Rightarrow> if ValidateMetric (Some m) \<noteq> None then [] else join_with ''-'' (key_parts ops m))"

section \<open>Namers\<close>

text \<open>An object reference: its kind, namespace, name and API version.\<close>

record object_ref =
  RefKind :: string
  RefNamespace :: string
  RefName :: string
  RefAPIVersion :: string

definition empty_metric :: "metric_type \<Rightarrow> string \<Rightarrow> 's metric" where
  "empty_metric t name = \<lparr>Type = t, MetricName = name, Workload = None, Container = None, Pod = None,
     Node = None, Prom = None\<rparr>"

definition put_nonempty :: "string \<Rightarrow> string \<Rightarrow> (string, string) gomap \<Rightarrow> (string, string) gomap" where
  "put_nonempty k v m = (if v \<noteq> [] then mput k v m else m)"

text \<open>The requirements of the set join the given selector, or make one when it is nil.\<close>

definition add_set ::
    "('s, 'r) selector_ops \<Rightarrow> (string, string) gomap \<Rightarrow> 's option \<Rightarrow> 's option" where
  "add_set ops labels given =
     (let selector = SelFromSet ops labels
      in case SelRequirements ops selector of
           (reqs, ok) \<Rightarrow>
             if \<not> ok then given
             else case given of None \<Rightarrow> Some selector | Some g \<Rightarrow> Some (SelAdd ops g reqs))"

definition workload_metric :: "object_ref \<Rightarrow> string \<Rightarrow> 's option \<Rightarrow> 's metric" where
  "workload_metric target name selector = (empty_metric WorkloadMetricType name)
     \<lparr>Workload := Some \<lparr>WNamespace = RefNamespace target, WKind = RefKind target, WName = RefName target,
        WAPIVersion = RefAPIVersion target, WSelector = selector\<rparr>\<rparr>"

definition WorkloadMetricNamer ::
    "('s, 'r) selector_ops \<Rightarrow> string \<Rightarrow> object_ref \<Rightarrow> string \<Rightarrow> 's option \<Rightarrow> 's metric" where
  "WorkloadMetricNamer ops clusterid target name given =
     workload_metric target name (add_set ops (put_nonempty ''cluster_id'' clusterid []) given)"

text \<open>\<open>None\<close>: \<open>Add\<close> on a nil selector panics.\<close>

definition ResourceToWorkloadMetricNamer ::
    "('s, 'r) selector_ops \<Rightarrow> string \<Rightarrow> object_ref \<Rightarrow> string \<Rightarrow> 's option \<Rightarrow> 's metric option" where
  "ResourceToWorkloadMetricNamer ops clusterid target resource given =
     (let labels = put_nonempty ''cluster_id'' clusterid []
      in if given = None \<and> snd (SelRequirements ops (SelFromSet ops labels)) then None
         else Some (workload_metric target resource (add_set ops labels given)))"

definition container_set :: "string \<Rightarrow> string \<Rightarrow> string \<Rightarrow> string \<Rightarrow> (string, string) gomap" where
  "container_set clusterid ns workload container =
     put_nonempty ''container_name'' container (put_nonempty ''workload_name'' workload
       (put_nonempty ''namespace'' ns (put_nonempty ''cluster_id'' clusterid [])))"

definition container_metric ::
    "string \<Rightarrow> string \<Rightarrow> string \<Rightarrow> string \<Rightarrow> string \<Rightarrow> 's option \<Rightarrow> 's metric" where
  "container_metric kind ns workload container name selector = (empty_metric ContainerMetricType name)
     \<lparr>Container := Some \<lparr>CNamespace = ns, CWorkloadName = workload, CKind = kind, CAPIVersion = [],
        CContainerName = container, CSelector = selector\<rparr>\<rparr>"

definition ContainerMetricNamer ::
    "('s, 'r) selector_ops \<Rightarrow> string \<Rightarrow> string \<Rightarrow> string \<Rightarrow> string \<Rightarrow> string \<Rightarrow> string \<Rightarrow> 's option \<Rightarrow>
     's metric" where
  "ContainerMetricNamer ops clusterid kind ns workload container name given =
     container_metric kind ns workload container name
       (add_set ops (container_set clusterid ns workload container) given)"

definition ResourceToContainerMetricNamer ::
    "('s, 'r) selector_ops \<Rightarrow> string \<Rightarrow> string \<Rightarrow> string \<Rightarrow> string \<Rightarrow> string \<Rightarrow> 's metric" where
  "ResourceToContainerMetricNamer ops clusterid ns workload container resource =
     container_metric [] ns workload container resource
       (Some (SelFromSet ops (container_set clusterid ns workload container)))"

text \<open>Where there is a selector, \<open>Add\<close> makes a new one, which is thrown away.\<close>

definition add_dropped :: "('s, 'r) selector_ops \<Rightarrow> 'r \<Rightarrow> 's option \<Rightarrow> 's option" where
  "add_dropped ops r given = map_option (\<lambda>s. let added = SelAdd ops s [r] in s) given"

definition AddSelectorRequirement :: "('s, 'r) selector_ops \<Rightarrow> 'r \<Rightarrow> 's metric \<Rightarrow> 's metric" where
  "AddSelectorRequirement ops r m = m
     \<lparr>Node := map_option (\<lambda>x. x\<lparr>NSelector := add_dropped ops r (NSelector x)\<rparr>) (Node m),
      Pod := map_option (\<lambda>x. x\<lparr>PSelector := add_dropped ops r (PSelector x)\<rparr>) (Pod m),
      Container := map_option (\<lambda>x. x\<lparr>CSelector := add_dropped ops r (CSelector x)\<rparr>) (Container m),
      Workload := map_option (\<lambda>x. x\<lparr>WSelector := add_dropped ops r (WSelector x)\<rparr>) (Workload m),
      Prom := map_option (\<lambda>x. x\<lparr>QSelector := add_dropped ops r (QSelector x)\<rparr>) (Prom m)\<rparr>"

lemma AddSelectorRequirement_adds_nothing: "AddSelectorRequirement ops r m = m"
proof -
  have "add_dropped ops r given = given" for given :: "'a option" by (cases given) (simp_all add: add_dropped_def)
  then show ?thesis by (simp add: AddSelectorRequirement_def option.map_ident)
qed

section \<open>Query builders\<close>

datatype metric_source = PrometheusMetricSource | MetricServerMetricSource | QCloudMonitorMetricSource |
  OtherMetricSource string

record 's query =
  QueryType :: metric_source
  MetricServer :: "'s metric option"
  Prometheus :: "string option"
  QCloudMonitor :: "'s metric option"

text \<open>A builder: from \<open>FederatedClusterScope\<close> to the query; a factory makes one for a metric.\<close>

type_synonym 's builder = "bool \<Rightarrow> metric_error + 's query"

type_synonym 's factories = "(metric_source, 's metric \<Rightarrow> 's builder) gomap"

definition RegisterBuilderFactory ::
    "metric_source \<Rightarrow> ('s metric \<Rightarrow> 's builder) \<Rightarrow> 's factories \<Rightarrow> 's factories option" where
  "RegisterBuilderFactory source f m = Some (mput source f m)"

definition GetBuilderFactory :: "'s factories \<Rightarrow> metric_source \<Rightarrow> ('s metric \<Rightarrow> 's builder) option" where
  "GetBuilderFactory m source = mget m source"

text \<open>\<open>queryBuilderFactory.Builder\<close>: calling a factory that is not there panics.\<close>

definition Builder :: "'s factories \<Rightarrow> 's metric \<Rightarrow> metric_source \<Rightarrow> 's builder option" where
  "Builder m metric source = map_option (\<lambda>f. f metric) (GetBuilderFactory m source)"

definition MetricServer_BuildQuery :: "'s metric \<Rightarrow> 's builder" where
  "MetricServer_BuildQuery m behavior = Inr \<lparr>QueryType = MetricServerMetricSource, MetricServer = Some m,
     Prometheus = None, QCloudMonitor = None\<rparr>"

definition QCloudMonitor_BuildQuery :: "'s metric \<Rightarrow> 's builder" where
  "QCloudMonitor_BuildQuery m behavior = Inr \<lparr>QueryType = QCloudMonitorMetricSource, MetricServer = None,
     Prometheus = None, QCloudMonitor = Some m\<rparr>"

interpretation builders: registry "wf_map :: 's factories \<Rightarrow> bool" GetBuilderFactory RegisterBuilderFactory
  by unfold_locales (auto simp: RegisterBuilderFactory_def GetBuilderFactory_def)

section \<open>Valid metrics\<close>

text \<open>
  What the library documents of a set: its selector can be selected by.
\<close>

definition set_selectable :: "('s, 'r) selector_ops \<Rightarrow> bool" where
  "set_selectable ops \<longleftrightarrow> (\<forall>labels. snd (SelRequirements ops (SelFromSet ops labels)))"

lemma add_set_Some: "set_selectable ops \<Longrightarrow> (add_set ops labels given = None) = False"
  by (auto simp: add_set_def set_selectable_def Let_def split: prod.split option.split) (metis snd_conv)

text \<open>
  Every metric a namer makes passes the check, a workload's because it always gets a
  selector, even when none is given.
\<close>

theorem namers_valid:
  assumes "set_selectable ops"
  shows "ValidateMetric (Some (WorkloadMetricNamer ops cl target name given)) = None \<and>
    ValidateMetric (Some (ContainerMetricNamer ops cl kind ns wl c name given)) = None \<and>
    ValidateMetric (Some (ResourceToContainerMetricNamer ops cl ns wl c name)) = None \<and>
    (case ResourceToWorkloadMetricNamer ops cl target name given of
       None \<Rightarrow> given = None | Some m \<Rightarrow> ValidateMetric (Some m) = None)"
  by (simp add: add_set_Some [OF assms] ValidateMetric_def WorkloadMetricNamer_def ContainerMetricNamer_def
      ResourceToContainerMetricNamer_def ResourceToWorkloadMetricNamer_def workload_metric_def
      container_metric_def empty_metric_def Let_def)

text \<open>A selector that is the list of its requirements, in their order.\<close>

definition list_selector :: "(string \<times> string) list \<Rightarrow> string" where
  "list_selector rs = join_with '','' (map (\<lambda>(k, v). k @ ''='' @ v) rs)"

definition list_ops :: "((string \<times> string) list, string \<times> string) selector_ops" where
  "list_ops = \<lparr>SelString = list_selector, SelAdd = (@), SelRequirements = (\<lambda>s. (s, True)),
     SelFromSet = (\<lambda>m. m), SelExactMatch = (\<lambda>s k. map_of s k)\<rparr>"

lemma list_ops_selectable: "set_selectable list_ops"
  by (simp add: set_selectable_def list_ops_def)

definition example_target :: object_ref where
  "example_target = \<lparr>RefKind = ''Deployment'', RefNamespace = ''default'', RefName = ''web'',
     RefAPIVersion = ''apps/v1''\<rparr>"

theorem namers_valid_witness:
  "ValidateMetric (Some (WorkloadMetricNamer list_ops ''cls-1'' example_target ''cpu_request'' None)) = None"
  using namers_valid [OF list_ops_selectable] by blast

section \<open>Which metrics share a key\<close>

definition no_dash :: "string list \<Rightarrow> bool" where
  "no_dash parts \<longleftrightarrow> (\<forall>p \<in> set parts. CHR ''-'' \<notin> set p)"

lemma key_parts_ne: "ValidateMetric (Some m) = None \<Longrightarrow> key_parts ops m \<noteq> []"
  by (auto simp: ValidateMetric_def key_parts_def keyByWorkload_def keyByContainer_def keyByPod_def
      keyByNode_def keyByPromQL_def split: metric_type.splits)

text \<open>
  Valid metrics none of whose parts has a dash have the same key only if they agree in every
  part, the type and the lower-cased name among them.
\<close>

theorem BuildUniqueKey_injective:
  assumes "ValidateMetric (Some m) = None" "ValidateMetric (Some m') = None"
    and "no_dash (key_parts ops m)" "no_dash (key_parts ops m')"
  shows "BuildUniqueKey ops (Some m) = BuildUniqueKey ops (Some m') \<longleftrightarrow> key_parts ops m = key_parts ops m'"
  using join_with_inj [OF key_parts_ne [OF assms(1)] key_parts_ne [OF assms(2)]] assms
  by (auto simp: BuildUniqueKey_def no_dash_def)

text \<open>
  The key does not tell all metrics apart: the kind of a container's workload is not part of
  it, and a dash in a name, which Kubernetes names have, can stand for the end of a part.
\<close>

theorem BuildUniqueKey_collisions:
  "BuildUniqueKey ops (Some (container_metric kind ns wl c name sel)) =
     BuildUniqueKey ops (Some (container_metric kind' ns wl c name sel)) \<and>
   BuildUniqueKey ops (Some (container_metric kind ns (wl @ ''-'' @ x) c name sel)) =
     BuildUniqueKey ops (Some (container_metric kind (ns @ ''-'' @ wl) x c name sel))"
  by (simp add: BuildUniqueKey_def ValidateMetric_def key_parts_def keyByContainer_def
      container_metric_def empty_metric_def)

theorem BuildUniqueKey_injective_witness:
  "BuildUniqueKey list_ops (Some (container_metric ''a'' ''ns'' ''w'' ''c'' ''cpu'' None)) \<noteq>
   BuildUniqueKey list_ops (Some (container_metric ''a'' ''ns'' ''v'' ''c'' ''cpu'' None))"
proof -
  let ?m = "\<lambda>w. container_metric ''a'' ''ns'' w ''c'' ''cpu'' None :: (string \<times> string) list metric"
  have k: "key_parts list_ops (?m w) = [''container'', ''cpu'', ''ns'', w, ''c'', []]" for w
    by (simp add: key_parts_def keyByContainer_def container_metric_def empty_metric_def
        selector_string_def) code_simp
  have v: "ValidateMetric (Some (?m w)) = None" for w
    by (simp add: ValidateMetric_def container_metric_def empty_metric_def)
  have "no_dash (key_parts list_ops (?m ''w''))" "no_dash (key_parts list_ops (?m ''v''))"
    by (simp_all add: k no_dash_def)
  from BuildUniqueKey_injective [OF v v this] show ?thesis by (simp add: k)
qed

end
