(* ===== verification/Prom_Builder.thy ===== *)
theory Prom_Builder
  imports Metric_Query
begin

text \<open>
  \<open>pkg/querybuilder-providers/prometheus/builder.go\<close>: the templates of the Prometheus queries and
  the builder that fills them for a metric. A newline and a backslash of a template are written
  apart, because a string literal can not hold them.
\<close>

abbreviation nl :: string where "nl \<equiv> [CHR 0x0A]"

abbreviation backslash :: string where "backslash \<equiv> [CHR 0x5C]"

section \<open>Templates\<close>

definition WorkloadCpuUsageExprTemplate :: string where
  "WorkloadCpuUsageExprTemplate =
     ''sum(irate(container_cpu_usage_seconds_total{container!=\"\",image!=\"\",container!'' @
     ''=\"POD\",namespace=\"%s\",pod=~\"^%s-.*$\",%s}[%s]))''"

definition WorkloadMemUsageExprTemplate :: string where
  "WorkloadMemUsageExprTemplate =
     ''sum(container_memory_working_set_bytes{container!=\"\",image!=\"\",container!=\"POD'' @
     ''\",namespace=\"%s\",pod=~\"^%s-.*$\",%s})''"

definition NodeCpuUsageExprTemplate :: string where
  "NodeCpuUsageExprTemplate =
     ''sum(count(node_cpu_seconds_total{mode=\"idle\",instance=~\"(%s)(:'' @
     backslash @
     backslash @
     ''d+)?\",%s}) by (mode, cpu)) - sum(irate(node_cpu_seconds_total{mode=\"idle\",inst'' @
     ''ance=~\"(%s)(:'' @
     backslash @
     backslash @
     ''d+)?\",%s}[%s]))''"

definition NodeMemUsageExprTemplate :: string where
  "NodeMemUsageExprTemplate =
     ''sum(node_memory_MemTotal_bytes{instance=~\"(%s)(:'' @
     backslash @
     backslash @
     ''d+)?\",%s} - node_memory_MemAvailable_bytes{instance=~\"(%s)(:'' @
     backslash @
     backslash @
     ''d+)?\",%s})''"

definition PodCpuUsageExprTemplate :: string where
  "PodCpuUsageExprTemplate =
     ''sum(irate(container_cpu_usage_seconds_total{container!=\"POD\",namespace=\"%s\",po'' @
     ''d=\"%s\",%s}[%s]))''"

definition PodMemUsageExprTemplate :: string where
  "PodMemUsageExprTemplate =
     ''sum(container_memory_working_set_bytes{container!=\"POD\",namespace=\"%s\",pod=\"%s'' @
     ''\",%s})''"

definition ContainerCpuUsageExprTemplate :: string where
  "ContainerCpuUsageExprTemplate =
     ''irate(container_cpu_usage_seconds_total{container!=\"POD\",namespace=\"%s\",pod=~\"'' @
     ''^%s.*$\",container=\"%s\",%s}[%s])''"

definition ContainerMemUsageExprTemplate :: string where
  "ContainerMemUsageExprTemplate =
     ''container_memory_working_set_bytes{container!=\"POD\",namespace=\"%s\",pod=~\"^%s.*'' @
     ''$\",container=\"%s\",%s}''"

definition ContainerResourceRequestExprTemplate :: string where
  "ContainerResourceRequestExprTemplate =
     ''avg('' @
     nl @
     ''    kube_pod_container_resource_requests{container!=\"\", container!=\"POD\", cont'' @
     ''ainer=\"%s\", resource=\"%s\",pod=~\"%s-.*\",namespace=\"%s\",%s} '' @
     nl @
     ''    * on (pod, namespace) group_left(owner_kind, owner_name) '' @
     nl @
     ''    max(kube_pod_owner{owner_is_controller=\"true\",owner_kind=~\"%s\",owner_name='' @
     ''~\"%s\",namespace=\"%s\",%s}) without (instance)'' @
     nl @
     '') by (namespace, owner_kind,owner_name,container)''"

definition ContainerResourceLimitExprTemplate :: string where
  "ContainerResourceLimitExprTemplate =
     ''avg('' @
     nl @
     ''    kube_pod_container_resource_limits{container!=\"\", container!=\"POD\", contai'' @
     ''ner=\"%s\", resource=\"%s\",pod=~\"%s-.*\",namespace=\"%s\",%s} '' @
     nl @
     ''    * on (pod, namespace) group_left(owner_kind, owner_name) '' @
     nl @
     ''    max(kube_pod_owner{owner_is_controller=\"true\",owner_kind=~\"%s\",owner_name='' @
     ''~\"%s\",namespace=\"%s\",%s}) without (instance)'' @
     nl @
     '') by (namespace, owner_kind,owner_name,container)''"

definition DeploymentContainerResourceRequestExprTemplate :: string where
  "DeploymentContainerResourceRequestExprTemplate =
     ''avg('' @
     nl @
     ''    kube_pod_container_resource_requests{container!=\"\", container!=\"POD\", cont'' @
     ''ainer=\"%s\",resource=\"%s\",pod=~\"%s-.*\",namespace=\"%s\",%s} '' @
     nl @
     ''    * on (pod, namespace) group_left(owner_kind, owner_name) '' @
     nl @
     ''    max(label_replace(kube_pod_owner{owner_is_controller=\"true\",owner_kind=\"Re'' @
     ''plicaSet\",owner_name=~\"%s-.*\",namespace=\"%s\",%s}, \"owner_name\", \"$1\", \"owner_n'' @
     ''ame\", \"(.*)-.(.*)\")) without (instance)'' @
     nl @
     '') by (namespace, owner_kind,owner_name,container)''"

definition DeploymentContainerResourceLimitExprTemplate :: string where
  "DeploymentContainerResourceLimitExprTemplate =
     ''avg('' @
     nl @
     ''    kube_pod_container_resource_limits{container!=\"\", container!=\"POD\", contai'' @
     ''ner=\"%s\",resource=\"%s\",pod=~\"%s-.*\",namespace=\"%s\",%s} '' @
     nl @
     ''    * on (pod, namespace) group_left(owner_kind, owner_name) '' @
     nl @
     ''    max(label_replace(kube_pod_owner{owner_is_controller=\"true\",owner_kind=\"Re'' @
     ''plicaSet\",owner_name=~\"%s-.*\",namespace=\"%s\",%s}, \"owner_name\", \"$1\", \"owner_n'' @
     ''ame\", \"(.*)-.(.*)\")) without (instance)'' @
     nl @
     '') by (namespace, owner_kind,owner_name,container)''"

definition DeploymentResourceRequestExprTemplate :: string where
  "DeploymentResourceRequestExprTemplate =
     ''max('' @
     nl @
     ''    sum('' @
     nl @
     ''        kube_pod_container_resource_requests{container!=\"\", container!=\"POD\", '' @
     ''resource=\"%s\",pod=~\"%s-.*\",namespace=\"%s\",%s} '' @
     nl @
     ''        * on (pod, namespace) group_left(owner_kind, owner_name) '' @
     nl @
     ''        max(label_replace(kube_pod_owner{owner_is_controller=\"true\",owner_kind'' @
     ''=\"ReplicaSet\",owner_name=~\"%s-.*\",namespace=\"%s\",%s}, \"owner_name\", \"$1\", \"own'' @
     ''er_name\", \"(.*)-.(.*)\")) without (instance)'' @
     nl @
     ''    ) by (namespace, owner_kind,owner_name)'' @
     nl @
     '') without (instance)''"

definition DeploymentResourceLimitExprTemplate :: string where
  "DeploymentResourceLimitExprTemplate =
     ''max('' @
     nl @
     ''    sum('' @
     nl @
     ''        kube_pod_container_resource_limits{container!=\"\", container!=\"POD\", re'' @
     ''source=\"%s\",pod=~\"%s-.*\",namespace=\"%s\",%s} '' @
     nl @
     ''        * on (pod, namespace) group_left(owner_kind, owner_name) '' @
     nl @
     ''        max(label_replace(kube_pod_owner{owner_is_controller=\"true\",owner_kind'' @
     ''=\"ReplicaSet\",owner_name=~\"%s-.*\",namespace=\"%s\",%s}, \"owner_name\", \"$1\", \"own'' @
     ''er_name\", \"(.*)-.(.*)\")) without (instance)'' @
     nl @
     ''    ) by (namespace, owner_kind,owner_name)'' @
     nl @
     '') without (instance)''"

definition WorkloadResourceRequestExprTemplate :: string where
  "WorkloadResourceRequestExprTemplate =
     ''max('' @
     nl @
     ''    sum('' @
     nl @
     ''        kube_pod_container_resource_requests{container!=\"\", container!=\"POD\", '' @
     ''resource=\"%s\",pod=~\"%s-.*\",namespace=\"%s\",%s} '' @
     nl @
     ''        * on (pod, namespace) group_left(owner_kind, owner_name) '' @
     nl @
     ''        max(kube_pod_owner{owner_is_controller=\"true\",owner_kind=~\"%s\",owner_n'' @
     ''ame=~\"%s\",namespace=\"%s\",%s}) without (instance)'' @
     nl @
     ''    ) by (namespace, owner_kind,owner_name)'' @
     nl @
     '') without (instance)''"

definition WorkloadResourceLimitExprTemplate :: string where
  "WorkloadResourceLimitExprTemplate =
     ''max('' @
     nl @
     ''    sum('' @
     nl @
     ''        kube_pod_container_resource_limits{container!=\"\", container!=\"POD\", re'' @
     ''source=\"%s\",pod=~\"%s-.*\",namespace=\"%s\",%s} '' @
     nl @
     ''        * on (pod, namespace) group_left(owner_kind, owner_name) '' @
     nl @
     ''        max(kube_pod_owner{owner_is_controller=\"true\",owner_kind=~\"%s\",owner_n'' @
     ''ame=~\"%s\",namespace=\"%s\",%s}) without (instance)'' @
     nl @
     ''    ) by (namespace, owner_kind,owner_name)'' @
     nl @
     '') without (instance)''"

definition StatefulSetPlusReplicasExprTemplate :: string where
  "StatefulSetPlusReplicasExprTemplate =
     ''label_replace(label_replace(max(kube_statefulsetplus_status_replicas_ready{nam'' @
     ''espace=\"%s\",statefulset=\"%s\",%s}) without (instance, job), \"owner_name\", \"$1\",'' @
     '' \"statefulset\", \"(.*)\"), \"owner_kind\", \"StatefulSetPlus\", \"\", \"\")''"

definition StatefulSetReplicasExprTemplate :: string where
  "StatefulSetReplicasExprTemplate =
     ''label_replace(label_replace(max(kube_statefulset_status_replicas_ready{namespa'' @
     ''ce=\"%s\",statefulset=\"%s\",%s}) without (instance, job), \"owner_name\", \"$1\", \"st'' @
     ''atefulset\", \"(.*)\"), \"owner_kind\", \"StatefulSet\", \"\", \"\")''"

definition DeploymentReplicasExprTemplate :: string where
  "DeploymentReplicasExprTemplate =
     ''label_replace(label_replace(max(kube_deployment_status_replicas_ready{namespac'' @
     ''e=\"%s\",deployment=\"%s\",%s}) without (instance, job), \"owner_name\", \"$1\", \"depl'' @
     ''oyment\", \"(.*)\"), \"owner_kind\", \"Deployment\", \"\", \"\")''"

definition DaemonSetReplicasExprTemplate :: string where
  "DaemonSetReplicasExprTemplate =
     ''label_replace(label_replace(max(kube_daemonset_status_number_ready{namespace=\"'' @
     ''%s\",daemonset=\"%s\",%s}) without (instance, job),  \"owner_name\", \"$1\", \"daemons'' @
     ''et\", \"(.*)\"),\"owner_kind\", \"DaemonSet\", \"\", \"\")''"

section \<open>Filling a template\<close>

text \<open>
  \<open>fmt.Sprintf\<close> for the only verb of the templates, \<open>%s\<close> with strings: with what it writes for a
  missing argument and for those left over.
\<close>

fun extra_args :: "string list \<Rightarrow> string" where
  "extra_args [] = []"
| "extra_args [a] = ''string='' @ a"
| "extra_args (a # b # as) = ''string='' @ a @ '', '' @ extra_args (b # as)"

fun Sprintf :: "string \<Rightarrow> string list \<Rightarrow> string" where
  "Sprintf [] args = (if args = [] then [] else ''%!(EXTRA '' @ extra_args args @ '')'')"
| "Sprintf [c] args = (if c = CHR ''%'' then ''%!(NOVERB)'' else [c]) @ Sprintf [] args"
| "Sprintf (c # v # s) args =
     (if c = CHR ''%'' then
        (case args of [] \<Rightarrow> ''%!s(MISSING)'' @ Sprintf s [] | a # as \<Rightarrow> a @ Sprintf s as)
      else c # Sprintf (v # s) args)"

text \<open>The text between the verbs of a template, and putting arguments between texts.\<close>

fun pieces :: "string \<Rightarrow> string \<Rightarrow> string list" where
  "pieces acc [] = [acc]"
| "pieces acc [c] = [acc @ [c]]"
| "pieces acc (c # v # s) =
     (if c = CHR ''%'' then acc # pieces [] s else pieces (acc @ [c]) (v # s))"

fun interleave :: "string list \<Rightarrow> string list \<Rightarrow> string" where
  "interleave (p # ps) (a # as) = p @ a @ interleave ps as"
| "interleave ps [] = concat ps"
| "interleave [] as = []"

text \<open>Every percent sign starts a verb \<open>%s\<close>.\<close>

fun only_s :: "string \<Rightarrow> bool" where
  "only_s [] = True"
| "only_s [c] = (c \<noteq> CHR ''%'')"
| "only_s (c # v # s) = (if c = CHR ''%'' then v = CHR ''s'' \<and> only_s s else only_s (v # s))"

definition fits :: "string \<Rightarrow> string list \<Rightarrow> bool" where
  "fits t args \<longleftrightarrow> only_s t \<and> length (pieces [] t) = Suc (length args)"

lemma pieces_append: "pieces b s \<noteq> [] \<and> pieces (a @ b) s = (a @ hd (pieces b s)) # tl (pieces b s)"
  by (induction b s rule: pieces.induct) simp_all

lemma interleave_append: "ps \<noteq> [] \<Longrightarrow> interleave ((a @ hd ps) # tl ps) args = a @ interleave ps args"
  by (cases ps; cases args) simp_all

lemma interleave_pieces: "interleave (pieces (a @ b) s) args = a @ interleave (pieces b s) args"
  using pieces_append [of b s a] interleave_append [of "pieces b s" a args] by simp

lemma length_pieces: "length (pieces acc s) = length (pieces [] s)"
  using pieces_append [of "[]" s acc] by (cases "pieces [] s") simp_all

lemma Sprintf_fits_aux:
  "only_s s \<Longrightarrow> length (pieces [] s) = Suc (length args) \<Longrightarrow>
     Sprintf s args = interleave (pieces [] s) args"
proof (induction s args rule: Sprintf.induct)
  case (3 c v s args)
  show ?case
  proof (cases "c = CHR ''%''")
    case True
    with 3 show ?thesis by (cases args) (auto simp: pieces_append)
  next
    case False
    with 3(4, 5) length_pieces [of "[c]" "v # s"]
    have "only_s (v # s)" "length (pieces [] (v # s)) = Suc (length args)" by simp_all
    from 3(3) [OF False this] False interleave_pieces [of "[c]" "[]" "v # s" args] show ?thesis by simp
  qed
qed auto

lemma Sprintf_fits: "fits t args \<Longrightarrow> Sprintf t args = interleave (pieces [] t) args"
  using Sprintf_fits_aux [of t args] by (simp add: fits_def)

section \<open>The builder\<close>

definition promQuery :: "string \<Rightarrow> 's query" where
  "promQuery q = \<lparr>QueryType = PrometheusMetricSource, MetricServer = None, Prometheus = Some q,
     QCloudMonitor = None\<rparr>"

definition clusterCond :: "('s, 'r) selector_ops \<Rightarrow> 's option \<Rightarrow> bool \<Rightarrow> string" where
  "clusterCond ops selector federated = (case selector of
     None \<Rightarrow> []
   | Some s \<Rightarrow>
       if federated then
         (case SelExactMatch ops s ''cluster_id'' of
            None \<Rightarrow> [] | Some i \<Rightarrow> ''cluster=\"'' @ i @ ''\"'')
       else [])"

definition workloadQuery ::
    "('s, 'r) selector_ops \<Rightarrow> 's metric \<Rightarrow> bool \<Rightarrow> metric_error + 's query" where
  "workloadQuery ops m fed = (case Workload m of
     None \<Rightarrow> Inl (NotMatch (Type m))
   | Some w \<Rightarrow>
       let cond = clusterCond ops (WSelector w) fed; name = to_lower (MetricName m);
           kind = to_lower (WKind w); wl = WName w; ns = WNamespace w;
           resource = (\<lambda>dep other r. if kind = ''deployment''
             then Inr (promQuery (Sprintf dep [r, wl, ns, cond, wl, ns, cond]))
             else Inr (promQuery (Sprintf other [r, wl, ns, cond, WKind w, wl, ns, cond])));
           replicas = (\<lambda>t. Inr (promQuery (Sprintf t [ns, wl, cond])))
       in if name = ''cpu'' then
            Inr (promQuery (Sprintf WorkloadCpuUsageExprTemplate [ns, wl, cond, ''3m'']))
          else if name = ''memory'' then
            Inr (promQuery (Sprintf WorkloadMemUsageExprTemplate [ns, wl, cond]))
          else if name = ''cpu_request'' then
            resource DeploymentResourceRequestExprTemplate WorkloadResourceRequestExprTemplate ''cpu''
          else if name = ''cpu_limit'' then
            resource DeploymentResourceLimitExprTemplate WorkloadResourceLimitExprTemplate ''cpu''
          else if name = ''mem_request'' then
            resource DeploymentResourceRequestExprTemplate WorkloadResourceRequestExprTemplate ''memory''
          else if name = ''mem_limit'' then
            resource DeploymentResourceLimitExprTemplate WorkloadResourceLimitExprTemplate ''memory''
          else if name = ''replicas'' then
            (if kind = ''deployment'' then replicas DeploymentReplicasExprTemplate
             else if kind = ''statefulset'' then replicas StatefulSetReplicasExprTemplate
             else if kind = ''statefulsetplus'' then replicas StatefulSetPlusReplicasExprTemplate
             else if kind = ''daemonset'' then replicas DaemonSetReplicasExprTemplate
             else Inl (UnsupportedKind (Type m) (WKind w)))
          else Inl (UnsupportedMetric (Type m) (MetricName m)))"

definition containerQuery ::
    "('s, 'r) selector_ops \<Rightarrow> 's metric \<Rightarrow> bool \<Rightarrow> metric_error + 's query" where
  "containerQuery ops m fed = (case Container m of
     None \<Rightarrow> Inl (NotMatch (Type m))
   | Some c \<Rightarrow>
       let cond = clusterCond ops (CSelector c) fed; name = to_lower (MetricName m);
           kind = to_lower (CKind c); wl = CWorkloadName c; ns = CNamespace c; ct = CContainerName c;
           resource = (\<lambda>dep other r. if kind = ''deployment''
             then Inr (promQuery (Sprintf dep [ct, r, wl, ns, cond, wl, ns, cond]))
             else Inr (promQuery (Sprintf other [ct, r, wl, ns, cond, CKind c, wl, ns, cond])))
       in if name = ''cpu'' then
            Inr (promQuery (Sprintf ContainerCpuUsageExprTemplate [ns, wl, ct, cond, ''3m'']))
          else if name = ''memory'' then
            Inr (promQuery (Sprintf ContainerMemUsageExprTemplate [ns, wl, ct, cond]))
          else if name = ''cpu_request'' then
            resource DeploymentContainerResourceRequestExprTemplate ContainerResourceRequestExprTemplate ''cpu''
          else if name = ''cpu_limit'' then
            resource DeploymentContainerResourceLimitExprTemplate ContainerResourceLimitExprTemplate ''cpu''
          else if name = ''mem_request'' then
            resource DeploymentContainerResourceRequestExprTemplate ContainerResourceRequestExprTemplate ''memory''
          else if name = ''mem_limit'' then
            resource DeploymentContainerResourceLimitExprTemplate ContainerResourceLimitExprTemplate ''memory''
          else Inl (UnsupportedMetric (Type m) (MetricName m)))"

definition podQuery ::
    "('s, 'r) selector_ops \<Rightarrow> 's metric \<Rightarrow> bool \<Rightarrow> metric_error + 's query" where
  "podQuery ops m fed = (case Pod m of
     None \<Rightarrow> Inl (NotMatch (Type m))
   | Some p \<Rightarrow>
       let cond = clusterCond ops (PSelector p) fed; name = to_lower (MetricName m)
       in if name = ''cpu'' then
            Inr (promQuery (Sprintf PodCpuUsageExprTemplate [PNamespace p, PName p, cond, ''3m'']))
          else if name = ''memory'' then
            Inr (promQuery (Sprintf PodMemUsageExprTemplate [PNamespace p, PName p, cond]))
          else Inl (UnsupportedMetric (Type m) (MetricName m)))"

definition nodeQuery ::
    "('s, 'r) selector_ops \<Rightarrow> 's metric \<Rightarrow> bool \<Rightarrow> metric_error + 's query" where
  "nodeQuery ops m fed = (case Node m of
     None \<Rightarrow> Inl (NotMatch (Type m))
   | Some n \<Rightarrow>
       let cond = clusterCond ops (NSelector n) fed; name = to_lower (MetricName m)
       in if name = ''cpu'' then
            Inr (promQuery (Sprintf NodeCpuUsageExprTemplate [NName n, cond, NName n, cond, ''3m'']))
          else if name = ''memory'' then
            Inr (promQuery (Sprintf NodeMemUsageExprTemplate [NName n, cond, NName n, cond]))
          else Inl (UnsupportedMetric (Type m) (MetricName m)))"

definition promqlQuery :: "'s metric \<Rightarrow> metric_error + 's query" where
  "promqlQuery m = (case Prom m of
     None \<Rightarrow> Inl (NotMatch (Type m)) | Some p \<Rightarrow> Inr (promQuery (QueryExpr p)))"

definition BuildQuery :: "('s, 'r) selector_ops \<Rightarrow> 's metric \<Rightarrow> 's builder" where
  "BuildQuery ops m fed = (case Type m of
     WorkloadMetricType \<Rightarrow> workloadQuery ops m fed
   | PodMetricType \<Rightarrow> podQuery ops m fed
   | ContainerMetricType \<Rightarrow> containerQuery ops m fed
   | NodeMetricType \<Rightarrow> nodeQuery ops m fed
   | PromQLMetricType \<Rightarrow> promqlQuery m
   | OtherMetricType s \<Rightarrow> Inl (NotSupported (Type m)))"

section \<open>The queries\<close>

text \<open>
  What belongs in a place of a query is told by the text before it: the label that is matched, the start of a
  range, or, after a comma, the condition on the cluster.
\<close>

datatype place = NamespacePlace | NamePlace | ContainerPlace | ResourcePlace | KindPlace | NodePlace |
  WindowPlace | ScopePlace

definition marks :: "(string \<times> place) list" where
  "marks = [(''{namespace=\"'', NamespacePlace), ('',namespace=\"'', NamespacePlace),
     ('',pod=\"'', NamePlace), ('',pod=~\"'', NamePlace), ('',pod=~\"^'', NamePlace),
     ('',owner_name=~\"'', NamePlace), ('',deployment=\"'', NamePlace), ('',statefulset=\"'', NamePlace),
     ('',daemonset=\"'', NamePlace), ('', container=\"'', ContainerPlace), ('',container=\"'', ContainerPlace),
     ('',resource=\"'', ResourcePlace), ('', resource=\"'', ResourcePlace), ('',owner_kind=~\"'', KindPlace),
     (''{instance=~\"('', NodePlace), ('',instance=~\"('', NodePlace), ([CHR 0x5B], WindowPlace), ('','', ScopePlace)]"

definition ends_with :: "string \<Rightarrow> string \<Rightarrow> bool" where
  "ends_with suffix s \<longleftrightarrow> take (length suffix) (rev s) = rev suffix"

definition place_after :: "string \<Rightarrow> place option" where
  "place_after before = map_option snd (find (\<lambda>(mark, p). ends_with mark before) marks)"

definition places :: "string \<Rightarrow> place option list" where
  "places t = map place_after (butlast (pieces [] t))"

lemma templates_places:
  "places WorkloadCpuUsageExprTemplate = [Some NamespacePlace, Some NamePlace, Some ScopePlace, Some WindowPlace]"
  "places WorkloadMemUsageExprTemplate = [Some NamespacePlace, Some NamePlace, Some ScopePlace]"
  "places NodeCpuUsageExprTemplate = [Some NodePlace, Some ScopePlace, Some NodePlace, Some ScopePlace, Some WindowPlace]"
  "places NodeMemUsageExprTemplate = [Some NodePlace, Some ScopePlace, Some NodePlace, Some ScopePlace]"
  "places PodCpuUsageExprTemplate = [Some NamespacePlace, Some NamePlace, Some ScopePlace, Some WindowPlace]"
  "places PodMemUsageExprTemplate = [Some NamespacePlace, Some NamePlace, Some ScopePlace]"
  "places ContainerCpuUsageExprTemplate = [Some NamespacePlace, Some NamePlace, Some ContainerPlace, Some ScopePlace, Some WindowPlace]"
  "places ContainerMemUsageExprTemplate = [Some NamespacePlace, Some NamePlace, Some ContainerPlace, Some ScopePlace]"
  "places ContainerResourceRequestExprTemplate = [Some ContainerPlace, Some ResourcePlace, Some NamePlace, Some NamespacePlace, Some ScopePlace, Some KindPlace, Some NamePlace, Some NamespacePlace, Some ScopePlace]"
  "places ContainerResourceLimitExprTemplate = [Some ContainerPlace, Some ResourcePlace, Some NamePlace, Some NamespacePlace, Some ScopePlace, Some KindPlace, Some NamePlace, Some NamespacePlace, Some ScopePlace]"
  "places DeploymentContainerResourceRequestExprTemplate = [Some ContainerPlace, Some ResourcePlace, Some NamePlace, Some NamespacePlace, Some ScopePlace, Some NamePlace, Some NamespacePlace, Some ScopePlace]"
  "places DeploymentContainerResourceLimitExprTemplate = [Some ContainerPlace, Some ResourcePlace, Some NamePlace, Some NamespacePlace, Some ScopePlace, Some NamePlace, Some NamespacePlace, Some ScopePlace]"
  "places DeploymentResourceRequestExprTemplate = [Some ResourcePlace, Some NamePlace, Some NamespacePlace, Some ScopePlace, Some NamePlace, Some NamespacePlace, Some ScopePlace]"
  "places DeploymentResourceLimitExprTemplate = [Some ResourcePlace, Some NamePlace, Some NamespacePlace, Some ScopePlace, Some NamePlace, Some NamespacePlace, Some ScopePlace]"
  "places WorkloadResourceRequestExprTemplate = [Some ResourcePlace, Some NamePlace, Some NamespacePlace, Some ScopePlace, Some KindPlace, Some NamePlace, Some NamespacePlace, Some ScopePlace]"
  "places WorkloadResourceLimitExprTemplate = [Some ResourcePlace, Some NamePlace, Some NamespacePlace, Some ScopePlace, Some KindPlace, Some NamePlace, Some NamespacePlace, Some ScopePlace]"
  "places StatefulSetPlusReplicasExprTemplate = [Some NamespacePlace, Some NamePlace, Some ScopePlace]"
  "places StatefulSetReplicasExprTemplate = [Some NamespacePlace, Some NamePlace, Some ScopePlace]"
  "places DeploymentReplicasExprTemplate = [Some NamespacePlace, Some NamePlace, Some ScopePlace]"
  "places DaemonSetReplicasExprTemplate = [Some NamespacePlace, Some NamePlace, Some ScopePlace]"
  by code_simp+

lemma templates_only_s:
  "only_s WorkloadCpuUsageExprTemplate"
  "only_s WorkloadMemUsageExprTemplate"
  "only_s NodeCpuUsageExprTemplate"
  "only_s NodeMemUsageExprTemplate"
  "only_s PodCpuUsageExprTemplate"
  "only_s PodMemUsageExprTemplate"
  "only_s ContainerCpuUsageExprTemplate"
  "only_s ContainerMemUsageExprTemplate"
  "only_s ContainerResourceRequestExprTemplate"
  "only_s ContainerResourceLimitExprTemplate"
  "only_s DeploymentContainerResourceRequestExprTemplate"
  "only_s DeploymentContainerResourceLimitExprTemplate"
  "only_s DeploymentResourceRequestExprTemplate"
  "only_s DeploymentResourceLimitExprTemplate"
  "only_s WorkloadResourceRequestExprTemplate"
  "only_s WorkloadResourceLimitExprTemplate"
  "only_s StatefulSetPlusReplicasExprTemplate"
  "only_s StatefulSetReplicasExprTemplate"
  "only_s DeploymentReplicasExprTemplate"
  "only_s DaemonSetReplicasExprTemplate"
  by code_simp+

text \<open>What a metric has for each place. The name is that of the workload, or of the pod.\<close>

definition scope_of :: "('s, 'r) selector_ops \<Rightarrow> 's metric \<Rightarrow> bool \<Rightarrow> string" where
  "scope_of ops m fed = (case Type m of
     WorkloadMetricType \<Rightarrow> clusterCond ops (WSelector (the (Workload m))) fed
   | ContainerMetricType \<Rightarrow> clusterCond ops (CSelector (the (Container m))) fed
   | PodMetricType \<Rightarrow> clusterCond ops (PSelector (the (Pod m))) fed
   | NodeMetricType \<Rightarrow> clusterCond ops (NSelector (the (Node m))) fed
   | _ \<Rightarrow> [])"

definition resource_of :: "string \<Rightarrow> string" where
  "resource_of name = (if name \<in> {''cpu_request'', ''cpu_limit''} then ''cpu'' else ''memory'')"

definition value_at :: "('s, 'r) selector_ops \<Rightarrow> 's metric \<Rightarrow> bool \<Rightarrow> place \<Rightarrow> string" where
  "value_at ops m fed p = (case p of
     ScopePlace \<Rightarrow> scope_of ops m fed
   | WindowPlace \<Rightarrow> ''3m''
   | ResourcePlace \<Rightarrow> resource_of (to_lower (MetricName m))
   | NamespacePlace \<Rightarrow> (if Type m = WorkloadMetricType then WNamespace (the (Workload m))
       else if Type m = ContainerMetricType then CNamespace (the (Container m)) else PNamespace (the (Pod m)))
   | NamePlace \<Rightarrow> (if Type m = WorkloadMetricType then WName (the (Workload m))
       else if Type m = ContainerMetricType then CWorkloadName (the (Container m)) else PName (the (Pod m)))
   | ContainerPlace \<Rightarrow> CContainerName (the (Container m))
   | KindPlace \<Rightarrow> (if Type m = WorkloadMetricType then WKind (the (Workload m)) else CKind (the (Container m)))
   | NodePlace \<Rightarrow> NName (the (Node m)))"

text \<open>The template for a metric, by what is measured, its name in lower case and whether the workload is a deployment.\<close>

definition template_of :: "'s metric \<Rightarrow> string" where
  "template_of m =
     (let name = to_lower (MetricName m)
      in case Type m of
           NodeMetricType \<Rightarrow> (if name = ''cpu'' then NodeCpuUsageExprTemplate else NodeMemUsageExprTemplate)
         | PodMetricType \<Rightarrow> (if name = ''cpu'' then PodCpuUsageExprTemplate else PodMemUsageExprTemplate)
         | ContainerMetricType \<Rightarrow>
             (let dep = to_lower (CKind (the (Container m))) = ''deployment''
              in if name = ''cpu'' then ContainerCpuUsageExprTemplate
                 else if name = ''memory'' then ContainerMemUsageExprTemplate
                 else if name \<in> {''cpu_request'', ''mem_request''}
                   then if dep then DeploymentContainerResourceRequestExprTemplate else ContainerResourceRequestExprTemplate
                 else if dep then DeploymentContainerResourceLimitExprTemplate else ContainerResourceLimitExprTemplate)
         | _ \<Rightarrow>
             (let kind = to_lower (WKind (the (Workload m)))
              in if name = ''cpu'' then WorkloadCpuUsageExprTemplate
                 else if name = ''memory'' then WorkloadMemUsageExprTemplate
                 else if name \<in> {''cpu_request'', ''mem_request''}
                   then if kind = ''deployment'' then DeploymentResourceRequestExprTemplate else WorkloadResourceRequestExprTemplate
                 else if name \<in> {''cpu_limit'', ''mem_limit''}
                   then if kind = ''deployment'' then DeploymentResourceLimitExprTemplate else WorkloadResourceLimitExprTemplate
                 else if kind = ''deployment'' then DeploymentReplicasExprTemplate
                 else if kind = ''statefulset'' then StatefulSetReplicasExprTemplate
                 else if kind = ''statefulsetplus'' then StatefulSetPlusReplicasExprTemplate
                 else DaemonSetReplicasExprTemplate))"

definition values_for :: "('s, 'r) selector_ops \<Rightarrow> 's metric \<Rightarrow> bool \<Rightarrow> string list" where
  "values_for ops m fed = map (\<lambda>p. value_at ops m fed (the p)) (places (template_of m))"

lemmas template_simps = template_of_def values_for_def value_at_def scope_of_def resource_of_def templates_places Let_def

lemma workload_filled:
  "Type m = WorkloadMetricType \<Longrightarrow> workloadQuery ops m fed = Inr q \<Longrightarrow>
     q = promQuery (Sprintf (template_of m) (values_for ops m fed))"
  unfolding workloadQuery_def by (auto simp: template_simps split: option.splits if_splits)

lemma container_filled:
  "Type m = ContainerMetricType \<Longrightarrow> containerQuery ops m fed = Inr q \<Longrightarrow>
     q = promQuery (Sprintf (template_of m) (values_for ops m fed))"
  unfolding containerQuery_def by (auto simp: template_simps split: option.splits if_splits)

lemma pod_filled:
  "Type m = PodMetricType \<Longrightarrow> podQuery ops m fed = Inr q \<Longrightarrow>
     q = promQuery (Sprintf (template_of m) (values_for ops m fed))"
  unfolding podQuery_def by (auto simp: template_simps split: option.splits if_splits)

lemma node_filled:
  "Type m = NodeMetricType \<Longrightarrow> nodeQuery ops m fed = Inr q \<Longrightarrow>
     q = promQuery (Sprintf (template_of m) (values_for ops m fed))"
  unfolding nodeQuery_def by (auto simp: template_simps split: option.splits if_splits)

lemma template_of_ok: "only_s (template_of m) \<and> None \<notin> set (places (template_of m))"
  by (simp add: template_of_def templates_only_s templates_places Let_def split: metric_type.split)

lemma template_fits: "fits (template_of m) (values_for ops m fed)"
proof -
  have "pieces [] (template_of m) \<noteq> []" using pieces_append [of "[]" "template_of m" "[]"] by simp
  then show ?thesis
    using template_of_ok [of m] by (cases "pieces [] (template_of m)" rule: rev_cases)
      (simp_all add: fits_def values_for_def places_def)
qed

text \<open>
  C40. Every query that is built for a metric other than one given as a query is the text of the template for that
  metric with a value of the metric in each of its places: after a label the namespace, the workload or pod,
  the container, the resource, the kind or the node that the label is matched against, after a bracket the range and
  after a comma the condition on the cluster. No place is left over and none is missing, so that Go's
  formatter writes none of its error marks.
\<close>

theorem BuildQuery_filled:
  assumes "BuildQuery ops m fed = Inr q" "Type m \<noteq> PromQLMetricType"
  shows "let texts = pieces [] (template_of m)
    in only_s (template_of m) \<and> (\<forall>before \<in> set (butlast texts). place_after before \<noteq> None) \<and>
      QueryType q = PrometheusMetricSource \<and>
      Prometheus q = Some (interleave texts
        (map (\<lambda>before. value_at ops m fed (the (place_after before))) (butlast texts)))"
proof -
  have "q = promQuery (Sprintf (template_of m) (values_for ops m fed))"
    using assms by (cases "Type m") (auto simp: BuildQuery_def
        dest: workload_filled container_filled pod_filled node_filled)
  moreover have "place_after before \<noteq> None" if "before \<in> set (butlast (pieces [] (template_of m)))" for before
    using template_of_ok [of m] imageI [OF that, of place_after] unfolding places_def set_map by metis
  ultimately show ?thesis
    using Sprintf_fits [OF template_fits, of m ops fed] template_of_ok [of m]
    by (simp add: Let_def promQuery_def values_for_def places_def comp_def)
qed

definition usage_names :: "string set" where
  "usage_names = {''cpu'', ''memory''}"

definition resource_names :: "string set" where
  "resource_names = usage_names \<union> {''cpu_request'', ''cpu_limit'', ''mem_request'', ''mem_limit''}"

definition supported :: "'s metric \<Rightarrow> bool" where
  "supported m = (case Type m of
     WorkloadMetricType \<Rightarrow> (case Workload m of None \<Rightarrow> False | Some w \<Rightarrow>
       to_lower (MetricName m) \<in> resource_names \<or>
       (to_lower (MetricName m) = ''replicas'' \<and>
        to_lower (WKind w) \<in> {''deployment'', ''statefulset'', ''statefulsetplus'', ''daemonset''}))
   | ContainerMetricType \<Rightarrow> Container m \<noteq> None \<and> to_lower (MetricName m) \<in> resource_names
   | PodMetricType \<Rightarrow> Pod m \<noteq> None \<and> to_lower (MetricName m) \<in> usage_names
   | NodeMetricType \<Rightarrow> Node m \<noteq> None \<and> to_lower (MetricName m) \<in> usage_names
   | PromQLMetricType \<Rightarrow> Prom m \<noteq> None
   | OtherMetricType s \<Rightarrow> False)"

lemma workload_supported: "Type m = WorkloadMetricType \<Longrightarrow> isl (workloadQuery ops m fed) \<longleftrightarrow> \<not> supported m"
  by (simp add: workloadQuery_def supported_def resource_names_def usage_names_def Let_def split: option.split)

lemma container_supported: "Type m = ContainerMetricType \<Longrightarrow> isl (containerQuery ops m fed) \<longleftrightarrow> \<not> supported m"
  by (simp add: containerQuery_def supported_def resource_names_def usage_names_def Let_def split: option.split)

lemma pod_supported: "Type m = PodMetricType \<Longrightarrow> isl (podQuery ops m fed) \<longleftrightarrow> \<not> supported m"
  by (simp add: podQuery_def supported_def usage_names_def Let_def split: option.split)

lemma node_supported: "Type m = NodeMetricType \<Longrightarrow> isl (nodeQuery ops m fed) \<longleftrightarrow> \<not> supported m"
  by (simp add: nodeQuery_def supported_def usage_names_def Let_def split: option.split)

definition without_selectors :: "'s metric \<Rightarrow> 's metric" where
  "without_selectors m = m
     \<lparr>Workload := map_option (\<lambda>w. w\<lparr>WSelector := None\<rparr>) (Workload m),
      Container := map_option (\<lambda>c. c\<lparr>CSelector := None\<rparr>) (Container m),
      Pod := map_option (\<lambda>p. p\<lparr>PSelector := None\<rparr>) (Pod m),
      Node := map_option (\<lambda>n. n\<lparr>NSelector := None\<rparr>) (Node m),
      Prom := map_option (\<lambda>p. p\<lparr>QSelector := None\<rparr>) (Prom m)\<rparr>"

lemma clusterCond_False: "clusterCond ops s False = []" "clusterCond ops None fed = []"
  by (simp_all add: clusterCond_def split: option.split)

text \<open>
  A query is built for exactly these metrics: usages of workloads, containers, pods and nodes;
  requests and limits of workloads and containers; replicas of four kinds of workload; and queries
  given as such. Outside a federated scope the selectors change nothing in it.
\<close>

theorem BuildQuery_supported:
  "(isl (BuildQuery ops m fed) \<longleftrightarrow> \<not> supported m) \<and>
   BuildQuery ops m False = BuildQuery ops (without_selectors m) False"
proof
  show "isl (BuildQuery ops m fed) \<longleftrightarrow> \<not> supported m"
  proof (cases "Type m")
    case PromQLMetricType
    then show ?thesis by (simp add: BuildQuery_def promqlQuery_def supported_def split: option.split)
  next
    case (OtherMetricType s)
    then show ?thesis by (simp add: BuildQuery_def supported_def)
  qed (simp_all add: BuildQuery_def workload_supported container_supported pod_supported node_supported)
  show "BuildQuery ops m False = BuildQuery ops (without_selectors m) False"
    by (cases "Type m") (simp_all add: BuildQuery_def workloadQuery_def containerQuery_def podQuery_def
        nodeQuery_def promqlQuery_def without_selectors_def clusterCond_False Let_def split: option.split)
qed

definition shown_metric :: "(string \<times> string) list metric" where
  "shown_metric = WorkloadMetricNamer list_ops ''cls-1'' example_target ''replicas'' None"

theorem BuildQuery_filled_witness:
  "\<exists>q. BuildQuery list_ops shown_metric True = Inr q \<and> Prometheus q = Some (
     interleave (pieces [] (template_of shown_metric)) [WNamespace (the (Workload shown_metric)),
       WName (the (Workload shown_metric)), scope_of list_ops shown_metric True])"
proof -
  have t: "Type shown_metric = WorkloadMetricType" "supported shown_metric"
    "places (template_of shown_metric) = [Some NamespacePlace, Some NamePlace, Some ScopePlace]"
    by code_simp+
  from t(2) BuildQuery_supported [of list_ops shown_metric True] obtain q where
    q: "BuildQuery list_ops shown_metric True = Inr q" by (cases "BuildQuery list_ops shown_metric True") auto
  have "map (\<lambda>before. value_at list_ops shown_metric True (the (place_after before)))
      (butlast (pieces [] (template_of shown_metric))) =
    map (\<lambda>p. value_at list_ops shown_metric True (the p)) (places (template_of shown_metric))"
    by (simp add: places_def comp_def)
  with BuildQuery_filled [OF q] q t show ?thesis by (simp add: Let_def value_at_def)
qed

end
