(* ===== verification/Go_Strconv.thy ===== *)
theory Go_Strconv
  imports Go_Float
begin

text \<open>
  The parts of Go's \<open>strconv\<close> and \<open>fmt\<close> that the program's numbers go through: \<open>ParseInt(s, 10, 64)\<close>,
  \<open>ParseFloat(s, 64)\<close>, \<open>%d\<close> and \<open>%f\<close> with a precision. The parsers return the value beside the
  error, as Go does: zero on a syntax error, the nearest bound or infinity on a range error.
\<close>

datatype num_error = ErrSyntax | ErrRange

section \<open>Digits\<close>

definition digit_table :: "(char \<times> int) list" where
  "digit_table = zip ''0123456789'' [0, 1, 2, 3, 4, 5, 6, 7, 8, 9]"

definition hex_table :: "(char \<times> int) list" where
  "hex_table = digit_table @ zip ''abcdef'' [10, 11, 12, 13, 14, 15]"

definition digit_val :: "char \<Rightarrow> int option" where
  "digit_val c = map_of digit_table c"

definition digit_char :: "int \<Rightarrow> char" where
  "digit_char d = ''0123456789'' ! nat d"

text \<open>The decimal digits of \<open>n\<close>, none for zero, in front of \<open>acc\<close>.\<close>

function digits_acc :: "int \<Rightarrow> string \<Rightarrow> string" where
  "digits_acc n acc = (if n \<le> 0 then acc else digits_acc (n div 10) (digit_char (n mod 10) # acc))"
  by pat_completeness auto
termination by (relation "measure (\<lambda>(n, acc). nat n)") auto

declare digits_acc.simps [simp del]

definition format_nat :: "int \<Rightarrow> string" where
  "format_nat n = (if n \<le> 0 then ''0'' else digits_acc n [])"

text \<open>\<open>%d\<close>, and \<open>%v\<close> of an integer.\<close>

definition format_int :: "int \<Rightarrow> string" where
  "format_int i = (if i < 0 then ''-'' @ format_nat (- i) else format_nat i)"

section \<open>ParseInt\<close>

fun parse_digits :: "string \<Rightarrow> int \<Rightarrow> int option" where
  "parse_digits [] n = Some n"
| "parse_digits (c # s) n =
     (case digit_val c of None \<Rightarrow> None | Some d \<Rightarrow> parse_digits s (10 * n + d))"

definition ParseInt :: "string \<Rightarrow> int \<times> num_error option" where
  "ParseInt s =
     (let (neg, ds) = (case s of c # r \<Rightarrow> if c = CHR ''-'' then (True, r)
                                     else if c = CHR ''+'' then (False, r) else (False, s)
                               | [] \<Rightarrow> (False, []))
      in if ds = [] then (0, Some ErrSyntax)
         else case parse_digits ds 0 of
                None \<Rightarrow> (0, Some ErrSyntax)
              | Some n \<Rightarrow>
                  if \<not> neg \<and> 2^63 \<le> n then (2^63 - 1, Some ErrRange)
                  else if neg \<and> 2^63 < n then (- (2^63), Some ErrRange)
                  else (if neg then - n else n, None))"

section \<open>ParseFloat\<close>

text \<open>What scanning a mantissa finds: its value, the digits after the point, the rest.\<close>

record mantissa =
  mant :: int
  frac_digits :: int
  saw_dot :: bool
  saw_digits :: bool
  saw_underscore :: bool

fun scan_mantissa :: "int \<Rightarrow> (char \<times> int) list \<Rightarrow> string \<Rightarrow> mantissa \<Rightarrow> mantissa \<times> string" where
  "scan_mantissa base tab [] m = (m, [])"
| "scan_mantissa base tab (c # s) m =
     (if c = CHR ''_'' then scan_mantissa base tab s (m\<lparr>saw_underscore := True\<rparr>)
      else if c = CHR ''.'' then
        (if saw_dot m then (m, c # s) else scan_mantissa base tab s (m\<lparr>saw_dot := True\<rparr>))
      else case map_of tab (lower_char c) of
             None \<Rightarrow> (m, c # s)
           | Some d \<Rightarrow> scan_mantissa base tab s
               (m\<lparr>mant := base * mant m + d, saw_digits := True,
                  frac_digits := frac_digits m + (if saw_dot m then 1 else 0)\<rparr>))"

fun scan_exponent :: "string \<Rightarrow> int \<Rightarrow> bool \<Rightarrow> int \<times> bool \<times> string" where
  "scan_exponent [] e us = (e, us, [])"
| "scan_exponent (c # s) e us =
     (if c = CHR ''_'' then scan_exponent s e True
      else case digit_val c of
             None \<Rightarrow> (e, us, c # s)
           | Some d \<Rightarrow> scan_exponent s (if e < 10000 then 10 * e + d else e) us)"

text \<open>
  \<open>underscoreOK\<close>: underscores only between digits, or between a base prefix and a digit. The
  state is the class of the character before: \<open>CHR ''^''\<close> at the start, \<open>CHR ''0''\<close> for a digit,
  \<open>CHR ''_''\<close>, and \<open>CHR ''!''\<close> for any other.
\<close>

fun underscore_run :: "bool \<Rightarrow> char \<Rightarrow> string \<Rightarrow> bool" where
  "underscore_run hex i [] = (i \<noteq> CHR ''_'')"
| "underscore_run hex i (c # s) =
     (if digit_val c \<noteq> None \<or> (hex \<and> map_of hex_table (lower_char c) \<noteq> None)
      then underscore_run hex CHR ''0'' s
      else if c = CHR ''_'' then (if i \<noteq> CHR ''0'' then False else underscore_run hex CHR ''_'' s)
      else (if i = CHR ''_'' then False else underscore_run hex CHR ''!'' s))"

definition strip_sign :: "string \<Rightarrow> bool \<times> bool \<times> string" where
  "strip_sign s = (case s of [] \<Rightarrow> (False, False, [])
     | c # r \<Rightarrow> if c = CHR ''-'' then (True, True, r)
               else if c = CHR ''+'' then (True, False, r) else (False, False, s))"

definition hex_prefix :: "string \<Rightarrow> bool" where
  "hex_prefix s = (case s of a # b # r \<Rightarrow> a = CHR ''0'' \<and> lower_char b = CHR ''x'' | _ \<Rightarrow> False)"

definition underscoreOK :: "string \<Rightarrow> bool" where
  "underscoreOK s =
     (let (_, _, s) = strip_sign s
      in case s of
           a # b # r \<Rightarrow>
             if a = CHR ''0'' \<and> lower_char b \<in> set ''box''
             then underscore_run (lower_char b = CHR ''x'') CHR ''0'' r
             else underscore_run False CHR ''^'' s
         | _ \<Rightarrow> underscore_run False CHR ''^'' s)"

text \<open>The special values; \<open>Some\<close> when the whole string is one.\<close>

definition special :: "string \<Rightarrow> float64 option" where
  "special s =
     (let (signed, neg, r) = strip_sign s; l = to_lower r
      in if l = ''inf'' \<or> l = ''infinity'' then Some (Inf neg)
         else if \<not> signed \<and> l = ''nan'' then Some NaN else None)"

text \<open>A finite number \<open>mant * 10^dec * 2^bin\<close>; \<open>None\<close> is a syntax error.\<close>

definition pow10 :: "int \<Rightarrow> int" where
  "pow10 n = 10 ^ nat n"

definition read_float :: "string \<Rightarrow> (bool \<times> int \<times> int \<times> int) option" where
  "read_float s =
     (let (_, neg, r) = strip_sign s; hex = hex_prefix r;
          (m, rest) = scan_mantissa (if hex then 16 else 10) (if hex then hex_table else digit_table)
             (if hex then drop 2 r else r)
             \<lparr>mant = 0, frac_digits = 0, saw_dot = False, saw_digits = False, saw_underscore = False\<rparr>
      in if \<not> saw_digits m then None
         else case rest of
           [] \<Rightarrow> if hex then None
                else if saw_underscore m \<and> \<not> underscoreOK s then None
                else Some (neg, mant m, - frac_digits m, 0)
         | c # r1 \<Rightarrow>
             if lower_char c \<noteq> (if hex then CHR ''p'' else CHR ''e'') then None
             else let (_, eneg, r2) = strip_sign r1
                  in case r2 of
                       [] \<Rightarrow> None
                     | d # _ \<Rightarrow>
                         if digit_val d = None then None
                         else let (e, us, r3) = scan_exponent r2 0 (saw_underscore m);
                                  e = (if eneg then - e else e)
                              in if r3 \<noteq> [] \<or> (us \<and> \<not> underscoreOK s) then None
                                 else if hex then Some (neg, mant m, 0, e - 4 * frac_digits m)
                                 else Some (neg, mant m, e - frac_digits m, 0))"

definition dec_to_float :: "bool \<Rightarrow> int \<Rightarrow> int \<Rightarrow> int \<Rightarrow> float64" where
  "dec_to_float neg m dec bin =
     rnd neg (m * pow10 dec * pow2 bin) (pow10 (- dec) * pow2 (- bin))"

definition ParseFloat :: "string \<Rightarrow> float64 \<times> num_error option" where
  "ParseFloat s = (case special s of
     Some x \<Rightarrow> (x, None)
   | None \<Rightarrow> (case read_float s of
       None \<Rightarrow> (0, Some ErrSyntax)
     | Some (neg, m, dec, bin) \<Rightarrow>
         (let x = dec_to_float neg m dec bin
          in (x, case x of Inf _ \<Rightarrow> Some ErrRange | _ \<Rightarrow> None))))"

section \<open>Formatting with a fixed precision\<close>

definition pad_left :: "nat \<Rightarrow> string \<Rightarrow> string" where
  "pad_left n s = replicate (n - length s) CHR ''0'' @ s"

text \<open>The digits of \<open>n / 10^p\<close>.\<close>

definition fixed_digits :: "nat \<Rightarrow> int \<Rightarrow> string" where
  "fixed_digits p n =
     format_nat (n div 10 ^ p) @ (if p = 0 then [] else ''.'' @ pad_left p (digits_acc (n mod 10 ^ p) []))"

definition format_fixed :: "nat \<Rightarrow> float64 \<Rightarrow> string" where
  "format_fixed p x = (case x of
     NaN \<Rightarrow> ''NaN''
   | Inf s \<Rightarrow> if s then ''-Inf'' else ''+Inf''
   | Fin s m e \<Rightarrow> (if s then ''-'' else []) @
       fixed_digits p (rdiv (m * 10 ^ p * pow2 e) (pow2 (- e))))"

section \<open>Formatting with %v\<close>

text \<open>
  \<open>%v\<close> of a \<open>float64\<close>: the shortest decimal that reads back as the value, the nearest of them,
  in the notation of \<open>%g\<close>. \<open>dec_exp n d\<close> is the number of digits before the point of \<open>n / d\<close>.
\<close>

fun dec_exp_from :: "nat \<Rightarrow> int \<Rightarrow> int \<Rightarrow> int \<Rightarrow> int" where
  "dec_exp_from 0 k n d = k"
| "dec_exp_from (Suc fuel) k n d =
     (if pow10 k * d \<le> n * pow10 (- k) then dec_exp_from fuel (k + 1) n d else k)"

text \<open>The search starts below the answer: \<open>log10 2\<close> is between 0.301 and 0.302.\<close>

definition dec_exp :: "int \<Rightarrow> int \<Rightarrow> int" where
  "dec_exp n d = (let b = blen n - blen d - 1
     in dec_exp_from 10 (if 0 \<le> b then (b * 301) div 1000 - 1 else (b * 302) div 1000 - 1) n d)"

text \<open>The two neighbours of \<open>n / d\<close> with \<open>k\<close> digits that read back as \<open>x\<close>, the nearer first.\<close>

definition shortest_with :: "float64 \<Rightarrow> int \<Rightarrow> int \<Rightarrow> int \<Rightarrow> int \<Rightarrow> int option" where
  "shortest_with x n d de k =
     (let a = n * pow10 (k - de); b = d * pow10 (de - k); lo = a div b; r = a mod b;
          ok = \<lambda>q. dec_to_float False q (de - k) 0 = x
      in if 2 * r \<le> b then (if ok lo then Some lo else if ok (lo + 1) then Some (lo + 1) else None)
         else (if ok (lo + 1) then Some (lo + 1) else if ok lo then Some lo else None))"

fun shortest_from :: "nat \<Rightarrow> int \<Rightarrow> float64 \<Rightarrow> int \<Rightarrow> int \<Rightarrow> int \<Rightarrow> int \<times> int" where
  "shortest_from 0 k x n d de = ((n * pow10 (17 - de)) div (d * pow10 (de - 17)), de)"
| "shortest_from (Suc fuel) k x n d de = (case shortest_with x n d de k of
     Some q \<Rightarrow> (if q = pow10 k then (1, de + 1) else (q, de))
   | None \<Rightarrow> shortest_from fuel (k + 1) x n d de)"

text \<open>The layouts of \<open>%e\<close> and \<open>%f\<close> with the digits there are.\<close>

definition layout_e :: "string \<Rightarrow> int \<Rightarrow> string" where
  "layout_e ds e = take 1 ds @ (if drop 1 ds = [] then [] else CHR ''.'' # drop 1 ds) @ ''e'' @
     (if e < 0 then ''-'' else ''+'') @ pad_left 2 (format_nat \<bar>e\<bar>)"

definition layout_f :: "string \<Rightarrow> int \<Rightarrow> string" where
  "layout_f ds de =
     (if de \<le> 0 then ''0.'' @ replicate (nat (- de)) CHR ''0'' @ ds
      else if int (length ds) \<le> de then ds @ replicate (nat de - length ds) CHR ''0''
      else take (nat de) ds @ ''.'' @ drop (nat de) ds)"

text \<open>\<open>%e\<close> below \<open>1e-4\<close> and from \<open>1e+06\<close> on, otherwise \<open>%f\<close>.\<close>

definition layout :: "string \<Rightarrow> int \<Rightarrow> string" where
  "layout ds de = (if de < -3 \<or> 7 \<le> de then layout_e ds (de - 1) else layout_f ds de)"

definition format_v :: "float64 \<Rightarrow> string" where
  "format_v x = (case x of
     NaN \<Rightarrow> ''NaN''
   | Inf s \<Rightarrow> if s then ''-Inf'' else ''+Inf''
   | Fin s m e \<Rightarrow> (if s then ''-'' else []) @
       (if m = 0 then ''0''
        else let n = m * pow2 e; d = pow2 (- e);
                 (q, de) = shortest_from 17 1 (Fin False m e) n d (dec_exp n d)
             in layout (format_nat q) de))"

section \<open>Round trips\<close>

lemma digit_cases:
  assumes "0 \<le> d" "d < 10"
  shows "d \<in> {0, 1, 2, 3, 4, 5, 6, 7, 8, 9 :: int}"
  using assms unfolding insert_iff empty_iff by presburger

lemma digit_val_char: "0 \<le> d \<Longrightarrow> d < 10 \<Longrightarrow> digit_val (digit_char d) = Some d"
  by (drule (1) digit_cases, elim insertE emptyE)
     (simp_all add: digit_val_def digit_char_def digit_table_def)

lemma digit_char_digit: "0 \<le> d \<Longrightarrow> d < 10 \<Longrightarrow> digit_char d \<in> set ''0123456789''"
  by (drule (1) digit_cases, elim insertE emptyE) (simp_all add: digit_char_def)

lemma parse_digits_acc: "0 \<le> n \<Longrightarrow> parse_digits (digits_acc n acc) 0 = parse_digits acc n"
proof (induction n acc rule: digits_acc.induct)
  case (1 n acc)
  show ?case
  proof (cases "n = 0")
    case False
    with 1 show ?thesis
      by (simp add: digits_acc.simps [of n] digit_val_char)
  qed (simp add: digits_acc.simps)
qed

lemma set_digits_acc: "set (digits_acc n acc) \<subseteq> set ''0123456789'' \<union> set acc"
proof (induction n acc rule: digits_acc.induct)
  case (1 n acc)
  then show ?case
    using digit_char_digit [of "n mod 10"] by (subst digits_acc.simps) auto
qed

lemma digits_acc_ne: "acc \<noteq> [] \<Longrightarrow> digits_acc n acc \<noteq> []"
  by (induction n acc rule: digits_acc.induct) (subst digits_acc.simps, simp)

lemma format_nat_parse: "0 \<le> n \<Longrightarrow> parse_digits (format_nat n) 0 = Some n"
  by (auto simp: format_nat_def parse_digits_acc digit_val_def digit_table_def)

lemma format_nat_digits: "set (format_nat n) \<subseteq> set ''0123456789''"
  using set_digits_acc [of n "[]"] by (simp add: format_nat_def)

lemma format_nat_ne: "format_nat n \<noteq> []"
  by (simp add: format_nat_def digits_acc.simps [of n] digits_acc_ne)

lemma format_nat_Cons: obtains c s where "format_nat n = c # s" "c \<noteq> CHR ''-''" "c \<noteq> CHR ''+''"
  using format_nat_ne [of n] format_nat_digits [of n] by (cases "format_nat n") auto

lemma ParseInt_format:
  assumes "- (2^63) \<le> i" "i < 2^63"
  shows "ParseInt (format_int i) = (i, None)"
proof (cases "i < 0")
  case True
  obtain c s where "format_nat (- i) = c # s" by (rule format_nat_Cons)
  with True assms format_nat_parse [of "- i"] show ?thesis
    by (simp add: ParseInt_def format_int_def)
next
  case False
  obtain c s where c: "format_nat i = c # s" "c \<noteq> CHR ''-''" "c \<noteq> CHR ''+''" by (rule format_nat_Cons)
  with False assms format_nat_parse [of i] show ?thesis
    by (simp add: ParseInt_def format_int_def del: parse_digits.simps)
qed

text \<open>What the formatters put out has none of the separators that the program splits at.\<close>

lemma format_int_chars: "set (format_int i) \<subseteq> insert CHR ''-'' (set ''0123456789'')"
proof -
  define D where "D = set ''0123456789''"
  have "set (format_nat n) \<subseteq> D" for n unfolding D_def by (rule format_nat_digits)
  then have "set (format_int i) \<subseteq> insert CHR ''-'' D"
    by (auto simp: format_int_def)
  then show ?thesis by (simp only: D_def)
qed

end
