(* ===== verification/Regions.thy ===== *)
theory Regions
  imports Prelude
begin

text \<open>
  The two region tables of \<open>pkg/cloudsdk/qcloud/client.go\<close>: \<open>ShortName2region\<close> and
  \<open>Region2shortNameRegion\<close>. Of the five fields of an entry the two display names, which the program
  never reads, are left out.
\<close>

record region =
  RegionId :: int
  Region :: string
  RegionShortName :: string

definition region :: "int \<Rightarrow> string \<Rightarrow> string \<Rightarrow> region" where
  "region i r s = \<lparr>RegionId = i, Region = r, RegionShortName = s\<rparr>"

definition short_regions_south_and_east :: "(string \<times> region) list" where
  "short_regions_south_and_east = [
     (''gz'', region 1 ''ap-guangzhou'' ''gz''),
     (''gzopen'', region 12 ''ap-guangzhou-open'' ''gzopen''),
     (''qy'', region 54 ''ap-qingyuan'' ''qy''),
     (''szx'', region 37 ''ap-shenzhen'' ''szx''),
     (''szjr'', region 11 ''ap-shenzhen-fsi'' ''szjr''),
     (''sh'', region 4 ''ap-shanghai'' ''sh''),
     (''shjr'', region 7 ''ap-shanghai-fsi'' ''shjr''),
     (''nj'', region 33 ''ap-nanjing'' ''nj''),
     (''jnec'', region 31 ''ap-jinan-ec'' ''jnec''),
     (''hzec'', region 32 ''ap-hangzhou-ec'' ''hzec''),
     (''fzec'', region 34 ''ap-fuzhou-ec'' ''fzec''),
     (''bj'', region 8 ''ap-beijing'' ''bj''),
     (''tsn'', region 36 ''ap-tianjin'' ''tsn''),
     (''sjwec'', region 53 ''ap-shijiazhuang-ec'' ''sjwec''),
     (''bjjr'', region 46 ''ap-beijing-fsi'' ''bjjr''),
     (''whec'', region 35 ''ap-wuhan-ec'' ''whec''),
     (''csec'', region 45 ''ap-changsha-ec'' ''csec''),
     (''cd'', region 16 ''ap-chengdu'' ''cd'')]"

definition short_regions_west_and_abroad :: "(string \<times> region) list" where
  "short_regions_west_and_abroad = [
     (''cq'', region 19 ''ap-chongqing'' ''cq''),
     (''hfeec'', region 55 ''ap-hefei-ec'' ''hfeec''),
     (''sheec'', region 56 ''ap-shenyang-ec'' ''sheec''),
     (''xiyec'', region 57 ''ap-xian-ec'' ''xiyec''),
     (''cgoec'', region 71 ''ap-zhengzhou-ec'' ''cgoec''),
     (''tpe'', region 39 ''ap-taipei'' ''tpe''),
     (''hk'', region 5 ''ap-hongkong'' ''hk''),
     (''sg'', region 9 ''ap-singapore'' ''sg''),
     (''th'', region 23 ''ap-bangkok'' ''th''),
     (''jkt'', region 72 ''ap-jakarta'' ''jkt''),
     (''in'', region 21 ''ap-mumbai'' ''in''),
     (''kr'', region 18 ''ap-seoul'' ''kr''),
     (''jp'', region 25 ''ap-tokyo'' ''jp''),
     (''usw'', region 15 ''na-siliconvalley'' ''usw''),
     (''use'', region 22 ''na-ashburn'' ''use''),
     (''ca'', region 6 ''na-toronto'' ''ca''),
     (''de'', region 17 ''eu-frankfurt'' ''de''),
     (''ru'', region 24 ''eu-moscow'' ''ru'')]"

definition ShortName2region :: "string \<Rightarrow> region option" where
  "ShortName2region s = map_of (short_regions_south_and_east @ short_regions_west_and_abroad) s"

definition long_regions_south_and_east :: "(string \<times> region) list" where
  "long_regions_south_and_east = [
     (''ap-guangzhou'', region 1 ''ap-guangzhou'' ''gz''),
     (''ap-guangzhou-open'', region 12 ''ap-guangzhou-open'' ''gzopen''),
     (''ap-qingyuan'', region 54 ''ap-qingyuan'' ''qy''),
     (''ap-shenzhen'', region 37 ''ap-shenzhen'' ''szx''),
     (''ap-shenzhen-fsi'', region 11 ''ap-shenzhen-fsi'' ''szjr''),
     (''ap-shanghai'', region 4 ''ap-shanghai'' ''sh''),
     (''ap-shanghai-fsi'', region 7 ''ap-shanghai-fsi'' ''shjr''),
     (''ap-nanjing'', region 33 ''ap-nanjing'' ''nj''),
     (''ap-jinan-ec'', region 31 ''ap-jinan-ec'' ''jnec''),
     (''ap-hangzhou-ec'', region 32 ''ap-hangzhou-ec'' ''hzec''),
     (''ap-fuzhou-ec'', region 34 ''ap-fuzhou-ec'' ''fzec''),
     (''ap-beijing'', region 8 ''ap-beijing'' ''bj''),
     (''ap-tianjin'', region 36 ''ap-tianjin'' ''tsn''),
     (''ap-shijiazhuang-ec'', region 53 ''ap-shijiazhuang-ec'' ''sjwec''),
     (''ap-beijing-fsi'', region 46 ''ap-beijing-fsi'' ''bjjr''),
     (''ap-wuhan-ec'', region 35 ''ap-wuhan-ec'' ''whec''),
     (''ap-changsha-ec'', region 45 ''ap-changsha-ec'' ''csec''),
     (''ap-chengdu'', region 16 ''ap-chengdu'' ''cd'')]"

definition long_regions_west_and_abroad :: "(string \<times> region) list" where
  "long_regions_west_and_abroad = [
     (''ap-chongqing'', region 19 ''ap-chongqing'' ''cq''),
     (''ap-hefei-ec'', region 55 ''ap-hefei-ec'' ''hfeec''),
     (''ap-shenyang-ec'', region 56 ''ap-shenyang-ec'' ''sheec''),
     (''ap-xian-ec'', region 57 ''ap-xian-ec'' ''xiyec''),
     (''ap-zhengzhou-ec'', region 71 ''ap-zhengzhou-ec'' ''cgoec''),
     (''ap-taipei'', region 39 ''ap-taipei'' ''tpe''),
     (''ap-hongkong'', region 5 ''ap-hongkong'' ''hk''),
     (''ap-singapore'', region 9 ''ap-singapore'' ''sg''),
     (''ap-bangkok'', region 23 ''ap-bangkok'' ''th''),
     (''ap-jakarta'', region 72 ''ap-jakarta'' ''jkt''),
     (''ap-mumbai'', region 21 ''ap-mumbai'' ''in''),
     (''ap-seoul'', region 18 ''ap-seoul'' ''kr''),
     (''ap-tokyo'', region 25 ''ap-tokyo'' ''jp''),
     (''na-siliconvalley'', region 15 ''na-siliconvalley'' ''usw''),
     (''na-ashburn'', region 22 ''na-ashburn'' ''use''),
     (''na-toronto'', region 6 ''na-toronto'' ''ca''),
     (''eu-frankfurt'', region 17 ''eu-frankfurt'' ''de''),
     (''eu-moscow'', region 24 ''eu-moscow'' ''ru'')]"

definition Region2shortNameRegion :: "string \<Rightarrow> region option" where
  "Region2shortNameRegion s = map_of (long_regions_south_and_east @ long_regions_west_and_abroad) s"

lemmas region_tables = ShortName2region_def Region2shortNameRegion_def
  short_regions_south_and_east_def short_regions_west_and_abroad_def
  long_regions_south_and_east_def long_regions_west_and_abroad_def region_def

definition all_short_regions :: "(string \<times> region) list" where
  "all_short_regions = short_regions_south_and_east @ short_regions_west_and_abroad"

definition all_long_regions :: "(string \<times> region) list" where
  "all_long_regions = long_regions_south_and_east @ long_regions_west_and_abroad"

text \<open>Both tables as one check: each entry is found from the other side as the same record.\<close>

definition tables_agree :: bool where
  "tables_agree \<longleftrightarrow>
     (\<forall>(s, r) \<in> set all_short_regions. RegionShortName r = s \<and>
        Region2shortNameRegion (Region r) = Some r) \<and>
     (\<forall>(l, r) \<in> set all_long_regions. Region r = l \<and>
        ShortName2region (RegionShortName r) = Some r)"

lemma tables_agree: "tables_agree"
  by code_simp

lemma short_entry: "ShortName2region s = Some r \<Longrightarrow>
    RegionShortName r = s \<and> Region2shortNameRegion (Region r) = Some r"
  using tables_agree
  by (auto simp: tables_agree_def all_short_regions_def ShortName2region_def dest!: map_of_SomeD)

lemma long_entry: "Region2shortNameRegion l = Some r \<Longrightarrow>
    Region r = l \<and> ShortName2region (RegionShortName r) = Some r"
  using tables_agree
  by (auto simp: tables_agree_def all_long_regions_def Region2shortNameRegion_def dest!: map_of_SomeD)

text \<open>
  The two region tables are inverse to each other: a short name is found as a region exactly
  when that region's full name is found with that short name, and both give the same record.
\<close>

theorem region_tables_inverse:
  "ShortName2region s = Some r \<and> Region r = l \<longleftrightarrow>
   Region2shortNameRegion l = Some r \<and> RegionShortName r = s"
  using short_entry [of s r] long_entry [of l r] by blast

end
