(* ===== verification/Cloud_Core.thy ===== *)
theory Cloud_Core
  imports Go_Strconv Regions Registry
begin

text \<open>
  Package \<open>cloud\<close> and what it stands on: the Kubernetes objects as the program reads them, the label
  getters of \<open>pkg/util/annotation.go\<close>, the specs of \<open>pkg/spec\<close>, the price records of
  \<open>provider.go\<close> and \<open>pricer.go\<close>, the custom pricing of \<open>cloud.go\<close> and the provider registry of
  \<open>plugins.go\<close>. A Kubernetes \<open>resource.Quantity\<close> is a value of the type \<open>'q\<close>; the library's
  operations on it are the fields of \<open>quantity_ops\<close>. A nil map is an empty one where the code only
  reads it.
\<close>

section \<open>Kubernetes objects\<close>

record 'q quantity_ops =
  QValue :: "'q \<Rightarrow> int"
  QMilliValue :: "'q \<Rightarrow> int"
  QAdd :: "'q \<Rightarrow> 'q \<Rightarrow> 'q"
  QZero :: 'q
  QNew :: "int \<Rightarrow> 'q"
  QNewMilli :: "int \<Rightarrow> 'q"
  QString :: "'q \<Rightarrow> string"

type_synonym labels = "(string, string) gomap"

type_synonym 'q resource_list = "(string, 'q) gomap"

record owner_ref =
  OwnerKind :: string
  OwnerName :: string
  OwnerAPIVersion :: string

record 'q container =
  ContainerName :: string
  Requests :: "'q resource_list option"
  Limits :: "'q resource_list option"

record 'q pod =
  PodNamespace :: string
  PodName :: string
  PodNodeName :: string
  PodLabels :: labels
  PodAnnotations :: "labels option"
  PodOwners :: "owner_ref list"
  PodContainers :: "'q container list"

record 'q node =
  NodeName :: string
  NodeLabels :: labels
  NodeProviderID :: string
  NodeCapacity :: "'q resource_list"

text \<open>Indexing a resource list gives the zero quantity when the name is missing.\<close>

definition res :: "'q quantity_ops \<Rightarrow> 'q resource_list \<Rightarrow> string \<Rightarrow> 'q" where
  "res ops rl name = mget_default (QZero ops) rl name"

text \<open>\<open>klog.KObj(pod).String()\<close>.\<close>

definition KObj :: "'q pod \<Rightarrow> string" where
  "KObj p = (if PodNamespace p \<noteq> [] then PodNamespace p @ ''/'' @ PodName p else PodName p)"

section \<open>Labels\<close>

fun first_label :: "string list \<Rightarrow> labels \<Rightarrow> string \<times> bool" where
  "first_label [] m = ([], False)"
| "first_label (k # ks) m = (case mget m k of Some v \<Rightarrow> (v, True) | None \<Rightarrow> first_label ks m)"

definition GetRegion :: "labels \<Rightarrow> string \<times> bool" where
  "GetRegion m = first_label [''topology.kubernetes.io/region'', ''failure-domain.beta.kubernetes.io/region''] m"

definition GetZone :: "labels \<Rightarrow> string \<times> bool" where
  "GetZone m = first_label [''topology.kubernetes.io/zone'', ''failure-domain.beta.kubernetes.io/zone''] m"

definition GetInstanceType :: "labels \<Rightarrow> string \<times> bool" where
  "GetInstanceType m = first_label [''beta.kubernetes.io/instance-type'', ''node.kubernetes.io/instance-type''] m"

definition GetOperatingSystem :: "labels \<Rightarrow> string \<times> bool" where
  "GetOperatingSystem m = first_label [''kubernetes.io/os'', ''beta.kubernetes.io/os''] m"

section \<open>Specs and prices\<close>

record 'q CloudPodSpec =
  PodRef :: "'q pod"
  Cpu :: 'q
  Mem :: 'q
  CpuLimit :: 'q
  MemLimit :: 'q
  Zone :: string
  MachineArch :: string
  PodChargeType :: string
  TimeSpan :: int
  GoodsNum :: int
  Serverless :: bool
  QoSClass :: string

record 'q CloudNodeSpec =
  NodeRef :: "'q node"
  NodeCpu :: 'q
  NodeMem :: 'q
  NodeInstanceType :: string
  NodeChargeType :: string
  NodeZone :: string
  NodeRegion :: string
  VirtualNode :: bool

record Prices =
  TotalPrice :: float64
  DiscountPrice :: "float64 option"

record BaseInstancePrice =
  DiscountedCost :: string
  Cost :: string
  PCpu :: string
  CpuHourlyCost :: string
  Ram :: string
  RamBytes :: string
  RamGBHourlyCost :: string
  UsesDefaultPrice :: bool
  DefaultCpuPrice :: string
  DefaultRamPrice :: string
  UsageType :: string
  InstanceType :: string
  PRegion :: string
  ProviderID :: string

definition empty_price :: BaseInstancePrice where
  "empty_price = \<lparr>DiscountedCost = [], Cost = [], PCpu = [], CpuHourlyCost = [], Ram = [],
     RamBytes = [], RamGBHourlyCost = [], UsesDefaultPrice = False, DefaultCpuPrice = [],
     DefaultRamPrice = [], UsageType = [], InstanceType = [], PRegion = [], ProviderID = []\<rparr>"

datatype platform_kind = ServerlessKind | ServerfulKind | OtherPlatform string

record PlatformParameter =
  Nodes :: "int option"
  ClusterLevel :: "string option"
  Platform :: platform_kind

text \<open>What the costers call: the three pricers, with the provider's state inside the functions.\<close>

record ('q, 'e) Pricer =
  NodePrice :: "'q CloudNodeSpec \<Rightarrow> 'e + BaseInstancePrice"
  ServerlessPodPrice :: "'q CloudPodSpec \<Rightarrow> 'e + BaseInstancePrice"
  PlatformPrice :: "PlatformParameter \<Rightarrow> Prices"

section \<open>Custom pricing\<close>

record CustomPricing =
  CRegion :: string
  CProvider :: string
  CDescription :: string
  CpuHourlyPrice :: float64
  RamGBHourlyPrice :: float64

datatype pricing_error = NoSuchField string | TypeMismatch | ParseError num_error | NilConfig

datatype field_kind = KString | KFloat64

text \<open>What \<open>reflect\<close> finds for a field name; every field is exported, so it can be set.\<close>

definition field_kind :: "string \<Rightarrow> field_kind option" where
  "field_kind name = map_of [(''Region'', KString), (''Provider'', KString), (''Description'', KString),
     (''CpuHourlyPrice'', KFloat64), (''RamGBHourlyPrice'', KFloat64)] name"

definition set_string_field :: "string \<Rightarrow> string \<Rightarrow> CustomPricing \<Rightarrow> CustomPricing" where
  "set_string_field name v c =
     (if name = ''Region'' then c\<lparr>CRegion := v\<rparr>
      else if name = ''Provider'' then c\<lparr>CProvider := v\<rparr>
      else if name = ''Description'' then c\<lparr>CDescription := v\<rparr> else c)"

definition set_float_field :: "string \<Rightarrow> float64 \<Rightarrow> CustomPricing \<Rightarrow> CustomPricing" where
  "set_float_field name v c =
     (if name = ''CpuHourlyPrice'' then c\<lparr>CpuHourlyPrice := v\<rparr>
      else if name = ''RamGBHourlyPrice'' then c\<lparr>RamGBHourlyPrice := v\<rparr> else c)"

text \<open>The value given is a string, so its type is compared with the field's before it is parsed.\<close>

definition SetCustomPricing ::
    "CustomPricing \<Rightarrow> string \<Rightarrow> string \<Rightarrow> pricing_error + CustomPricing" where
  "SetCustomPricing c name v = (case field_kind name of
     None \<Rightarrow> Inl (NoSuchField name)
   | Some k \<Rightarrow>
       if k \<noteq> KString then Inl TypeMismatch
       else if k = KFloat64 then (case ParseFloat v of
         (x, Some e) \<Rightarrow> Inl (ParseError e)
       | (x, None) \<Rightarrow> Inr (set_float_field name x c))
       else Inr (set_string_field name v c))"

text \<open>\<open>strings.Title\<close> on ASCII: a letter after anything but a letter, digit or underscore.\<close>

definition upper_char :: "char \<Rightarrow> char" where
  "upper_char c = (case map_of (map (\<lambda>(a, b). (b, a)) lower_table) c of None \<Rightarrow> c | Some d \<Rightarrow> d)"

definition word_char :: "char \<Rightarrow> bool" where
  "word_char c \<longleftrightarrow> c \<in> set ''abcdefghijklmnopqrstuvwxyzABCDEFGHIJKLMNOPQRSTUVWXYZ0123456789_''"

fun title_from :: "bool \<Rightarrow> string \<Rightarrow> string" where
  "title_from inword [] = []"
| "title_from inword (c # s) = (if inword then c else upper_char c) # title_from (word_char c) s"

definition Title :: "string \<Rightarrow> string" where
  "Title s = title_from False s"

text \<open>
  \<open>UpdateConfigFromConfigMap\<close>: the entries in the order of one iteration over the map; it stops at
  the first error and keeps what was set before. The second component is the error.
\<close>

fun UpdateConfigFromConfigMap ::
    "CustomPricing \<Rightarrow> labels \<Rightarrow> CustomPricing \<times> pricing_error option" where
  "UpdateConfigFromConfigMap c [] = (c, None)"
| "UpdateConfigFromConfigMap c ((k, v) # rest) = (case SetCustomPricing c (Title k) v of
     Inl e \<Rightarrow> (c, Some e)
   | Inr c' \<Rightarrow> UpdateConfigFromConfigMap c' rest)"

section \<open>Regions and providers\<close>

datatype provider_kind = TencentCloud | DefaultCloud

definition DetectProvider :: "'q node \<Rightarrow> provider_kind" where
  "DetectProvider n = (if contains (NodeProviderID n) ''qcloud'' then TencentCloud else DefaultCloud)"

definition DetectRegion :: "'q node \<Rightarrow> string" where
  "DetectRegion n =
     (let r = fst (GetRegion (NodeLabels n))
      in if DetectProvider n = TencentCloud
         then (case ShortName2region r of Some s \<Rightarrow> Region s | None \<Rightarrow> [])
         else r)"

section \<open>The provider registry\<close>

text \<open>
  A factory makes a cloud from an optional configuration; \<open>Inr None\<close> is a nil cloud without an
  error. \<open>None\<close> of \<open>RegisterCloudProvider\<close> and \<open>Fatal\<close> stand for \<open>klog.Fatalf\<close>, which exits.
\<close>

datatype 'e init_error = Fatal string | InitFailed string 'e | UnknownProvider string

type_synonym ('cfg, 'e, 'cloud) factory = "'cfg option \<Rightarrow> 'e + 'cloud option"

type_synonym ('cfg, 'e, 'cloud) providers = "(string, ('cfg, 'e, 'cloud) factory) gomap"

definition RegisterCloudProvider ::
    "string \<Rightarrow> ('cfg, 'e, 'cloud) factory \<Rightarrow> ('cfg, 'e, 'cloud) providers \<Rightarrow>
     ('cfg, 'e, 'cloud) providers option" where
  "RegisterCloudProvider name f m = (case mget m name of
     Some g \<Rightarrow> None
   | None \<Rightarrow> Some (mput name f m))"

definition GetCloudProvider ::
    "('cfg, 'e, 'cloud) providers \<Rightarrow> string \<Rightarrow> 'cfg option \<Rightarrow> 'e + 'cloud option" where
  "GetCloudProvider m name cfg = (case mget m name of None \<Rightarrow> Inr None | Some f \<Rightarrow> f cfg)"

definition InitCloudProvider ::
    "(string \<Rightarrow> 'cfg option) \<Rightarrow> ('cfg, 'e, 'cloud) providers \<Rightarrow> string \<Rightarrow> string \<Rightarrow>
     'e init_error + 'cloud" where
  "InitCloudProvider open_file m provider config_file =
     (let result = (if config_file \<noteq> [] then
          (case open_file config_file of
             None \<Rightarrow> Inl (Fatal config_file)
           | Some cfg \<Rightarrow> Inr (GetCloudProvider m provider (Some cfg)))
        else Inr (GetCloudProvider m provider None))
      in case result of
           Inl e \<Rightarrow> Inl e
         | Inr (Inl e) \<Rightarrow> Inl (InitFailed provider e)
         | Inr (Inr None) \<Rightarrow> Inl (UnknownProvider provider)
         | Inr (Inr (Some c)) \<Rightarrow> Inr c)"

interpretation cloud_providers: registry wf_map mget RegisterCloudProvider
  by unfold_locales (auto simp: RegisterCloudProvider_def split: option.splits)

lemma register_all_distinct:
  "put_all RegisterCloudProvider kvs m = Some m' \<Longrightarrow>
     distinct (map fst kvs) \<and> mkeys m' = mkeys m \<union> set (map fst kvs) \<and>
     mkeys m \<inter> set (map fst kvs) = {}"
proof (induction kvs arbitrary: m)
  case (Cons kv kvs)
  obtain k f where kv: "kv = (k, f)" by fastforce
  from Cons.prems obtain m1 where m1: "RegisterCloudProvider k f m = Some m1"
    and r1: "put_all RegisterCloudProvider kvs m1 = Some m'"
    by (auto simp: kv split: option.splits)
  from m1 have k: "mget m k = None" and "m1 = mput k f m"
    by (auto simp: RegisterCloudProvider_def split: option.splits)
  with r1 have r: "put_all RegisterCloudProvider kvs (mput k f m) = Some m'" by blast
  from k have "k \<notin> mkeys m" by (simp add: mget_None_iff)
  with Cons.IH [OF r] show ?case by (auto simp: kv)
qed simp

text \<open>
  Registering providers succeeds only for distinct names, and then InitCloudProvider without
  a configuration file returns the cloud that the named provider's factory makes, or says that
  the name is unknown, that the factory failed, or that it made nothing.
\<close>

theorem InitCloudProvider_registered:
  assumes "put_all RegisterCloudProvider kvs [] = Some m"
  shows "distinct (map fst kvs) \<and>
    InitCloudProvider open_file m p [] = (case map_of kvs p of
      None \<Rightarrow> Inl (UnknownProvider p)
    | Some f \<Rightarrow> (case f None of
        Inl e \<Rightarrow> Inl (InitFailed p e) | Inr None \<Rightarrow> Inl (UnknownProvider p) | Inr (Some c) \<Rightarrow> Inr c))"
proof -
  have d: "distinct (map fst kvs)" using register_all_distinct [OF assms] by blast
  then have dr: "distinct (map fst (rev kvs))"
    unfolding rev_map [symmetric] distinct_rev .
  have "map_of (rev kvs) p = Some f \<longleftrightarrow> map_of kvs p = Some f" for f
    by (simp only: map_of_eq_Some_iff [OF d] map_of_eq_Some_iff [OF dr] set_rev)
  then have "map_of (rev kvs) p = map_of kvs p" by (metis option.exhaust)
  moreover have "mget m p = (case map_of (rev kvs) p of Some f \<Rightarrow> Some f | None \<Rightarrow> mget [] p)"
    by (rule cloud_providers.get_put_all [OF wf_map_Nil assms])
  ultimately have "mget m p = map_of kvs p" by (simp split: option.splits)
  with d show ?thesis
    by (simp add: InitCloudProvider_def GetCloudProvider_def split: option.split sum.split)
qed

theorem InitCloudProvider_registered_witness:
  "\<exists>m. put_all RegisterCloudProvider [(''qcloud'', \<lambda>c. Inr (Some (1::nat))), (''default'', \<lambda>c. Inl ''no'')] []
      = Some m \<and> InitCloudProvider (\<lambda>f. None :: unit option) m ''default'' [] = Inl (InitFailed ''default'' ''no'')"
proof -
  obtain m where m: "put_all RegisterCloudProvider
      [(''qcloud'', \<lambda>c :: unit option. Inr (Some (1::nat))), (''default'', \<lambda>c. Inl ''no'')] [] = Some m"
    by (simp add: RegisterCloudProvider_def)
  from InitCloudProvider_registered [OF m, of "\<lambda>f. None" "''default''"] m show ?thesis by simp
qed

lemma SetCustomPricing_prices:
  "SetCustomPricing c n v = Inr c' \<Longrightarrow>
     CpuHourlyPrice c' = CpuHourlyPrice c \<and> RamGBHourlyPrice c' = RamGBHourlyPrice c \<and>
     field_kind n = Some KString"
  by (auto simp: SetCustomPricing_def set_string_field_def split: option.splits if_splits)

text \<open>
  A price can not be set from a config map: the two prices stay what they were whatever the
  map holds, and a map with an entry for one of them, or for no field at all, is an error.
\<close>

theorem UpdateConfig_never_sets_prices:
  "CpuHourlyPrice (fst (UpdateConfigFromConfigMap c m)) = CpuHourlyPrice c \<and>
   RamGBHourlyPrice (fst (UpdateConfigFromConfigMap c m)) = RamGBHourlyPrice c \<and>
   (snd (UpdateConfigFromConfigMap c m) = None \<longleftrightarrow>
      (\<forall>(k, v) \<in> set m. field_kind (Title k) = Some KString))"
proof (induction c m rule: UpdateConfigFromConfigMap.induct)
  case (2 c k v rest)
  show ?case
  proof (cases "SetCustomPricing c (Title k) v")
    case (Inl e)
    then have "field_kind (Title k) \<noteq> Some KString"
      by (auto simp: SetCustomPricing_def split: option.splits if_splits)
    with Inl show ?thesis by simp
  next
    case (Inr c')
    from SetCustomPricing_prices [OF Inr] 2 [OF Inr] Inr show ?thesis by simp
  qed
qed simp

theorem UpdateConfig_never_sets_prices_witness:
  "snd (UpdateConfigFromConfigMap \<lparr>CRegion = [], CProvider = [], CDescription = [],
      CpuHourlyPrice = 0, RamGBHourlyPrice = 0\<rparr> [(''cpuHourlyPrice'', ''0.5'')]) \<noteq> None"
proof -
  have "field_kind (Title ''cpuHourlyPrice'') \<noteq> Some KString" by code_simp
  then show ?thesis
    using UpdateConfig_never_sets_prices [of "\<lparr>CRegion = [], CProvider = [], CDescription = [],
      CpuHourlyPrice = 0, RamGBHourlyPrice = 0\<rparr>" "[(''cpuHourlyPrice'', ''0.5'')]"] by simp
qed

end
