(* ===== verification/Workload_Target.thy ===== *)
theory Workload_Target
  imports Cloud_Core
begin

text \<open>
  \<open>pkg/util/owner/owner.go\<close> and \<open>pkg/util/target/fetcher.go\<close>: the object at the end of a chain of
  owner references, and the replicas and the selector of a workload. The API server and its
  mappings are parameters: a resource is a value of type \<open>'m\<close>, an error one of type \<open>'e\<close>.
\<close>

section \<open>Objects\<close>

record kube_object =
  ObjKind :: string
  ObjNamespace :: string
  ObjName :: string
  ObjAPIVersion :: string
  ObjLabels :: "labels option"
  ObjOwners :: "owner_ref list"

datatype 'e kube_error = KubeError 'e | KubeErrors "'e list" | EmptySelector string string

text \<open>Parsing an API version gives its group and its version.\<close>

record ('e, 'm) kube_env =
  ParseGroupVersion :: "string \<Rightarrow> 'e + string \<times> string"
  RESTMappings :: "string \<Rightarrow> string \<Rightarrow> string option \<Rightarrow> 'e + 'm list"
  GetObject :: "'m \<Rightarrow> string \<Rightarrow> string \<Rightarrow> 'e + kube_object"
  ToUnstructured :: "kube_object \<Rightarrow> 'e + kube_object"

section \<open>The root owner\<close>

text \<open>One call: its result, or the owner it goes on with.\<close>

definition owner_step :: "('e, 'm) kube_env \<Rightarrow> kube_object \<Rightarrow> ('e kube_error + kube_object) + kube_object" where
  "owner_step env obj = (case ObjOwners obj of
     [] \<Rightarrow> Inl (case ToUnstructured env obj of Inl e \<Rightarrow> Inl (KubeError e) | Inr u \<Rightarrow> Inr u)
   | owner # others \<Rightarrow>
       (case ParseGroupVersion env (OwnerAPIVersion owner) of
          Inl e \<Rightarrow> Inl (Inl (KubeError e))
        | Inr (grp, version) \<Rightarrow>
            (case RESTMappings env grp (OwnerKind owner) (Some version) of
               Inl e \<Rightarrow> Inl (Inl (KubeError e))
             | Inr mappings \<Rightarrow>
                 (case try_each (\<lambda>m. GetObject env m (ObjNamespace obj) (OwnerName owner)) [] mappings of
                    Inl errs \<Rightarrow> Inl (Inl (KubeErrors errs))
                  | Inr ret \<Rightarrow> Inr ret))))"

partial_function (option) FindRootOwner ::
    "('e, 'm) kube_env \<Rightarrow> kube_object \<Rightarrow> ('e kube_error + kube_object) option" where
  [code]: "FindRootOwner env obj = (case owner_step env obj of
     Inl r \<Rightarrow> Some r
   | Inr owner \<Rightarrow> FindRootOwner env owner)"

text \<open>\<open>owner_chain env n a b\<close>: following \<open>n\<close> owners from \<open>a\<close> leads to \<open>b\<close>.\<close>

fun owner_chain :: "('e, 'm) kube_env \<Rightarrow> nat \<Rightarrow> kube_object \<Rightarrow> kube_object option" where
  "owner_chain env 0 a = Some a"
| "owner_chain env (Suc n) a = (case owner_step env a of Inl r \<Rightarrow> None | Inr b \<Rightarrow> owner_chain env n b)"

lemma FindRootOwner_end: "FindRootOwner env a = Some r \<Longrightarrow>
    \<exists>n b. owner_chain env n a = Some b \<and> owner_step env b = Inl r"
proof (rule FindRootOwner.raw_induct [rotated], assumption, goal_cases)
  case (1 rec env a r)
  show ?case
  proof (cases "owner_step env a")
    case (Inl s)
    with 1(3) have "owner_chain env 0 a = Some a \<and> owner_step env a = Inl r" by simp
    then show ?thesis by blast
  next
    case (Inr b)
    with 1(3) have "rec env b = Some r" by simp
    from 1(2) [OF this] obtain n c where "owner_chain env n b = Some c" "owner_step env c = Inl r" by blast
    with Inr have "owner_chain env (Suc n) a = Some c \<and> owner_step env c = Inl r" by simp
    then show ?thesis by blast
  qed
qed

lemma FindRootOwner_reaches:
  "owner_chain env n a = Some b \<Longrightarrow> owner_step env b = Inl r \<Longrightarrow> FindRootOwner env a = Some r"
proof (induction n arbitrary: a)
  case 0
  then show ?case by (simp add: FindRootOwner.simps)
next
  case (Suc n)
  then show ?case by (cases "owner_step env a") (simp_all add: FindRootOwner.simps [of env a])
qed

lemma owner_chain_add:
  "owner_chain env n a = Some b \<Longrightarrow> owner_chain env (n + k) a = owner_chain env k b"
  by (induction n arbitrary: a) (auto split: sum.splits)

lemma owner_chain_stuck:
  "owner_chain env k a = Some b \<Longrightarrow> owner_step env b = Inl r \<Longrightarrow> k < n \<Longrightarrow> owner_chain env n a = None"
proof -
  assume k: "owner_chain env k a = Some b" "owner_step env b = Inl r" "k < n"
  then obtain j where "n = k + Suc j" using less_imp_Suc_add [of k n] by auto
  with owner_chain_add [OF k(1), of "Suc j"] k(2) show ?thesis by simp
qed

lemma owner_cycle:
  assumes "owner_chain env (Suc n) a = Some a"
  shows "\<exists>k b. j \<le> k \<and> owner_chain env k a = Some b"
proof (induction j)
  case (Suc j)
  then obtain k b where k: "j \<le> k" "owner_chain env k a = Some b" by blast
  with owner_chain_add [OF assms, of k] have "owner_chain env (Suc n + k) a = Some b" by simp
  with k(1) show ?case by (intro exI [of _ "Suc n + k"]) auto
next
  case 0
  show ?case by (intro exI [of _ 0] exI [of _ a]) simp
qed

text \<open>
  C37. The search returns exactly when following owners comes to an end, with the result at that
  end: the object that has no owner, or the error of the first owner that can not be found. It
  does not return when an object is among its own owners.
\<close>

theorem FindRootOwner_returns:
  "(FindRootOwner env a = Some r \<longleftrightarrow>
     (\<exists>n b. owner_chain env n a = Some b \<and> owner_step env b = Inl r)) \<and>
   ((\<exists>n. owner_chain env (Suc n) a = Some a) \<longrightarrow> FindRootOwner env a = None)"
proof (intro conjI impI)
  show "FindRootOwner env a = Some r \<longleftrightarrow>
      (\<exists>n b. owner_chain env n a = Some b \<and> owner_step env b = Inl r)"
    using FindRootOwner_end FindRootOwner_reaches by blast
  assume "\<exists>n. owner_chain env (Suc n) a = Some a"
  then obtain n where n: "owner_chain env (Suc n) a = Some a" by blast
  show "FindRootOwner env a = None"
  proof (cases "FindRootOwner env a")
    case (Some r)
    then obtain k b where k: "owner_chain env k a = Some b" "owner_step env b = Inl r"
      using FindRootOwner_end by blast
    from owner_cycle [OF n, of "Suc k"] obtain j c where "Suc k \<le> j" "owner_chain env j a = Some c" by blast
    with owner_chain_stuck [OF k, of j] show ?thesis by simp
  qed
qed

text \<open>An API server with a cycle, and one chain of two.\<close>

definition example_object :: "string \<Rightarrow> string \<Rightarrow> string option \<Rightarrow> kube_object" where
  "example_object kind name owner = \<lparr>ObjKind = kind, ObjNamespace = ''default'', ObjName = name,
     ObjAPIVersion = ''v1'', ObjLabels = None,
     ObjOwners = (case owner of None \<Rightarrow> [] | Some o' \<Rightarrow>
       [\<lparr>OwnerKind = kind, OwnerName = o', OwnerAPIVersion = ''v1''\<rparr>])\<rparr>"

definition example_env :: "(string, string) kube_env" where
  "example_env = \<lparr>ParseGroupVersion = (\<lambda>s. Inr ([], s)), RESTMappings = (\<lambda>g k v. Inr [''things'']),
     GetObject = (\<lambda>m ns n. if n = ''self'' then Inr (example_object ''T'' ''self'' (Some ''self''))
       else if n = ''root'' then Inr (example_object ''T'' ''root'' None) else Inl ''not found''),
     ToUnstructured = Inr\<rparr>"

theorem FindRootOwner_returns_witness:
  "FindRootOwner example_env (example_object ''T'' ''self'' (Some ''self'')) = None \<and>
   FindRootOwner example_env (example_object ''P'' ''p'' (Some ''root'')) =
     Some (Inr (example_object ''T'' ''root'' None))"
proof
  have "owner_chain example_env (Suc 0) (example_object ''T'' ''self'' (Some ''self'')) =
      Some (example_object ''T'' ''self'' (Some ''self''))"
    by code_simp
  with FindRootOwner_returns [of example_env "example_object ''T'' ''self'' (Some ''self'')"]
  show "FindRootOwner example_env (example_object ''T'' ''self'' (Some ''self'')) = None" by blast
  have "owner_chain example_env 1 (example_object ''P'' ''p'' (Some ''root'')) =
      Some (example_object ''T'' ''root'' None)"
    "owner_step example_env (example_object ''T'' ''root'' None) = Inl (Inr (example_object ''T'' ''root'' None))"
    by code_simp+
  with FindRootOwner_returns [of example_env "example_object ''P'' ''p'' (Some ''root'')"
      "Inr (example_object ''T'' ''root'' None)"]
  show "FindRootOwner example_env (example_object ''P'' ''p'' (Some ''root'')) =
      Some (Inr (example_object ''T'' ''root'' None))" by blast
qed

section \<open>Replicas and selectors\<close>

record workload_ref =
  TargetKind :: string
  TargetNamespace :: string
  TargetName :: string
  TargetAPIVersion :: string

text \<open>
  A scale: its desired and its current replicas, and its selector as text. A daemon set's numbers
  are those scheduled. A selector parsed is a value of type \<open>'s\<close>.
\<close>

record scale =
  SpecReplicas :: int
  StatusReplicas :: int
  StatusSelector :: string

record 'l daemonset =
  DesiredNumberScheduled :: int
  CurrentNumberScheduled :: int
  DaemonSelector :: 'l

record ('e, 'm, 'l, 's) target_env = "('e, 'm) kube_env" +
  GetDaemonSet :: "string \<Rightarrow> string \<Rightarrow> 'e + 'l daemonset"
  GetScale :: "string \<Rightarrow> 'm \<Rightarrow> string \<Rightarrow> 'e + scale"
  SelectorOf :: "'l \<Rightarrow> 'e + 's"
  ParseSelector :: "string \<Rightarrow> 'e + 's"

definition lift_error :: "'e + 'a \<Rightarrow> 'e kube_error + 'a" where
  "lift_error r = (case r of Inl e \<Rightarrow> Inl (KubeError e) | Inr x \<Rightarrow> Inr x)"

definition find_scale ::
    "('e, 'm, 'l, 's) target_env \<Rightarrow> string \<Rightarrow> workload_ref \<Rightarrow> 'e kube_error + scale" where
  "find_scale env grp t = (case RESTMappings env grp (TargetKind t) None of
     Inl e \<Rightarrow> Inl (KubeError e)
   | Inr mappings \<Rightarrow>
       (case try_each (\<lambda>m. GetScale env (TargetNamespace t) m (TargetName t)) [] mappings of
          Inl errs \<Rightarrow> Inl (KubeErrors errs)
        | Inr s \<Rightarrow> Inr s))"

definition getReplicasFromScale ::
    "('e, 'm, 'l, 's) target_env \<Rightarrow> string \<Rightarrow> workload_ref \<Rightarrow> 'e kube_error + int \<times> int" where
  "getReplicasFromScale env grp t = (case find_scale env grp t of
     Inl e \<Rightarrow> Inl e
   | Inr s \<Rightarrow> Inr (SpecReplicas s, StatusReplicas s))"

definition getLabelSelectorFromScale ::
    "('e, 'm, 'l, 's) target_env \<Rightarrow> string \<Rightarrow> workload_ref \<Rightarrow> 'e kube_error + 's" where
  "getLabelSelectorFromScale env grp t = (case find_scale env grp t of
     Inl e \<Rightarrow> Inl e
   | Inr s \<Rightarrow>
       if StatusSelector s = [] then Inl (EmptySelector (TargetNamespace t) (TargetName t))
       else lift_error (ParseSelector env (StatusSelector s)))"

definition FetchReplicas ::
    "('e, 'm, 'l, 's) target_env \<Rightarrow> workload_ref \<Rightarrow> 'e kube_error + int \<times> int" where
  "FetchReplicas env t = (case ParseGroupVersion env (TargetAPIVersion t) of
     Inl e \<Rightarrow> Inl (KubeError e)
   | Inr (grp, version) \<Rightarrow>
       if to_lower (TargetKind t) = ''daemonset'' then
         (case GetDaemonSet env (TargetNamespace t) (TargetName t) of
            Inl e \<Rightarrow> Inl (KubeError e)
          | Inr d \<Rightarrow> Inr (DesiredNumberScheduled d, CurrentNumberScheduled d))
       else getReplicasFromScale env grp t)"

definition FetchSelector ::
    "('e, 'm, 'l, 's) target_env \<Rightarrow> workload_ref \<Rightarrow> 'e kube_error + 's" where
  "FetchSelector env t = (case ParseGroupVersion env (TargetAPIVersion t) of
     Inl e \<Rightarrow> Inl (KubeError e)
   | Inr (grp, version) \<Rightarrow>
       if to_lower (TargetKind t) = ''daemonset'' then
         (case GetDaemonSet env (TargetNamespace t) (TargetName t) of
            Inl e \<Rightarrow> Inl (KubeError e)
          | Inr d \<Rightarrow> lift_error (SelectorOf env (DaemonSelector d)))
       else getLabelSelectorFromScale env grp t)"

end
