(* ===== verification/Qcloud_SDK.thy ===== *)
theory Qcloud_SDK
  imports Go_Float
begin

text \<open>
  \<open>pkg/cloudsdk/qcloud/cvm/cvm.go\<close>: calls of the Tencent Cloud machine API with retries, paging
  through instances and pricing them. The SDK's client is a parameter: a call takes the state of
  the remote service, \<open>'w\<close>, to its answer and its next state. SDK structures are records of the
  fields the program reads; a pointer is an option.
\<close>

datatype sdk_error = SdkError string | RetryFailed int sdk_error | NoClient string |
  ManyErrors "sdk_error list" | SdkNilPointer | SliceOutOfRange

record PriceItem =
  UnitPrice :: "float64 option"
  ChargeUnit :: "string option"
  OriginalPrice :: "float64 option"
  DiscountPrice :: "float64 option"
  PDiscount :: "float64 option"
  UnitPriceDiscount :: "float64 option"
  UnitPriceSecondStep :: "float64 option"
  UnitPriceDiscountSecondStep :: "float64 option"
  UnitPriceThirdStep :: "float64 option"
  UnitPriceDiscountThirdStep :: "float64 option"
  OriginalPriceThreeYear :: "float64 option"
  DiscountPriceThreeYear :: "float64 option"
  DiscountThreeYear :: "float64 option"
  OriginalPriceFiveYear :: "float64 option"
  DiscountPriceFiveYear :: "float64 option"
  DiscountFiveYear :: "float64 option"
  OriginalPriceOneYear :: "float64 option"
  DiscountPriceOneYear :: "float64 option"
  DiscountOneYear :: "float64 option"

record cvm_instance =
  InstanceId :: "string option"
  InstanceChargeType :: "string option"
  InstanceType :: "string option"
  PlacementZone :: "string option"
  CPU :: "int option"
  Memory :: "int option"

record quota_item =
  ItemZone :: "string option"
  ItemInstanceType :: "string option"
  ItemChargeType :: "string option"
  ItemPrice :: "PriceItem option"

text \<open>The \<open>InstancePrice\<close> of a \<open>cvm.Price\<close> is the only field that is read.\<close>

record QCloudInstancePrice =
  Instance :: "cvm_instance option"
  InstancePrice :: "PriceItem option"

section \<open>Retrying\<close>

text \<open>
  \<open>ExponentialRetryCall\<close>. \<open>pick i\<close> is what \<open>rand.IntnRange(2<<i, 2<<(i+1)+1)\<close> returns at the n-th
  retry. The result carries the seconds slept, in order. The last error is \<open>e\<close>.
\<close>

fun retry_loop ::
    "(int \<Rightarrow> int) \<Rightarrow> nat \<Rightarrow> int \<Rightarrow> int \<Rightarrow> ('w \<Rightarrow> (sdk_error + 'r) \<times> 'w) \<Rightarrow> sdk_error \<Rightarrow> int list \<Rightarrow> 'w \<Rightarrow>
     (sdk_error + 'r) \<times> int list \<times> 'w" where
  "retry_loop pick 0 i cnt f e slept w = (Inl (RetryFailed cnt e), slept, w)"
| "retry_loop pick (Suc n) i cnt f e slept w =
     (let slept = slept @ [pick i]
      in case f w of
           (Inr r, w') \<Rightarrow> (Inr r, slept, w')
         | (Inl e', w') \<Rightarrow> retry_loop pick n (i + 1) cnt f e' slept w')"

definition ExponentialRetryCall ::
    "(int \<Rightarrow> int) \<Rightarrow> int \<Rightarrow> ('w \<Rightarrow> (sdk_error + 'r) \<times> 'w) \<Rightarrow> 'w \<Rightarrow>
     (sdk_error + 'r) \<times> int list \<times> 'w" where
  "ExponentialRetryCall pick cnt f w = (case f w of
     (Inr r, w') \<Rightarrow> (Inr r, [], w')
   | (Inl e, w') \<Rightarrow> retry_loop pick (nat cnt) 1 cnt f e [] w')"

section \<open>The client\<close>

text \<open>
  A client: whether it can be made, the remote calls, and its configuration. Instances are asked
  for by identifier, prices by type, charge type and zone, in the order of the request's filters;
  \<open>DescribeAllZones\<close> is the same call without filters, and an inquiry says whether it is for a
  prepaid month. An answer without an error has its \<open>Response\<close>, which the code reads without a test.
\<close>

record 'w cvm_client =
  ClientError :: "sdk_error option"
  DefaultClientError :: "sdk_error option"
  DescribeRegions :: "'w \<Rightarrow> (sdk_error + string option list) \<times> 'w"
  DescribeAllZones :: "'w \<Rightarrow> (sdk_error + quota_item list) \<times> 'w"
  InquiryPriceRunInstances :: "cvm_instance \<times> bool \<Rightarrow> 'w \<Rightarrow> (sdk_error + PriceItem option) \<times> 'w"
  DescribeInstances :: "string list \<Rightarrow> int \<Rightarrow> 'w \<Rightarrow> (sdk_error + cvm_instance list) \<times> 'w"
  DescribeZoneInstanceConfigInfos ::
    "string \<times> string \<times> string \<Rightarrow> 'w \<Rightarrow> (sdk_error + quota_item list) \<times> 'w"
  DefaultRetryCnt :: int
  DefaultLimit :: int
  Rand :: "int \<Rightarrow> int"

definition with_retry ::
    "'w cvm_client \<Rightarrow> ('w \<Rightarrow> (sdk_error + 'r) \<times> 'w) \<Rightarrow> 'w \<Rightarrow> (sdk_error + 'r) \<times> 'w" where
  "with_retry c f w = (case ExponentialRetryCall (Rand c) (DefaultRetryCnt c) f w of
     (r, slept, w') \<Rightarrow> (r, w'))"

text \<open>
  The paging loop of \<open>GetCVMInstances\<close> from index \<open>s\<close> on. It does not end when the limit is zero
  and there is an identifier left. Slicing outside the list panics.
\<close>

partial_function (option) page_loop ::
    "'w cvm_client \<Rightarrow> string list \<Rightarrow> int \<Rightarrow> cvm_instance list \<Rightarrow> 'w \<Rightarrow>
     ((sdk_error + cvm_instance list) \<times> 'w) option" where
  [code]: "page_loop c ids s acc w =
     (if int (length ids) \<le> s then Some (Inr acc, w)
      else let limit = DefaultLimit c; e = s + limit;
               e = (if int (length ids) < e then int (length ids) else e)
           in if s < 0 \<or> e < s then Some (Inl SliceOutOfRange, w)
              else case with_retry c
                  (DescribeInstances c (take (nat (e - s)) (drop (nat s) ids)) limit) w of
                (Inl err, w') \<Rightarrow> Some (Inl err, w')
              | (Inr found, w') \<Rightarrow> page_loop c ids (s + limit) (acc @ found) w')"

definition GetCVMInstances ::
    "'w cvm_client \<Rightarrow> string list \<Rightarrow> 'w \<Rightarrow> ((sdk_error + cvm_instance list) \<times> 'w) option" where
  "GetCVMInstances c ids w = (case ClientError c of
     Some e \<Rightarrow> Some (Inl e, w)
   | None \<Rightarrow> page_loop c ids 0 [] w)"

definition str :: "string option \<Rightarrow> string" where
  "str x = (case x of None \<Rightarrow> [] | Some s \<Rightarrow> s)"

text \<open>An instance whose price can not be asked, or that has none, is left out.\<close>

fun price_loop ::
    "'w cvm_client \<Rightarrow> cvm_instance list \<Rightarrow> QCloudInstancePrice list \<Rightarrow> 'w \<Rightarrow>
     QCloudInstancePrice list \<times> 'w" where
  "price_loop c [] acc w = (acc, w)"
| "price_loop c (ins # rest) acc w =
     (case with_retry c (DescribeZoneInstanceConfigInfos c
         (str (InstanceType ins), str (InstanceChargeType ins), str (PlacementZone ins))) w of
        (Inl err, w') \<Rightarrow> price_loop c rest acc w'
      | (Inr items, w') \<Rightarrow> price_loop c rest
          (case items of
             [] \<Rightarrow> acc
           | item # _ \<Rightarrow> (case ItemPrice item of
               None \<Rightarrow> acc
             | Some p \<Rightarrow> acc @ [\<lparr>Instance = Some ins, InstancePrice = Some p\<rparr>])) w')"

definition GetCVMInstancesPrice ::
    "'w cvm_client \<Rightarrow> cvm_instance list \<Rightarrow> 'w \<Rightarrow> (sdk_error + QCloudInstancePrice list) \<times> 'w" where
  "GetCVMInstancesPrice c instances w = (case ClientError c of
     Some e \<Rightarrow> (Inl e, w)
   | None \<Rightarrow> (case price_loop c instances [] w of (ps, w') \<Rightarrow> (Inr ps, w')))"

fun inquiry_loop ::
    "'w cvm_client \<Rightarrow> cvm_instance list \<Rightarrow> QCloudInstancePrice list \<Rightarrow> 'w \<Rightarrow>
     (sdk_error + QCloudInstancePrice list) \<times> 'w" where
  "inquiry_loop c [] acc w = (Inr acc, w)"
| "inquiry_loop c (ins # rest) acc w =
     (case with_retry c
         (InquiryPriceRunInstances c (ins, InstanceChargeType ins = Some ''PREPAID'')) w of
        (Inl err, w') \<Rightarrow> (Inl err, w')
      | (Inr p, w') \<Rightarrow>
          inquiry_loop c rest (acc @ [\<lparr>Instance = Some ins, InstancePrice = p\<rparr>]) w')"

definition GetCVMInstancesInquiryPrice ::
    "'w cvm_client \<Rightarrow> cvm_instance list \<Rightarrow> 'w \<Rightarrow> (sdk_error + QCloudInstancePrice list) \<times> 'w" where
  "GetCVMInstancesInquiryPrice c instances w = (case ClientError c of
     Some e \<Rightarrow> (Inl e, w)
   | None \<Rightarrow> inquiry_loop c instances [] w)"

section \<open>The standard prices of all zones\<close>

definition getAllRegions :: "'w cvm_client \<Rightarrow> 'w \<Rightarrow> (sdk_error + string option list) \<times> 'w" where
  "getAllRegions c w = (case DefaultClientError c of
     Some e \<Rightarrow> (Inl e, w)
   | None \<Rightarrow> DescribeRegions c w)"

definition DescribeZoneConfigs :: "'w cvm_client \<Rightarrow> 'w \<Rightarrow> (sdk_error + quota_item list) \<times> 'w" where
  "DescribeZoneConfigs c w = (case ClientError c of
     Some e \<Rightarrow> (Inl e, w)
   | None \<Rightarrow> with_retry c (DescribeAllZones c) w)"

text \<open>
  One goroutine per region, \<open>regions\<close> being the order in which they make their calls. None of them
  passes its region on.
\<close>

fun region_loop ::
    "'w cvm_client \<Rightarrow> string option list \<Rightarrow> quota_item list \<Rightarrow> sdk_error list \<Rightarrow> 'w \<Rightarrow>
     quota_item list \<times> sdk_error list \<times> 'w" where
  "region_loop c [] acc errs w = (acc, errs, w)"
| "region_loop c (None # rs) acc errs w = region_loop c rs acc errs w"
| "region_loop c (Some r # rs) acc errs w = (case DescribeZoneConfigs c w of
     (Inl e, w') \<Rightarrow> region_loop c rs acc (errs @ [e]) w'
   | (Inr items, w') \<Rightarrow> region_loop c rs (acc @ items) errs w')"

definition GetAllZoneInstanceConfigInfos ::
    "'w cvm_client \<Rightarrow> 'w \<Rightarrow> (sdk_error + quota_item list) \<times> 'w" where
  "GetAllZoneInstanceConfigInfos c w = (case getAllRegions c w of
     (Inl e, w') \<Rightarrow> (Inl e, w')
   | (Inr regions, w') \<Rightarrow> (case region_loop c regions [] [] w' of
       (items, errs, w'') \<Rightarrow> (if errs \<noteq> [] then Inl (ManyErrors errs) else Inr items, w'')))"

section \<open>Retries\<close>

lemma retry_loop_slept:
  "\<exists>k. k \<le> n \<and> fst (snd (retry_loop pick n i cnt f e slept w)) =
     slept @ map (\<lambda>j. pick (i + int j)) [0..<k]"
proof (induction n arbitrary: i e slept w)
  case (Suc n)
  show ?case
  proof (cases "f w")
    case (Pair r w')
    show ?thesis
    proof (cases r)
      case (Inl e')
      from Suc [of "i + 1" e' "slept @ [pick i]" w'] obtain k where k: "k \<le> n"
        "fst (snd (retry_loop pick n (i + 1) cnt f e' (slept @ [pick i]) w')) =
           (slept @ [pick i]) @ map (\<lambda>j. pick (i + 1 + int j)) [0..<k]" by blast
      have "slept @ map (\<lambda>j. pick (i + int j)) [0..<Suc k] =
          (slept @ [pick i]) @ map (\<lambda>j. pick (i + 1 + int j)) [0..<k]"
        by (simp add: map_upt_Suc algebra_simps del: upt_Suc)
      with k Pair Inl show ?thesis by (intro exI [of _ "Suc k"]) simp
    next
      case (Inr x)
      with Pair show ?thesis by (intro exI [of _ 1]) simp
    qed
  qed
qed simp

text \<open>Iterating the call on the service's state.\<close>

fun after :: "('w \<Rightarrow> 'x \<times> 'w) \<Rightarrow> nat \<Rightarrow> 'w \<Rightarrow> 'w" where
  "after f 0 w = w"
| "after f (Suc n) w = after f n (snd (f w))"

abbreviation attempt :: "('w \<Rightarrow> ('e + 'r) \<times> 'w) \<Rightarrow> nat \<Rightarrow> 'w \<Rightarrow> 'e + 'r" where
  "attempt f n w \<equiv> fst (f (after f n w))"

lemma retry_loop_result:
  "fst (retry_loop pick n i cnt f e slept w) = Inr r \<longleftrightarrow>
     (\<exists>k < n. attempt f k w = Inr r \<and> (\<forall>j < k. isl (attempt f j w)))"
proof (induction n arbitrary: i e slept w)
  case (Suc n)
  obtain x w' where f: "f w = (x, w')" by fastforce
  have ex: "(\<exists>k < Suc n. attempt f k w = Inr r \<and> (\<forall>j < k. isl (attempt f j w))) \<longleftrightarrow>
      x = Inr r \<or> (isl x \<and> (\<exists>k < n. attempt f k w' = Inr r \<and> (\<forall>j < k. isl (attempt f j w'))))"
    by (simp add: Ex_less_Suc2 All_less_Suc2 f conj_ac)
  show ?case
    unfolding ex using Suc by (cases x) (auto simp: f)
qed simp

text \<open>
  A call is tried until it succeeds, at most the configured number of times after the first:
  it returns the answer of the first attempt that succeeds, and fails only when all fail. The
  pauses are one for each retry, the n-th one drawn for exponent n.
\<close>

theorem ExponentialRetryCall_first_success:
  "(fst (ExponentialRetryCall pick cnt f w) = Inr r \<longleftrightarrow>
     (\<exists>k \<le> nat cnt. attempt f k w = Inr r \<and> (\<forall>j < k. isl (attempt f j w)))) \<and>
   (\<exists>k \<le> nat cnt. fst (snd (ExponentialRetryCall pick cnt f w)) =
     map (\<lambda>j. pick (1 + int j)) [0..<k])"
proof
  obtain x w' where f: "f w = (x, w')" by fastforce
  have ex: "(\<exists>k \<le> nat cnt. attempt f k w = Inr r \<and> (\<forall>j < k. isl (attempt f j w))) \<longleftrightarrow>
      x = Inr r \<or> (isl x \<and> (\<exists>k < nat cnt. attempt f k w' = Inr r \<and> (\<forall>j < k. isl (attempt f j w'))))"
    unfolding less_Suc_eq_le [symmetric]
    by (simp add: Ex_less_Suc2 All_less_Suc2 f conj_ac)
  show "fst (ExponentialRetryCall pick cnt f w) = Inr r \<longleftrightarrow>
     (\<exists>k \<le> nat cnt. attempt f k w = Inr r \<and> (\<forall>j < k. isl (attempt f j w)))"
    unfolding ex by (cases x) (auto simp: ExponentialRetryCall_def f retry_loop_result)
  show "\<exists>k \<le> nat cnt. fst (snd (ExponentialRetryCall pick cnt f w)) =
      map (\<lambda>j. pick (1 + int j)) [0..<k]"
    using retry_loop_slept [of "nat cnt" pick 1 cnt f _ "[]" w']
    by (cases x) (auto simp: ExponentialRetryCall_def f intro: exI [of _ 0])
qed

definition flaky :: "nat \<Rightarrow> (sdk_error + nat) \<times> nat" where
  "flaky w = (if w < 2 then (Inl (SdkError ''busy''), w + 1) else (Inr w, w + 1))"

theorem ExponentialRetryCall_first_success_witness:
  "fst (ExponentialRetryCall (\<lambda>i. 4) 3 flaky 0) = Inr 2"
proof -
  have "attempt flaky 2 0 = Inr 2 \<and> (\<forall>j < 2. isl (attempt flaky j 0))"
    by (simp add: flaky_def numeral_2_eq_2 All_less_Suc)
  then have "\<exists>k \<le> nat 3. attempt flaky k 0 = Inr 2 \<and> (\<forall>j < k. isl (attempt flaky j 0))"
    by (intro exI [of _ 2]) simp
  with ExponentialRetryCall_first_success [of "\<lambda>i. 4" 3 flaky 0 2] show ?thesis by blast
qed

section \<open>Paging\<close>

text \<open>What the paging is for: the identifiers in pieces of at most \<open>n\<close>, one call for each.\<close>

function chunks :: "nat \<Rightarrow> 'a list \<Rightarrow> 'a list list" where
  "chunks n xs = (if n = 0 \<or> xs = [] then [] else take n xs # chunks n (drop n xs))"
  by pat_completeness auto
termination by (relation "measure (\<lambda>(n, xs). length xs)") auto

declare chunks.simps [simp del]

fun call_all ::
    "'w cvm_client \<Rightarrow> string list list \<Rightarrow> cvm_instance list \<Rightarrow> 'w \<Rightarrow>
     (sdk_error + cvm_instance list) \<times> 'w" where
  "call_all c [] acc w = (Inr acc, w)"
| "call_all c (ch # chs) acc w =
     (case with_retry c (DescribeInstances c ch (DefaultLimit c)) w of
        (Inl err, w') \<Rightarrow> (Inl err, w')
      | (Inr found, w') \<Rightarrow> call_all c chs (acc @ found) w')"

lemma chunks_Nil [simp]: "chunks n [] = []"
  by (simp add: chunks.simps)

lemma chunks_Cons: "0 < n \<Longrightarrow> xs \<noteq> [] \<Longrightarrow> chunks n xs = take n xs # chunks n (drop n xs)"
  by (subst chunks.simps) simp

lemma chunks_zero [simp]: "chunks 0 xs = []"
  by (simp add: chunks.simps)

lemma chunks_concat: "0 < n \<Longrightarrow> concat (chunks n xs) = xs"
proof (induction n xs rule: chunks.induct)
  case (1 n xs)
  then show ?case by (cases "xs = []") (simp_all add: chunks_Cons)
qed

lemma chunks_bound: "ch \<in> set (chunks n xs) \<Longrightarrow> ch \<noteq> [] \<and> length ch \<le> n"
proof (induction n xs rule: chunks.induct)
  case (1 n xs)
  then show ?case by (cases "n = 0"; cases "xs = []") (auto simp: chunks_Cons)
qed

lemma page_loop_chunks:
  assumes "0 < DefaultLimit c" "0 \<le> s"
  shows "page_loop c ids s acc w =
     Some (call_all c (chunks (nat (DefaultLimit c)) (drop (nat s) ids)) acc w)"
  using assms
proof (induction "length ids - nat s" arbitrary: s acc w rule: less_induct)
  case less
  let ?l = "DefaultLimit c"
  show ?case
  proof (cases "int (length ids) \<le> s")
    case True
    then show ?thesis using less.prems by (simp add: page_loop.simps)
  next
    case False
    define e where "e = (if int (length ids) < s + ?l then int (length ids) else s + ?l)"
    have e: "s \<le> e" "nat (e - s) = min (nat ?l) (length ids - nat s)"
      using False less.prems by (auto simp: e_def)
    have t: "take (nat (e - s)) (drop (nat s) ids) = take (nat ?l) (drop (nat s) ids)"
      by (simp add: e min_def)
    have d: "drop (nat ?l) (drop (nat s) ids) = drop (nat (s + ?l)) ids"
      using less.prems by (simp add: nat_add_distrib add.commute)
    have c: "chunks (nat ?l) (drop (nat s) ids) =
        take (nat ?l) (drop (nat s) ids) # chunks (nat ?l) (drop (nat (s + ?l)) ids)"
      using False less.prems d by (simp add: chunks_Cons)
    have IH: "page_loop c ids (s + ?l) acc' w' =
        Some (call_all c (chunks (nat ?l) (drop (nat (s + ?l)) ids)) acc' w')" for acc' w'
      by (rule less.hyps) (use False less.prems in auto)
    have "page_loop c ids s acc w =
        (case with_retry c (DescribeInstances c (take (nat ?l) (drop (nat s) ids)) ?l) w of
           (Inl err, w') \<Rightarrow> Some (Inl err, w')
         | (Inr found, w') \<Rightarrow> page_loop c ids (s + ?l) (acc @ found) w')"
      using False less.prems e(1) t by (subst page_loop.simps) (simp add: Let_def e_def [symmetric])
    then show ?thesis by (simp add: c IH split: prod.split sum.split)
  qed
qed

lemma page_loop_zero:
  assumes "\<And>p w. \<not> isl (fst (with_retry c (DescribeInstances c p 0) w))"
    and "DefaultLimit c = 0" "ids \<noteq> []"
  shows "page_loop c ids 0 acc w = None"
proof -
  have "\<not> (d = c \<and> ids' = ids \<and> s = 0)" if "page_loop d ids' s acc' w' = Some r" for d ids' s acc' w' r
    using that
  proof (rule page_loop.raw_induct [rotated], goal_cases)
    case (1 pl d ids' s acc' w' r)
    show ?case
    proof
      assume d: "d = c \<and> ids' = ids \<and> s = 0"
      obtain x w2 where x: "with_retry c (DescribeInstances c [] 0) w' = (x, w2)" by fastforce
      with assms(1) [of "[]" w'] obtain f where f: "x = Inr f" by (cases x) auto
      from 1(2) d assms(2, 3) x f have "pl c ids 0 (acc' @ f) w2 = Some r" by simp
      with 1(1) show False by blast
    qed
  qed
  then show ?thesis by (cases "page_loop c ids 0 acc w") blast+
qed

text \<open>
  C34. With a positive limit the instances are asked for in pieces of at most the limit, no piece
  empty, the pieces in order being the list of identifiers, and the search always returns. With a
  negative limit it panics at once. With the limit zero, what a configuration
  file without one gives, it never returns while the calls succeed.
\<close>

theorem GetCVMInstances_pages:
  assumes "ClientError c = None" and "ids \<noteq> []"
  shows "(0 < DefaultLimit c \<longrightarrow> (\<exists>pages. concat pages = ids \<and>
      (\<forall>p \<in> set pages. p \<noteq> [] \<and> int (length p) \<le> DefaultLimit c) \<and>
      GetCVMInstances c ids w = Some (call_all c pages [] w))) \<and>
    (DefaultLimit c < 0 \<longrightarrow> GetCVMInstances c ids w = Some (Inl SliceOutOfRange, w)) \<and>
    (DefaultLimit c = 0 \<longrightarrow>
      (\<forall>p w. \<not> isl (fst (with_retry c (DescribeInstances c p 0) w))) \<longrightarrow>
      GetCVMInstances c ids w = None)"
proof (intro conjI impI)
  assume l: "0 < DefaultLimit c"
  let ?p = "chunks (nat (DefaultLimit c)) ids"
  have "concat ?p = ids" using l by (simp add: chunks_concat)
  moreover have "\<forall>p \<in> set ?p. p \<noteq> [] \<and> int (length p) \<le> DefaultLimit c"
    using l chunks_bound by fastforce
  moreover have "GetCVMInstances c ids w = Some (call_all c ?p [] w)"
    using l page_loop_chunks [of c 0 ids] by (simp add: GetCVMInstances_def assms)
  ultimately show "\<exists>pages. concat pages = ids \<and>
      (\<forall>p \<in> set pages. p \<noteq> [] \<and> int (length p) \<le> DefaultLimit c) \<and>
      GetCVMInstances c ids w = Some (call_all c pages [] w)" by blast
next
  assume "DefaultLimit c < 0"
  then show "GetCVMInstances c ids w = Some (Inl SliceOutOfRange, w)"
    using assms by (simp add: GetCVMInstances_def page_loop.simps)
next
  assume "DefaultLimit c = 0" "\<forall>p w. \<not> isl (fst (with_retry c (DescribeInstances c p 0) w))"
  then show "GetCVMInstances c ids w = None"
    using assms page_loop_zero [of c ids "[]" w] by (simp add: GetCVMInstances_def)
qed

definition example_price :: PriceItem where
  "example_price = \<lparr>UnitPrice = Some (lit 5 2), ChargeUnit = Some ''HOUR'', OriginalPrice = None,
     DiscountPrice = None, PDiscount = None, UnitPriceDiscount = None, UnitPriceSecondStep = None,
     UnitPriceDiscountSecondStep = None, UnitPriceThirdStep = None, UnitPriceDiscountThirdStep = None,
     OriginalPriceThreeYear = None, DiscountPriceThreeYear = None, DiscountThreeYear = None,
     OriginalPriceFiveYear = None, DiscountPriceFiveYear = None, DiscountFiveYear = None,
     OriginalPriceOneYear = None, DiscountPriceOneYear = None, DiscountOneYear = None\<rparr>"

definition example_client :: "int \<Rightarrow> nat cvm_client" where
  "example_client limit = \<lparr>ClientError = None, DefaultClientError = None,
     DescribeRegions = (\<lambda>w. (Inr [Some ''r'', None], w + 1)), DescribeAllZones = (\<lambda>w. (Inr [], w + 1)),
     InquiryPriceRunInstances = (\<lambda>r w. (Inr None, w + 1)),
     DescribeInstances = (\<lambda>ids l w. (Inr (map (\<lambda>i. \<lparr>InstanceId = Some i, InstanceChargeType = Some ''SPOTPAID'',
       InstanceType = Some ''t'', PlacementZone = Some ''z'', CPU = Some 2, Memory = Some 4\<rparr>) ids), w + 1)),
     DescribeZoneInstanceConfigInfos = (\<lambda>f w. (Inr [\<lparr>ItemZone = Some ''z'', ItemInstanceType = Some ''t'',
       ItemChargeType = Some ''SPOTPAID'', ItemPrice = Some example_price\<rparr>], w + 1)),
     DefaultRetryCnt = 3, DefaultLimit = limit, Rand = (\<lambda>i. 4)\<rparr>"

theorem GetCVMInstances_pages_witness:
  "(\<exists>pages. concat pages = [''a'', ''b'', ''c''] \<and> (\<forall>p \<in> set pages. p \<noteq> [] \<and> int (length p) \<le> 2) \<and>
     GetCVMInstances (example_client 2) [''a'', ''b'', ''c''] 0 =
       Some (call_all (example_client 2) pages [] 0)) \<and>
   GetCVMInstances (example_client 0) [''a''] 0 = None"
  using GetCVMInstances_pages [of "example_client 2" "[''a'', ''b'', ''c'']" 0]
    GetCVMInstances_pages [of "example_client 0" "[''a'']" 0]
  by (simp add: example_client_def with_retry_def ExponentialRetryCall_def)

end
