(* ===== verification/Qcloud_Platform.thy ===== *)
theory Qcloud_Platform
  imports Cloud_Core
begin

text \<open>
  \<open>pkg/cloudproviders/qcloud/tke.go\<close> and \<open>eks.go\<close>: what the two kinds of cluster cost by
  themselves, and the annotations that describe a serverless pod.
\<close>

section \<open>The interface\<close>

text \<open>A platform's price by the number of nodes: never negative, and not falling as nodes are added.\<close>

locale platform_pricer =
  fixes cost :: "PlatformParameter \<Rightarrow> Prices" and most :: float64
  assumes cost_nonneg: "nonneg (TotalPrice (cost cp))"
    and cost_mono: "Platform cp = Platform cp' \<Longrightarrow> Nodes cp = Some n \<Longrightarrow> Nodes cp' = Some m \<Longrightarrow> n \<le> m \<Longrightarrow>
      TotalPrice (cost cp) \<le> TotalPrice (cost cp')"
    and cost_bounded: "TotalPrice (cost cp) \<le> most"
begin

definition price_of :: "PlatformParameter \<Rightarrow> int \<Rightarrow> float64" where
  "price_of cp n = TotalPrice (cost (cp\<lparr>Nodes := Some n\<rparr>))"

lemma price_of_sorted: "sorted ns \<Longrightarrow> sorted_wrt (\<le>) (map (price_of cp) ns)"
proof (induction ns)
  case (Cons n ns)
  then have "\<forall>m \<in> set ns. price_of cp n \<le> price_of cp m"
    unfolding price_of_def by (auto intro!: cost_mono [of _ _ n])
  with Cons show ?case by simp
qed simp

lemma price_of_bounds: "nonneg (price_of cp n) \<and> price_of cp n \<le> most"
  by (simp add: price_of_def cost_nonneg cost_bounded)

end

section \<open>TKE\<close>

definition PriceStageFeeUnits :: "(int \<times> float64) list" where
  "PriceStageFeeUnits =
     [(5, lit 13 100), (20, lit 40 100), (50, lit 73 100), (100, lit 122 100), (200, lit 255 100),
      (500, lit 511 100), (1000, lit 930 100), (3000, lit 1560 100), (5000, lit 2804 100)]"

fun stage_price :: "int \<Rightarrow> (int \<times> float64) list \<Rightarrow> float64 option" where
  "stage_price nodes [] = None"
| "stage_price nodes ((limit, p) # units) =
     (if nodes \<le> limit then Some p else stage_price nodes units)"

definition TKE_PlatformCost :: "PlatformParameter \<Rightarrow> Prices" where
  "TKE_PlatformCost cp = (case Nodes cp of
     None \<Rightarrow> \<lparr>TotalPrice = snd (hd PriceStageFeeUnits), DiscountPrice = None\<rparr>
   | Some n \<Rightarrow> (case stage_price n PriceStageFeeUnits of
       Some p \<Rightarrow> \<lparr>TotalPrice = p, DiscountPrice = None\<rparr>
     | None \<Rightarrow> \<lparr>TotalPrice = snd (last PriceStageFeeUnits), DiscountPrice = None\<rparr>))"

lemma stage_price_in: "stage_price n us = Some p \<Longrightarrow> p \<in> snd ` set us"
  by (induction us) (auto split: if_splits)

lemma stage_price_mono:
  "sorted_wrt (\<le>) (map snd us) \<Longrightarrow> \<forall>p \<in> snd ` set us. p \<le> p \<Longrightarrow> n \<le> m \<Longrightarrow>
     stage_price m us = Some q \<Longrightarrow> \<exists>p. stage_price n us = Some p \<and> p \<le> q"
proof (induction us)
  case (Cons u us)
  obtain k p where u: "u = (k, p)" by fastforce
  show ?case
  proof (cases "m \<le> k")
    case True
    with Cons.prems u show ?thesis by simp
  next
    case False
    with Cons.prems u have q: "stage_price m us = Some q" by simp
    show ?thesis
    proof (cases "n \<le> k")
      case True
      with Cons.prems u stage_price_in [OF q] show ?thesis by auto
    next
      case False
      with Cons q u show ?thesis by simp
    qed
  qed
qed simp

lemma stage_prices:
  "sorted_wrt (\<le>) (map snd PriceStageFeeUnits)"
  "\<forall>p \<in> set (map snd PriceStageFeeUnits). p \<le> p \<and> nonneg p \<and> p \<le> snd (last PriceStageFeeUnits)"
  by code_simp+

lemma stage_prices_hd_last:
  "snd (hd PriceStageFeeUnits) \<in> set (map snd PriceStageFeeUnits)"
  "snd (last PriceStageFeeUnits) \<in> set (map snd PriceStageFeeUnits)"
  by (simp_all add: PriceStageFeeUnits_def)

lemma TKE_price_in: "TotalPrice (TKE_PlatformCost cp) \<in> set (map snd PriceStageFeeUnits)"
  using stage_prices_hd_last
  by (auto simp: TKE_PlatformCost_def dest: stage_price_in split: option.split)

interpretation tke: platform_pricer TKE_PlatformCost "snd (last PriceStageFeeUnits)"
proof unfold_locales
  fix cp cp' :: PlatformParameter and n m :: int
  show "nonneg (TotalPrice (TKE_PlatformCost cp))"
    and most: "TotalPrice (TKE_PlatformCost cp) \<le> snd (last PriceStageFeeUnits)"
    using stage_prices(2) TKE_price_in [of cp] by blast+
  assume n: "Nodes cp = Some n" "Nodes cp' = Some m" "n \<le> m"
  show "TotalPrice (TKE_PlatformCost cp) \<le> TotalPrice (TKE_PlatformCost cp')"
  proof (cases "stage_price m PriceStageFeeUnits")
    case None
    with n have "TotalPrice (TKE_PlatformCost cp') = snd (last PriceStageFeeUnits)"
      by (simp add: TKE_PlatformCost_def)
    with most show ?thesis by simp
  next
    case (Some q)
    with stage_price_mono [OF stage_prices(1) _ n(3), of q] stage_prices(2) n show ?thesis
      by (auto simp: TKE_PlatformCost_def)
  qed
qed

section \<open>EKS\<close>

definition EKS_PlatformCost :: "PlatformParameter \<Rightarrow> Prices" where
  "EKS_PlatformCost cp = \<lparr>TotalPrice = 0, DiscountPrice = Some 0\<rparr>"

lemma zero_le_zero: "(0 :: float64) \<le> 0"
  by code_simp

interpretation eks: platform_pricer EKS_PlatformCost 0
  by unfold_locales (simp_all add: EKS_PlatformCost_def zero_le_zero)

text \<open>\<open>PlatformPrice\<close> of \<open>qcloud.go\<close>.\<close>

definition PlatformPrice :: "PlatformParameter \<Rightarrow> Prices" where
  "PlatformPrice cp = (case Platform cp of
     ServerfulKind \<Rightarrow> TKE_PlatformCost cp
   | ServerlessKind \<Rightarrow> EKS_PlatformCost cp
   | OtherPlatform s \<Rightarrow> TKE_PlatformCost cp)"

lemma zero_le_last: "0 \<le> snd (last PriceStageFeeUnits)"
  by code_simp

interpretation qcloud_platform: platform_pricer PlatformPrice "snd (last PriceStageFeeUnits)"
proof unfold_locales
  fix cp cp' :: PlatformParameter and n m :: int
  show "nonneg (TotalPrice (PlatformPrice cp))"
    using tke.cost_nonneg eks.cost_nonneg by (simp add: PlatformPrice_def split: platform_kind.split)
  show "TotalPrice (PlatformPrice cp) \<le> snd (last PriceStageFeeUnits)"
    using tke.cost_bounded zero_le_last
    by (simp add: PlatformPrice_def EKS_PlatformCost_def split: platform_kind.split)
  assume "Platform cp = Platform cp'" "Nodes cp = Some n" "Nodes cp' = Some m" "n \<le> m"
  then show "TotalPrice (PlatformPrice cp) \<le> TotalPrice (PlatformPrice cp')"
    using tke.cost_mono [of cp cp' n m] eks.cost_mono [of cp cp' n m]
    by (simp add: PlatformPrice_def split: platform_kind.split)
qed

text \<open>A number of nodes pays for the least stage that has room for it.\<close>

lemma stage_price_least:
  "sorted_wrt (<) (map fst us) \<Longrightarrow> (limit, p) \<in> set us \<Longrightarrow> n \<le> limit \<Longrightarrow>
     \<forall>l \<in> fst ` set us. l < limit \<longrightarrow> l < n \<Longrightarrow> stage_price n us = Some p"
proof (induction us)
  case (Cons u us)
  obtain k q where u: "u = (k, q)" by fastforce
  show ?case
  proof (cases "n \<le> k")
    case True
    with Cons.prems(4) u have "limit \<le> k" by force
    with Cons.prems(1,2) u have "(limit, p) = (k, q)" by force
    with True u show ?thesis by simp
  next
    case False
    with Cons.prems(2,3) u have "(limit, p) \<in> set us" by auto
    with Cons False u show ?thesis by simp
  qed
qed simp

lemma stage_price_none: "\<forall>l \<in> fst ` set us. l < n \<Longrightarrow> stage_price n us = None"
  by (induction us) auto

text \<open>
  C39. What a cluster costs by itself. A cluster of nodes, or one of a kind that is not known, pays the hourly fee of the
  least stage with room for its nodes, of 5, 20, 50, 100, 200, 500, 1000, 3000 and 5000, that of 5000 beyond, and that
  of 5 when the number is not known; a serverless one pays nothing. So the fee does not fall as nodes are added.
\<close>

theorem PlatformPrice_stages:
  assumes "stages = [(5, lit 13 100), (20, lit 40 100), (50, lit 73 100), (100, lit 122 100), (200, lit 255 100),
    (500, lit 511 100), (1000, lit 930 100), (3000, lit 1560 100), (5000, lit 2804 100)]"
    and "Platform cp \<noteq> ServerlessKind"
  shows "(\<forall>(limit, p) \<in> set stages. n \<le> limit \<and> (\<forall>l \<in> fst ` set stages. l < limit \<longrightarrow> l < n) \<longrightarrow>
      TotalPrice (PlatformPrice (cp\<lparr>Nodes := Some n\<rparr>)) = p) \<and>
    (5000 < n \<longrightarrow> TotalPrice (PlatformPrice (cp\<lparr>Nodes := Some n\<rparr>)) = lit 2804 100) \<and>
    TotalPrice (PlatformPrice (cp\<lparr>Nodes := None\<rparr>)) = lit 13 100 \<and>
    TotalPrice (PlatformPrice (cp\<lparr>Platform := ServerlessKind, Nodes := Some n\<rparr>)) = 0 \<and>
    (sorted ns \<longrightarrow> sorted_wrt (\<le>) (map (\<lambda>n. TotalPrice (PlatformPrice (cp\<lparr>Nodes := Some n\<rparr>))) ns))"
proof -
  have st: "stages = PriceStageFeeUnits" by (simp add: assms(1) PriceStageFeeUnits_def)
  have tke: "PlatformPrice (cp\<lparr>Nodes := x\<rparr>) = TKE_PlatformCost (cp\<lparr>Nodes := x\<rparr>)" for x
    using assms(2) by (simp add: PlatformPrice_def split: platform_kind.split)
  have limits: "sorted_wrt (<) (map fst PriceStageFeeUnits)" "\<forall>l \<in> fst ` set PriceStageFeeUnits. l \<le> 5000"
    by (simp_all add: PriceStageFeeUnits_def)
  have "TotalPrice (PlatformPrice (cp\<lparr>Nodes := Some n\<rparr>)) = p"
    if "(limit, p) \<in> set stages" "n \<le> limit" "\<forall>l \<in> fst ` set stages. l < limit \<longrightarrow> l < n" for limit p
    using stage_price_least [OF limits(1) that [unfolded st]] by (simp add: tke TKE_PlatformCost_def)
  moreover have "TotalPrice (PlatformPrice (cp\<lparr>Nodes := Some n\<rparr>)) = lit 2804 100" if "5000 < n"
    using limits(2) that stage_price_none [of PriceStageFeeUnits n]
    by (fastforce simp: tke TKE_PlatformCost_def PriceStageFeeUnits_def)
  moreover have "TotalPrice (PlatformPrice (cp\<lparr>Nodes := None\<rparr>)) = lit 13 100"
    by (simp add: tke TKE_PlatformCost_def PriceStageFeeUnits_def)
  moreover have "TotalPrice (PlatformPrice (cp\<lparr>Platform := ServerlessKind, Nodes := Some n\<rparr>)) = 0"
    by (simp add: PlatformPrice_def EKS_PlatformCost_def)
  moreover have "sorted_wrt (\<le>) (map (\<lambda>n. TotalPrice (PlatformPrice (cp\<lparr>Nodes := Some n\<rparr>))) ns)" if "sorted ns"
  proof -
    have "(\<lambda>n. TotalPrice (PlatformPrice (cp\<lparr>Nodes := Some n\<rparr>))) = qcloud_platform.price_of cp"
      by (simp add: fun_eq_iff qcloud_platform.price_of_def)
    with qcloud_platform.price_of_sorted [OF that] show ?thesis by simp
  qed
  ultimately show ?thesis by blast
qed

definition example_cluster :: PlatformParameter where
  "example_cluster = \<lparr>Nodes = None, ClusterLevel = None, Platform = ServerfulKind\<rparr>"

theorem PlatformPrice_stages_witness:
  "TotalPrice (PlatformPrice (example_cluster\<lparr>Nodes := Some 5\<rparr>)) = lit 13 100 \<and>
   TotalPrice (PlatformPrice (example_cluster\<lparr>Nodes := Some 6\<rparr>)) = lit 40 100 \<and>
   TotalPrice (PlatformPrice (example_cluster\<lparr>Nodes := Some 5001\<rparr>)) = lit 2804 100"
proof -
  have "Platform example_cluster \<noteq> ServerlessKind" by (simp add: example_cluster_def)
  note p = PlatformPrice_stages [OF refl this]
  from p [of 5] have "TotalPrice (PlatformPrice (example_cluster\<lparr>Nodes := Some 5\<rparr>)) = lit 13 100" by simp
  moreover from p [of 6] have "TotalPrice (PlatformPrice (example_cluster\<lparr>Nodes := Some 6\<rparr>)) = lit 40 100" by simp
  moreover from p [of 5001] have "TotalPrice (PlatformPrice (example_cluster\<lparr>Nodes := Some 5001\<rparr>)) = lit 2804 100"
    by simp
  ultimately show ?thesis by blast
qed

section \<open>Annotations\<close>

definition EKSPodCpuType :: "'q pod \<Rightarrow> string" where
  "EKSPodCpuType p = (case PodAnnotations p of
     None \<Rightarrow> ''intel''
   | Some a \<Rightarrow> mget_default [] a ''eks.tke.cloud.tencent.com/cpu-type'')"

definition pod_annotation :: "string \<Rightarrow> 'q pod \<Rightarrow> bool \<times> string" where
  "pod_annotation name p = (case PodAnnotations p of
     None \<Rightarrow> (False, [])
   | Some a \<Rightarrow> (case mget a name of None \<Rightarrow> (False, []) | Some t \<Rightarrow> (True, t)))"

definition EKSPodGpuType :: "'q pod \<Rightarrow> bool \<times> string" where
  "EKSPodGpuType p = pod_annotation ''eks.tke.cloud.tencent.com/gpu-type'' p"

definition EKSPodGpuCount :: "'q pod \<Rightarrow> bool \<times> string" where
  "EKSPodGpuCount p = pod_annotation ''eks.tke.cloud.tencent.com/gpu-count'' p"

definition EKSPodCpuValue :: "'q pod \<Rightarrow> bool \<times> string" where
  "EKSPodCpuValue p = pod_annotation ''eks.tke.cloud.tencent.com/cpu'' p"

definition EKSPodMemValue :: "'q pod \<Rightarrow> bool \<times> string" where
  "EKSPodMemValue p = pod_annotation ''eks.tke.cloud.tencent.com/mem'' p"

text \<open>A pod's machine type: that of its GPU if the annotation is there, else that of its CPU.\<close>

definition machine_type :: "'q pod \<Rightarrow> string" where
  "machine_type p = (case EKSPodGpuType p of (exists, t) \<Rightarrow> if exists then t else EKSPodCpuType p)"

end
