(* ===== verification/Qcloud_Cache.thy ===== *)
theory Qcloud_Cache
  imports Qcloud_SDK Qcloud_Platform
begin

text \<open>
  \<open>pkg/cloudproviders/qcloud/price_cache.go\<close> and the parts of \<open>qcloud.go\<close> it stands on: the
  identifier in a provider ID, virtual nodes, and the two caches of the Tencent cloud with the
  operations that change them. The cluster's nodes, which the code takes from its cache, are
  arguments; each operation is one step, as its lock makes it.
\<close>

datatype cloud_error = SdkFailed sdk_error | NilConfig | BadPrice num_error | NilPointer |
  BadQuantity | NotImplemented

record TencentCloud =
  standardPricing :: "(string, quota_item) gomap"
  instances :: "(string, QCloudInstancePrice) gomap"
  customPricing :: "CustomPricing option"

section \<open>Provider IDs\<close>

text \<open>
  The expression \<open>qcloud:///([^/]+)/([^/]+)\<close> at the head of a string, its two groups; then its
  first occurrence. A group is greedy, so it runs up to the next slash.
\<close>

abbreviation not_slash :: "char \<Rightarrow> bool" where
  "not_slash c \<equiv> c \<noteq> CHR ''/''"

definition match_here :: "string \<Rightarrow> (string \<times> string) option" where
  "match_here s =
     (if has_prefix s ''qcloud:///'' then
        let r = drop 10 s; g1 = takeWhile not_slash r; r1 = dropWhile not_slash r;
            g2 = takeWhile not_slash (tl r1)
        in if g1 \<noteq> [] \<and> r1 \<noteq> [] \<and> g2 \<noteq> [] then Some (g1, g2) else None
      else None)"

fun find_match :: "string \<Rightarrow> (string \<times> string) option" where
  "find_match [] = None"
| "find_match (c # s) = (case match_here (c # s) of Some m \<Rightarrow> Some m | None \<Rightarrow> find_match s)"

definition ParseID :: "string \<Rightarrow> string" where
  "ParseID pid = (case find_match pid of None \<Rightarrow> pid | Some (g1, g2) \<Rightarrow> g2)"

lemma take_drop_while:
  "\<forall>c \<in> set xs. P c \<Longrightarrow> takeWhile P (xs @ ys) = xs @ takeWhile P ys"
  "\<forall>c \<in> set xs. P c \<Longrightarrow> dropWhile P (xs @ ys) = dropWhile P ys"
  by (induction xs) simp_all

lemma match_here_no_slash: "match_here s = Some (g1, g2) \<Longrightarrow> CHR ''/'' \<notin> set g2 \<and> g2 \<noteq> []"
  by (auto simp: match_here_def Let_def dest: set_takeWhileD split: if_splits)

lemma find_match_no_slash: "find_match s = Some (g1, g2) \<Longrightarrow> CHR ''/'' \<notin> set g2 \<and> g2 \<noteq> []"
proof (induction s)
  case (Cons c s)
  show ?case
  proof (cases "match_here (c # s)")
    case None
    with Cons show ?thesis by simp
  next
    case (Some m)
    with Cons.prems have "match_here (c # s) = Some (g1, g2)" by simp
    then show ?thesis by (rule match_here_no_slash)
  qed
qed simp

lemma match_here_slash: "match_here s \<noteq> None \<Longrightarrow> CHR ''/'' \<in> set s"
proof -
  assume "match_here s \<noteq> None"
  then have "has_prefix s ''qcloud:///''" by (simp add: match_here_def split: if_splits)
  then obtain t where "s = ''qcloud:///'' @ t" unfolding has_prefix_iff by blast
  then show ?thesis by simp
qed

lemma find_match_slash: "CHR ''/'' \<notin> set s \<Longrightarrow> find_match s = None"
proof (induction s)
  case (Cons c s)
  have "match_here (c # s) = None" using match_here_slash Cons.prems by blast
  with Cons show ?case by simp
qed simp

text \<open>
  The identifier of a well formed provider ID is its last part, it holds no slash, and taking
  the identifier of an identifier changes nothing.
\<close>

theorem ParseID_canonical:
  "(zone \<noteq> [] \<and> ins \<noteq> [] \<and> CHR ''/'' \<notin> set zone \<and> CHR ''/'' \<notin> set ins \<longrightarrow>
     ParseID (''qcloud:///'' @ zone @ ''/'' @ ins) = ins) \<and>
   ParseID (ParseID pid) = ParseID pid"
proof (intro conjI impI)
  assume z: "zone \<noteq> [] \<and> ins \<noteq> [] \<and> CHR ''/'' \<notin> set zone \<and> CHR ''/'' \<notin> set ins"
  then have z': "\<forall>c \<in> set zone. not_slash c" by blast
  have t: "takeWhile not_slash (zone @ CHR ''/'' # ins) = zone"
    "dropWhile not_slash (zone @ CHR ''/'' # ins) = CHR ''/'' # ins"
    by (simp_all add: take_drop_while [OF z'])
  have i: "takeWhile not_slash ins = ins" using z by (auto simp: takeWhile_eq_all_conv)
  have "match_here (''qcloud:///'' @ zone @ ''/'' @ ins) = Some (zone, ins)"
    using z by (simp add: match_here_def Let_def t i)
  then show "ParseID (''qcloud:///'' @ zone @ ''/'' @ ins) = ins" by (simp add: ParseID_def)
next
  show "ParseID (ParseID pid) = ParseID pid"
  proof (cases "find_match pid")
    case (Some m)
    obtain g1 g2 where m: "m = (g1, g2)" by fastforce
    with Some have "CHR ''/'' \<notin> set g2" using find_match_no_slash by blast
    then show ?thesis by (simp add: ParseID_def Some m find_match_slash)
  qed (simp add: ParseID_def)
qed

theorem ParseID_canonical_witness:
  "ParseID (''qcloud:///'' @ ''800005'' @ ''/'' @ ''ins-2jv4wpmr'') = ''ins-2jv4wpmr''"
  using ParseID_canonical [of "''800005''" "''ins-2jv4wpmr''" "[]"] by simp

section \<open>Virtual nodes\<close>

text \<open>A nil node is not virtual; the two instance type labels are asked for in this order.\<close>

definition nonempty_label :: "labels \<Rightarrow> string \<Rightarrow> string option" where
  "nonempty_label m k = (case mget m k of
     None \<Rightarrow> None | Some v \<Rightarrow> if v = [] then None else Some v)"

definition IsVirtualNode :: "'q node option \<Rightarrow> bool" where
  "IsVirtualNode node = (case node of
     None \<Rightarrow> False
   | Some n \<Rightarrow>
       if NodeLabels n = [] then False
       else case (case nonempty_label (NodeLabels n) ''node.kubernetes.io/instance-type'' of
                    Some t \<Rightarrow> Some t
                  | None \<Rightarrow> nonempty_label (NodeLabels n) ''beta.kubernetes.io/instance-type'') of
           None \<Rightarrow> False
         | Some t \<Rightarrow>
             if t \<noteq> ''eklet'' then False
             else case nonempty_label (NodeLabels n) ''eks.tke.cloud.tencent.com/version'' of
                 None \<Rightarrow> False
               | Some v \<Rightarrow> v = ''v2'')"

section \<open>The standard price cache\<close>

text \<open>A nil zone, type or charge type panics, after the items before it were stored.\<close>

fun store_standard :: "quota_item list \<Rightarrow> (string, quota_item) gomap \<Rightarrow>
    cloud_error option \<times> (string, quota_item) gomap" where
  "store_standard [] m = (None, m)"
| "store_standard (item # items) m =
     (case (ItemZone item, ItemInstanceType item, ItemChargeType item) of
        (Some zone, Some insType, Some chargeType) \<Rightarrow>
          store_standard items (mput (zone @ '','' @ insType @ '','' @ chargeType) item m)
      | _ \<Rightarrow> (Some NilPointer, m))"

definition refreshPricingCache ::
    "'w cvm_client \<Rightarrow> TencentCloud \<Rightarrow> 'w \<Rightarrow> cloud_error option \<times> TencentCloud \<times> 'w" where
  "refreshPricingCache c tc w = (case GetAllZoneInstanceConfigInfos c w of
     (Inl e, w') \<Rightarrow> (Some (SdkFailed e), tc, w')
   | (Inr items, w') \<Rightarrow> (case store_standard items (standardPricing tc) of
       (e, m) \<Rightarrow> (e, tc\<lparr>standardPricing := m\<rparr>, w')))"

section \<open>The instance price cache\<close>

definition node_ids :: "'q node list \<Rightarrow> string list" where
  "node_ids nodes = filter (\<lambda>i. i \<noteq> []) (map (\<lambda>n. ParseID (NodeProviderID n)) nodes)"

definition store_price ::
    "QCloudInstancePrice \<Rightarrow> (string, QCloudInstancePrice) gomap \<Rightarrow>
     (string, QCloudInstancePrice) gomap" where
  "store_price p m = (case Instance p of
     None \<Rightarrow> m
   | Some ins \<Rightarrow> (case InstanceId ins of
       None \<Rightarrow> m
     | Some i \<Rightarrow> mput i \<lparr>Instance = Some ins, InstancePrice = InstancePrice p\<rparr> m))"

definition drop_gone :: "string list \<Rightarrow> (string, 'v) gomap \<Rightarrow> (string, 'v) gomap" where
  "drop_gone ids m = filter (\<lambda>(k, v). k \<in> set ids) m"

text \<open>\<open>None\<close>: the paging does not end.\<close>

definition refreshInstancePricingCache ::
    "'w cvm_client \<Rightarrow> 'q node list \<Rightarrow> TencentCloud \<Rightarrow> 'w \<Rightarrow>
     (cloud_error option \<times> TencentCloud \<times> 'w) option" where
  "refreshInstancePricingCache c nodes tc w =
     (let ids = node_ids nodes
      in case GetCVMInstances c ids w of
           None \<Rightarrow> None
         | Some (Inl e, w') \<Rightarrow> Some (Some (SdkFailed e), tc, w')
         | Some (Inr found, w') \<Rightarrow> (case GetCVMInstancesPrice c found w' of
             (Inl e, w'') \<Rightarrow> Some (Some (SdkFailed e), tc, w'')
           | (Inr prices, w'') \<Rightarrow>
               Some (None, tc\<lparr>instances := drop_gone ids (fold store_price prices (instances tc))\<rparr>, w'')))"

definition WarmUp ::
    "'w cvm_client \<Rightarrow> 'q node list \<Rightarrow> TencentCloud \<Rightarrow> 'w \<Rightarrow>
     (cloud_error option \<times> TencentCloud \<times> 'w) option" where
  "WarmUp c nodes tc w = (case refreshPricingCache c tc w of
     (Some e, tc', w') \<Rightarrow> Some (Some e, tc', w')
   | (None, tc', w') \<Rightarrow> refreshInstancePricingCache c nodes tc' w')"

text \<open>\<open>Refresh\<close> logs an error and drops it; a panic goes through.\<close>

definition unless_panic :: "cloud_error option \<Rightarrow> cloud_error option" where
  "unless_panic e = (if e = Some NilPointer \<or> e = Some (SdkFailed SliceOutOfRange) then e else None)"

definition Refresh ::
    "'w cvm_client \<Rightarrow> 'q node list \<Rightarrow> TencentCloud \<Rightarrow> 'w \<Rightarrow>
     (cloud_error option \<times> TencentCloud \<times> 'w) option" where
  "Refresh c nodes tc w = (case refreshPricingCache c tc w of
     (Some e, tc', w') \<Rightarrow> Some (unless_panic (Some e), tc', w')
   | (None, tc', w') \<Rightarrow> (case refreshInstancePricingCache c nodes tc' w' of
       None \<Rightarrow> None
     | Some (e, tc'', w'') \<Rightarrow> Some (unless_panic e, tc'', w'')))"

definition GetInstancePrice :: "TencentCloud \<Rightarrow> string \<Rightarrow> QCloudInstancePrice option" where
  "GetInstancePrice tc i = mget (instances tc) i"

definition getInstanceById :: "TencentCloud \<Rightarrow> string \<Rightarrow> cvm_instance option" where
  "getInstanceById tc i = (case mget (instances tc) i of None \<Rightarrow> None | Some p \<Rightarrow> Instance p)"

section \<open>Node events\<close>

definition OnNodeDelete :: "'q node option \<Rightarrow> TencentCloud \<Rightarrow> TencentCloud" where
  "OnNodeDelete node tc = (case node of
     None \<Rightarrow> tc
   | Some n \<Rightarrow> tc\<lparr>instances := mdel (ParseID (NodeProviderID n)) (instances tc)\<rparr>)"

definition OnNodeAdd ::
    "'w cvm_client \<Rightarrow> 'q node option \<Rightarrow> TencentCloud \<Rightarrow> 'w \<Rightarrow>
     (cloud_error option \<times> TencentCloud \<times> 'w) option" where
  "OnNodeAdd c node tc w =
     (if IsVirtualNode node then Some (None, tc, w)
      else case node of
        None \<Rightarrow> Some (None, tc, w)
      | Some n \<Rightarrow>
          let i = ParseID (NodeProviderID n)
          in case GetCVMInstances c [i] w of
               None \<Rightarrow> None
             | Some (Inl e, w') \<Rightarrow> Some (Some (SdkFailed e), tc, w')
             | Some (Inr found, w') \<Rightarrow> (case GetCVMInstancesPrice c found w' of
                 (Inl e, w'') \<Rightarrow> Some (Some (SdkFailed e), tc, w'')
               | (Inr [], w'') \<Rightarrow> Some (None, tc, w'')
               | (Inr (p # ps), w'') \<Rightarrow> Some (None, tc\<lparr>instances := mput i p (instances tc)\<rparr>, w'')))"

definition OnNodeUpdate :: "'q node \<Rightarrow> 'q node \<Rightarrow> TencentCloud \<Rightarrow> TencentCloud" where
  "OnNodeUpdate old new tc = tc"

section \<open>What the instance cache holds\<close>

definition price_id :: "QCloudInstancePrice \<Rightarrow> string option" where
  "price_id p = Option.bind (Instance p) InstanceId"

text \<open>The last of the prices of an instance.\<close>

definition price_for :: "string \<Rightarrow> QCloudInstancePrice list \<Rightarrow> QCloudInstancePrice option" where
  "price_for k ps = find (\<lambda>p. price_id p = Some k) (rev ps)"

lemma store_price_get:
  "mget (store_price p m) k = (if price_id p = Some k then Some p else mget m k)"
  by (cases p) (auto simp: store_price_def price_id_def split: option.split)

lemma price_for_snoc:
  "price_for k (ps @ [p]) = (if price_id p = Some k then Some p else price_for k ps)"
  by (simp add: price_for_def)

lemma fold_store_price:
  "mget (fold store_price ps m) k = (case price_for k ps of Some p \<Rightarrow> Some p | None \<Rightarrow> mget m k)"
  by (induction ps rule: rev_induct)
    (simp_all add: price_for_snoc store_price_get price_for_def split: option.split)

lemma drop_gone_get: "mget (drop_gone ids m) k = (if k \<in> set ids then mget m k else None)"
  by (induction m) (auto simp: drop_gone_def)

lemma drop_gone_keys: "mkeys (drop_gone ids m) = mkeys m \<inter> set ids"
  by (auto simp: drop_gone_def)

lemma refreshInstance_cases:
  assumes "refreshInstancePricingCache c nodes tc w = Some (e, tc', w')"
  obtains (failed) "e \<noteq> None" "tc' = tc"
  | (refreshed) found w1 prices where "e = None"
      "GetCVMInstances c (node_ids nodes) w = Some (Inr found, w1)"
      "GetCVMInstancesPrice c found w1 = (Inr prices, w')"
      "tc' = tc\<lparr>instances := drop_gone (node_ids nodes) (fold store_price prices (instances tc))\<rparr>"
  using assms
  by (auto simp: refreshInstancePricingCache_def Let_def split: option.splits prod.splits sum.splits)

text \<open>
  C25. After a refresh that succeeds the cache holds prices of the cluster's nodes only, and of
  each such instance the last price the cloud gave now, or the one held before if it gave none.
\<close>

theorem refresh_reflects_nodes:
  assumes "refreshInstancePricingCache c nodes tc w = Some (None, tc', w')"
  shows "mkeys (instances tc') \<subseteq> {i. i \<noteq> [] \<and> (\<exists>n \<in> set nodes. ParseID (NodeProviderID n) = i)} \<and>
    (\<exists>found w1 prices. GetCVMInstances c (node_ids nodes) w = Some (Inr found, w1) \<and>
       GetCVMInstancesPrice c found w1 = (Inr prices, w') \<and>
       (\<forall>n \<in> set nodes. ParseID (NodeProviderID n) \<noteq> [] \<longrightarrow>
          mget (instances tc') (ParseID (NodeProviderID n)) =
            (case price_for (ParseID (NodeProviderID n)) prices of
               Some p \<Rightarrow> Some p | None \<Rightarrow> mget (instances tc) (ParseID (NodeProviderID n)))))"
  using assms
proof (cases rule: refreshInstance_cases)
  case (refreshed found w1 prices)
  have ids: "set (node_ids nodes) = {i. i \<noteq> [] \<and> (\<exists>n \<in> set nodes. ParseID (NodeProviderID n) = i)}"
    by (auto simp: node_ids_def)
  have "mkeys (instances tc') \<subseteq> set (node_ids nodes)"
    by (simp add: refreshed(4) drop_gone_keys)
  moreover have "mget (instances tc') k =
      (case price_for k prices of Some p \<Rightarrow> Some p | None \<Rightarrow> mget (instances tc) k)"
    if "k \<in> set (node_ids nodes)" for k
    using that by (simp add: refreshed(4) drop_gone_get fold_store_price)
  ultimately show ?thesis using refreshed(2, 3) unfolding ids by blast
qed simp

definition example_node :: "string \<Rightarrow> string \<Rightarrow> nat node" where
  "example_node name pid = \<lparr>NodeName = name, NodeLabels = [], NodeProviderID = pid,
     NodeCapacity = [(''cpu'', 2), (''memory'', 8)]\<rparr>"

definition example_cloud :: TencentCloud where
  "example_cloud = \<lparr>standardPricing = [], instances = [(''ins-old'', \<lparr>Instance = None, InstancePrice = None\<rparr>)],
     customPricing = None\<rparr>"

definition example_refreshed :: TencentCloud where
  "example_refreshed = (case refreshInstancePricingCache (example_client 2)
     [example_node ''n'' ''qcloud:///1/ins-a''] example_cloud 0 of Some (e, tc, w) \<Rightarrow> tc)"

lemma example_refresh:
  "refreshInstancePricingCache (example_client 2)
     [example_node ''n'' ''qcloud:///1/ins-a''] example_cloud 0 = Some (None, example_refreshed, 2)"
  by code_simp

theorem refresh_reflects_nodes_witness:
  "mkeys (instances example_refreshed) \<subseteq>
     {i. i \<noteq> [] \<and> (\<exists>n \<in> set [example_node ''n'' ''qcloud:///1/ins-a'']. ParseID (NodeProviderID n) = i)}"
  using refresh_reflects_nodes [OF example_refresh] by blast

section \<open>Reachable states\<close>

text \<open>
  The states a cloud gets to, with the remote service's, when its operations are called in any
  order, as the controllers do: \<open>WarmUp\<close> once, \<open>Refresh\<close> again and again, and the node events.
\<close>

inductive cloud_reach :: "'w cvm_client \<Rightarrow> TencentCloud \<Rightarrow> 'w \<Rightarrow> bool" for c where
  start: "cloud_reach c \<lparr>standardPricing = [], instances = [], customPricing = cfg\<rparr> w"
| warm: "cloud_reach c tc w \<Longrightarrow> WarmUp c (nodes :: nat node list) tc w = Some (e, tc', w') \<Longrightarrow>
    cloud_reach c tc' w'"
| refresh: "cloud_reach c tc w \<Longrightarrow> Refresh c (nodes :: nat node list) tc w = Some (e, tc', w') \<Longrightarrow>
    cloud_reach c tc' w'"
| added: "cloud_reach c tc w \<Longrightarrow> OnNodeAdd c (node :: nat node option) tc w = Some (e, tc', w') \<Longrightarrow>
    cloud_reach c tc' w'"
| deleted: "cloud_reach c tc w \<Longrightarrow> cloud_reach c (OnNodeDelete (node :: nat node option) tc) w"

definition has_price :: "QCloudInstancePrice \<Rightarrow> bool" where
  "has_price p \<longleftrightarrow> Instance p \<noteq> None \<and> InstancePrice p \<noteq> None"

definition priced_map :: "(string, QCloudInstancePrice) gomap \<Rightarrow> bool" where
  "priced_map m \<longleftrightarrow> wf_map m \<and> (\<forall>p \<in> snd ` set m. has_price p)"

definition cache_ok :: "TencentCloud \<Rightarrow> bool" where
  "cache_ok tc \<longleftrightarrow> wf_map (standardPricing tc) \<and> priced_map (instances tc)"

lemma price_loop_has_price:
  "\<forall>p \<in> set acc. has_price p \<Longrightarrow> \<forall>p \<in> set (fst (price_loop c xs acc w)). has_price p"
proof (induction xs arbitrary: acc w)
  case (Cons ins rest)
  obtain r w' where r: "with_retry c (DescribeZoneInstanceConfigInfos c
      (str (cvm_instance.InstanceType ins), str (InstanceChargeType ins), str (PlacementZone ins))) w = (r, w')"
    by fastforce
  have new: "\<forall>p \<in> set (fst (price_loop c rest
      (acc @ [\<lparr>Instance = Some ins, InstancePrice = Some q\<rparr>]) w')). has_price p" for q
    by (rule Cons.IH) (use Cons.prems in \<open>auto simp: has_price_def\<close>)
  show ?case
    using new Cons.IH [OF Cons.prems, of w'] by (cases r) (simp_all add: r split: list.split option.split)
qed simp

lemma GetCVMInstancesPrice_has_price:
  "GetCVMInstancesPrice c xs w = (Inr ps, w') \<Longrightarrow> \<forall>p \<in> set ps. has_price p"
  using price_loop_has_price [of "[]" c xs w]
  by (auto simp: GetCVMInstancesPrice_def split: option.splits prod.splits)

lemma set_mput_subset: "set (mput k v m) \<subseteq> insert (k, v) (set m)"
proof (induction m)
  case (Cons x m)
  then show ?case by (cases x) auto
qed simp

lemma priced_Nil [simp]: "priced_map []"
  by (simp add: priced_map_def)

lemma priced_put: "priced_map m \<Longrightarrow> has_price p \<Longrightarrow> priced_map (mput k p m)"
  using set_mput_subset [of k p m] unfolding priced_map_def by fastforce

lemma priced_filter: "priced_map m \<Longrightarrow> priced_map (filter P m)"
  by (auto simp: priced_map_def wf_map_def distinct_map_filter)

lemma priced_del: "priced_map m \<Longrightarrow> priced_map (mdel k m)"
  by (simp add: AList.delete_eq priced_filter)

lemma priced_store: "priced_map m \<Longrightarrow> has_price p \<Longrightarrow> priced_map (store_price p m)"
  by (simp add: store_price_def priced_put has_price_def split: option.split)

lemma priced_fold_store:
  "priced_map m \<Longrightarrow> \<forall>p \<in> set ps. has_price p \<Longrightarrow> priced_map (fold store_price ps m)"
  by (induction ps rule: rev_induct) (simp_all add: priced_store)

lemma store_standard_wf: "wf_map m \<Longrightarrow> wf_map (snd (store_standard items m))"
  by (induction items arbitrary: m) (auto split: option.split)

lemma refreshPricing_ok:
  assumes "cache_ok tc" "refreshPricingCache c tc w = (e, tc', w')"
  shows "cache_ok tc'"
proof -
  have "instances tc' = instances tc" "wf_map (standardPricing tc')"
    using assms store_standard_wf [of "standardPricing tc"]
    by (auto simp: refreshPricingCache_def cache_ok_def split: prod.splits sum.splits)
      (metis snd_conv)
  with assms(1) show ?thesis by (simp add: cache_ok_def)
qed

lemma refreshInstance_ok:
  assumes "cache_ok tc" "refreshInstancePricingCache c nodes tc w = Some (e, tc', w')"
  shows "cache_ok tc'"
  using assms(2)
proof (cases rule: refreshInstance_cases)
  case (refreshed found w1 prices)
  have "priced_map (fold store_price prices (instances tc))"
    using assms(1) GetCVMInstancesPrice_has_price [OF refreshed(3)]
    by (intro priced_fold_store) (simp_all add: cache_ok_def)
  then show ?thesis
    using assms(1) by (simp add: refreshed(4) cache_ok_def drop_gone_def priced_filter)
qed (use assms in simp)

lemma WarmUp_ok: "cache_ok tc \<Longrightarrow> WarmUp c nodes tc w = Some (e, tc', w') \<Longrightarrow> cache_ok tc'"
  by (auto simp: WarmUp_def split: prod.splits option.splits
      dest: refreshPricing_ok refreshInstance_ok)

lemma Refresh_ok: "cache_ok tc \<Longrightarrow> Refresh c nodes tc w = Some (e, tc', w') \<Longrightarrow> cache_ok tc'"
  by (auto simp: Refresh_def split: prod.splits option.splits
      dest: refreshPricing_ok refreshInstance_ok)

lemma OnNodeAdd_ok:
  assumes "cache_ok tc" "OnNodeAdd c node tc w = Some (e, tc', w')"
  shows "cache_ok tc'"
proof (cases "tc' = tc")
  case False
  with assms(2) obtain i found w1 p ps where
    a: "GetCVMInstancesPrice c found w1 = (Inr (p # ps), w')" "tc' = tc\<lparr>instances := mput i p (instances tc)\<rparr>"
    by (auto simp: OnNodeAdd_def Let_def split: if_splits option.splits prod.splits sum.splits list.splits)
  have "has_price p" using GetCVMInstancesPrice_has_price [OF a(1)] by simp
  with assms(1) show ?thesis by (simp add: a(2) cache_ok_def priced_put)
qed (use assms in simp)

lemma OnNodeDelete_ok: "cache_ok tc \<Longrightarrow> cache_ok (OnNodeDelete node tc)"
  by (simp add: OnNodeDelete_def cache_ok_def priced_del split: option.split)

text \<open>
  C30. In every state the cloud gets to, whatever the order of refreshes and node events and
  whatever the remote service answers, each cached instance has an instance and a price, and no
  identifier is there twice.
\<close>

theorem cloud_reach_cache_ok: "cloud_reach c tc w \<Longrightarrow> cache_ok tc"
proof (induction rule: cloud_reach.induct)
  case (start cfg w)
  show ?case by (simp add: cache_ok_def)
next
  case (warm tc w nodes e tc' w')
  then show ?case by (auto intro: WarmUp_ok)
next
  case (refresh tc w nodes e tc' w')
  then show ?case by (auto intro: Refresh_ok)
next
  case (added tc w node e tc' w')
  then show ?case by (auto intro: OnNodeAdd_ok)
next
  case (deleted tc w node)
  then show ?case by (auto intro: OnNodeDelete_ok)
qed

lemma example_reach:
  "cloud_reach (example_client 2)
     (case refreshInstancePricingCache (example_client 2) [example_node ''n'' ''qcloud:///1/ins-a'']
        \<lparr>standardPricing = [], instances = [], customPricing = None\<rparr> 2 of Some (e, tc, w) \<Rightarrow> tc) 4"
proof (rule cloud_reach.warm [OF cloud_reach.start])
  show "WarmUp (example_client 2) [example_node ''n'' ''qcloud:///1/ins-a'']
      \<lparr>standardPricing = [], instances = [], customPricing = None\<rparr> 0 =
    Some (None, case refreshInstancePricingCache (example_client 2)
        [example_node ''n'' ''qcloud:///1/ins-a'']
        \<lparr>standardPricing = [], instances = [], customPricing = None\<rparr> 2 of Some (e, tc, w) \<Rightarrow> tc, 4)"
    by code_simp
qed

theorem cloud_reach_cache_ok_witness:
  "cache_ok (case refreshInstancePricingCache (example_client 2)
     [example_node ''n'' ''qcloud:///1/ins-a'']
     \<lparr>standardPricing = [], instances = [], customPricing = None\<rparr> 2 of Some (e, tc, w) \<Rightarrow> tc)"
  by (rule cloud_reach_cache_ok [OF example_reach])

end
