(* ===== verification/Qcloud_Price.thy ===== *)
theory Qcloud_Price
  imports Qcloud_Cache
begin

text \<open>
  The prices of nodes and pods: \<open>qcloud.go\<close> from the price of a cached instance to the maps the
  exporter reads, and \<open>default/defaultcloud.go\<close>, which knows no instances. The nodes and pods of
  the cluster are arguments. A panic is the error \<open>NilPointer\<close>.
\<close>

definition GB :: float64 where
  "GB = float_of_int 1073741824"

lemma GB_value: "GB = Fin False (2^52) (-22)"
  by code_simp

definition fmt_f :: "float64 \<Rightarrow> string" where
  "fmt_f x = format_fixed 6 x"

definition zero_nan :: "float64 \<Rightarrow> float64" where
  "zero_nan x = (if x = NaN then 0 else x)"

definition capacity_value :: "'q quantity_ops \<Rightarrow> 'q node \<Rightarrow> string \<Rightarrow> float64" where
  "capacity_value ops n name = float_of_int (QValue ops (res ops (NodeCapacity n) name))"

section \<open>Prices from the configuration\<close>

definition config_price ::
    "'q quantity_ops \<Rightarrow> CustomPricing \<Rightarrow> string \<Rightarrow> 'q node \<Rightarrow> BaseInstancePrice" where
  "config_price ops cfg rg n =
     (let cpu = capacity_value ops n ''cpu''; mem = capacity_value ops n ''memory''
      in empty_price\<lparr>
           Cost := format_v (CpuHourlyPrice cfg * cpu + RamGBHourlyPrice cfg * mem / GB),
           PCpu := format_v cpu, CpuHourlyCost := format_v (CpuHourlyPrice cfg),
           Ram := format_v (mem / GB), RamBytes := format_v mem,
           RamGBHourlyCost := format_v (RamGBHourlyPrice cfg),
           DefaultCpuPrice := format_v (CpuHourlyPrice cfg),
           DefaultRamPrice := format_v (RamGBHourlyPrice cfg),
           UsageType := ''Default'', UsesDefaultPrice := True,
           BaseInstancePrice.InstanceType := fst (GetInstanceType (NodeLabels n)),
           ProviderID := NodeProviderID n, PRegion := rg\<rparr>)"

definition getNodeRegion :: "'q node \<Rightarrow> string" where
  "getNodeRegion n = (let r = fst (GetRegion (NodeLabels n))
     in case ShortName2region r of Some s \<Rightarrow> Region s | None \<Rightarrow> r)"

definition getDefaultNodePrice ::
    "'q quantity_ops \<Rightarrow> CustomPricing \<Rightarrow> 'q node \<Rightarrow> BaseInstancePrice" where
  "getDefaultNodePrice ops cfg n = config_price ops cfg (getNodeRegion n) n"

section \<open>The price of a cached instance\<close>

definition charged ::
    "CustomPricing \<Rightarrow> float64 \<Rightarrow> float64 \<Rightarrow> float64 \<Rightarrow> string \<Rightarrow> string \<Rightarrow> 'q node \<Rightarrow> BaseInstancePrice" where
  "charged cfg cost cpu mem usage insType n =
     empty_price\<lparr>Cost := format_v cost, PCpu := format_v cpu, Ram := format_v (mem / GB),
       RamBytes := format_v mem, DefaultCpuPrice := format_v (CpuHourlyPrice cfg),
       DefaultRamPrice := format_v (RamGBHourlyPrice cfg), UsageType := usage,
       BaseInstancePrice.InstanceType := insType, PRegion := getNodeRegion n,
       ProviderID := NodeProviderID n\<rparr>"

definition or_else :: "'a option \<Rightarrow> 'a \<Rightarrow> 'a" where
  "or_else x d = (case x of None \<Rightarrow> d | Some y \<Rightarrow> y)"

definition instance_price ::
    "'q quantity_ops \<Rightarrow> CustomPricing \<Rightarrow> cvm_instance \<Rightarrow> PriceItem \<Rightarrow> 'q node \<Rightarrow>
     cloud_error + BaseInstancePrice" where
  "instance_price ops cfg ins price n =
     (let usage = or_else (InstanceChargeType ins) ''Default'';
          cpu = (case CPU ins of None \<Rightarrow> capacity_value ops n ''cpu'' | Some c \<Rightarrow> float_of_int c);
          mem = (case Memory ins of
            None \<Rightarrow> capacity_value ops n ''memory'' | Some m \<Rightarrow> float_of_int m * GB);
          insType = or_else (cvm_instance.InstanceType ins) (fst (GetInstanceType (NodeLabels n)))
      in if usage = ''PREPAID'' then
           (case OriginalPrice price of
              None \<Rightarrow> Inl NilPointer
            | Some p \<Rightarrow> Inr (charged cfg (p / float_of_int 720) cpu mem usage insType n))
         else if usage = ''POSTPAID_BY_HOUR'' \<or> usage = ''SPOTPAID'' then
           (case UnitPrice price of
              None \<Rightarrow> Inl NilPointer
            | Some p \<Rightarrow> Inr (charged cfg p cpu mem usage insType n))
         else Inr (getDefaultNodePrice ops cfg n))"

text \<open>The cached instance and price of a node, if both are there.\<close>

definition cached_price :: "TencentCloud \<Rightarrow> 'q node \<Rightarrow> (cvm_instance \<times> PriceItem) option" where
  "cached_price tc n = (case GetInstancePrice tc (ParseID (NodeProviderID n)) of
     None \<Rightarrow> None
   | Some p \<Rightarrow> (case (Instance p, InstancePrice p) of
       (Some ins, Some price) \<Rightarrow> Some (ins, price)
     | _ \<Rightarrow> None))"

definition getCloudInstancePrice ::
    "'q quantity_ops \<Rightarrow> TencentCloud \<Rightarrow> 'q node \<Rightarrow> cloud_error + BaseInstancePrice" where
  "getCloudInstancePrice ops tc n = (case customPricing tc of
     None \<Rightarrow> Inl NilConfig
   | Some cfg \<Rightarrow> (case cached_price tc n of
       None \<Rightarrow> Inr (getDefaultNodePrice ops cfg n)
     | Some (ins, price) \<Rightarrow> instance_price ops cfg ins price n))"

section \<open>Breaking a price down\<close>

text \<open>
  A price is split over cores and memory in the proportion of the configured prices;
  \<open>ServerlessPodPrice\<close> does the same as \<open>computeNodeBreakdownCost\<close>.
\<close>

definition breakdown ::
    "CustomPricing \<Rightarrow> float64 \<Rightarrow> float64 \<Rightarrow> BaseInstancePrice \<Rightarrow> cloud_error + BaseInstancePrice" where
  "breakdown cfg cpu ram p =
     (let defaultCPU = zero_nan (CpuHourlyPrice cfg);
          defaultRAM = zero_nan (RamGBHourlyPrice cfg);
          cpuToRAMRatio = zero_nan (defaultCPU / defaultRAM);
          p = p\<lparr>Ram := fmt_f (ram / GB)\<rparr>;
          ramGB = zero_nan (ram / GB);
          ramMultiple = zero_nan (cpu * cpuToRAMRatio + ramGB)
      in case ParseFloat (if Cost p \<noteq> [] then Cost p else CpuHourlyCost p) of
           (x, Some e) \<Rightarrow> Inl (BadPrice e)
         | (x, None) \<Rightarrow>
             let price = zero_nan x;
                 ramPrice = zero_nan (price / ramMultiple);
                 cpuPrice = ramPrice * cpuToRAMRatio
             in Inr (if \<not> feq defaultRAM 0
                  then p\<lparr>CpuHourlyCost := fmt_f cpuPrice, RamGBHourlyCost := fmt_f ramPrice\<rparr>
                  else p\<lparr>CpuHourlyCost := fmt_f (if \<not> feq cpu 0 then price / cpu else price)\<rparr>))"

definition virtual_price :: "'q quantity_ops \<Rightarrow> 'q node \<Rightarrow> BaseInstancePrice" where
  "virtual_price ops n =
     (let ram = capacity_value ops n ''memory''
      in empty_price\<lparr>Cost := ''0'', CpuHourlyCost := ''0'',
           PCpu := fmt_f (capacity_value ops n ''cpu''), Ram := fmt_f (ram / GB),
           RamBytes := fmt_f ram, RamGBHourlyCost := ''0'',
           BaseInstancePrice.InstanceType := fst (GetInstanceType (NodeLabels n)),
           PRegion := getNodeRegion n, ProviderID := NodeProviderID n\<rparr>)"

definition computeNodeBreakdownCost ::
    "'q quantity_ops \<Rightarrow> TencentCloud \<Rightarrow> CustomPricing option \<Rightarrow> 'q node option \<Rightarrow>
     cloud_error + BaseInstancePrice" where
  "computeNodeBreakdownCost ops tc cfg node = (case node of
     None \<Rightarrow> Inl NilPointer
   | Some n \<Rightarrow>
       if IsVirtualNode (Some n) then Inr (virtual_price ops n)
       else case getCloudInstancePrice ops tc n of
           Inl e \<Rightarrow> Inl e
         | Inr p0 \<Rightarrow>
             let ram = zero_nan (capacity_value ops n ''memory'');
                 p = p0;
                 p = (if BaseInstancePrice.InstanceType p = [] then
                   p\<lparr>BaseInstancePrice.InstanceType := fst (GetInstanceType (NodeLabels n))\<rparr> else p);
                 p = (if PRegion p = [] then p\<lparr>PRegion := getNodeRegion n\<rparr> else p);
                 p = (if ProviderID p = [] then p\<lparr>ProviderID := NodeProviderID n\<rparr> else p);
                 cpu = zero_nan (if PCpu p = [] then capacity_value ops n ''cpu'' else fst (ParseFloat (PCpu p)));
                 p = (if PCpu p = [] then
                   p\<lparr>PCpu := QString ops (res ops (NodeCapacity n) ''cpu'')\<rparr> else p);
                 p = (if Ram p = [] then
                   p\<lparr>Ram := QString ops (res ops (NodeCapacity n) ''memory'')\<rparr> else p);
                 p = p\<lparr>RamBytes := fmt_f ram\<rparr>
             in if UsesDefaultPrice p0 then Inr p
                else case cfg of None \<Rightarrow> Inl NilPointer | Some c \<Rightarrow> breakdown c cpu ram p)"

text \<open>\<open>NodePrice\<close>; \<open>GetConfig\<close> never fails.\<close>

definition NodePrice ::
    "'q quantity_ops \<Rightarrow> TencentCloud \<Rightarrow> 'q CloudNodeSpec \<Rightarrow> cloud_error + BaseInstancePrice" where
  "NodePrice ops tc spec = computeNodeBreakdownCost ops tc (customPricing tc) (Some (NodeRef spec))"

section \<open>The costs of all nodes and pods\<close>

text \<open>
  The loops of \<open>GetNodesCost\<close> and \<open>GetPodsCost\<close>. What fails is left out, a panic ends the loop. A
  pod whose node is not in the map is priced on a nil node.
\<close>

fun nodes_loop ::
    "('q node \<Rightarrow> bool) \<Rightarrow> ('q node option \<Rightarrow> cloud_error + BaseInstancePrice) \<Rightarrow> 'q node list \<Rightarrow>
     (string, BaseInstancePrice) gomap \<Rightarrow> cloud_error + (string, BaseInstancePrice) gomap" where
  "nodes_loop skip cost [] m = Inr m"
| "nodes_loop skip cost (n # ns) m =
     (if skip n then nodes_loop skip cost ns m
      else case cost (Some n) of
        Inl e \<Rightarrow> (if e = NilPointer then Inl e else nodes_loop skip cost ns m)
      | Inr p \<Rightarrow> nodes_loop skip cost ns (mput (NodeName n) p m))"

definition nodes_map :: "'q node list \<Rightarrow> (string, 'q node) gomap" where
  "nodes_map ns = fold (\<lambda>n m. mput (NodeName n) n m) ns []"

fun pods_loop ::
    "('q node option \<Rightarrow> bool) \<Rightarrow> ('q node option \<Rightarrow> cloud_error + BaseInstancePrice) \<Rightarrow>
     (string, 'q node) gomap \<Rightarrow> 'q pod list \<Rightarrow> (string, BaseInstancePrice) gomap \<Rightarrow>
     cloud_error + (string, BaseInstancePrice) gomap" where
  "pods_loop skip cost nm [] m = Inr m"
| "pods_loop skip cost nm (p # ps) m =
     (let node = mget nm (PodNodeName p)
      in if skip node then pods_loop skip cost nm ps m
         else case cost node of
           Inl e \<Rightarrow> (if e = NilPointer then Inl e else pods_loop skip cost nm ps m)
         | Inr price \<Rightarrow> pods_loop skip cost nm ps (mput (KObj p) price m))"

definition GetNodesCost ::
    "'q quantity_ops \<Rightarrow> TencentCloud \<Rightarrow> 'q node list \<Rightarrow> cloud_error + (string, BaseInstancePrice) gomap" where
  "GetNodesCost ops tc nodes = (case customPricing tc of
     None \<Rightarrow> Inl NilConfig
   | Some cfg \<Rightarrow> nodes_loop (\<lambda>n. IsVirtualNode (Some n)) (computeNodeBreakdownCost ops tc (Some cfg)) nodes [])"

definition GetPodsCost ::
    "'q quantity_ops \<Rightarrow> TencentCloud \<Rightarrow> 'q node list \<Rightarrow> 'q pod list \<Rightarrow>
     cloud_error + (string, BaseInstancePrice) gomap" where
  "GetPodsCost ops tc nodes pods = (case customPricing tc of
     None \<Rightarrow> Inl NilConfig
   | Some cfg \<Rightarrow>
       pods_loop IsVirtualNode (computeNodeBreakdownCost ops tc (Some cfg)) (nodes_map nodes) pods [])"

section \<open>The default cloud\<close>

definition default_computeNodeBreakdownCost ::
    "'q quantity_ops \<Rightarrow> CustomPricing \<Rightarrow> 'q node option \<Rightarrow> cloud_error + BaseInstancePrice" where
  "default_computeNodeBreakdownCost ops cfg node = (case node of
     None \<Rightarrow> Inl NilPointer
   | Some n \<Rightarrow> Inr (config_price ops cfg (CRegion cfg) n))"

definition default_GetNodesCost ::
    "'q quantity_ops \<Rightarrow> CustomPricing option \<Rightarrow> 'q node list \<Rightarrow>
     cloud_error + (string, BaseInstancePrice) gomap" where
  "default_GetNodesCost ops cfg nodes = (case cfg of
     None \<Rightarrow> Inl NilConfig
   | Some c \<Rightarrow> nodes_loop (\<lambda>n. False) (default_computeNodeBreakdownCost ops c) nodes [])"

definition default_GetPodsCost ::
    "'q quantity_ops \<Rightarrow> CustomPricing option \<Rightarrow> 'q node list \<Rightarrow> 'q pod list \<Rightarrow>
     cloud_error + (string, BaseInstancePrice) gomap" where
  "default_GetPodsCost ops cfg nodes pods = (case cfg of
     None \<Rightarrow> Inl NilConfig
   | Some c \<Rightarrow>
       pods_loop (\<lambda>n. False) (default_computeNodeBreakdownCost ops c) (nodes_map nodes) pods [])"

section \<open>The prices of the cached instances\<close>

record Price =
  PriceInstanceType :: string
  PriceChargeType :: string
  VCpu :: string
  PriceMemory :: string
  CvmPrice :: PriceItem

text \<open>Every pointer of the instance that is read must be there. The price items have the same fields.\<close>

definition instance_pricing :: "QCloudInstancePrice \<Rightarrow> cloud_error + Price" where
  "instance_pricing p = (case InstancePrice p of
     None \<Rightarrow> Inl NilPointer
   | Some q \<Rightarrow> (case Instance p of
       None \<Rightarrow> Inl NilPointer
     | Some ins \<Rightarrow>
         (case (cvm_instance.InstanceType ins, InstanceChargeType ins, CPU ins, Memory ins) of
            (Some t, Some ct, Some cpu, Some mem) \<Rightarrow>
              Inr \<lparr>PriceInstanceType = t, PriceChargeType = ct, VCpu = format_int cpu,
                PriceMemory = format_int mem,
                CvmPrice = \<lparr>UnitPrice = UnitPrice q, ChargeUnit = ChargeUnit q,
                  OriginalPrice = OriginalPrice q, DiscountPrice = PriceItem.DiscountPrice q,
                  PDiscount = PDiscount q, UnitPriceDiscount = UnitPriceDiscount q,
                  UnitPriceSecondStep = UnitPriceSecondStep q,
                  UnitPriceDiscountSecondStep = UnitPriceDiscountSecondStep q,
                  UnitPriceThirdStep = UnitPriceThirdStep q,
                  UnitPriceDiscountThirdStep = UnitPriceDiscountThirdStep q,
                  OriginalPriceThreeYear = OriginalPriceThreeYear q,
                  DiscountPriceThreeYear = DiscountPriceThreeYear q,
                  DiscountThreeYear = DiscountThreeYear q,
                  OriginalPriceFiveYear = OriginalPriceFiveYear q,
                  DiscountPriceFiveYear = DiscountPriceFiveYear q,
                  DiscountFiveYear = DiscountFiveYear q,
                  OriginalPriceOneYear = OriginalPriceOneYear q,
                  DiscountPriceOneYear = DiscountPriceOneYear q,
                  DiscountOneYear = DiscountOneYear q\<rparr>\<rparr>
          | _ \<Rightarrow> Inl NilPointer)))"

fun pricing_loop ::
    "(string, QCloudInstancePrice) gomap \<Rightarrow> (string, Price) gomap \<Rightarrow> cloud_error + (string, Price) gomap" where
  "pricing_loop [] acc = Inr acc"
| "pricing_loop ((k, p) # rest) acc = (case instance_pricing p of
     Inl e \<Rightarrow> Inl e
   | Inr q \<Rightarrow> pricing_loop rest (mput k q acc))"

definition GetNodesPricing :: "TencentCloud \<Rightarrow> cloud_error + (string, Price) gomap" where
  "GetNodesPricing tc = pricing_loop (instances tc) []"

section \<open>The key of a node\<close>

record qcloudKey =
  KeyLabels :: labels
  KeyProviderID :: string
  KeyZone :: string
  KeyChargeType :: string

definition key_ID :: "qcloudKey \<Rightarrow> string" where
  "key_ID k = (case find_match (KeyProviderID k) of None \<Rightarrow> [] | Some (g1, g2) \<Rightarrow> g2)"

definition key_Features :: "qcloudKey \<Rightarrow> string" where
  "key_Features k = KeyZone k @ '','' @ fst (GetInstanceType (KeyLabels k)) @ '','' @ KeyChargeType k"

definition key_Region :: "qcloudKey \<Rightarrow> string" where
  "key_Region k = (case ShortName2region (fst (GetRegion (KeyLabels k))) of
     None \<Rightarrow> [] | Some r \<Rightarrow> Region r)"

definition GetKey :: "TencentCloud \<Rightarrow> 'q node \<Rightarrow> qcloudKey" where
  "GetKey tc n =
     (let key = \<lparr>KeyLabels = NodeLabels n, KeyProviderID = NodeProviderID n, KeyZone = [], KeyChargeType = []\<rparr>
      in case getInstanceById tc (key_ID key) of
           None \<Rightarrow> key
         | Some ins \<Rightarrow>
             key\<lparr>KeyChargeType := or_else (InstanceChargeType ins) [],
               KeyZone := or_else (PlacementZone ins) []\<rparr>)"

section \<open>What the two clouds have in common\<close>

text \<open>
  Both loops need of a cloud that the nil node is not passed over and that pricing it panics; the
  client's facts follow for any such cloud.
\<close>

locale node_pricer =
  fixes skip :: "'q node option \<Rightarrow> bool"
    and cost :: "'q node option \<Rightarrow> cloud_error + BaseInstancePrice"
  assumes skip_nil: "\<not> skip None" and cost_nil: "cost None = Inl NilPointer"
begin

lemma pods_unknown:
  "\<exists>p \<in> set ps. mget nm (PodNodeName p) = None \<Longrightarrow> pods_loop skip cost nm ps m = Inl NilPointer"
  by (induction ps arbitrary: m) (auto simp: skip_nil cost_nil Let_def split: sum.split)

lemma nodes_panic:
  "nodes_loop (\<lambda>n. skip (Some n)) cost ns m = Inl e \<longleftrightarrow>
     e = NilPointer \<and> (\<exists>n \<in> set ns. \<not> skip (Some n) \<and> cost (Some n) = Inl NilPointer)"
  by (induction ns arbitrary: m) (auto split: sum.split)

lemma nodes_priced:
  "nodes_loop (\<lambda>n. skip (Some n)) cost ns m = Inr m' \<Longrightarrow> distinct (map NodeName ns) \<Longrightarrow>
     \<forall>n \<in> set ns. mget m (NodeName n) = None \<Longrightarrow>
     mget m' k = Some p \<longleftrightarrow> mget m k = Some p \<or>
       (\<exists>n \<in> set ns. NodeName n = k \<and> \<not> skip (Some n) \<and> cost (Some n) = Inr p)"
proof (induction ns arbitrary: m)
  case (Cons n ns)
  show ?case
  proof (cases "\<not> skip (Some n) \<and> \<not> isl (cost (Some n))")
    case True
    then obtain q where q: "cost (Some n) = Inr q" by (cases "cost (Some n)") auto
    from Cons.prems q True have l: "nodes_loop (\<lambda>n. skip (Some n)) cost ns (mput (NodeName n) q m) = Inr m'"
      by simp
    have "\<forall>n' \<in> set ns. mget (mput (NodeName n) q m) (NodeName n') = None"
      using Cons.prems(2, 3) by (auto simp: image_iff)
    from Cons.IH [OF l _ this] Cons.prems(2, 3) q True show ?thesis by auto
  next
    case False
    with Cons.prems have "nodes_loop (\<lambda>n. skip (Some n)) cost ns m = Inr m'"
      by (auto split: if_splits sum.splits)
    from Cons.IH [OF this] Cons.prems(2, 3) False show ?thesis by auto
  qed
qed simp

lemma pods_panic:
  "pods_loop skip cost nm ps m = Inl e \<longleftrightarrow> e = NilPointer \<and>
     (\<exists>p \<in> set ps. \<not> skip (mget nm (PodNodeName p)) \<and> cost (mget nm (PodNodeName p)) = Inl NilPointer)"
proof (induction ps arbitrary: m)
  case (Cons p ps)
  show ?case
    by (cases "skip (mget nm (PodNodeName p))"; cases "cost (mget nm (PodNodeName p))")
      (auto simp: Let_def Cons.IH)
qed simp

lemma pods_priced:
  "pods_loop skip cost nm ps m = Inr m' \<Longrightarrow> distinct (map KObj ps) \<Longrightarrow> \<forall>p \<in> set ps. mget m (KObj p) = None \<Longrightarrow>
     mget m' k = Some v \<longleftrightarrow> mget m k = Some v \<or>
       (\<exists>p \<in> set ps. KObj p = k \<and> \<not> skip (mget nm (PodNodeName p)) \<and> cost (mget nm (PodNodeName p)) = Inr v)"
proof (induction ps arbitrary: m)
  case (Cons p ps)
  let ?node = "mget nm (PodNodeName p)"
  show ?case
  proof (cases "\<not> skip ?node \<and> \<not> isl (cost ?node)")
    case True
    then obtain q where q: "cost ?node = Inr q" by (cases "cost ?node") auto
    from Cons.prems q True have l: "pods_loop skip cost nm ps (mput (KObj p) q m) = Inr m'"
      by (simp add: Let_def)
    have "\<forall>p' \<in> set ps. mget (mput (KObj p) q m) (KObj p') = None"
      using Cons.prems(2, 3) by (auto simp: image_iff)
    from Cons.IH [OF l _ this] Cons.prems(2, 3) q True show ?thesis by auto
  next
    case False
    with Cons.prems have "pods_loop skip cost nm ps m = Inr m'"
      by (auto simp: Let_def split: if_splits sum.splits)
    from Cons.IH [OF this] Cons.prems(2, 3) False show ?thesis by auto
  qed
qed simp

end

interpretation tencent: node_pricer IsVirtualNode "computeNodeBreakdownCost ops tc cfg"
  by unfold_locales (simp_all add: IsVirtualNode_def computeNodeBreakdownCost_def)

interpretation default_cloud: node_pricer "\<lambda>n. False" "default_computeNodeBreakdownCost ops cfg"
  by unfold_locales (simp_all add: default_computeNodeBreakdownCost_def)

lemma nodes_map_keys: "mkeys (fold (\<lambda>n m. mput (NodeName n) n m) ns m) = NodeName ` set ns \<union> mkeys m"
  by (induction ns arbitrary: m) auto

lemma nodes_map_None: "k \<notin> NodeName ` set ns \<Longrightarrow> mget (nodes_map ns) k = None"
  by (simp add: mget_None_iff nodes_map_def nodes_map_keys)

text \<open>
  Both clouds panic on the pod list when a pod's node is not among the cached nodes, which
  is so for every pod that is not scheduled yet: no cost of any pod is returned.
\<close>

theorem GetPodsCost_unknown_node:
  assumes "pod \<in> set pods" "PodNodeName pod \<notin> NodeName ` set nodes" "customPricing tc = Some cfg"
  shows "GetPodsCost ops tc nodes pods = Inl NilPointer \<and>
    default_GetPodsCost ops (Some cfg) nodes pods = Inl NilPointer"
proof -
  have "\<exists>p \<in> set pods. mget (nodes_map nodes) (PodNodeName p) = None"
    using assms(1, 2) nodes_map_None by blast
  from tencent.pods_unknown [OF this] default_cloud.pods_unknown [OF this] show ?thesis
    by (simp add: GetPodsCost_def default_GetPodsCost_def assms(3))
qed

definition example_pricing :: CustomPricing where
  "example_pricing = \<lparr>CRegion = ''r'', CProvider = [], CDescription = [], CpuHourlyPrice = lit 22 1000,
     RamGBHourlyPrice = lit 11 1000\<rparr>"

definition nat_ops :: "nat quantity_ops" where
  "nat_ops = \<lparr>QValue = int, QMilliValue = (\<lambda>q. 1000 * int q), QAdd = (+), QZero = 0, QNew = nat,
     QNewMilli = (\<lambda>m. nat (m div 1000)), QString = (\<lambda>q. format_int (int q))\<rparr>"

definition pending_pod :: "nat pod" where
  "pending_pod = \<lparr>PodNamespace = ''default'', PodName = ''p'', PodNodeName = [], PodLabels = [],
     PodAnnotations = None, PodOwners = [], PodContainers = []\<rparr>"

definition priced_cloud :: TencentCloud where
  "priced_cloud = example_cloud\<lparr>customPricing := Some example_pricing\<rparr>"

theorem GetPodsCost_unknown_node_witness:
  "GetPodsCost nat_ops priced_cloud [example_node ''n'' ''qcloud:///1/ins-a''] [pending_pod] = Inl NilPointer"
  using GetPodsCost_unknown_node [of pending_pod "[pending_pod]" "[example_node ''n'' ''qcloud:///1/ins-a'']"
      priced_cloud example_pricing nat_ops]
  by (simp add: pending_pod_def example_node_def priced_cloud_def)

section \<open>Which price a node gets\<close>

text \<open>The field of the price that the charge type needs is missing.\<close>

definition lacks_price :: "cvm_instance \<Rightarrow> PriceItem \<Rightarrow> bool" where
  "lacks_price ins price \<longleftrightarrow>
     (InstanceChargeType ins = Some ''PREPAID'' \<and> OriginalPrice price = None) \<or>
     (InstanceChargeType ins \<in> {Some ''POSTPAID_BY_HOUR'', Some ''SPOTPAID''} \<and> UnitPrice price = None)"

lemma or_else_eq: "or_else x d = y \<longleftrightarrow> x = Some y \<or> (x = None \<and> d = y)"
  by (auto simp: or_else_def split: option.split)

lemma instance_price_nil: "instance_price ops cfg ins price n = Inl e \<longleftrightarrow> e = NilPointer \<and> lacks_price ins price"
  by (auto simp: instance_price_def lacks_price_def Let_def or_else_eq split: option.split)

lemma instance_price_lacks: "lacks_price ins price \<Longrightarrow> instance_price ops cfg ins price n = Inl NilPointer"
  by (simp add: instance_price_nil)

lemma breakdown_not_nil: "breakdown cfg cpu ram p \<noteq> Inl NilPointer"
  by (simp add: breakdown_def Let_def split: prod.split option.split)

lemma compute_nil:
  assumes "customPricing tc = Some cfg" "\<not> IsVirtualNode (Some n)"
  shows "computeNodeBreakdownCost ops tc (Some cfg) (Some n) = Inl NilPointer \<longleftrightarrow>
    (\<exists>ins price. cached_price tc n = Some (ins, price) \<and> lacks_price ins price)"
proof (cases "getCloudInstancePrice ops tc n")
  case (Inl e)
  with assms have "e = NilPointer \<and> (\<exists>ins price. cached_price tc n = Some (ins, price) \<and> lacks_price ins price)"
    by (auto simp: getCloudInstancePrice_def instance_price_nil split: option.splits)
  with Inl assms show ?thesis by (simp add: computeNodeBreakdownCost_def)
next
  case (Inr p)
  with assms have "\<not> (\<exists>ins price. cached_price tc n = Some (ins, price) \<and> lacks_price ins price)"
    by (auto simp: getCloudInstancePrice_def instance_price_lacks split: option.splits)
  with Inr assms show ?thesis
    by (simp add: computeNodeBreakdownCost_def Let_def breakdown_not_nil)
qed

text \<open>
  C24. For nodes of distinct names, the map of node costs holds a price for exactly the real nodes
  that can be priced, virtual nodes being left out. There is no such map only if the configuration
  is missing, or if the cached price of some real node lacks the field its charge type needs, and
  then the call panics.
\<close>

theorem GetNodesCost_spec:
  assumes "distinct (map NodeName nodes)"
  shows "case GetNodesCost ops tc nodes of
      Inr m \<Rightarrow> (\<forall>k p. mget m k = Some p \<longleftrightarrow> (\<exists>n \<in> set nodes. NodeName n = k \<and>
        \<not> IsVirtualNode (Some n) \<and>
        computeNodeBreakdownCost ops tc (customPricing tc) (Some n) = Inr p))
    | Inl e \<Rightarrow> if customPricing tc = None then e = NilConfig
        else e = NilPointer \<and> (\<exists>n \<in> set nodes. \<not> IsVirtualNode (Some n) \<and>
          (\<exists>ins price. cached_price tc n = Some (ins, price) \<and> lacks_price ins price))"
proof (cases "customPricing tc")
  case None
  then show ?thesis by (simp add: GetNodesCost_def)
next
  case (Some cfg)
  show ?thesis
  proof (cases "GetNodesCost ops tc nodes")
    case (Inl e)
    with Some have l: "nodes_loop (\<lambda>n. IsVirtualNode (Some n)) (computeNodeBreakdownCost ops tc (Some cfg)) nodes [] = Inl e"
      by (simp add: GetNodesCost_def)
    then have "e = NilPointer \<and> (\<exists>n \<in> set nodes. \<not> IsVirtualNode (Some n) \<and>
        computeNodeBreakdownCost ops tc (Some cfg) (Some n) = Inl NilPointer)"
      unfolding tencent.nodes_panic .
    then have "e = NilPointer \<and> (\<exists>n \<in> set nodes. \<not> IsVirtualNode (Some n) \<and>
        (\<exists>ins price. cached_price tc n = Some (ins, price) \<and> lacks_price ins price))"
      using compute_nil [OF Some] by blast
    with Inl Some show ?thesis by simp
  next
    case (Inr m)
    with Some have l: "nodes_loop (\<lambda>n. IsVirtualNode (Some n)) (computeNodeBreakdownCost ops tc (Some cfg)) nodes [] = Inr m"
      by (simp add: GetNodesCost_def)
    from tencent.nodes_priced [OF l assms] Inr Some show ?thesis by simp
  qed
qed

theorem GetNodesCost_spec_witness:
  "case GetNodesCost nat_ops priced_cloud [example_node ''n'' ''qcloud:///1/ins-a''] of
      Inr m \<Rightarrow> mget m ''n'' \<noteq> None | Inl e \<Rightarrow> False"
proof -
  let ?n = "example_node ''n'' ''qcloud:///1/ins-a''"
  have v: "IsVirtualNode (Some ?n) = False" "NodeName ?n = ''n''" "customPricing priced_cloud = Some example_pricing"
    by code_simp+
  have c: "cached_price priced_cloud ?n = None"
    by code_simp
  obtain p where p: "computeNodeBreakdownCost nat_ops priced_cloud (Some example_pricing) (Some ?n) = Inr p"
    by (simp add: computeNodeBreakdownCost_def v getCloudInstancePrice_def c Let_def
        getDefaultNodePrice_def config_price_def empty_price_def)
  have g: "GetNodesCost nat_ops priced_cloud [?n] = Inr [(''n'', p)]"
    by (simp add: GetNodesCost_def v p)
  show ?thesis
    using GetNodesCost_spec [where nodes = "[?n]" and ops = nat_ops and tc = priced_cloud] unfolding g v
    by (auto simp: p v)
qed

lemma nodes_map_get:
  "distinct (map NodeName ns) \<Longrightarrow> mget (nodes_map ns) k = Some n \<longleftrightarrow> n \<in> set ns \<and> NodeName n = k"
proof -
  have "distinct (map NodeName ns) \<Longrightarrow> \<forall>n \<in> set ns. mget m (NodeName n) = None \<Longrightarrow>
      mget (fold (\<lambda>n m. mput (NodeName n) n m) ns m) k = Some n \<longleftrightarrow>
        mget m k = Some n \<or> n \<in> set ns \<and> NodeName n = k" for m
  proof (induction ns arbitrary: m)
    case (Cons x ns)
    have "\<forall>y \<in> set ns. mget (mput (NodeName x) x m) (NodeName y) = None"
      using Cons.prems by (auto simp: image_iff)
    from Cons.IH [OF _ this] Cons.prems show ?case by auto
  qed simp
  then show "distinct (map NodeName ns) \<Longrightarrow> ?thesis" by (simp add: nodes_map_def)
qed

lemma IsVirtualNode_None: "\<not> IsVirtualNode None"
  by (simp add: IsVirtualNode_def)

lemma compute_None: "computeNodeBreakdownCost ops tc cfg None = Inl NilPointer"
  by (simp add: computeNodeBreakdownCost_def)

text \<open>
  C27. For nodes and pods of distinct names, the map of pod costs holds the price of its node for exactly the
  pods whose node is real and can be priced. There is such a map only if every pod's node is known: a pod
  that is not scheduled yet, or whose node is not cached yet, makes the call panic, as does a
  cached price without the field that its charge type needs. A pod on a virtual node has no price, although the
  interface's comment says that it is priced from the billing of the pod or from the machine behind it.
\<close>

theorem GetPodsCost_spec:
  assumes "distinct (map NodeName nodes)" "distinct (map KObj pods)" "customPricing tc = Some cfg"
  shows "case GetPodsCost ops tc nodes pods of
      Inr m \<Rightarrow> (\<forall>pod \<in> set pods. PodNodeName pod \<in> NodeName ` set nodes) \<and>
        (\<forall>k v. mget m k = Some v \<longleftrightarrow> (\<exists>pod \<in> set pods. \<exists>n \<in> set nodes. KObj pod = k \<and>
          NodeName n = PodNodeName pod \<and> \<not> IsVirtualNode (Some n) \<and>
          computeNodeBreakdownCost ops tc (Some cfg) (Some n) = Inr v))
    | Inl e \<Rightarrow> e = NilPointer \<and> (\<exists>pod \<in> set pods. PodNodeName pod \<notin> NodeName ` set nodes \<or>
        (\<exists>n \<in> set nodes. NodeName n = PodNodeName pod \<and> \<not> IsVirtualNode (Some n) \<and>
          (\<exists>ins price. cached_price tc n = Some (ins, price) \<and> lacks_price ins price)))"
proof -
  let ?cost = "computeNodeBreakdownCost ops tc (Some cfg)"
  have run: "GetPodsCost ops tc nodes pods = pods_loop IsVirtualNode ?cost (nodes_map nodes) pods []"
    by (simp add: GetPodsCost_def assms(3))
  have node: "mget (nodes_map nodes) (PodNodeName pod) = None \<longleftrightarrow> PodNodeName pod \<notin> NodeName ` set nodes" for pod
  proof (cases "mget (nodes_map nodes) (PodNodeName pod)")
    case None
    with nodes_map_get [OF assms(1), of "PodNodeName pod"] show ?thesis by fastforce
  next
    case (Some n)
    with nodes_map_get [OF assms(1), of "PodNodeName pod" n] show ?thesis by force
  qed
  show ?thesis
  proof (cases "GetPodsCost ops tc nodes pods")
    case (Inl e)
    with run have "pods_loop IsVirtualNode ?cost (nodes_map nodes) pods [] = Inl e" by simp
    then obtain pod where pod: "e = NilPointer" "pod \<in> set pods"
      "\<not> IsVirtualNode (mget (nodes_map nodes) (PodNodeName pod))"
      "?cost (mget (nodes_map nodes) (PodNodeName pod)) = Inl NilPointer"
      unfolding tencent.pods_panic by blast
    have "PodNodeName pod \<notin> NodeName ` set nodes \<or> (\<exists>n \<in> set nodes. NodeName n = PodNodeName pod \<and>
        \<not> IsVirtualNode (Some n) \<and> (\<exists>ins price. cached_price tc n = Some (ins, price) \<and> lacks_price ins price))"
    proof (cases "mget (nodes_map nodes) (PodNodeName pod)")
      case None
      then show ?thesis using node by blast
    next
      case (Some n)
      with pod compute_nil [OF assms(3), of n ops] nodes_map_get [OF assms(1), of "PodNodeName pod" n]
      show ?thesis by auto
    qed
    with Inl pod show ?thesis by auto
  next
    case (Inr m)
    with run have l: "pods_loop IsVirtualNode ?cost (nodes_map nodes) pods [] = Inr m" by simp
    have known: "PodNodeName pod \<in> NodeName ` set nodes" if "pod \<in> set pods" for pod
      using tencent.pods_unknown [of pods "nodes_map nodes" ops tc "Some cfg" "[]"] l that node by force
    have got: "mget m k = Some v \<longleftrightarrow> (\<exists>pod \<in> set pods. KObj pod = k \<and>
        \<not> IsVirtualNode (mget (nodes_map nodes) (PodNodeName pod)) \<and>
        ?cost (mget (nodes_map nodes) (PodNodeName pod)) = Inr v)" for k v
      using tencent.pods_priced [OF l assms(2)] by simp
    have priced: "\<not> IsVirtualNode (mget (nodes_map nodes) (PodNodeName pod)) \<and>
        ?cost (mget (nodes_map nodes) (PodNodeName pod)) = Inr v \<longleftrightarrow>
        (\<exists>n \<in> set nodes. NodeName n = PodNodeName pod \<and> \<not> IsVirtualNode (Some n) \<and> ?cost (Some n) = Inr v)" for pod v
    proof (cases "mget (nodes_map nodes) (PodNodeName pod)")
      case None
      with nodes_map_get [OF assms(1), of "PodNodeName pod"] show ?thesis by (auto simp: compute_None)
    next
      case (Some n)
      have "x = n" if "x \<in> set nodes" "NodeName x = PodNodeName pod" for x
        using nodes_map_get [OF assms(1), of "PodNodeName pod" x] Some that by simp
      moreover have "n \<in> set nodes" "NodeName n = PodNodeName pod"
        using nodes_map_get [OF assms(1), of "PodNodeName pod" n] Some by simp_all
      ultimately have "(\<exists>x \<in> set nodes. NodeName x = PodNodeName pod \<and> P x) \<longleftrightarrow> P n" for P by metis
      then show ?thesis by (simp add: Some)
    qed
    have "mget m k = Some v \<longleftrightarrow> (\<exists>pod \<in> set pods. \<exists>n \<in> set nodes. KObj pod = k \<and>
        NodeName n = PodNodeName pod \<and> \<not> IsVirtualNode (Some n) \<and> ?cost (Some n) = Inr v)" for k v
      unfolding got priced by blast
    with Inr known show ?thesis by simp
  qed
qed

theorem GetPodsCost_spec_witness:
  "GetPodsCost nat_ops priced_cloud [example_node ''n'' ''qcloud:///1/ins-a''] [pending_pod] = Inl NilPointer"
proof -
  let ?n = "example_node ''n'' ''qcloud:///1/ins-a''"
  have "distinct (map NodeName [?n])" "distinct (map KObj [pending_pod])"
    "customPricing priced_cloud = Some example_pricing" by (simp_all add: priced_cloud_def)
  from GetPodsCost_spec [OF this, of nat_ops] show ?thesis
    by (auto simp: pending_pod_def example_node_def split: sum.splits)
qed

end
