(* ===== verification/Qcloud_Spec.thy ===== *)
theory Qcloud_Spec
  imports Qcloud_Price
begin

text \<open>
  \<open>pkg/cloudsdk/qcloud/tke/tke.go\<close> and the rest of \<open>qcloud.go\<close>: the price of a serverless pod, and
  the specs of pods and nodes. The SDK's calls, the encoding of a container's resources, the
  quantity parser and Kubernetes' own sums and classes of a pod are parameters. A call takes the
  remote service's state to the next.
\<close>

section \<open>The client\<close>

record GetPriceRequest =
  ReqCpu :: float64
  ReqMem :: float64
  ReqTimeSpan :: int
  ReqGoodsNum :: int
  ReqType :: "string option"
  ReqPodType :: "string option"
  ReqZone :: "string option"

text \<open>A price in cents; the response may be missing.\<close>

record GetPriceResponse =
  ResCost :: "int option"
  ResTotalCost :: "int option"

record ('q, 'w) tke_client =
  TKEClientError :: "sdk_error option"
  GetPrice :: "GetPriceRequest \<Rightarrow> 'w \<Rightarrow> (sdk_error + GetPriceResponse option) \<times> 'w"
  GetPodSpecification :: "string \<times> string list \<Rightarrow> 'w \<Rightarrow> (sdk_error + string option \<times> string option) \<times> 'w"
  TKERetryCnt :: int
  TKERand :: "int \<Rightarrow> int"
  MarshalResources :: "'q container \<Rightarrow> string option"
  ParseQuantity :: "string \<Rightarrow> 'q option"

definition tke_with_retry ::
    "('q, 'w) tke_client \<Rightarrow> ('w \<Rightarrow> (sdk_error + 'r) \<times> 'w) \<Rightarrow> 'w \<Rightarrow> (sdk_error + 'r) \<times> 'w" where
  "tke_with_retry c f w = (case ExponentialRetryCall (TKERand c) (TKERetryCnt c) f w of
     (r, slept, w') \<Rightarrow> (r, w'))"

definition GetEKSPodPrice ::
    "('q, 'w) tke_client \<Rightarrow> GetPriceRequest \<Rightarrow> 'w \<Rightarrow> (sdk_error + GetPriceResponse option) \<times> 'w" where
  "GetEKSPodPrice c req w = (case TKEClientError c of
     Some e \<Rightarrow> (Inl e, w)
   | None \<Rightarrow> tke_with_retry c (GetPrice c req) w)"

fun requirements :: "('q, 'w) tke_client \<Rightarrow> 'q container list \<Rightarrow> string list" where
  "requirements c [] = []"
| "requirements c (x # xs) = (case MarshalResources c x of
     None \<Rightarrow> requirements c xs | Some s \<Rightarrow> s # requirements c xs)"

definition Pod2EKSSpecConverter ::
    "('q, 'w) tke_client \<Rightarrow> 'q pod \<Rightarrow> 'w \<Rightarrow> (cloud_error + 'q resource_list) \<times> 'w" where
  "Pod2EKSSpecConverter c pod w = (case TKEClientError c of
     Some e \<Rightarrow> (Inl (SdkFailed e), w)
   | None \<Rightarrow>
       (case tke_with_retry c (GetPodSpecification c
           (machine_type pod, requirements c (PodContainers pod))) w of
          (Inl e, w') \<Rightarrow> (Inl (SdkFailed e), w')
        | (Inr (cpu, mem), w') \<Rightarrow>
            ((case cpu of None \<Rightarrow> Inl NilPointer
              | Some s \<Rightarrow> (case ParseQuantity c s of None \<Rightarrow> Inl BadQuantity
                | Some q \<Rightarrow> (case mem of None \<Rightarrow> Inl NilPointer
                  | Some t \<Rightarrow> (case ParseQuantity c t of None \<Rightarrow> Inl BadQuantity
                    | Some r \<Rightarrow> Inr [(''cpu'', q), (''memory'', r)])))), w')))"

section \<open>The price of a serverless pod\<close>

definition when_set :: "string \<Rightarrow> string option" where
  "when_set s = (if s \<noteq> [] then Some s else None)"

definition CloudPodSpec2EKSPriceRequest :: "'q quantity_ops \<Rightarrow> 'q CloudPodSpec \<Rightarrow> GetPriceRequest" where
  "CloudPodSpec2EKSPriceRequest ops spec =
     \<lparr>ReqCpu = float_of_int (QMilliValue ops (Cpu spec)) / float_of_int 1000,
      ReqMem = float_of_int (QValue ops (Mem spec)) / GB,
      ReqTimeSpan = TimeSpan spec, ReqGoodsNum = GoodsNum spec,
      ReqType = when_set (MachineArch spec), ReqPodType = when_set (PodChargeType spec),
      ReqZone = when_set (Zone spec)\<rparr>"

text \<open>Cents to a price: the discounted one, the full one. A cost without a total panics.\<close>

definition pod_costs :: "GetPriceResponse option \<Rightarrow> cloud_error + float64 \<times> float64" where
  "pod_costs r = (case r of
     None \<Rightarrow> Inr (0, 0)
   | Some p \<Rightarrow> (case ResCost p of
       None \<Rightarrow> Inr (0, 0)
     | Some c \<Rightarrow> (case ResTotalCost p of
         None \<Rightarrow> Inl NilPointer
       | Some t \<Rightarrow> Inr (float_of_int c / float_of_int 100, float_of_int t / float_of_int 100))))"

definition ServerlessPodPrice ::
    "'q quantity_ops \<Rightarrow> ('q, 'w) tke_client \<Rightarrow> TencentCloud \<Rightarrow> 'q CloudPodSpec \<Rightarrow> 'w \<Rightarrow>
     (cloud_error + BaseInstancePrice) \<times> 'w" where
  "ServerlessPodPrice ops c tc spec w =
     (case GetEKSPodPrice c (CloudPodSpec2EKSPriceRequest ops spec) w of
        (Inl e, w') \<Rightarrow> (Inl (SdkFailed e), w')
      | (Inr resp, w') \<Rightarrow>
          ((let cpu = float_of_int (QMilliValue ops (Cpu spec)) / float_of_int 1000;
                ram = float_of_int (QValue ops (Mem spec))
            in case pod_costs resp of
                 Inl e \<Rightarrow> Inl e
               | Inr (discount, cost) \<Rightarrow>
                   (case customPricing tc of
                      None \<Rightarrow> Inl NilPointer
                    | Some cfg \<Rightarrow> breakdown cfg cpu ram
                        (empty_price\<lparr>DiscountedCost := fmt_f discount, Cost := fmt_f cost,
                           PCpu := fmt_f cpu, Ram := fmt_f (ram / GB), RamBytes := fmt_f ram\<rparr>))), w'))"

section \<open>Specs\<close>

text \<open>What Kubernetes computes of a pod: its requests and limits, and its class.\<close>

record 'q pod_ops =
  PodRequestsAndLimits :: "'q pod \<Rightarrow> 'q resource_list \<times> 'q resource_list"
  GetPodQOS :: "'q pod \<Rightarrow> string"

definition IsServerlessPod :: "'q node list \<Rightarrow> 'q pod \<Rightarrow> bool" where
  "IsServerlessPod nodes pod = (case mget (nodes_map nodes) (PodNodeName pod) of
     None \<Rightarrow> False | Some n \<Rightarrow> IsVirtualNode (Some n))"

text \<open>A pod that asks for nothing gets one core and two GiB.\<close>

definition best_effort ::
    "'q quantity_ops \<Rightarrow> 'q resource_list \<times> 'q resource_list \<Rightarrow> 'q resource_list \<times> 'q resource_list" where
  "best_effort ops rl =
     (let put = (\<lambda>m. mput ''memory'' (QNew ops 2147483648) (mput ''cpu'' (QNewMilli ops 1000) m))
      in (put (fst rl), put (snd rl)))"

text \<open>The converter's quantities replace the sums; if it fails they stay. A panic goes through.\<close>

definition converted ::
    "('q, 'w) tke_client \<Rightarrow> 'q pod \<Rightarrow> 'q resource_list \<times> 'q resource_list \<Rightarrow> 'w \<Rightarrow>
     (cloud_error + 'q resource_list \<times> 'q resource_list) \<times> 'w" where
  "converted c pod rl w = (case Pod2EKSSpecConverter c pod w of
     (Inl e, w') \<Rightarrow> (if e = NilPointer then Inl e else Inr rl, w')
   | (Inr m, w') \<Rightarrow> (let put = fold (\<lambda>(k, v). mput k v) m in Inr (put (fst rl), put (snd rl)), w'))"

definition pod_spec ::
    "'q quantity_ops \<Rightarrow> 'q pod \<Rightarrow> string \<Rightarrow> int \<Rightarrow> bool \<Rightarrow> 'q resource_list \<times> 'q resource_list \<Rightarrow>
     'q CloudPodSpec" where
  "pod_spec ops pod qos goods serverless rl =
     \<lparr>PodRef = pod, Cpu = res ops (fst rl) ''cpu'', Mem = res ops (fst rl) ''memory'',
      CpuLimit = res ops (snd rl) ''cpu'', MemLimit = res ops (snd rl) ''memory'', Zone = [],
      MachineArch = machine_type pod, PodChargeType = [], TimeSpan = 3600, GoodsNum = goods,
      Serverless = serverless, QoSClass = qos\<rparr>"

definition is_daemonset :: "'q pod \<Rightarrow> bool" where
  "is_daemonset pod = (case PodOwners pod of
     [] \<Rightarrow> False | r # rs \<Rightarrow> to_lower (OwnerKind r) = ''daemonset'')"

definition Pod2ServerlessSpec ::
    "'q quantity_ops \<Rightarrow> 'q pod_ops \<Rightarrow> ('q, 'w) tke_client \<Rightarrow> 'q pod \<Rightarrow> 'w \<Rightarrow>
     (cloud_error + 'q CloudPodSpec) \<times> 'w" where
  "Pod2ServerlessSpec ops pops c pod w =
     (let rl = PodRequestsAndLimits pops pod; qos = GetPodQOS pops pod
      in if is_daemonset pod then (Inr (pod_spec ops pod qos 0 False rl), w)
         else if qos = ''BestEffort'' then (Inr (pod_spec ops pod qos 1 True (best_effort ops rl)), w)
         else case converted c pod rl w of
             (Inl e, w') \<Rightarrow> (Inl e, w')
           | (Inr rl', w') \<Rightarrow> (Inr (pod_spec ops pod qos 1 True rl'), w'))"

definition Pod2Spec ::
    "'q quantity_ops \<Rightarrow> 'q pod_ops \<Rightarrow> ('q, 'w) tke_client \<Rightarrow> 'q node list \<Rightarrow> 'q pod \<Rightarrow> 'w \<Rightarrow>
     (cloud_error + 'q CloudPodSpec) \<times> 'w" where
  "Pod2Spec ops pops c nodes pod w =
     (let rl = PodRequestsAndLimits pops pod; qos = GetPodQOS pops pod;
          rl = (if qos = ''BestEffort'' then best_effort ops rl else rl)
      in if IsServerlessPod nodes pod then
           (if qos \<noteq> ''BestEffort'' then
              (case converted c pod rl w of
                 (Inl e, w') \<Rightarrow> (Inl e, w')
               | (Inr rl', w') \<Rightarrow> (Inr (pod_spec ops pod qos 1 True rl'), w'))
            else (Inr (pod_spec ops pod qos 1 True rl), w))
         else (Inr (pod_spec ops pod qos 1 False rl), w))"

definition Node2Spec :: "'q quantity_ops \<Rightarrow> TencentCloud \<Rightarrow> 'q node \<Rightarrow> 'q CloudNodeSpec" where
  "Node2Spec ops tc n =
     (let base = \<lparr>NodeRef = n, NodeCpu = res ops (NodeCapacity n) ''cpu'',
            NodeMem = res ops (NodeCapacity n) ''memory'',
            NodeInstanceType = fst (GetInstanceType (NodeLabels n)), NodeChargeType = ''Default'',
            NodeZone = fst (GetZone (NodeLabels n)), NodeRegion = getNodeRegion n,
            VirtualNode = IsVirtualNode (Some n)\<rparr>
      in case getInstanceById tc (ParseID (NodeProviderID n)) of
           None \<Rightarrow> base
         | Some ins \<Rightarrow> base\<lparr>
             NodeChargeType := or_else (InstanceChargeType ins) ''Default'',
             NodeCpu := (case CPU ins of
               None \<Rightarrow> NodeCpu base | Some k \<Rightarrow> QNewMilli ops (int64 (k * 1000))),
             NodeMem := (case Memory ins of
               None \<Rightarrow> NodeMem base | Some m \<Rightarrow> QNew ops (trunc_int64 (float_of_int m * GB))),
             NodeInstanceType := or_else (cvm_instance.InstanceType ins) (NodeInstanceType base)\<rparr>)"

section \<open>The two specs of a pod\<close>

lemma pod_spec_simps [simp]:
  "PodRef (pod_spec ops pod qos goods sl rl) = pod" "GoodsNum (pod_spec ops pod qos goods sl rl) = goods"
  "Serverless (pod_spec ops pod qos goods sl rl) = sl" "QoSClass (pod_spec ops pod qos goods sl rl) = qos"
  "TimeSpan (pod_spec ops pod qos goods sl rl) = 3600"
  by (simp_all add: pod_spec_def)

lemma best_effort_res:
  "res ops (fst (best_effort ops rl)) ''cpu'' = QNewMilli ops 1000"
  "res ops (snd (best_effort ops rl)) ''cpu'' = QNewMilli ops 1000"
  "res ops (fst (best_effort ops rl)) ''memory'' = QNew ops 2147483648"
  "res ops (snd (best_effort ops rl)) ''memory'' = QNew ops 2147483648"
  by (simp_all add: best_effort_def res_def mget_default_def Let_def)

text \<open>
  On a virtual node the spec of a pod and its spec as a serverless pod are the same, a daemon
  set's pod aside, of which a serverless cluster runs none and asks for no goods. A pod of a real
  node is never serverless, and none of its quantities is asked from the cloud. A pod without
  requests is one core and two GiB in both specs.
\<close>

theorem Pod2Spec_agrees:
  "(IsServerlessPod nodes pod \<and> \<not> is_daemonset pod \<longrightarrow>
      Pod2ServerlessSpec ops pops c pod w = Pod2Spec ops pops c nodes pod w) \<and>
   (is_daemonset pod \<longrightarrow> (\<exists>s. Pod2ServerlessSpec ops pops c pod w = (Inr s, w) \<and>
      GoodsNum s = 0 \<and> \<not> Serverless s)) \<and>
   (\<not> IsServerlessPod nodes pod \<longrightarrow> (\<exists>s. Pod2Spec ops pops c nodes pod w = (Inr s, w) \<and>
      GoodsNum s = 1 \<and> \<not> Serverless s)) \<and>
   (GetPodQOS pops pod = ''BestEffort'' \<longrightarrow> (\<exists>s. Pod2Spec ops pops c nodes pod w = (Inr s, w) \<and>
      Cpu s = QNewMilli ops 1000 \<and> CpuLimit s = Cpu s \<and> Mem s = QNew ops 2147483648 \<and> MemLimit s = Mem s))"
proof (intro conjI impI)
  assume "IsServerlessPod nodes pod \<and> \<not> is_daemonset pod"
  then show "Pod2ServerlessSpec ops pops c pod w = Pod2Spec ops pops c nodes pod w"
    by (cases "GetPodQOS pops pod = ''BestEffort''") (simp_all add: Pod2ServerlessSpec_def Pod2Spec_def Let_def)
next
  assume "is_daemonset pod"
  then show "\<exists>s. Pod2ServerlessSpec ops pops c pod w = (Inr s, w) \<and> GoodsNum s = 0 \<and> \<not> Serverless s"
    by (simp add: Pod2ServerlessSpec_def Let_def)
next
  assume "\<not> IsServerlessPod nodes pod"
  then show "\<exists>s. Pod2Spec ops pops c nodes pod w = (Inr s, w) \<and> GoodsNum s = 1 \<and> \<not> Serverless s"
    by (simp add: Pod2Spec_def Let_def)
next
  assume "GetPodQOS pops pod = ''BestEffort''"
  then have "Pod2Spec ops pops c nodes pod w = (Inr (pod_spec ops pod ''BestEffort'' 1
      (IsServerlessPod nodes pod) (best_effort ops (PodRequestsAndLimits pops pod))), w)"
    by (simp add: Pod2Spec_def Let_def)
  then show "\<exists>s. Pod2Spec ops pops c nodes pod w = (Inr s, w) \<and> Cpu s = QNewMilli ops 1000 \<and>
      CpuLimit s = Cpu s \<and> Mem s = QNew ops 2147483648 \<and> MemLimit s = Mem s"
    by (simp add: pod_spec_def best_effort_res)
qed

definition nat_pod_ops :: "nat pod_ops" where
  "nat_pod_ops = \<lparr>PodRequestsAndLimits = (\<lambda>p. ([], [])), GetPodQOS = (\<lambda>p. ''BestEffort'')\<rparr>"

definition example_tke :: "(nat, nat) tke_client" where
  "example_tke = \<lparr>TKEClientError = None, GetPrice = (\<lambda>r w. (Inr (Some \<lparr>ResCost = Some 10, ResTotalCost = Some 20\<rparr>), w + 1)),
     GetPodSpecification = (\<lambda>r w. (Inr (Some ''2'', Some ''4''), w + 1)), TKERetryCnt = 3,
     TKERand = (\<lambda>i. 4), MarshalResources = (\<lambda>x. Some ''{}''), ParseQuantity = (\<lambda>s. Some 2)\<rparr>"

definition eklet_node :: "nat node" where
  "eklet_node = \<lparr>NodeName = ''v'', NodeLabels = [(''node.kubernetes.io/instance-type'', ''eklet''),
     (''eks.tke.cloud.tencent.com/version'', ''v2'')], NodeProviderID = [], NodeCapacity = []\<rparr>"

theorem Pod2Spec_agrees_witness:
  "Pod2ServerlessSpec nat_ops nat_pod_ops example_tke (pending_pod\<lparr>PodNodeName := ''v''\<rparr>) 0 =
     Pod2Spec nat_ops nat_pod_ops example_tke [eklet_node] (pending_pod\<lparr>PodNodeName := ''v''\<rparr>) 0"
proof -
  have "IsServerlessPod [eklet_node] (pending_pod\<lparr>PodNodeName := ''v''\<rparr>)"
    "\<not> is_daemonset (pending_pod\<lparr>PodNodeName := ''v''\<rparr>)"
    by code_simp+
  with Pod2Spec_agrees [where nodes = "[eklet_node]" and pod = "pending_pod\<lparr>PodNodeName := ''v''\<rparr>"
      and ops = nat_ops and pops = nat_pod_ops and c = example_tke and w = 0]
  show ?thesis by blast
qed

end
