(* ===== verification/Resource_Totals.thy ===== *)
theory Resource_Totals
  imports Qcloud_Spec
begin

text \<open>
  The sums of \<open>pkg/util/resource.go\<close>: the requests and limits of pods, the capacity of nodes and
  the quantities of specs, each over the elements that a filter picks or passes over.
\<close>

text \<open>\<open>reverse\<close> asks for the elements that the filter accepts, its absence for the others.\<close>

definition picked :: "('a \<Rightarrow> bool) \<Rightarrow> bool \<Rightarrow> 'a list \<Rightarrow> 'a list" where
  "picked f reverse xs = filter (\<lambda>x. if reverse then f x else \<not> f x) xs"

definition sum_quantities :: "'q quantity_ops \<Rightarrow> 'q list \<Rightarrow> 'q" where
  "sum_quantities ops qs = foldl (QAdd ops) (QZero ops) qs"

text \<open>A resource list of the two sums.\<close>

definition cpu_mem :: "'q \<Rightarrow> 'q \<Rightarrow> 'q resource_list" where
  "cpu_mem cpu mem = [(''cpu'', cpu), (''memory'', mem)]"

definition PodsRequestsAndLimitsTotal ::
    "'q quantity_ops \<Rightarrow> 'q pod_ops \<Rightarrow> 'q pod list \<Rightarrow> ('q pod \<Rightarrow> bool) \<Rightarrow> bool \<Rightarrow>
     'q resource_list \<times> 'q resource_list" where
  "PodsRequestsAndLimitsTotal ops pops pods f reverse =
     (let rls = map (PodRequestsAndLimits pops) (picked f reverse pods);
          total = (\<lambda>pick name. sum_quantities ops (map (\<lambda>rl. res ops (pick rl) name) rls))
      in (cpu_mem (total fst ''cpu'') (total fst ''memory''),
          cpu_mem (total snd ''cpu'') (total snd ''memory'')))"

definition NodesResourceTotal ::
    "'q quantity_ops \<Rightarrow> 'q node list \<Rightarrow> ('q node \<Rightarrow> bool) \<Rightarrow> bool \<Rightarrow> 'q resource_list" where
  "NodesResourceTotal ops nodes f reverse =
     (let total = (\<lambda>name. sum_quantities ops
        (map (\<lambda>n. res ops (NodeCapacity n) name) (picked f reverse nodes)))
      in cpu_mem (total ''cpu'') (total ''memory''))"

definition PodsSpecRequestsAndLimitsTotal ::
    "'q quantity_ops \<Rightarrow> 'q CloudPodSpec list \<Rightarrow> 'q resource_list \<times> 'q resource_list" where
  "PodsSpecRequestsAndLimitsTotal ops specs =
     (cpu_mem (sum_quantities ops (map Cpu specs)) (sum_quantities ops (map Mem specs)),
      cpu_mem (sum_quantities ops (map CpuLimit specs)) (sum_quantities ops (map MemLimit specs)))"

section \<open>What the totals are worth\<close>

text \<open>
  What is documented of \<open>Add\<close>: it adds the values. The format is that of one of the two, so that quantities
  themselves can not be added in any order.
\<close>

definition additive :: "'q quantity_ops \<Rightarrow> ('q \<Rightarrow> 'a::ab_group_add) \<Rightarrow> bool" where
  "additive ops v \<longleftrightarrow> v (QZero ops) = 0 \<and> (\<forall>a b. v (QAdd ops a b) = v a + v b)"

lemma foldl_worth: "additive ops v \<Longrightarrow> v (foldl (QAdd ops) a qs) = v a + (\<Sum>q\<leftarrow>qs. v q)"
  by (induction qs arbitrary: a) (simp_all add: additive_def add.assoc)

lemma sum_quantities_worth: "additive ops v \<Longrightarrow> v (sum_quantities ops qs) = (\<Sum>q\<leftarrow>qs. v q)"
  unfolding sum_quantities_def by (simp add: foldl_worth) (simp add: additive_def)

lemma picked_filter: "picked f reverse xs = filter (\<lambda>x. f x = reverse) xs"
  by (cases reverse) (simp_all add: picked_def)

lemma filter_sum: "(\<Sum>x\<leftarrow>filter (\<lambda>x. \<not> f x) xs. g x :: 'a::ab_group_add) + (\<Sum>x\<leftarrow>filter f xs. g x) =
    (\<Sum>x\<leftarrow>xs. g x)"
  by (induction xs) (simp_all add: algebra_simps)

lemma res_cpu_mem [simp]: "res ops (cpu_mem a b) ''cpu'' = a" "res ops (cpu_mem a b) ''memory'' = b"
  by (simp_all add: res_def cpu_mem_def mget_default_def)

text \<open>The value of one resource over a list of pods, of their requests or of their limits, and over a list of nodes.\<close>

definition pods_worth ::
    "'q quantity_ops \<Rightarrow> 'q pod_ops \<Rightarrow> ('q \<Rightarrow> 'a::ab_group_add) \<Rightarrow>
     ('q resource_list \<times> 'q resource_list \<Rightarrow> 'q resource_list) \<Rightarrow> string \<Rightarrow> 'q pod list \<Rightarrow> 'a" where
  "pods_worth ops pops v pick name pods = (\<Sum>p\<leftarrow>pods. v (res ops (pick (PodRequestsAndLimits pops p)) name))"

definition nodes_worth :: "'q quantity_ops \<Rightarrow> ('q \<Rightarrow> 'a::ab_group_add) \<Rightarrow> string \<Rightarrow> 'q node list \<Rightarrow> 'a" where
  "nodes_worth ops v name nodes = (\<Sum>n\<leftarrow>nodes. v (res ops (NodeCapacity n) name))"

text \<open>
  C38. The totals are the sums of what the pods request, of what they are limited to and of what the nodes have,
  each resource by itself, over the elements that the filter accepts with \<open>reverse\<close> and over the others without it.
  So the totals with and without it add up to those of the cluster. Values only are meant, as adding
  quantities does not keep formats.
\<close>

theorem totals_exact:
  assumes "additive ops v" "name \<in> {''cpu'', ''memory''}"
  shows "(\<forall>reverse.
      v (res ops (fst (PodsRequestsAndLimitsTotal ops pops pods f reverse)) name) =
        pods_worth ops pops v fst name (filter (\<lambda>p. f p = reverse) pods) \<and>
      v (res ops (snd (PodsRequestsAndLimitsTotal ops pops pods f reverse)) name) =
        pods_worth ops pops v snd name (filter (\<lambda>p. f p = reverse) pods) \<and>
      v (res ops (NodesResourceTotal ops nodes g reverse) name) =
        nodes_worth ops v name (filter (\<lambda>n. g n = reverse) nodes)) \<and>
    v (res ops (fst (PodsRequestsAndLimitsTotal ops pops pods f False)) name) +
      v (res ops (fst (PodsRequestsAndLimitsTotal ops pops pods f True)) name) = pods_worth ops pops v fst name pods \<and>
    v (res ops (snd (PodsRequestsAndLimitsTotal ops pops pods f False)) name) +
      v (res ops (snd (PodsRequestsAndLimitsTotal ops pops pods f True)) name) = pods_worth ops pops v snd name pods \<and>
    v (res ops (NodesResourceTotal ops nodes g False) name) + v (res ops (NodesResourceTotal ops nodes g True) name) =
      nodes_worth ops v name nodes"
proof -
  have pods: "v (res ops (pick (PodsRequestsAndLimitsTotal ops pops pods f reverse)) name) =
      pods_worth ops pops v pick name (filter (\<lambda>p. f p = reverse) pods)"
    if "pick \<in> {fst, snd}" for pick reverse
    using assms(2) that by (auto simp: PodsRequestsAndLimitsTotal_def pods_worth_def Let_def comp_def
        sum_quantities_worth [OF assms(1)] picked_filter)
  have nodes: "v (res ops (NodesResourceTotal ops nodes g reverse) name) =
      nodes_worth ops v name (filter (\<lambda>n. g n = reverse) nodes)" for reverse
    using assms(2) by (auto simp: NodesResourceTotal_def nodes_worth_def Let_def comp_def
        sum_quantities_worth [OF assms(1)] picked_filter)
  show ?thesis
    by (simp add: pods nodes pods_worth_def nodes_worth_def filter_sum)
qed

text \<open>Quantities with a format, which a sum takes from its first argument.\<close>

definition formatted_ops :: "(int \<times> string) quantity_ops" where
  "formatted_ops = \<lparr>QValue = fst, QMilliValue = (\<lambda>q. 1000 * fst q), QAdd = (\<lambda>a b. (fst a + fst b, snd a)),
     QZero = (0, ''DecimalSI''), QNew = (\<lambda>i. (i, ''BinarySI'')), QNewMilli = (\<lambda>m. (m div 1000, ''DecimalSI'')),
     QString = (\<lambda>q. format_int (fst q))\<rparr>"

definition formatted_pods :: "(int \<times> string) pod_ops" where
  "formatted_pods = \<lparr>PodRequestsAndLimits = (\<lambda>p. (cpu_mem (2, ''DecimalSI'') (3, ''BinarySI''), cpu_mem (4, ''DecimalSI'') (5, ''BinarySI''))),
     GetPodQOS = (\<lambda>p. ''Burstable'')\<rparr>"

definition plain_pod :: "string \<Rightarrow> (int \<times> string) pod" where
  "plain_pod n = \<lparr>PodNamespace = ''default'', PodName = n, PodNodeName = [], PodLabels = [], PodAnnotations = None,
     PodOwners = [], PodContainers = []\<rparr>"

theorem totals_exact_witness:
  "fst (res formatted_ops (snd (PodsRequestsAndLimitsTotal formatted_ops formatted_pods
     [plain_pod ''a'', plain_pod ''b'', plain_pod ''c''] (\<lambda>p. PodName p = ''b'') False)) ''memory'') = 10"
proof -
  have "additive formatted_ops fst" by (simp add: additive_def formatted_ops_def)
  from totals_exact [OF this, where name = "''memory''" and pops = formatted_pods and
      pods = "[plain_pod ''a'', plain_pod ''b'', plain_pod ''c'']" and f = "\<lambda>p. PodName p = ''b''"]
  show ?thesis by (simp add: pods_worth_def plain_pod_def formatted_pods_def)
qed

end
