(* ===== verification/Estimator.thy ===== *)
theory Estimator
  imports Time_Series
begin

text \<open>
  \<open>pkg/cost-comparator/estimator/basic_estimator.go\<close>: the statistics of a time series that the
  recommendations are made of. The percentile and the maximum are functions of the package
  \<open>montanaflynn/stats\<close> and parameters here. A configuration is a map to values of any type.
\<close>

datatype config_value = CFloat float64 | COther string

datatype 'e estimate_error = InvalidPercentile | InvalidMargin | StatsError 'e | StatsErrors "'e list"

record Statistic =
  Percentile :: "float64 option"
  Max :: "float64 option"
  MaxRecommended :: "float64 option"
  Recommended :: "float64 option"

record 'e stats_ops =
  StatPercentile :: "float64 list \<Rightarrow> float64 \<Rightarrow> 'e + float64"
  StatMax :: "float64 list \<Rightarrow> 'e + float64"

definition TimeSeries2Float64Data :: "time_series \<Rightarrow> float64 list" where
  "TimeSeries2Float64Data ts = map SValue (Samples ts)"

text \<open>A setting of the configuration: the default when it is not there, \<open>None\<close> for a wrong type.\<close>

definition float_setting :: "(string, config_value) gomap \<Rightarrow> string \<Rightarrow> float64 \<Rightarrow> float64 option" where
  "float_setting cfg name d = (case mget cfg name of
     None \<Rightarrow> Some d
   | Some (CFloat x) \<Rightarrow> Some x
   | Some (COther s) \<Rightarrow> None)"

definition Estimation ::
    "'e stats_ops \<Rightarrow> time_series \<Rightarrow> (string, config_value) gomap \<Rightarrow> 'e estimate_error + Statistic" where
  "Estimation st ts cfg =
     (let data = TimeSeries2Float64Data ts
      in case float_setting cfg ''percentile'' (lit 95 100) of
           None \<Rightarrow> Inl InvalidPercentile
         | Some percent \<Rightarrow> (case float_setting cfg ''marginFraction'' (lit 125 100) of
             None \<Rightarrow> Inl InvalidMargin
           | Some margin \<Rightarrow> (case StatPercentile st data (percent * float_of_int 100) of
               Inl e \<Rightarrow> Inl (StatsError e)
             | Inr p \<Rightarrow> (case StatMax st data of
                 Inl e \<Rightarrow> Inl (StatsErrors [e])
               | Inr mx \<Rightarrow> Inr \<lparr>Percentile = Some p, Max = Some mx, MaxRecommended = Some (mx * margin),
                   Recommended = Some (p * margin)\<rparr>))))"

text \<open>\<open>percentsValues\<close>: the percentiles named by strings; it stops at the first error.\<close>

fun percentsValues ::
    "'e stats_ops \<Rightarrow> (string \<Rightarrow> 'e + float64) \<Rightarrow> float64 list \<Rightarrow> string list \<Rightarrow>
     (string, float64) gomap \<Rightarrow> (string, float64) gomap \<times> 'e option" where
  "percentsValues st parse data [] acc = (acc, None)"
| "percentsValues st parse data (s # ss) acc = (case parse s of
     Inl e \<Rightarrow> (acc, Some e)
   | Inr pert \<Rightarrow> (case StatPercentile st data (pert * float_of_int 100) of
       Inl e \<Rightarrow> (acc, Some e)
     | Inr p \<Rightarrow> percentsValues st parse data ss (mput s p acc)))"

lemma Estimation_complete:
  "Estimation st ts cfg = Inr s \<Longrightarrow>
     \<exists>p mx margin. StatMax st (map SValue (Samples ts)) = Inr mx \<and>
       s = \<lparr>Percentile = Some p, Max = Some mx, MaxRecommended = Some (mx * margin),
         Recommended = Some (p * margin)\<rparr>"
  by (auto simp: Estimation_def Let_def TimeSeries2Float64Data_def split: option.splits sum.splits)

end
