(* ===== verification/Coster.thy ===== *)
theory Coster
  imports Cloud_Core Estimator
begin

text \<open>
  \<open>pkg/cost-comparator/coster\<close>: what a cluster costs as it is (\<open>original_coster.go\<close>), with every
  workload serverless (\<open>serverless_coster.go\<close>) and with the recommended resources
  (\<open>recommended_coster.go\<close>). Sums are in the order of one iteration over the maps. The totals per
  kind, and the first loop of the recommended coster, whose results are not used, are left out;
  so is logging.
\<close>

type_synonym namespaced_name = "string \<times> string"

record 'q WorkloadRecommendedData =
  RecommendedSpec :: "'q CloudPodSpec"
  PercentRecommendedSpec :: "'q CloudPodSpec option"
  MaxRecommendedSpec :: "'q CloudPodSpec option"
  MaxMarginRecommendedSpec :: "'q CloudPodSpec option"
  RecContainers :: "(string, Statistic \<times> Statistic) gomap"

record ('q, 'e) CosterContext =
  TimeSpanSeconds :: int
  Discount :: "float64 option"
  PodsSpec :: "(string, 'q CloudPodSpec) gomap"
  NodesSpec :: "(string, 'q CloudNodeSpec) gomap"
  WorkloadsSpec :: "(string, (namespaced_name, 'q CloudPodSpec) gomap) gomap"
  WorkloadsRecSpec :: "(string, (namespaced_name, 'q WorkloadRecommendedData) gomap) gomap"
  CtxPricer :: "('q, 'e) Pricer"

record Cost =
  TotalCost :: float64
  ServerfulCost :: float64
  ServerlessCost :: float64
  ServerfulPlatformCost :: float64
  ServerlessPlatformCost :: float64

record RecommendedCost =
  RTotalCost :: float64
  PlatformCost :: float64
  WorkloadCost :: float64

definition Cost_Add :: "Cost \<Rightarrow> Cost \<Rightarrow> Cost" where
  "Cost_Add c other = \<lparr>TotalCost = TotalCost c + TotalCost other,
     ServerfulCost = ServerfulCost c + ServerfulCost other,
     ServerlessCost = ServerlessCost c + ServerlessCost other,
     ServerfulPlatformCost = ServerfulPlatformCost c + ServerfulPlatformCost other,
     ServerlessPlatformCost = ServerlessPlatformCost c + ServerlessPlatformCost other\<rparr>"

definition RecommendedCost_Add :: "RecommendedCost \<Rightarrow> RecommendedCost \<Rightarrow> RecommendedCost" where
  "RecommendedCost_Add c other = \<lparr>RTotalCost = RTotalCost c + RTotalCost other,
     PlatformCost = PlatformCost c + PlatformCost other,
     WorkloadCost = WorkloadCost c + WorkloadCost other\<rparr>"

text \<open>\<open>time.Hour.Seconds()\<close> is 3600.\<close>

definition timespanInHour :: "('q, 'e) CosterContext \<Rightarrow> float64" where
  "timespanInHour ctx = float_of_int (TimeSpanSeconds ctx) / float_of_int 3600"

text \<open>
  The price in the \<open>Cost\<close> string, which every coster reads alike: zero when the string is empty
  or reads as NaN, \<open>None\<close> when it does not parse.
\<close>

definition parse_price :: "string \<Rightarrow> float64 option" where
  "parse_price s =
     (if s = [] then Some 0
      else case ParseFloat s of
        (x, Some e) \<Rightarrow> None
      | (x, None) \<Rightarrow> Some (if x = NaN then 0 else x))"

definition priced :: "'e + BaseInstancePrice \<Rightarrow> float64 option" where
  "priced r = (case r of Inl e \<Rightarrow> None | Inr p \<Rightarrow> parse_price (BaseInstancePrice.Cost p))"

section \<open>The cluster as it is\<close>

definition serverful_node_step ::
    "('q, 'e) CosterContext \<Rightarrow> float64 \<times> int \<Rightarrow> string \<times> 'q CloudNodeSpec \<Rightarrow> float64 \<times> int" where
  "serverful_node_step ctx s kv = (case s of (acc, n) \<Rightarrow>
     (if VirtualNode (snd kv) then (acc, n)
      else let n = int32 (n + 1)
           in case priced (NodePrice (CtxPricer ctx) (snd kv)) of
                None \<Rightarrow> (acc, n)
              | Some p \<Rightarrow> (acc + p * timespanInHour ctx, n)))"

definition serverful_pod_step ::
    "('q, 'e) CosterContext \<Rightarrow> float64 \<Rightarrow> string \<times> 'q CloudPodSpec \<Rightarrow> float64" where
  "serverful_pod_step ctx acc kv =
     (if \<not> Serverless (snd kv) then acc
      else case priced (ServerlessPodPrice (CtxPricer ctx) (snd kv)) of
             None \<Rightarrow> acc
           | Some p \<Rightarrow> acc + p * timespanInHour ctx)"

definition serverful_TotalCost :: "('q, 'e) CosterContext \<Rightarrow> Cost" where
  "serverful_TotalCost ctx =
     (let (nodes, n) = foldl (serverful_node_step ctx) (0, 0) (NodesSpec ctx);
          pods = foldl (serverful_pod_step ctx) 0 (PodsSpec ctx);
          full = PlatformPrice (CtxPricer ctx)
            \<lparr>Nodes = Some n, ClusterLevel = None, Platform = ServerfulKind\<rparr>;
          less = PlatformPrice (CtxPricer ctx)
            \<lparr>Nodes = Some n, ClusterLevel = None, Platform = ServerlessKind\<rparr>
      in \<lparr>TotalCost = nodes + pods + TotalPrice full + TotalPrice less,
          ServerfulCost = nodes, ServerlessCost = pods,
          ServerfulPlatformCost = TotalPrice full, ServerlessPlatformCost = TotalPrice less\<rparr>)"

section \<open>Every workload serverless\<close>

definition serverless_platform :: "('q, 'e) CosterContext \<Rightarrow> Prices" where
  "serverless_platform ctx = PlatformPrice (CtxPricer ctx)
     \<lparr>Nodes = None, ClusterLevel = None, Platform = ServerlessKind\<rparr>"

definition serverless_step ::
    "('q, 'e) CosterContext \<Rightarrow> float64 \<Rightarrow> namespaced_name \<times> 'q CloudPodSpec \<Rightarrow> float64" where
  "serverless_step ctx acc kv =
     (case priced (ServerlessPodPrice (CtxPricer ctx) (snd kv)) of
        None \<Rightarrow> acc
      | Some p \<Rightarrow> acc + p * timespanInHour ctx)"

definition serverless_kind ::
    "('q, 'e) CosterContext \<Rightarrow> float64 \<Rightarrow>
     string \<times> (namespaced_name, 'q CloudPodSpec) gomap \<Rightarrow> float64" where
  "serverless_kind ctx acc kv =
     (if to_lower (fst kv) = ''daemonset'' then acc
      else foldl (serverless_step ctx) acc (snd kv))"

definition serverless_TotalCost :: "('q, 'e) CosterContext \<Rightarrow> Cost" where
  "serverless_TotalCost ctx =
     (let pods = foldl (serverless_kind ctx) 0 (WorkloadsSpec ctx);
          platform = TotalPrice (serverless_platform ctx)
      in \<lparr>TotalCost = pods + platform, ServerfulCost = 0, ServerlessCost = pods,
          ServerfulPlatformCost = 0, ServerlessPlatformCost = platform\<rparr>)"

section \<open>With the recommended resources\<close>

definition workloadCosting :: "('q, 'e) Pricer \<Rightarrow> float64 \<Rightarrow> 'q CloudPodSpec \<Rightarrow> float64" where
  "workloadCosting pricer hours s = (case priced (ServerlessPodPrice pricer s) of
     None \<Rightarrow> 0
   | Some p \<Rightarrow> p * hours)"

text \<open>The four running totals: recommended, percentile, maximum, maximum with margin.\<close>

record rec_totals =
  RecTotal :: float64
  PercentTotal :: float64
  MaxTotal :: float64
  MaxMarginTotal :: float64

definition add_optional ::
    "('q, 'e) CosterContext \<Rightarrow> 'q CloudPodSpec option \<Rightarrow> float64 \<Rightarrow> float64" where
  "add_optional ctx spec acc = (case spec of
     None \<Rightarrow> acc
   | Some s \<Rightarrow> acc + workloadCosting (CtxPricer ctx) (timespanInHour ctx) s * timespanInHour ctx)"

definition rec_step ::
    "('q, 'e) CosterContext \<Rightarrow> rec_totals \<Rightarrow> namespaced_name \<times> 'q WorkloadRecommendedData \<Rightarrow>
     rec_totals" where
  "rec_step ctx t kv =
     \<lparr>RecTotal = add_optional ctx (Some (RecommendedSpec (snd kv))) (RecTotal t),
      PercentTotal = add_optional ctx (PercentRecommendedSpec (snd kv)) (PercentTotal t),
      MaxTotal = add_optional ctx (MaxRecommendedSpec (snd kv)) (MaxTotal t),
      MaxMarginTotal = add_optional ctx (MaxMarginRecommendedSpec (snd kv)) (MaxMarginTotal t)\<rparr>"

definition rec_kind ::
    "('q, 'e) CosterContext \<Rightarrow> rec_totals \<Rightarrow>
     string \<times> (namespaced_name, 'q WorkloadRecommendedData) gomap \<Rightarrow> rec_totals" where
  "rec_kind ctx t kv =
     (if to_lower (fst kv) = ''daemonset'' then t else foldl (rec_step ctx) t (snd kv))"

definition rec_cost :: "float64 \<Rightarrow> float64 \<Rightarrow> RecommendedCost" where
  "rec_cost platform acc =
     \<lparr>RTotalCost = acc + platform, PlatformCost = platform, WorkloadCost = acc\<rparr>"

text \<open>In the order the code returns them: recommended, percentile, maximum, maximum with margin.\<close>

definition recommender_TotalCost ::
    "('q, 'e) CosterContext \<Rightarrow>
     RecommendedCost \<times> RecommendedCost \<times> RecommendedCost \<times> RecommendedCost" where
  "recommender_TotalCost ctx =
     (let t = foldl (rec_kind ctx) \<lparr>RecTotal = 0, PercentTotal = 0, MaxTotal = 0, MaxMarginTotal = 0\<rparr>
                (WorkloadsRecSpec ctx);
          platform = TotalPrice (serverless_platform ctx)
      in (rec_cost platform (RecTotal t), rec_cost platform (PercentTotal t),
          rec_cost platform (MaxTotal t), rec_cost platform (MaxMarginTotal t)))"

section \<open>What is counted\<close>

lemma foldl_filter_skip:
  "(\<And>t x. x \<in> set xs \<Longrightarrow> \<not> P x \<Longrightarrow> f t x = t) \<Longrightarrow> foldl f t (filter P xs) = foldl f t xs"
  by (induction xs arbitrary: t) auto

text \<open>
  The cost of the cluster as it is depends only on its real nodes and its serverless pods,
  and the total is the sum of the four parts it reports.
\<close>

theorem serverful_counts:
  "serverful_TotalCost (ctx\<lparr>NodesSpec := filter (\<lambda>(k, n). \<not> VirtualNode n) (NodesSpec ctx),
      PodsSpec := filter (\<lambda>(k, p). Serverless p) (PodsSpec ctx)\<rparr>) = serverful_TotalCost ctx \<and>
   (let c = serverful_TotalCost ctx in TotalCost c =
      ServerfulCost c + ServerlessCost c + ServerfulPlatformCost c + ServerlessPlatformCost c)"
proof -
  let ?ctx = "ctx\<lparr>NodesSpec := filter (\<lambda>(k, n). \<not> VirtualNode n) (NodesSpec ctx),
      PodsSpec := filter (\<lambda>(k, p). Serverless p) (PodsSpec ctx)\<rparr>"
  have hours: "timespanInHour ?ctx = timespanInHour ctx" by (simp add: timespanInHour_def)
  have steps: "serverful_node_step ?ctx = serverful_node_step ctx"
    "serverful_pod_step ?ctx = serverful_pod_step ctx"
    by (simp_all add: fun_eq_iff serverful_node_step_def serverful_pod_step_def hours Let_def
        split: option.split)
  have "foldl (serverful_node_step ctx) (0, 0) (filter (\<lambda>(k, n). \<not> VirtualNode n) (NodesSpec ctx))
      = foldl (serverful_node_step ctx) (0, 0) (NodesSpec ctx)"
    by (rule foldl_filter_skip) (auto simp: serverful_node_step_def split: prod.split)
  moreover have "foldl (serverful_pod_step ctx) 0 (filter (\<lambda>(k, p). Serverless p) (PodsSpec ctx))
      = foldl (serverful_pod_step ctx) 0 (PodsSpec ctx)"
    by (rule foldl_filter_skip) (auto simp: serverful_pod_step_def)
  ultimately show ?thesis
    by (simp add: serverful_TotalCost_def Let_def steps split: prod.split)
qed

text \<open>The specs that the recommended and the serverless costers price, in the order they do.\<close>

definition counted :: "(string \<times> (namespaced_name \<times> 'a) list) list \<Rightarrow> 'a list" where
  "counted m = concat (map (\<lambda>(kind, ws). map snd ws) (filter (\<lambda>kv. to_lower (fst kv) \<noteq> ''daemonset'') m))"

lemma foldl_concat_map: "foldl f t (concat (map g xs)) = foldl (\<lambda>t x. foldl f t (g x)) t xs"
  by (induction xs arbitrary: t) auto

lemma foldl_map_snd: "foldl f t (map snd xs) = foldl (\<lambda>t x. f t (snd x)) t xs"
  by (induction xs arbitrary: t) auto

lemma counted_foldl:
  "foldl f t (counted m) = foldl (\<lambda>t kv. if to_lower (fst kv) = ''daemonset'' then t
     else foldl (\<lambda>t x. f t (snd x)) t (snd kv)) t m"
proof -
  have "foldl f t (counted m) = foldl (\<lambda>t kv. foldl (\<lambda>t x. f t (snd x)) t (snd kv)) t
      (filter (\<lambda>kv. to_lower (fst kv) \<noteq> ''daemonset'') m)"
    by (simp add: counted_def foldl_concat_map foldl_map_snd split_def)
  also have "\<dots> = foldl (\<lambda>t kv. if to_lower (fst kv) = ''daemonset'' then t
     else foldl (\<lambda>t x. f t (snd x)) t (snd kv)) t m"
    by (induction m arbitrary: t) auto
  finally show ?thesis .
qed

definition spec_price :: "('q, 'e) CosterContext \<Rightarrow> 'q CloudPodSpec \<Rightarrow> float64 option" where
  "spec_price ctx s = priced (ServerlessPodPrice (CtxPricer ctx) s)"

text \<open>
  The serverless coster adds, for each workload that is not a daemon set and has a price, the
  price times the hours. The recommended coster adds the price times the hours times the hours
  again, since the price that it takes from workloadCosting is already multiplied.
\<close>

theorem coster_formulas:
  "ServerlessCost (serverless_TotalCost ctx) =
     foldl (\<lambda>t s. case spec_price ctx s of None \<Rightarrow> t | Some p \<Rightarrow> t + p * timespanInHour ctx)
       0 (counted (WorkloadsSpec ctx)) \<and>
   WorkloadCost (fst (recommender_TotalCost ctx)) =
     foldl (\<lambda>t d. t + (case spec_price ctx (RecommendedSpec d) of
         None \<Rightarrow> 0 | Some p \<Rightarrow> p * timespanInHour ctx) * timespanInHour ctx)
       0 (counted (WorkloadsRecSpec ctx))"
proof
  show "ServerlessCost (serverless_TotalCost ctx) =
     foldl (\<lambda>t s. case spec_price ctx s of None \<Rightarrow> t | Some p \<Rightarrow> t + p * timespanInHour ctx)
       0 (counted (WorkloadsSpec ctx))"
  proof -
    have st: "serverless_step ctx = (\<lambda>t x. case spec_price ctx (snd x) of None \<Rightarrow> t
        | Some p \<Rightarrow> t + p * timespanInHour ctx)"
      by (simp add: fun_eq_iff serverless_step_def spec_price_def)
    have "serverless_kind ctx = (\<lambda>t kv. if to_lower (fst kv) = ''daemonset'' then t
        else foldl (\<lambda>t x. case spec_price ctx (snd x) of None \<Rightarrow> t
          | Some p \<Rightarrow> t + p * timespanInHour ctx) t (snd kv))"
      unfolding st [symmetric] by (simp add: fun_eq_iff serverless_kind_def)
    then show ?thesis
      unfolding counted_foldl by (simp add: serverless_TotalCost_def Let_def)
  qed
  have one: "RecTotal (rec_step ctx t kv) = RecTotal t + (case spec_price ctx (RecommendedSpec (snd kv)) of
         None \<Rightarrow> 0 | Some p \<Rightarrow> p * timespanInHour ctx) * timespanInHour ctx" for t kv
    by (simp add: rec_step_def add_optional_def workloadCosting_def spec_price_def)
  have row: "RecTotal (foldl (rec_step ctx) t ws) = foldl (\<lambda>t kv. t + (case spec_price ctx
       (RecommendedSpec (snd kv)) of None \<Rightarrow> 0 | Some p \<Rightarrow> p * timespanInHour ctx) * timespanInHour ctx)
       (RecTotal t) ws" for t ws
    by (induction ws arbitrary: t) (simp_all add: one)
  have all: "RecTotal (foldl (rec_kind ctx) t m) = foldl (\<lambda>t d. t + (case spec_price ctx (RecommendedSpec d) of
         None \<Rightarrow> 0 | Some p \<Rightarrow> p * timespanInHour ctx) * timespanInHour ctx)
       (RecTotal t) (counted m)" for t m
    unfolding counted_foldl by (induction m arbitrary: t) (simp_all add: rec_kind_def row)
  show "WorkloadCost (fst (recommender_TotalCost ctx)) =
     foldl (\<lambda>t d. t + (case spec_price ctx (RecommendedSpec d) of
         None \<Rightarrow> 0 | Some p \<Rightarrow> p * timespanInHour ctx) * timespanInHour ctx)
       0 (counted (WorkloadsRecSpec ctx))"
    using all [of "\<lparr>RecTotal = 0, PercentTotal = 0, MaxTotal = 0, MaxMarginTotal = 0\<rparr>" "WorkloadsRecSpec ctx"]
    by (simp add: recommender_TotalCost_def rec_cost_def Let_def)
qed

end
