(* ===== verification/Checkpoint.thy ===== *)
theory Checkpoint
  imports Go_Strconv Time_Series
begin

text \<open>
  The CSV checkpoints of \<open>pkg/cost-comparator/comparator.go\<close>: what \<open>ContainerDataCheckpoint\<close> and
  \<open>workloadTimeSeriesDataCheckpoint\<close> write, and what \<open>LoadContainerTimeSeriesDataFromCheckpoint\<close>
  and \<open>LoadWorkloadTimeSeriesDataFromCheckpoint\<close> read. A file is the list of its records here, of
  which the reader checks that every one has as many fields as the first; its bytes are in \<open>Csv_Files\<close>. A panic is an error value. A nil \<open>*TimeSeries\<close> is
  \<open>None\<close>.
\<close>

datatype checkpoint_error = FileNotFound | ErrFieldCount | WrongHeader | NilSeries | IndexOutOfRange

type_synonym table = "string list list"

type_synonym series_list = "time_series option list"

section \<open>Data\<close>

record RawContainerTimeSeriesData =
  Cpu :: series_list
  Mem :: series_list
  CpuRequests :: series_list
  MemRequests :: series_list
  CpuLimits :: series_list
  MemLimits :: series_list

record RawWorkloadTimeSeriesData = RawContainerTimeSeriesData +
  Replicas :: series_list

text \<open>A \<open>types.NamespacedName\<close> is the pair of the namespace and the name.\<close>

type_synonym namespaced_name = "string \<times> string"

type_synonym container_cache =
  "(string, (namespaced_name, (string, RawContainerTimeSeriesData) gomap) gomap) gomap"

type_synonym workload_cache =
  "(string, (namespaced_name, RawWorkloadTimeSeriesData) gomap) gomap"

section \<open>Saving\<close>

definition Float642Str :: "float64 \<Rightarrow> string" where
  "Float642Str a = format_fixed 5 a"

text \<open>The samples of the first series, none when there is none.\<close>

fun first_len :: "series_list \<Rightarrow> nat" where
  "first_len (Some ts # rest) = length (Samples ts)"
| "first_len xs = 0"

text \<open>\<open>fmt.Sprintf("%v-%v", splits[0]+"-"+splits[1], ts)\<close>; every header has two parts.\<close>

definition retime :: "string \<Rightarrow> int \<Rightarrow> string" where
  "retime h t = (let splits = split_on CHR ''-'' h
     in splits ! 0 @ ''-'' @ splits ! 1 @ ''-'' @ format_int t)"

text \<open>One block of a row: the headers, with the timestamps it writes into them, and its cells.\<close>

fun save_cells :: "string list \<Rightarrow> sample list \<Rightarrow> string list \<times> string list" where
  "save_cells [] ss = ([], [])"
| "save_cells (h # hs) [] = (let (hs', cs) = save_cells hs [] in (h # hs', ''null'' # cs))"
| "save_cells (h # hs) (s # ss) =
     (let (hs', cs) = save_cells hs ss
      in (retime h (Timestamp s) # hs', Float642Str (SValue s) # cs))"

definition save_block ::
    "string list \<Rightarrow> series_list \<Rightarrow> checkpoint_error + string list \<times> string list" where
  "save_block hs xs = (case xs of
     [] \<Rightarrow> Inr (save_cells hs [])
   | None # _ \<Rightarrow> if hs = [] then Inr ([], []) else Inl NilSeries
   | Some ts # _ \<Rightarrow> Inr (save_cells hs (Samples ts)))"

text \<open>The blocks of a row in their order, each with its own headers.\<close>

fun save_blocks ::
    "string list list \<Rightarrow> series_list list \<Rightarrow> checkpoint_error + string list list \<times> string list" where
  "save_blocks (hs # hss) (xs # xss) = (case save_block hs xs of
     Inl e \<Rightarrow> Inl e
   | Inr (hs', cs) \<Rightarrow> (case save_blocks hss xss of
       Inl e \<Rightarrow> Inl e
     | Inr (hss', css) \<Rightarrow> Inr (hs' # hss', cs @ css)))"
| "save_blocks hss xss = Inr ([], [])"

definition numbered :: "string \<Rightarrow> nat \<Rightarrow> string list" where
  "numbered prefix n = map (\<lambda>i. prefix @ ''-'' @ format_int (int i)) [0..<n]"

definition container_columns :: "RawContainerTimeSeriesData \<Rightarrow> series_list list" where
  "container_columns d = [Cpu d, Mem d, CpuRequests d, MemRequests d, CpuLimits d, MemLimits d]"

definition workload_columns :: "RawWorkloadTimeSeriesData \<Rightarrow> series_list list" where
  "workload_columns d =
     [Cpu d, Mem d, CpuRequests d, MemRequests d, CpuLimits d, MemLimits d, Replicas d]"

definition container_keys :: "string list" where
  "container_keys = [''Kind'', ''Namespace'', ''Name'', ''Container'']"

definition container_prefixes :: "string list" where
  "container_prefixes = [''CpuUsage'', ''MemUsage'', ''CpuRequest'', ''MemRequest'', ''CpuLimit'', ''MemLimit'']"

definition workload_prefixes :: "string list" where
  "workload_prefixes = container_prefixes @ [''Replicas'']"

text \<open>The longest first series of each column.\<close>

definition max_lens :: "series_list list list \<Rightarrow> nat list \<Rightarrow> nat list" where
  "max_lens rows lens = foldl (\<lambda>ms cols. map2 (\<lambda>m xs. if m < first_len xs then first_len xs else m) ms cols) lens rows"

text \<open>The rows, each from its key cells and its columns; the headers are threaded through.\<close>

fun save_rows ::
    "string list list \<Rightarrow> (string list \<times> series_list list) list \<Rightarrow>
     checkpoint_error + string list list \<times> table" where
  "save_rows hss [] = Inr (hss, [])"
| "save_rows hss ((key, cols) # rows) = (case save_blocks hss cols of
     Inl e \<Rightarrow> Inl e
   | Inr (hss', cells) \<Rightarrow> (case save_rows hss' rows of
       Inl e \<Rightarrow> Inl e
     | Inr (hss'', data) \<Rightarrow> Inr (hss'', (key @ cells) # data)))"

definition save_table ::
    "string list \<Rightarrow> string list \<Rightarrow> (string list \<times> series_list list) list \<Rightarrow>
     checkpoint_error + table" where
  "save_table keys prefixes rows =
     (let lens = max_lens (map snd rows) (map (\<lambda>p. 0) prefixes)
      in case save_rows (map2 numbered prefixes lens) rows of
           Inl e \<Rightarrow> Inl e
         | Inr (hss, data) \<Rightarrow> Inr ((keys @ concat hss) # data))"

definition container_entries ::
    "container_cache \<Rightarrow> (string list \<times> series_list list) list" where
  "container_entries cache = concat (map (\<lambda>(kind, ws). concat (map (\<lambda>((ns, name), cs).
     map (\<lambda>(c, d). ([kind, ns, name, c], container_columns d)) cs) ws)) cache)"

definition workload_entries ::
    "workload_cache \<Rightarrow> (string list \<times> series_list list) list" where
  "workload_entries cache = concat (map (\<lambda>(kind, ws).
     map (\<lambda>((ns, name), d). ([kind, ns, name], workload_columns d)) ws) cache)"

definition ContainerDataCheckpoint :: "container_cache \<Rightarrow> checkpoint_error + table" where
  "ContainerDataCheckpoint cache =
     save_table container_keys container_prefixes
       (container_entries cache)"

definition workloadTimeSeriesDataCheckpoint :: "workload_cache \<Rightarrow> checkpoint_error + table" where
  "workloadTimeSeriesDataCheckpoint cache =
     save_table [''Kind'', ''Namespace'', ''Name''] workload_prefixes (workload_entries cache)"

section \<open>Loading\<close>

text \<open>\<open>csv.Reader.ReadAll\<close> with \<open>FieldsPerRecord = 0\<close>.\<close>

definition read_all :: "table \<Rightarrow> checkpoint_error + table" where
  "read_all t = (case t of
     [] \<Rightarrow> Inr []
   | h # rows \<Rightarrow> if list_all (\<lambda>r. length r = length h) rows then Inr t else Inl ErrFieldCount)"

definition header_time :: "string \<Rightarrow> int" where
  "header_time col = (let splits = split_on CHR ''-'' col
     in if 3 \<le> length splits then fst (ParseInt (splits ! 2)) else 0)"

text \<open>One cell: skipped when it is null or no number.\<close>

definition load_cell :: "string \<Rightarrow> float64 option" where
  "load_cell c = (if c = ''null'' then None
     else case ParseFloat c of (v, None) \<Rightarrow> Some v | (v, Some e) \<Rightarrow> None)"

text \<open>One column block: header \<open>i\<close> with the cell \<open>row[indexStart+i]\<close>.\<close>

fun load_block :: "string list \<Rightarrow> string list \<Rightarrow> nat \<Rightarrow> checkpoint_error + sample list" where
  "load_block [] row j = Inr []"
| "load_block (h # hs) row j =
     (if length row \<le> j then Inl IndexOutOfRange
      else case load_block hs row (Suc j) of
        Inl e \<Rightarrow> Inl e
      | Inr ss \<Rightarrow> Inr (case load_cell (row ! j) of
          None \<Rightarrow> ss | Some v \<Rightarrow> \<lparr>Timestamp = header_time h, SValue = v\<rparr> # ss))"

fun load_blocks ::
    "(string list \<times> nat) list \<Rightarrow> string list \<Rightarrow> checkpoint_error + sample list list" where
  "load_blocks [] row = Inr []"
| "load_blocks ((hs, j) # bs) row = (case load_block hs row j of
     Inl e \<Rightarrow> Inl e
   | Inr ss \<Rightarrow> (case load_blocks bs row of Inl e \<Rightarrow> Inl e | Inr sss \<Rightarrow> Inr (ss # sss)))"

definition columns_of :: "string list \<Rightarrow> string \<Rightarrow> string list" where
  "columns_of header prefix = filter (\<lambda>f. has_prefix f (prefix @ ''-'')) header"

text \<open>Where the code's \<open>indexStart\<close> stands at each block.\<close>

definition container_blocks :: "string list list \<Rightarrow> (string list \<times> nat) list" where
  "container_blocks hss = (case hss of
     [cu, mu, cr, mr, cl, ml] \<Rightarrow>
       let i0 = 0; i1 = i0 + length cu; i2 = i1 + length mu; i3 = i2 + length cr;
           i4 = i3 + length mr; i5 = i4 + length cl
       in [(cu, i0), (mu, i1), (cr, i2), (mr, i3), (cl, i4), (ml, i5)]
   | _ \<Rightarrow> [])"

text \<open>The workload loader does not advance past the memory requests.\<close>

definition workload_blocks :: "string list list \<Rightarrow> (string list \<times> nat) list" where
  "workload_blocks hss = (case hss of
     [cu, mu, cr, mr, cl, ml, re] \<Rightarrow>
       let i0 = 0; i1 = i0 + length cu; i2 = i1 + length mu; i3 = i2 + length cr;
           i4 = i3; i5 = i4 + length cl; i6 = i5 + length ml
       in [(cu, i0), (mu, i1), (cr, i2), (mr, i3), (cl, i4), (ml, i5), (re, i6)]
   | _ \<Rightarrow> [])"

definition one_series :: "sample list \<Rightarrow> series_list" where
  "one_series ss = [Some \<lparr>Labels = [], Samples = ss\<rparr>]"

definition load_container_row ::
    "string list list \<Rightarrow> string list \<Rightarrow> checkpoint_error + RawContainerTimeSeriesData" where
  "load_container_row hss row = (case load_blocks (container_blocks hss) (drop 4 row) of
     Inl e \<Rightarrow> Inl e
   | Inr sss \<Rightarrow> Inr \<lparr>Cpu = one_series (sss ! 0), Mem = one_series (sss ! 1),
       CpuRequests = one_series (sss ! 2), MemRequests = one_series (sss ! 3),
       CpuLimits = one_series (sss ! 4), MemLimits = one_series (sss ! 5)\<rparr>)"

definition load_workload_row ::
    "string list list \<Rightarrow> string list \<Rightarrow> checkpoint_error + RawWorkloadTimeSeriesData" where
  "load_workload_row hss row = (case load_blocks (workload_blocks hss) (drop 3 row) of
     Inl e \<Rightarrow> Inl e
   | Inr sss \<Rightarrow> Inr \<lparr>Cpu = one_series (sss ! 0), Mem = one_series (sss ! 1),
       CpuRequests = one_series (sss ! 2), MemRequests = one_series (sss ! 3),
       CpuLimits = one_series (sss ! 4), MemLimits = one_series (sss ! 5),
       Replicas = one_series (sss ! 6)\<rparr>)"

definition put3 :: "'k \<Rightarrow> 'n \<Rightarrow> 'c \<Rightarrow> 'd \<Rightarrow> ('k, ('n, ('c, 'd) gomap) gomap) gomap \<Rightarrow>
    ('k, ('n, ('c, 'd) gomap) gomap) gomap" where
  "put3 k n c d m = (let ws = mget_default [] m k; cs = mget_default [] ws n
     in mput k (mput n (mput c d cs) ws) m)"

definition put2 :: "'k \<Rightarrow> 'n \<Rightarrow> 'd \<Rightarrow> ('k, ('n, 'd) gomap) gomap \<Rightarrow> ('k, ('n, 'd) gomap) gomap" where
  "put2 k n d m = mput k (mput n d (mget_default [] m k)) m"

fun load_container_rows ::
    "string list list \<Rightarrow> table \<Rightarrow> container_cache \<Rightarrow> checkpoint_error + container_cache" where
  "load_container_rows hss [] m = Inr m"
| "load_container_rows hss (row # rows) m =
     (if length row < 4 then Inl IndexOutOfRange
      else case load_container_row hss row of
        Inl e \<Rightarrow> Inl e
      | Inr d \<Rightarrow> load_container_rows hss rows
          (put3 (row ! 0) (row ! 1, row ! 2) (row ! 3) d m))"

fun load_workload_rows ::
    "string list list \<Rightarrow> table \<Rightarrow> workload_cache \<Rightarrow> checkpoint_error + workload_cache" where
  "load_workload_rows hss [] m = Inr m"
| "load_workload_rows hss (row # rows) m =
     (if length row < 3 then Inl IndexOutOfRange
      else case load_workload_row hss row of
        Inl e \<Rightarrow> Inl e
      | Inr d \<Rightarrow> load_workload_rows hss rows (put2 (row ! 0) (row ! 1, row ! 2) d m))"

text \<open>The file is \<open>None\<close> when it does not open.\<close>

definition LoadContainerTimeSeriesDataFromCheckpoint ::
    "table option \<Rightarrow> checkpoint_error + container_cache" where
  "LoadContainerTimeSeriesDataFromCheckpoint file = (case file of
     None \<Rightarrow> Inl FileNotFound
   | Some t \<Rightarrow> (case read_all t of
       Inl e \<Rightarrow> Inl e
     | Inr [] \<Rightarrow> Inl WrongHeader
     | Inr (header # rows) \<Rightarrow>
         if length header \<le> 4 then Inl WrongHeader
         else load_container_rows (map (columns_of header) container_prefixes) rows []))"

definition LoadWorkloadTimeSeriesDataFromCheckpoint ::
    "table option \<Rightarrow> checkpoint_error + workload_cache" where
  "LoadWorkloadTimeSeriesDataFromCheckpoint file = (case file of
     None \<Rightarrow> Inl FileNotFound
   | Some t \<Rightarrow> (case read_all t of
       Inl e \<Rightarrow> Inl e
     | Inr [] \<Rightarrow> Inl WrongHeader
     | Inr (header # rows) \<Rightarrow>
         if length header \<le> 4 then Inl WrongHeader
         else load_workload_rows (map (columns_of header) workload_prefixes) rows []))"

section \<open>Shape of what is saved\<close>

lemma save_cells_length:
  "length (fst (save_cells hs ss)) = length hs" "length (snd (save_cells hs ss)) = length hs"
  by (induction hs ss rule: save_cells.induct) (auto split: prod.splits)

lemma save_cells_header:
  "i < length hs \<Longrightarrow> fst (save_cells hs ss) ! i =
     (if i < length ss then retime (hs ! i) (Timestamp (ss ! i)) else hs ! i)"
  by (induction hs ss arbitrary: i rule: save_cells.induct)
     (auto simp: nth_Cons split: prod.splits nat.splits)

lemma save_cells_cell:
  "i < length hs \<Longrightarrow> snd (save_cells hs ss) ! i =
     (if i < length ss then Float642Str (SValue (ss ! i)) else ''null'')"
  by (induction hs ss arbitrary: i rule: save_cells.induct)
     (auto simp: nth_Cons split: prod.splits nat.splits)

definition first_samples :: "series_list \<Rightarrow> sample list" where
  "first_samples xs = (case xs of Some ts # rest \<Rightarrow> Samples ts | _ \<Rightarrow> [])"

lemma save_block_cases:
  "save_block hs xs = Inr r \<Longrightarrow> r = save_cells hs (first_samples xs)"
  by (auto simp: save_block_def first_samples_def split: list.splits option.splits if_splits)

lemma first_len_samples: "first_len xs = length (first_samples xs)"
  by (cases xs rule: first_len.cases) (auto simp: first_samples_def)

lemma save_blocks_Inr:
  "save_blocks hss xss = Inr (hss', cells) \<Longrightarrow> length xss = length hss \<Longrightarrow>
     hss' = map2 (\<lambda>hs xs. fst (save_cells hs (first_samples xs))) hss xss \<and>
     cells = concat (map2 (\<lambda>hs xs. snd (save_cells hs (first_samples xs))) hss xss)"
proof (induction hss xss arbitrary: hss' cells rule: save_blocks.induct)
  case (1 hs hss xs xss)
  from "1.prems"(1) obtain hs' cs hss1 css
    where b: "save_block hs xs = Inr (hs', cs)" "save_blocks hss xss = Inr (hss1, css)"
      and r: "hss' = hs' # hss1" "cells = cs @ css"
    by (auto split: sum.splits prod.splits)
  from save_block_cases [OF b(1)] have "hs' = fst (save_cells hs (first_samples xs))"
    "cs = snd (save_cells hs (first_samples xs))" by (simp_all add: prod_eq_iff)
  with "1.IH" [OF b(1) refl b(2)] r "1.prems"(2) show ?case by simp
qed simp_all

text \<open>The number of headers of each column never changes, and a row has a cell for each.\<close>

lemma save_blocks_length:
  assumes "save_blocks hss xss = Inr (hss', cells)" "length xss = length hss"
  shows "map length hss' = map length hss" "length cells = sum_list (map length hss)"
proof -
  note r = save_blocks_Inr [OF assms]
  show "map length hss' = map length hss"
    using r assms(2) by (auto simp: list_eq_iff_nth_eq save_cells_length)
  have "map length (map2 (\<lambda>hs xs. snd (save_cells hs (first_samples xs))) hss xss) = map length hss"
    using assms(2) by (auto simp: list_eq_iff_nth_eq save_cells_length)
  then show "length cells = sum_list (map length hss)"
    using r by (simp add: length_concat)
qed

lemma save_rows_length:
  "save_rows hss rows = Inr (hss', data) \<Longrightarrow> \<forall>(key, cols) \<in> set rows. length cols = length hss \<Longrightarrow>
     map length hss' = map length hss \<and> length data = length rows \<and>
     (\<forall>i < length rows. length (data ! i) = length (fst (rows ! i)) + sum_list (map length hss))"
proof (induction hss rows arbitrary: hss' data rule: save_rows.induct)
  case (2 hss key cols rows)
  from "2.prems"(1) obtain hss1 cells data1
    where b: "save_blocks hss cols = Inr (hss1, cells)" "save_rows hss1 rows = Inr (hss', data1)"
      and d: "data = (key @ cells) # data1"
    by (auto split: sum.splits prod.splits)
  have "length cols = length hss" using "2.prems"(2) by simp
  note l = save_blocks_length [OF b(1) this]
  from l(1) have n: "length hss1 = length hss" by (metis length_map)
  with "2.prems"(2) have "\<forall>(key, cols) \<in> set rows. length cols = length hss1" by auto
  from "2.IH" [OF b(1) refl b(2) this] l d show ?case
    by (auto simp: nth_Cons split: nat.split)
qed simp

lemma length_max_lens:
  "\<forall>cols \<in> set rows. length cols = length lens \<Longrightarrow> length (max_lens rows lens) = length lens"
  by (induction rows arbitrary: lens) (auto simp: max_lens_def)

lemma length_numbered [simp]: "length (numbered p n) = n"
  by (simp add: numbered_def)

lemma save_table_Inr:
  assumes "save_table keys prefixes rows = Inr t"
    and "\<forall>(key, cols) \<in> set rows. length cols = length prefixes"
  obtains hss data where "t = (keys @ concat hss) # data"
    "save_rows (map2 numbered prefixes (max_lens (map snd rows) (map (\<lambda>p. 0) prefixes))) rows
       = Inr (hss, data)"
    "map length hss = max_lens (map snd rows) (map (\<lambda>p. 0) prefixes)"
proof -
  define lens where "lens = max_lens (map snd rows) (map (\<lambda>p. 0) prefixes)"
  have l: "length lens = length prefixes"
    unfolding lens_def using assms(2) by (subst length_max_lens) auto
  from assms(1) obtain hss data where
    r: "save_rows (map2 numbered prefixes lens) rows = Inr (hss, data)"
    and t: "t = (keys @ concat hss) # data"
    by (auto simp: save_table_def Let_def lens_def split: sum.splits prod.splits)
  have "map length hss = map length (map2 numbered prefixes lens)"
    using save_rows_length [OF r] assms(2) l by auto
  also have "\<dots> = lens"
    using l by (auto simp: list_eq_iff_nth_eq)
  finally show thesis using that [OF t] r by (simp add: lens_def)
qed

lemma container_entries_shape:
  "(key, cols) \<in> set (container_entries cache) \<Longrightarrow> length key = 4 \<and> length cols = 6"
  by (auto simp: container_entries_def container_columns_def)

lemma workload_entries_shape:
  "(key, cols) \<in> set (workload_entries cache) \<Longrightarrow> length key = 3 \<and> length cols = 7"
  by (auto simp: workload_entries_def workload_columns_def)

lemma save_table_rectangular:
  assumes "save_table keys prefixes rows = Inr t"
    and "\<forall>(key, cols) \<in> set rows. length cols = length prefixes \<and> length key = length keys"
  shows "read_all t = Inr t \<and> length t = Suc (length rows)"
proof -
  from assms(2) have c: "\<forall>(key, cols) \<in> set rows. length cols = length prefixes" by auto
  define lens where "lens = max_lens (map snd rows) (map (\<lambda>p. 0) prefixes)"
  have l: "length lens = length prefixes"
    unfolding lens_def using c by (subst length_max_lens) auto
  from save_table_Inr [OF assms(1) c] obtain hss data where
    t: "t = (keys @ concat hss) # data"
    and r: "save_rows (map2 numbered prefixes lens) rows = Inr (hss, data)"
    and h: "map length hss = lens" unfolding lens_def by blast
  have n: "map length (map2 numbered prefixes lens) = lens"
    using l by (auto simp: list_eq_iff_nth_eq)
  from save_rows_length [OF r, unfolded n] c l have d: "length data = length rows"
    "\<forall>i < length rows. length (data ! i) = length (fst (rows ! i)) + sum_list lens"
    by auto
  have "\<forall>row \<in> set data. length row = length keys + sum_list lens"
    using d assms(2) by (fastforce simp: in_set_conv_nth case_prod_beta)
  then show ?thesis
    by (simp add: t read_all_def list_all_iff length_concat h d(1))
qed

section \<open>Headers and their timestamps\<close>

fun hdr :: "string \<Rightarrow> int \<Rightarrow> int option \<Rightarrow> string" where
  "hdr p n None = p @ ''-'' @ format_int n"
| "hdr p n (Some t) = p @ ''-'' @ format_int n @ ''-'' @ format_int t"

lemma no_dash: "0 \<le> n \<Longrightarrow> CHR ''-'' \<notin> set (format_int n)"
  using format_nat_digits [of n] by (auto simp: format_int_def)

lemma split_hdr:
  assumes "CHR ''-'' \<notin> set p" "0 \<le> n"
  shows "split_on CHR ''-'' (hdr p n None) = [p, format_int n]"
    "split_on CHR ''-'' (hdr p n (Some t)) = p # format_int n # split_on CHR ''-'' (format_int t)"
  using split_on_append [OF assms(1)] split_on_append [OF no_dash [OF assms(2)]]
    split_on_no_sep [OF no_dash [OF assms(2)]] by simp_all

lemma retime_hdr:
  "CHR ''-'' \<notin> set p \<Longrightarrow> 0 \<le> n \<Longrightarrow> retime (hdr p n ot) t = hdr p n (Some t)"
  by (cases ot) (simp_all add: retime_def split_hdr del: hdr.simps, simp_all)

lemma header_time_hdr:
  assumes "CHR ''-'' \<notin> set p" "0 \<le> n" "0 \<le> t" "t < 2^63"
  shows "header_time (hdr p n (Some t)) = t"
  using split_hdr(2) [OF assms(1, 2), of t] split_on_no_sep [OF no_dash [OF assms(3)]]
    ParseInt_format [of t] assms(3, 4)
  by (simp add: header_time_def numeral_2_eq_2 del: hdr.simps)

lemma has_prefix_hdr:
  assumes "CHR ''-'' \<notin> set p" "CHR ''-'' \<notin> set q"
  shows "has_prefix (hdr p n ot) (q @ ''-'') \<longleftrightarrow> p = q"
proof
  assume "has_prefix (hdr p n ot) (q @ ''-'')"
  then obtain t where "hdr p n ot = q @ CHR ''-'' # t" by (auto simp: has_prefix_iff)
  moreover obtain r where "hdr p n ot = p @ CHR ''-'' # r" by (cases ot) auto
  ultimately have "split_on CHR ''-'' (q @ CHR ''-'' # t) = split_on CHR ''-'' (p @ CHR ''-'' # r)"
    by simp
  then show "p = q" by (simp add: split_on_append assms)
next
  assume "p = q"
  then show "has_prefix (hdr p n ot) (q @ ''-'')"
    by (cases ot) (simp_all add: has_prefix_iff)
qed

declare hdr.simps [simp del]

text \<open>A header of column \<open>p\<close> at index \<open>i\<close>, and one that carries the timestamp \<open>t\<close>.\<close>

definition plain :: "string \<Rightarrow> (nat \<Rightarrow> int) \<Rightarrow> string list \<Rightarrow> bool" where
  "plain p T hs \<longleftrightarrow> (\<forall>i < length hs. \<exists>ot. hs ! i = hdr p (int i) ot \<and> (ot = None \<or> ot = Some (T i)))"

definition timed :: "string \<Rightarrow> (nat \<Rightarrow> int) \<Rightarrow> nat \<Rightarrow> string list \<Rightarrow> bool" where
  "timed p T n hs \<longleftrightarrow> (\<forall>i < min n (length hs). hs ! i = hdr p (int i) (Some (T i)))"

definition aligned :: "(nat \<Rightarrow> int) \<Rightarrow> sample list \<Rightarrow> bool" where
  "aligned T ss \<longleftrightarrow> (\<forall>i < length ss. Timestamp (ss ! i) = T i)"

lemma plain_numbered: "plain p T (numbered p n)"
  by (auto simp: plain_def numbered_def hdr.simps intro: exI [of _ None])

lemma save_header_at:
  assumes "plain p T hs" "aligned T ss" "CHR ''-'' \<notin> set p" "i < length hs"
  shows "fst (save_cells hs ss) ! i =
    (if i < length ss then hdr p (int i) (Some (T i)) else hs ! i)"
proof -
  from assms(1, 4) obtain ot where "hs ! i = hdr p (int i) ot" by (auto simp: plain_def)
  with assms show ?thesis
    by (simp add: save_cells_header retime_hdr aligned_def)
qed

lemma save_headers:
  assumes "plain p T hs" "aligned T ss" "CHR ''-'' \<notin> set p"
  shows "plain p T (fst (save_cells hs ss))"
    "timed p T n hs \<Longrightarrow> timed p T n (fst (save_cells hs ss))"
    "timed p T (length ss) (fst (save_cells hs ss))"
  using assms(1) save_header_at [OF assms]
  by (auto simp: plain_def timed_def save_cells_length)

lemma columns_plain:
  assumes "plain p T hs" "CHR ''-'' \<notin> set p" "CHR ''-'' \<notin> set q"
  shows "columns_of hs q = (if p = q then hs else [])"
proof -
  have "has_prefix h (q @ ''-'') \<longleftrightarrow> p = q" if "h \<in> set hs" for h
  proof -
    from that assms(1) obtain i ot where "h = hdr p i ot" by (auto simp: plain_def in_set_conv_nth)
    then show ?thesis by (simp add: has_prefix_hdr [OF assms(2, 3)])
  qed
  then show ?thesis by (simp add: columns_of_def filter_id_conv filter_empty_conv)
qed

section \<open>Cells\<close>

fun cells :: "nat \<Rightarrow> sample list \<Rightarrow> string list" where
  "cells 0 ss = []"
| "cells (Suc n) [] = ''null'' # cells n []"
| "cells (Suc n) (s # ss) = Float642Str (SValue s) # cells n ss"

lemma save_cells_cells: "snd (save_cells hs ss) = cells (length hs) ss"
  by (induction hs ss rule: save_cells.induct) (auto split: prod.splits)

lemma length_cells [simp]: "length (cells n ss) = n"
  by (induction n ss rule: cells.induct) simp_all

text \<open>
  What a series is after a save and a load: each value is what parsing its five decimals gives,
  and a sample whose text does not parse is dropped.
\<close>

fun requantize :: "sample list \<Rightarrow> sample list" where
  "requantize [] = []"
| "requantize (s # ss) = (case load_cell (Float642Str (SValue s)) of
     None \<Rightarrow> requantize ss
   | Some v \<Rightarrow> \<lparr>Timestamp = Timestamp s, SValue = v\<rparr> # requantize ss)"

lemma load_cell_null [simp]: "load_cell ''null'' = None"
  by (simp add: load_cell_def)

lemma load_block_cells:
  "\<forall>i < length ss. header_time (hs ! i) = Timestamp (ss ! i) \<Longrightarrow> length ss \<le> length hs \<Longrightarrow>
     load_block hs (pre @ cells (length hs) ss @ post) (length pre) = Inr (requantize ss)"
proof (induction hs arbitrary: ss pre)
  case (Cons h hs)
  show ?case
  proof (cases ss)
    case Nil
    have "load_block hs ((pre @ [''null'']) @ cells (length hs) [] @ post)
        (length (pre @ [''null''])) = Inr (requantize [])"
      by (rule Cons.IH) simp_all
    with Nil show ?thesis by simp
  next
    case (Cons s ss')
    define c where "c = Float642Str (SValue s)"
    have "\<forall>i < length ss'. header_time (hs ! i) = Timestamp (ss' ! i)"
      using Cons.prems(1) Cons by (metis length_Cons not_less_eq nth_Cons_Suc)
    moreover have "length ss' \<le> length hs" using Cons.prems(2) Cons by simp
    ultimately have "load_block hs ((pre @ [c]) @ cells (length hs) ss' @ post)
        (length (pre @ [c])) = Inr (requantize ss')"
      by (rule Cons.IH)
    moreover have "header_time h = Timestamp s" using Cons.prems(1) Cons by (metis length_Cons nth_Cons_0 zero_less_Suc)
    ultimately show ?thesis using Cons by (simp add: c_def nth_append split: option.split)
  qed
qed simp

section \<open>A saved table, row by row\<close>

abbreviation row_cells :: "nat list \<Rightarrow> series_list list \<Rightarrow> string list" where
  "row_cells lens cols \<equiv> concat (map2 (\<lambda>n xs. cells n (first_samples xs)) lens cols)"

lemma map2_save_cells:
  "map2 (\<lambda>hs xs. snd (save_cells hs (first_samples xs))) hss cols =
     map2 (\<lambda>n xs. cells n (first_samples xs)) (map length hss) cols"
  by (simp add: save_cells_cells zip_map1 split_def comp_def)

lemma save_rows_data:
  "save_rows hss rows = Inr (hss', data) \<Longrightarrow> \<forall>(key, cols) \<in> set rows. length cols = length hss \<Longrightarrow>
     data = map (\<lambda>(key, cols). key @ row_cells (map length hss) cols) rows"
proof (induction hss rows arbitrary: hss' data rule: save_rows.induct)
  case (2 hss key cols rows)
  from "2.prems"(1) obtain hss1 cs data1
    where b: "save_blocks hss cols = Inr (hss1, cs)" "save_rows hss1 rows = Inr (hss', data1)"
      and d: "data = (key @ cs) # data1"
    by (auto split: sum.splits prod.splits)
  have l: "length cols = length hss" using "2.prems"(2) by simp
  have n: "map length hss1 = map length hss" by (rule save_blocks_length [OF b(1) l])
  then have "length hss1 = length hss" by (metis length_map)
  with "2.prems"(2) have "\<forall>(key, cols) \<in> set rows. length cols = length hss1" by auto
  from "2.IH" [OF b(1) refl b(2) this]
  have "data1 = map (\<lambda>(key, cols). key @ row_cells (map length hss) cols) rows" unfolding n .
  moreover have "cs = row_cells (map length hss) cols"
    using save_blocks_Inr [OF b(1) l] unfolding map2_save_cells by blast
  ultimately show ?case by (simp only: d list.map prod.case)
qed simp

lemma save_rows_headers:
  "save_rows hss rows = Inr (hss', data) \<Longrightarrow> \<forall>(key, cols) \<in> set rows. length cols = length hss \<Longrightarrow>
     k < length hss \<Longrightarrow> plain p T (hss ! k) \<Longrightarrow> CHR ''-'' \<notin> set p \<Longrightarrow>
     \<forall>(key, cols) \<in> set rows. aligned T (first_samples (cols ! k)) \<Longrightarrow>
     plain p T (hss' ! k) \<and> (\<forall>n. timed p T n (hss ! k) \<longrightarrow> timed p T n (hss' ! k)) \<and>
     (\<forall>(key, cols) \<in> set rows. timed p T (length (first_samples (cols ! k))) (hss' ! k))"
proof (induction hss rows arbitrary: hss' data rule: save_rows.induct)
  case (2 hss key cols rows)
  from "2.prems"(1) obtain hss1 cs data1
    where b: "save_blocks hss cols = Inr (hss1, cs)" "save_rows hss1 rows = Inr (hss', data1)"
    by (auto split: sum.splits prod.splits)
  have l: "length cols = length hss" using "2.prems"(2) by simp
  from save_blocks_length(1) [OF b(1) l] have n: "length hss1 = length hss" by (metis length_map)
  have h: "hss1 ! k = fst (save_cells (hss ! k) (first_samples (cols ! k)))"
    using save_blocks_Inr [OF b(1) l] "2.prems"(3) l by simp
  have al: "aligned T (first_samples (cols ! k))" using "2.prems"(6) by simp
  note s = save_headers [OF "2.prems"(4) al "2.prems"(5), folded h]
  have "\<forall>(key, cols) \<in> set rows. length cols = length hss1"
    "\<forall>(key, cols) \<in> set rows. aligned T (first_samples (cols ! k))"
    using "2.prems"(2, 6) n by auto
  from "2.IH" [OF b(1) refl b(2) this(1) _ s(1) "2.prems"(5) this(2)] "2.prems"(3) n s(2, 3)
  show ?case by auto
qed auto

lemma max_lens_ge:
  "\<forall>cols \<in> set rows. length cols = length lens \<Longrightarrow> k < length lens \<Longrightarrow>
     lens ! k \<le> max_lens rows lens ! k \<and>
     (\<forall>cols \<in> set rows. first_len (cols ! k) \<le> max_lens rows lens ! k)"
proof (induction rows arbitrary: lens)
  case (Cons cols rows)
  define lens1 where "lens1 = map2 (\<lambda>m xs. if m < first_len xs then first_len xs else m) lens cols"
  have l: "length cols = length lens" using Cons.prems(1) by simp
  have m: "max_lens (cols # rows) lens = max_lens rows lens1"
    by (simp add: max_lens_def lens1_def)
  have "lens ! k \<le> lens1 ! k" "first_len (cols ! k) \<le> lens1 ! k"
    using l Cons.prems(2) by (simp_all add: lens1_def)
  moreover have "length lens1 = length lens" using l by (simp add: lens1_def)
  with Cons.IH [of lens1] Cons.prems
  have "lens1 ! k \<le> max_lens rows lens1 ! k \<and>
      (\<forall>cols \<in> set rows. first_len (cols ! k) \<le> max_lens rows lens1 ! k)" by simp
  ultimately show ?case unfolding m by auto
qed (simp add: max_lens_def)

fun starts :: "nat \<Rightarrow> string list list \<Rightarrow> (string list \<times> nat) list" where
  "starts j [] = []"
| "starts j (hs # hss) = (hs, j) # starts (j + length hs) hss"

lemma load_blocks_starts:
  "length cols = length hss \<Longrightarrow>
   \<forall>k < length hss. length (first_samples (cols ! k)) \<le> length (hss ! k) \<and>
     (\<forall>i < length (first_samples (cols ! k)).
        header_time (hss ! k ! i) = Timestamp (first_samples (cols ! k) ! i)) \<Longrightarrow>
   load_blocks (starts (length pre) hss) (pre @ row_cells (map length hss) cols) =
     Inr (map (\<lambda>xs. requantize (first_samples xs)) cols)"
proof (induction hss arbitrary: cols pre)
  case (Cons hs hss)
  then obtain xs cols' where c: "cols = xs # cols'" by (cases cols) auto
  define cs where "cs = cells (length hs) (first_samples xs)"
  have 0: "length (first_samples xs) \<le> length hs"
    "\<forall>i < length (first_samples xs). header_time (hs ! i) = Timestamp (first_samples xs ! i)"
    using Cons.prems(2) c by (auto dest: spec [of _ 0])
  have "load_block hs (pre @ cs @ row_cells (map length hss) cols') (length pre) =
      Inr (requantize (first_samples xs))"
    unfolding cs_def by (rule load_block_cells [OF 0(2, 1)])
  moreover have "load_blocks (starts (length (pre @ cs)) hss) ((pre @ cs) @ row_cells (map length hss) cols') =
      Inr (map (\<lambda>xs. requantize (first_samples xs)) cols')"
  proof (rule Cons.IH)
    show "length cols' = length hss" using Cons.prems(1) c by simp
    show "\<forall>k < length hss. length (first_samples (cols' ! k)) \<le> length (hss ! k) \<and>
        (\<forall>i < length (first_samples (cols' ! k)).
          header_time (hss ! k ! i) = Timestamp (first_samples (cols' ! k) ! i))"
      using Cons.prems(2) c by (auto dest: spec [of _ "Suc _"])
  qed
  ultimately show ?case by (simp add: c cs_def)
qed simp

definition plains :: "string list \<Rightarrow> string list list \<Rightarrow> bool" where
  "plains ps hss = list_all2 (\<lambda>p hs. CHR ''-'' \<notin> set p \<and> (\<exists>T. plain p T hs)) ps hss"

lemma columns_of_append: "columns_of (xs @ ys) q = columns_of xs q @ columns_of ys q"
  by (simp add: columns_of_def)

lemma columns_other:
  "plains ps hss \<Longrightarrow> q \<notin> set ps \<Longrightarrow> CHR ''-'' \<notin> set q \<Longrightarrow> columns_of (concat hss) q = []"
  unfolding plains_def
  by (induction rule: list_all2_induct)
     (auto simp: columns_of_append columns_plain, simp add: columns_of_def)

lemma columns_each:
  "plains ps hss \<Longrightarrow> distinct ps \<Longrightarrow> map (columns_of (concat hss)) ps = hss"
  unfolding plains_def
proof (induction rule: list_all2_induct)
  case (Cons p ps hs hss)
  then obtain T where p: "plain p T hs" "CHR ''-'' \<notin> set p" by blast
  have "columns_of hs q = [] \<and> q \<noteq> p" if "q \<in> set ps" for q
  proof -
    have "CHR ''-'' \<notin> set q"
      using Cons.hyps(2) that by (auto simp: list_all2_conv_all_nth in_set_conv_nth)
    with columns_plain [OF p this] that Cons.prems show ?thesis by auto
  qed
  then have "map (columns_of (concat (hs # hss))) ps = map (columns_of (concat hss)) ps"
    by (simp add: columns_of_append)
  also have "\<dots> = hss" using Cons.IH Cons.prems by simp
  finally have tail: "map (columns_of (concat (hs # hss))) ps = hss" .
  have "columns_of (concat hss) p = []"
    using columns_other [of ps hss p] Cons.hyps(2) Cons.prems p(2) by (simp add: plains_def)
  then have "columns_of (concat (hs # hss)) p = hs"
    using columns_plain [OF p p(2)] by (simp add: columns_of_append)
  with tail show ?case by (simp only: list.map)
qed simp

section \<open>Saving and loading containers\<close>

definition flat ::
    "container_cache \<Rightarrow> ((string \<times> string \<times> string \<times> string) \<times> RawContainerTimeSeriesData) list" where
  "flat cache = concat (map (\<lambda>(kind, ws). concat (map (\<lambda>((ns, name), cs).
     map (\<lambda>(c, d). ((kind, ns, name, c), d)) cs) ws)) cache)"

lemma container_entries_flat:
  "container_entries cache =
     map (\<lambda>((k, ns, n, c), d). ([k, ns, n, c], container_columns d)) (flat cache)"
  by (simp add: container_entries_def flat_def map_concat split_def comp_def)

definition reload :: "RawContainerTimeSeriesData \<Rightarrow> RawContainerTimeSeriesData" where
  "reload d = \<lparr>Cpu = one_series (requantize (first_samples (Cpu d))),
     Mem = one_series (requantize (first_samples (Mem d))),
     CpuRequests = one_series (requantize (first_samples (CpuRequests d))),
     MemRequests = one_series (requantize (first_samples (MemRequests d))),
     CpuLimits = one_series (requantize (first_samples (CpuLimits d))),
     MemLimits = one_series (requantize (first_samples (MemLimits d)))\<rparr>"

definition lookup3 ::
    "('k, ('n, ('c, 'd) gomap) gomap) gomap \<Rightarrow> 'k \<Rightarrow> 'n \<Rightarrow> 'c \<Rightarrow> 'd option" where
  "lookup3 m k n c = (case mget m k of None \<Rightarrow> None | Some ws \<Rightarrow>
     (case mget ws n of None \<Rightarrow> None | Some cs \<Rightarrow> mget cs c))"

lemma lookup3_put3:
  "lookup3 (put3 k n c d m) k' n' c' =
     (if k' = k \<and> n' = n \<and> c' = c then Some d else lookup3 m k' n' c')"
  by (auto simp: lookup3_def put3_def Let_def mget_default_def split: option.splits)

text \<open>
  Samples at one index of a column have one timestamp in every container: what range queries
  with one range and step return.
\<close>

definition aligned_cache :: "(nat \<Rightarrow> nat \<Rightarrow> int) \<Rightarrow> container_cache \<Rightarrow> bool" where
  "aligned_cache T cache \<longleftrightarrow> (\<forall>(key, d) \<in> set (flat cache). \<forall>k < 6.
     aligned (T k) (first_samples (container_columns d ! k)))"

lemma container_blocks_starts: "length hss = 6 \<Longrightarrow> container_blocks hss = starts 0 hss"
  by (auto simp: container_blocks_def Let_def numeral_eq_Suc length_Suc_conv)

lemma container_prefixes_facts:
  "distinct container_prefixes" "length container_prefixes = 6"
  "\<forall>p \<in> set container_prefixes. CHR ''-'' \<notin> set p"
  by (simp_all add: container_prefixes_def)

lemma load_saved_row:
  assumes hss: "length hss = 6"
    and ok: "\<forall>k < 6. length (first_samples (container_columns d ! k)) \<le> length (hss ! k) \<and>
      (\<forall>i < length (first_samples (container_columns d ! k)).
        header_time (hss ! k ! i) = Timestamp (first_samples (container_columns d ! k) ! i))"
  shows "load_container_row hss ([k, ns, n, c] @ row_cells (map length hss) (container_columns d)) =
    Inr (reload d)"
proof -
  have "length (container_columns d) = length hss" using hss by (simp add: container_columns_def)
  from load_blocks_starts [OF this, of "[]"] ok hss
  have "load_blocks (starts 0 hss) (row_cells (map length hss) (container_columns d)) =
      Inr (map (\<lambda>xs. requantize (first_samples xs)) (container_columns d))" by simp
  then show ?thesis
    by (simp add: load_container_row_def container_blocks_starts [OF hss] container_columns_def
        reload_def)
qed

lemma container_keys_columns: "p \<in> set container_prefixes \<Longrightarrow> columns_of container_keys p = []"
  by (auto simp: container_prefixes_def columns_of_def container_keys_def)

definition times_ok :: "(nat \<Rightarrow> nat \<Rightarrow> int) \<Rightarrow> bool" where
  "times_ok T \<longleftrightarrow> (\<forall>k i. 0 \<le> T k i \<and> T k i < 2^63)"

lemma header_time_timed:
  assumes "timed p (T k) n hs" "aligned (T k) ss" "CHR ''-'' \<notin> set p" "times_ok T"
    and "i < length ss" "length ss \<le> n" "i < length hs"
  shows "header_time (hs ! i) = Timestamp (ss ! i)"
  using assms header_time_hdr [of p "int i" "T k i"]
  by (simp add: timed_def aligned_def times_ok_def)

lemma saved_container:
  assumes "ContainerDataCheckpoint cache = Inr t" "aligned_cache T cache" "times_ok T"
  obtains hss where "length hss = 6"
    "t = (container_keys @ concat hss) # map (\<lambda>((k, ns, n, c), d).
       [k, ns, n, c] @ row_cells (map length hss) (container_columns d)) (flat cache)"
    "map (columns_of (container_keys @ concat hss)) container_prefixes = hss"
    "\<forall>(key, d) \<in> set (flat cache). \<forall>k < 6.
       length (first_samples (container_columns d ! k)) \<le> length (hss ! k) \<and>
       (\<forall>i < length (first_samples (container_columns d ! k)).
          header_time (hss ! k ! i) = Timestamp (first_samples (container_columns d ! k) ! i))"
proof -
  define rows where "rows = container_entries cache"
  define lens where "lens = max_lens (map snd rows) (map (\<lambda>p. 0) container_prefixes)"
  note cp = container_prefixes_facts
  have shape: "\<forall>(key, cols) \<in> set rows. length cols = length container_prefixes"
    using container_entries_shape cp(2) by (auto simp: rows_def)
  have l: "length lens = 6"
    unfolding lens_def using shape cp(2) by (subst length_max_lens) auto
  from save_table_Inr [OF _ shape] assms(1) obtain hss data where
    t: "t = (container_keys @ concat hss) # data"
    and r: "save_rows (map2 numbered container_prefixes lens) rows = Inr (hss, data)"
    and h: "map length hss = lens"
    unfolding lens_def ContainerDataCheckpoint_def rows_def by blast
  have n: "map length (map2 numbered container_prefixes lens) = lens"
    using l cp(2) by (auto simp: list_eq_iff_nth_eq)
  have shape': "\<forall>(key, cols) \<in> set rows. length cols = length (map2 numbered container_prefixes lens)"
    using shape l cp(2) by auto
  have hss6: "length hss = 6" using h l by (metis length_map)
  have d: "data = map (\<lambda>((k, ns, n, c), d). [k, ns, n, c] @
      row_cells (map length hss) (container_columns d)) (flat cache)"
    using save_rows_data [OF r shape'] unfolding n h rows_def container_entries_flat
    by (simp add: split_def comp_def)
  have al: "\<forall>(key, cols) \<in> set rows. aligned (T k) (first_samples (cols ! k))" if "k < 6" for k
    using assms(2) that unfolding aligned_cache_def rows_def container_entries_flat by fastforce
  have col: "plain (container_prefixes ! k) (T k) (hss ! k) \<and>
      (\<forall>(key, cols) \<in> set rows. timed (container_prefixes ! k) (T k)
         (length (first_samples (cols ! k))) (hss ! k))" if k: "k < 6" for k
  proof -
    have "plain (container_prefixes ! k) (T k) (map2 numbered container_prefixes lens ! k)"
      using k l cp(2) by (simp add: plain_numbered)
    moreover have "CHR ''-'' \<notin> set (container_prefixes ! k)" using cp(2, 3) k by simp
    ultimately show ?thesis
      using save_rows_headers [OF r shape' _ _ _ al [OF k]] k l cp(2) by simp
  qed
  have "plains container_prefixes hss"
    unfolding plains_def list_all2_conv_all_nth using col cp(2, 3) hss6 by auto
  then have cols: "map (columns_of (container_keys @ concat hss)) container_prefixes = hss"
    using columns_each [OF _ cp(1), of hss] container_keys_columns
    by (simp add: columns_of_append cong: map_cong)
  have "\<forall>(key, d) \<in> set (flat cache). \<forall>k < 6.
       length (first_samples (container_columns d ! k)) \<le> length (hss ! k) \<and>
       (\<forall>i < length (first_samples (container_columns d ! k)).
          header_time (hss ! k ! i) = Timestamp (first_samples (container_columns d ! k) ! i))"
  proof (clarify, intro conjI allI impI)
    fix k ns n c d j assume e: "((k, ns, n, c), d) \<in> set (flat cache)" and j: "j < (6::nat)"
    let ?ss = "first_samples (container_columns d ! j)"
    have row: "([k, ns, n, c], container_columns d) \<in> set rows"
      using e unfolding rows_def container_entries_flat by force
    then have m: "container_columns d \<in> set (map snd rows)" by force
    have "\<forall>cols \<in> set (map snd rows). length cols = length (map (\<lambda>p. 0 :: nat) container_prefixes)"
      using shape by auto
    from max_lens_ge [OF this, of j] j cp(2) m have "first_len (container_columns d ! j) \<le> lens ! j"
      unfolding lens_def by auto
    moreover have "length (hss ! j) = lens ! j" using h hss6 j by (metis nth_map)
    ultimately show le: "length ?ss \<le> length (hss ! j)" by (simp add: first_len_samples)
    fix i assume i: "i < length ?ss"
    have "timed (container_prefixes ! j) (T j) (length ?ss) (hss ! j)"
      using col [OF j] row by fastforce
    then show "header_time (hss ! j ! i) = Timestamp (?ss ! i)"
      using header_time_timed [of _ T j _ "hss ! j" ?ss i] al [OF j] row assms(3) i le cp(2, 3) j
      by fastforce
  qed
  from that [OF hss6 _ cols this] t d show thesis by simp
qed

lemma load_saved_rows:
  "length hss = 6 \<Longrightarrow> distinct (map fst fl) \<Longrightarrow>
   \<forall>(key, d) \<in> set fl. \<forall>k < 6.
       length (first_samples (container_columns d ! k)) \<le> length (hss ! k) \<and>
       (\<forall>i < length (first_samples (container_columns d ! k)).
          header_time (hss ! k ! i) = Timestamp (first_samples (container_columns d ! k) ! i)) \<Longrightarrow>
   \<exists>m'. load_container_rows hss (map (\<lambda>((k, ns, n, c), d).
       [k, ns, n, c] @ row_cells (map length hss) (container_columns d)) fl) m = Inr m' \<and>
     (\<forall>k ns n c. lookup3 m' k (ns, n) c = (case map_of fl (k, ns, n, c) of
        Some d \<Rightarrow> Some (reload d) | None \<Rightarrow> lookup3 m k (ns, n) c))"
proof (induction fl arbitrary: m)
  case (Cons e fl)
  obtain k ns n c d where e: "e = ((k, ns, n, c), d)" by (metis prod.exhaust)
  have row: "load_container_row hss ([k, ns, n, c] @ row_cells (map length hss) (container_columns d))
      = Inr (reload d)"
    by (rule load_saved_row [OF Cons.prems(1)]) (use Cons.prems(3) e in auto)
  define m1 where "m1 = put3 k (ns, n) c (reload d) m"
  from Cons.IH [of m1] Cons.prems obtain m' where
    m': "load_container_rows hss (map (\<lambda>((k, ns, n, c), d).
        [k, ns, n, c] @ row_cells (map length hss) (container_columns d)) fl) m1 = Inr m'"
    and look: "\<forall>k ns n c. lookup3 m' k (ns, n) c = (case map_of fl (k, ns, n, c) of
        Some d \<Rightarrow> Some (reload d) | None \<Rightarrow> lookup3 m1 k (ns, n) c)" by auto
  have "map_of fl (k, ns, n, c) = None"
    using Cons.prems(2) e by (auto simp: map_of_eq_None_iff)
  with look have "\<forall>k' ns' n' c'. lookup3 m' k' (ns', n') c' = (case map_of (e # fl) (k', ns', n', c') of
      Some d \<Rightarrow> Some (reload d) | None \<Rightarrow> lookup3 m k' (ns', n') c')"
    by (auto simp: e m1_def lookup3_put3 split: option.split)
  with m' row show ?case by (simp add: e m1_def)
qed simp

lemma lookup3_Nil [simp]: "lookup3 [] k n c = None"
  by (simp add: lookup3_def)

lemma sum_list_pos: "k < length xs \<Longrightarrow> 0 < xs ! k \<Longrightarrow> 0 < sum_list (xs :: nat list)"
  using elem_le_sum_list [of k xs] by simp

lemma container_reload:
  assumes "ContainerDataCheckpoint cache = Inr t"
    and "aligned_cache T cache" "times_ok T" "distinct (map fst (flat cache))"
    and "\<exists>(key, d) \<in> set (flat cache). \<exists>k < 6. first_samples (container_columns d ! k) \<noteq> []"
  shows "\<exists>m. LoadContainerTimeSeriesDataFromCheckpoint (Some t) = Inr m \<and>
    (\<forall>k ns n c. lookup3 m k (ns, n) c = map_option reload (map_of (flat cache) (k, ns, n, c)))"
proof -
  from saved_container [OF assms(1-3)] obtain hss where hss: "length hss = 6"
    and t: "t = (container_keys @ concat hss) # map (\<lambda>((k, ns, n, c), d).
       [k, ns, n, c] @ row_cells (map length hss) (container_columns d)) (flat cache)"
    and cols: "map (columns_of (container_keys @ concat hss)) container_prefixes = hss"
    and ok: "\<forall>(key, d) \<in> set (flat cache). \<forall>k < 6.
       length (first_samples (container_columns d ! k)) \<le> length (hss ! k) \<and>
       (\<forall>i < length (first_samples (container_columns d ! k)).
          header_time (hss ! k ! i) = Timestamp (first_samples (container_columns d ! k) ! i))"
    by blast
  have "\<forall>(key, cols) \<in> set (container_entries cache).
      length cols = length container_prefixes \<and> length key = length container_keys"
    using container_entries_shape container_prefixes_facts(2)
    by (fastforce simp: container_keys_def)
  from save_table_rectangular [OF _ this] assms(1) have "read_all t = Inr t"
    by (simp add: ContainerDataCheckpoint_def)
  moreover have "\<not> length (container_keys @ concat hss) \<le> 4"
  proof -
    from assms(5) obtain key d k where k: "(key, d) \<in> set (flat cache)" "k < 6"
      "first_samples (container_columns d ! k) \<noteq> []" by auto
    with ok have "0 < length (hss ! k)" by fastforce
    then have "0 < sum_list (map length hss)" using k(2) hss by (intro sum_list_pos [of k]) simp_all
    then show ?thesis by (simp only: container_keys_def length_append length_concat list.size)
  qed
  moreover from load_saved_rows [OF hss assms(4) ok, of "[]"] obtain m where
    m: "load_container_rows hss (map (\<lambda>((k, ns, n, c), d).
       [k, ns, n, c] @ row_cells (map length hss) (container_columns d)) (flat cache)) [] = Inr m"
    and look: "\<forall>k ns n c. lookup3 m k (ns, n) c = (case map_of (flat cache) (k, ns, n, c) of
        Some d \<Rightarrow> Some (reload d) | None \<Rightarrow> lookup3 [] k (ns, n) c)" by blast
  ultimately have "LoadContainerTimeSeriesDataFromCheckpoint (Some t) = Inr m"
    unfolding LoadContainerTimeSeriesDataFromCheckpoint_def by (simp add: t cols)
  moreover from look have
    "\<forall>k ns n c. lookup3 m k (ns, n) c = map_option reload (map_of (flat cache) (k, ns, n, c))"
    by (simp split: option.split)
  ultimately show ?thesis by blast
qed

text \<open>
  A checkpoint of the containers that is written and read again has an entry for exactly the
  containers that were saved, and the first series of each of the six columns comes back with
  its timestamps, each value being what its five decimals parse to. This holds when the samples
  at one index of a column have one timestamp in every container.
\<close>

theorem container_checkpoint_roundtrip:
  assumes "ContainerDataCheckpoint cache = Inr t"
    and "aligned_cache T cache" "times_ok T" "distinct (map fst (flat cache))"
    and "\<exists>(key, d) \<in> set (flat cache). \<exists>k < 6. first_samples (container_columns d ! k) \<noteq> []"
  shows "\<exists>m. LoadContainerTimeSeriesDataFromCheckpoint (Some t) = Inr m \<and>
    (\<forall>k ns n c. lookup3 m k (ns, n) c = map_option reload (map_of (flat cache) (k, ns, n, c)))"
  by (rule container_reload [OF assms])

definition example_data :: "int list \<Rightarrow> int \<Rightarrow> RawContainerTimeSeriesData" where
  "example_data ts x = (let xs = [Some (example_series ts (lit x 10))]
     in \<lparr>Cpu = xs, Mem = xs, CpuRequests = [], MemRequests = [], CpuLimits = [], MemLimits = []\<rparr>)"

definition example_cache :: container_cache where
  "example_cache = [(''Deployment'', [((''ns'', ''web''), [(''main'', example_data [60, 120] 5)])])]"

lemma flat_example:
  "flat example_cache = [((''Deployment'', ''ns'', ''web'', ''main''), example_data [60, 120] 5)]"
  by (simp add: flat_def example_cache_def)

lemma less_6: "(k::nat) < 6 \<longleftrightarrow> k = 0 \<or> k = 1 \<or> k = 2 \<or> k = 3 \<or> k = 4 \<or> k = 5"
  by auto

lemma example_cache_facts:
  "aligned_cache (\<lambda>k i. if i = 0 then 60 else 120) example_cache"
  "times_ok (\<lambda>k i. if i = 0 then 60 else 120)"
  "distinct (map fst (flat example_cache))"
  "\<exists>(key, d) \<in> set (flat example_cache). \<exists>k < 6. first_samples (container_columns d ! k) \<noteq> []"
proof -
  show "aligned_cache (\<lambda>k i. if i = 0 then 60 else 120) example_cache"
    by (simp add: aligned_cache_def flat_example aligned_def example_data_def Let_def container_columns_def
        first_samples_def example_series_def less_6 nth_Cons' less_Suc_eq)
  show "\<exists>(key, d) \<in> set (flat example_cache). \<exists>k < 6. first_samples (container_columns d ! k) \<noteq> []"
    by (simp add: flat_example example_data_def Let_def container_columns_def first_samples_def
        example_series_def, rule exI [of _ 0], simp)
qed (simp_all add: times_ok_def flat_example)

theorem container_checkpoint_roundtrip_witness:
  "\<exists>t m. ContainerDataCheckpoint example_cache = Inr t \<and>
     LoadContainerTimeSeriesDataFromCheckpoint (Some t) = Inr m \<and>
     lookup3 m ''Deployment'' (''ns'', ''web'') ''main'' = Some (reload (example_data [60, 120] 5))"
proof -
  have "\<not> isl (ContainerDataCheckpoint example_cache)" by code_simp
  then obtain t where t: "ContainerDataCheckpoint example_cache = Inr t"
    by (cases "ContainerDataCheckpoint example_cache") simp_all
  from container_checkpoint_roundtrip [OF t example_cache_facts] t
  show ?thesis by (auto simp: flat_example)
qed

text \<open>
  The file has one timestamp for each index of a column, that of the last container written with a sample there. Of
  two containers with samples at different times the first is read with the times of the second.
\<close>

definition unaligned_cache :: container_cache where
  "unaligned_cache = [(''Deployment'', [((''ns'', ''web''),
     [(''main'', example_data [60] 5), (''side'', example_data [90] 7)])])]"

theorem unaligned_times_move:
  "\<exists>t m. ContainerDataCheckpoint unaligned_cache = Inr t \<and>
     LoadContainerTimeSeriesDataFromCheckpoint (Some t) = Inr m \<and>
     lookup3 m ''Deployment'' (''ns'', ''web'') ''main'' = Some (reload (example_data [90] 5))"
proof -
  have "case ContainerDataCheckpoint unaligned_cache of Inl e \<Rightarrow> False
    | Inr t \<Rightarrow> (case LoadContainerTimeSeriesDataFromCheckpoint (Some t) of Inl e \<Rightarrow> False
      | Inr m \<Rightarrow> lookup3 m ''Deployment'' (''ns'', ''web'') ''main'' = Some (reload (example_data [90] 5)))"
    by code_simp
  then show ?thesis by (auto split: sum.splits)
qed

text \<open>
  Every record that a checkpoint writes has as many fields as the header, so that the reader
  accepts the file, and there is one record for each container or workload.
\<close>

theorem checkpoints_rectangular:
  "(ContainerDataCheckpoint cache = Inr t \<longrightarrow>
      read_all t = Inr t \<and> length t = Suc (length (container_entries cache))) \<and>
   (workloadTimeSeriesDataCheckpoint wcache = Inr u \<longrightarrow>
      read_all u = Inr u \<and> length u = Suc (length (workload_entries wcache)))"
proof (intro conjI impI)
  assume "ContainerDataCheckpoint cache = Inr t"
  then show "read_all t = Inr t" "length t = Suc (length (container_entries cache))"
    using save_table_rectangular [of container_keys container_prefixes "container_entries cache" t]
      container_entries_shape container_prefixes_facts(2)
    by (fastforce simp: ContainerDataCheckpoint_def container_keys_def)+
next
  assume "workloadTimeSeriesDataCheckpoint wcache = Inr u"
  then show "read_all u = Inr u" "length u = Suc (length (workload_entries wcache))"
    using save_table_rectangular [of "[''Kind'', ''Namespace'', ''Name'']" workload_prefixes
        "workload_entries wcache" u]
      workload_entries_shape container_prefixes_facts(2)
    by (fastforce simp: workloadTimeSeriesDataCheckpoint_def workload_prefixes_def)+
qed

theorem checkpoints_rectangular_witness:
  "\<exists>t u. read_all t = Inr t \<and> length t = Suc (length (container_entries example_cache)) \<and>
     read_all u = Inr u \<and> length u = Suc (length (workload_entries []))"
proof -
  have "\<not> isl (ContainerDataCheckpoint example_cache)" by code_simp
  then obtain t where t: "ContainerDataCheckpoint example_cache = Inr t"
    by (cases "ContainerDataCheckpoint example_cache") simp_all
  have "\<not> isl (workloadTimeSeriesDataCheckpoint [])" by code_simp
  then obtain u where u: "workloadTimeSeriesDataCheckpoint [] = Inr u"
    by (cases "workloadTimeSeriesDataCheckpoint []") simp_all
  from checkpoints_rectangular [of example_cache t "[]" u] t u show ?thesis by blast
qed

section \<open>The workload loader reads the wrong columns\<close>

lemma load_block_at:
  assumes "row = pre @ cells n ss @ post" "j = length pre" "length hs = n" "length ss = n"
    and "\<forall>i < n. header_time (hs ! i) = T i" "\<forall>i < n. Timestamp (ss ! i) = T i"
  shows "load_block hs row j = Inr (requantize ss)"
  using load_block_cells [of ss hs pre post] assms by simp

text \<open>
  C15. A workload row whose seven columns have the same number of samples at the same times is
  read back with its CPU and memory usage and requests right, but the CPU limits come back as
  the memory requests, the memory limits as the CPU limits and the replicas as the memory limits.
\<close>

theorem workload_limits_misread:
  assumes "length hss = 7" "\<forall>hs \<in> set hss. length hs = n \<and> (\<forall>i < n. header_time (hs ! i) = T i)"
    and "\<forall>xs \<in> set (workload_columns d). length (first_samples xs) = n \<and>
      (\<forall>i < n. Timestamp (first_samples xs ! i) = T i)"
    and "length key = 3"
  shows "load_workload_row hss (key @ row_cells (map length hss) (workload_columns d)) =
    Inr \<lparr>Cpu = one_series (requantize (first_samples (Cpu d))),
      Mem = one_series (requantize (first_samples (Mem d))),
      CpuRequests = one_series (requantize (first_samples (CpuRequests d))),
      MemRequests = one_series (requantize (first_samples (MemRequests d))),
      CpuLimits = one_series (requantize (first_samples (MemRequests d))),
      MemLimits = one_series (requantize (first_samples (CpuLimits d))),
      Replicas = one_series (requantize (first_samples (MemLimits d)))\<rparr>"
proof -
  from assms(1) obtain h0 h1 h2 h3 h4 h5 h6 where hss: "hss = [h0, h1, h2, h3, h4, h5, h6]"
    by (auto simp: numeral_eq_Suc length_Suc_conv)
  define c where "c = (\<lambda>xs. cells n (first_samples xs))"
  define row where "row = c (Cpu d) @ c (Mem d) @ c (CpuRequests d) @ c (MemRequests d) @
    c (CpuLimits d) @ c (MemLimits d) @ c (Replicas d)"
  have len: "length (c xs) = n" for xs by (simp add: c_def)
  have row: "drop 3 (key @ row_cells (map length hss) (workload_columns d)) = row"
    using assms(2, 4) by (simp add: hss row_def c_def workload_columns_def)
  have hs: "length h = n" "\<forall>i < n. header_time (h ! i) = T i" if "h \<in> set hss" for h
    using that assms(2) by auto
  have ss: "length (first_samples xs) = n" "\<forall>i < n. Timestamp (first_samples xs ! i) = T i"
    if "xs \<in> set (workload_columns d)" for xs using that assms(3) by auto
  note at = load_block_at [of row, OF _ _ hs(1) ss(1) hs(2) ss(2)]
  have "load_block h0 row 0 = Inr (requantize (first_samples (Cpu d)))"
    by (rule at [where pre = "[]"]) (auto simp: row_def c_def hss workload_columns_def)
  moreover have "load_block h1 row n = Inr (requantize (first_samples (Mem d)))"
    by (rule at [where pre = "c (Cpu d)"]) (auto simp: row_def c_def hss workload_columns_def)
  moreover have "load_block h2 row (n + n) = Inr (requantize (first_samples (CpuRequests d)))"
    by (rule at [where pre = "c (Cpu d) @ c (Mem d)"])
       (auto simp: row_def c_def hss workload_columns_def)
  moreover have "load_block h row (n + n + n) = Inr (requantize (first_samples (MemRequests d)))"
    if "h \<in> set hss" for h
    by (rule at [where pre = "c (Cpu d) @ c (Mem d) @ c (CpuRequests d)"])
       (use that in \<open>auto simp: row_def c_def workload_columns_def\<close>)
  moreover have "load_block h5 row (n + n + n + n) = Inr (requantize (first_samples (CpuLimits d)))"
    by (rule at [where pre = "c (Cpu d) @ c (Mem d) @ c (CpuRequests d) @ c (MemRequests d)"])
       (auto simp: row_def c_def hss workload_columns_def)
  moreover have "load_block h6 row (n + n + n + n + n) =
      Inr (requantize (first_samples (MemLimits d)))"
    by (rule at [where pre = "c (Cpu d) @ c (Mem d) @ c (CpuRequests d) @ c (MemRequests d) @
        c (CpuLimits d)"]) (auto simp: row_def c_def hss workload_columns_def)
  moreover have "length h0 = n" "length h1 = n" "length h2 = n" "length h4 = n" "length h5 = n"
    by (simp_all add: hs(1) hss)
  ultimately show ?thesis
    unfolding load_workload_row_def row
    by (simp add: hss workload_blocks_def Let_def)
qed

definition example_workload :: RawWorkloadTimeSeriesData where
  "example_workload = (let xs = \<lambda>v. [Some (example_series [60] (float_of_int v))]
     in \<lparr>Cpu = xs 1, Mem = xs 2, CpuRequests = xs 3, MemRequests = xs 4, CpuLimits = xs 5,
         MemLimits = xs 6, Replicas = xs 7\<rparr>)"

theorem workload_limits_misread_witness:
  "load_workload_row (map (\<lambda>p. [hdr p 0 (Some 60)]) workload_prefixes)
     ([''Deployment'', ''ns'', ''web''] @
      row_cells (map length (map (\<lambda>p. [hdr p 0 (Some 60)]) workload_prefixes))
        (workload_columns example_workload)) =
   Inr \<lparr>Cpu = one_series (requantize (first_samples (Cpu example_workload))),
     Mem = one_series (requantize (first_samples (Mem example_workload))),
     CpuRequests = one_series (requantize (first_samples (CpuRequests example_workload))),
     MemRequests = one_series (requantize (first_samples (MemRequests example_workload))),
     CpuLimits = one_series (requantize (first_samples (MemRequests example_workload))),
     MemLimits = one_series (requantize (first_samples (CpuLimits example_workload))),
     Replicas = one_series (requantize (first_samples (MemLimits example_workload)))\<rparr>"
proof (rule workload_limits_misread [where n = 1 and T = "\<lambda>i. 60"])
  show "\<forall>hs \<in> set (map (\<lambda>p. [hdr p 0 (Some 60)]) workload_prefixes).
      length hs = 1 \<and> (\<forall>i < 1. header_time (hs ! i) = 60)"
    by (simp add: workload_prefixes_def container_prefixes_def header_time_hdr)
qed (simp_all add: workload_prefixes_def container_prefixes_def workload_columns_def
    example_workload_def Let_def first_samples_def example_series_def)

end
