(* ===== verification/Recommendation.thy ===== *)
theory Recommendation
  imports Resource_Totals Coster Checkpoint
begin

text \<open>
  \<open>GetAllWorkloadRecommendedData\<close> of \<open>pkg/cost-comparator/comparator.go\<close>: from the time series of
  the containers to pods with the recommended resources and their specs as serverless pods; with
  \<open>MergeTimeSeriesList\<close> and \<open>ServerlessWorkloadsResourceTotal\<close>. A nil series panics.
\<close>

type_synonym 'q workload_specs = "(string, (namespaced_name, 'q CloudPodSpec) gomap) gomap"

type_synonym 'q recommendations = "(string, (namespaced_name, 'q WorkloadRecommendedData) gomap) gomap"

section \<open>Merging series\<close>

fun merge_into :: "time_series \<Rightarrow> series_list \<Rightarrow> time_series option" where
  "merge_into acc [] = Some acc"
| "merge_into acc (None # tss) = None"
| "merge_into acc (Some ts # tss) =
     merge_into \<lparr>Labels = Labels acc @ Labels ts, Samples = Samples acc @ Samples ts\<rparr> tss"

definition MergeTimeSeriesList :: "series_list \<Rightarrow> time_series option" where
  "MergeTimeSeriesList tss = merge_into NewTimeSeries tss"

section \<open>A container's recommendation\<close>

text \<open>The limit over the request; for the memory the code takes those of the CPU again.\<close>

definition cpu_ratio :: "'q quantity_ops \<Rightarrow> 'q container \<Rightarrow> float64" where
  "cpu_ratio ops c = (case (Requests c, Limits c) of
     (Some reqs, Some lims) \<Rightarrow>
       (case (mget reqs ''cpu'', mget lims ''cpu'') of
          (Some r, Some l) \<Rightarrow> float_of_int (QMilliValue ops l) / float_of_int (QMilliValue ops r)
        | _ \<Rightarrow> 1)
   | _ \<Rightarrow> 1)"

definition ReqLimRatios :: "'q quantity_ops \<Rightarrow> 'q container \<Rightarrow> float64 \<times> float64" where
  "ReqLimRatios ops c = (cpu_ratio ops c, cpu_ratio ops c)"

definition replace_if :: "string \<Rightarrow> 'v \<Rightarrow> (string, 'v) gomap \<Rightarrow> (string, 'v) gomap" where
  "replace_if k v m = (if mget m k \<noteq> None then mput k v m else m)"

definition set_resources ::
    "'q quantity_ops \<Rightarrow> float64 \<times> float64 \<Rightarrow> float64 \<Rightarrow> float64 \<Rightarrow> 'q container \<Rightarrow> 'q container" where
  "set_resources ops ratios cpu mem c = c
     \<lparr>Requests := Some (cpu_mem (QNewMilli ops (trunc_int64 (cpu * float_of_int 1000)))
        (QNew ops (trunc_int64 mem))),
      Limits := (case Limits c of
        None \<Rightarrow> None
      | Some l \<Rightarrow> Some (replace_if ''memory'' (QNew ops (trunc_int64 (mem * snd ratios)))
          (replace_if ''cpu'' (QNewMilli ops (trunc_int64 (cpu * fst ratios * float_of_int 1000))) l)))\<rparr>"

text \<open>One of the four statistics, of the CPU and of the memory, set in the containers of a name.\<close>

definition recommend ::
    "'q quantity_ops \<Rightarrow> float64 \<times> float64 \<Rightarrow> string \<Rightarrow> float64 option \<Rightarrow> float64 option \<Rightarrow> 'q pod \<Rightarrow> 'q pod" where
  "recommend ops ratios name cpu mem p = (case (cpu, mem) of
     (Some c, Some m) \<Rightarrow> p\<lparr>PodContainers :=
       map (\<lambda>x. if ContainerName x = name then set_resources ops ratios c m x else x) (PodContainers p)\<rparr>
   | _ \<Rightarrow> p)"

record 'q rec_pods =
  RecPod :: "'q pod"
  PertRecPod :: "'q pod"
  MaxRecPod :: "'q pod"
  MaxMarginRecPod :: "'q pod"
  RecStats :: "(string, Statistic \<times> Statistic) gomap"

definition recommend_all ::
    "'q quantity_ops \<Rightarrow> 'q container \<Rightarrow> Statistic \<Rightarrow> Statistic \<Rightarrow> 'q rec_pods \<Rightarrow> 'q rec_pods" where
  "recommend_all ops c cpu mem r =
     (let ratios = ReqLimRatios ops c; name = ContainerName c
      in \<lparr>RecPod = recommend ops ratios name (Recommended cpu) (Recommended mem) (RecPod r),
          PertRecPod = recommend ops ratios name (Percentile cpu) (Percentile mem) (PertRecPod r),
          MaxRecPod = recommend ops ratios name (Max cpu) (Max mem) (MaxRecPod r),
          MaxMarginRecPod = recommend ops ratios name (MaxRecommended cpu) (MaxRecommended mem) (MaxMarginRecPod r),
          RecStats = mput name (cpu, mem) (RecStats r)\<rparr>)"

text \<open>A container without data, or whose series can not be estimated, is left as it is.\<close>

definition rec_container ::
    "'q quantity_ops \<Rightarrow> 'e stats_ops \<Rightarrow> (string, config_value) gomap \<Rightarrow>
     (string, RawContainerTimeSeriesData) gomap option \<Rightarrow> 'q container \<Rightarrow> 'q rec_pods \<Rightarrow>
     cloud_error + 'q rec_pods" where
  "rec_container ops st cfg data c r =
     (case (case data of None \<Rightarrow> None | Some d \<Rightarrow> mget d (ContainerName c)) of
        None \<Rightarrow> Inr r
      | Some raw \<Rightarrow> (case MergeTimeSeriesList (RawContainerTimeSeriesData.Cpu raw) of
          None \<Rightarrow> Inl NilPointer
        | Some cpuTs \<Rightarrow> (case Estimation st cpuTs cfg of
            Inl e \<Rightarrow> Inr r
          | Inr cpu \<Rightarrow> (case MergeTimeSeriesList (RawContainerTimeSeriesData.Mem raw) of
              None \<Rightarrow> Inl NilPointer
            | Some memTs \<Rightarrow> (case Estimation st memTs cfg of
                Inl e \<Rightarrow> Inr r
              | Inr mem \<Rightarrow> Inr (recommend_all ops c cpu mem r))))))"

fun rec_containers ::
    "'q quantity_ops \<Rightarrow> 'e stats_ops \<Rightarrow> (string, config_value) gomap \<Rightarrow>
     (string, RawContainerTimeSeriesData) gomap option \<Rightarrow> 'q container list \<Rightarrow> 'q rec_pods \<Rightarrow>
     cloud_error + 'q rec_pods" where
  "rec_containers ops st cfg data [] r = Inr r"
| "rec_containers ops st cfg data (c # cs) r = (case rec_container ops st cfg data c r of
     Inl e \<Rightarrow> Inl e
   | Inr r' \<Rightarrow> rec_containers ops st cfg data cs r')"

section \<open>All workloads\<close>

text \<open>\<open>Pod2ServerlessSpec\<close> of the cloud, a panic being an error; the pod and the count are set after.\<close>

type_synonym ('q, 'w) spec_fun = "'q pod \<Rightarrow> 'w \<Rightarrow> (cloud_error + 'q CloudPodSpec) \<times> 'w"

definition spec_of ::
    "('q, 'w) spec_fun \<Rightarrow> int \<Rightarrow> 'q pod \<Rightarrow> 'w \<Rightarrow> (cloud_error + 'q CloudPodSpec) \<times> 'w" where
  "spec_of p2s goods p w = (case p2s p w of
     (Inl e, w') \<Rightarrow> (Inl e, w')
   | (Inr s, w') \<Rightarrow> (Inr (s\<lparr>PodRef := p, GoodsNum := goods\<rparr>), w'))"

definition rec_workload ::
    "'q quantity_ops \<Rightarrow> 'e stats_ops \<Rightarrow> (string, config_value) gomap \<Rightarrow> ('q, 'w) spec_fun \<Rightarrow>
     (string, RawContainerTimeSeriesData) gomap option \<Rightarrow> 'q CloudPodSpec \<Rightarrow> 'w \<Rightarrow>
     (cloud_error + 'q WorkloadRecommendedData) \<times> 'w" where
  "rec_workload ops st cfg p2s data workload w =
     (let p = PodRef workload; goods = GoodsNum workload
      in case rec_containers ops st cfg data (PodContainers p)
           \<lparr>RecPod = p, PertRecPod = p, MaxRecPod = p, MaxMarginRecPod = p, RecStats = []\<rparr> of
        Inl e \<Rightarrow> (Inl e, w)
      | Inr r \<Rightarrow> (case spec_of p2s goods (RecPod r) w of
          (Inl e, w) \<Rightarrow> (Inl e, w)
        | (Inr s, w) \<Rightarrow> (case spec_of p2s goods (MaxRecPod r) w of
            (Inl e, w) \<Rightarrow> (Inl e, w)
          | (Inr smax, w) \<Rightarrow> (case spec_of p2s goods (MaxMarginRecPod r) w of
              (Inl e, w) \<Rightarrow> (Inl e, w)
            | (Inr smargin, w) \<Rightarrow> (case spec_of p2s goods (PertRecPod r) w of
                (Inl e, w) \<Rightarrow> (Inl e, w)
              | (Inr spert, w) \<Rightarrow> (Inr \<lparr>RecommendedSpec = s, PercentRecommendedSpec = Some spert,
                  MaxRecommendedSpec = Some smax, MaxMarginRecommendedSpec = Some smargin,
                  RecContainers = RecStats r\<rparr>, w))))))"

fun rec_workloads ::
    "((string, RawContainerTimeSeriesData) gomap option \<Rightarrow> 'q CloudPodSpec \<Rightarrow> 'w \<Rightarrow>
       (cloud_error + 'q WorkloadRecommendedData) \<times> 'w) \<Rightarrow>
     (namespaced_name, (string, RawContainerTimeSeriesData) gomap) gomap option \<Rightarrow>
     (namespaced_name, 'q CloudPodSpec) gomap \<Rightarrow>
     (namespaced_name, 'q WorkloadRecommendedData) gomap \<Rightarrow> 'w \<Rightarrow>
     (cloud_error + (namespaced_name, 'q WorkloadRecommendedData) gomap) \<times> 'w" where
  "rec_workloads f kdata [] acc w = (Inr acc, w)"
| "rec_workloads f kdata ((nn, spec) # rest) acc w =
     (case f (case kdata of None \<Rightarrow> None | Some d \<Rightarrow> mget d nn) spec w of
        (Inl e, w') \<Rightarrow> (Inl e, w')
      | (Inr d, w') \<Rightarrow> rec_workloads f kdata rest (mput nn d acc) w')"

fun rec_kinds ::
    "((string, RawContainerTimeSeriesData) gomap option \<Rightarrow> 'q CloudPodSpec \<Rightarrow> 'w \<Rightarrow>
       (cloud_error + 'q WorkloadRecommendedData) \<times> 'w) \<Rightarrow>
     container_cache \<Rightarrow> 'q workload_specs \<Rightarrow> 'q recommendations \<Rightarrow> 'w \<Rightarrow>
     (cloud_error + 'q recommendations) \<times> 'w" where
  "rec_kinds f data [] acc w = (Inr acc, w)"
| "rec_kinds f data ((kind, specs) # rest) acc w =
     (case rec_workloads f (mget data kind) specs [] w of
        (Inl e, w') \<Rightarrow> (Inl e, w')
      | (Inr ds, w') \<Rightarrow> rec_kinds f data rest (mput kind ds acc) w')"

definition GetAllWorkloadRecommendedData ::
    "'q quantity_ops \<Rightarrow> 'e stats_ops \<Rightarrow> (string, config_value) gomap \<Rightarrow> ('q, 'w) spec_fun \<Rightarrow>
     container_cache \<Rightarrow> 'q workload_specs \<Rightarrow> 'w \<Rightarrow> (cloud_error + 'q recommendations) \<times> 'w" where
  "GetAllWorkloadRecommendedData ops st cfg p2s data specs w =
     rec_kinds (rec_workload ops st cfg p2s) data specs [] w"

section \<open>Totals\<close>

definition ServerlessWorkloadsResourceTotal ::
    "'q quantity_ops \<Rightarrow> 'q recommendations \<Rightarrow> 'q resource_list" where
  "ServerlessWorkloadsResourceTotal ops recs =
     (let specs = map RecommendedSpec (counted recs)
      in cpu_mem (sum_quantities ops (map CloudPodSpec.Cpu specs))
           (sum_quantities ops (map CloudPodSpec.Mem specs)))"

section \<open>What a recommendation keeps and sets\<close>

text \<open>
  A container \<open>c\<close> and the one recommended for it. Without statistics it is the same. With them its requests are the
  recommended CPU and memory, whatever it requested before, and its limits are of the same resources, with those
  other than CPU and memory unchanged.
\<close>

definition recommended_for ::
    "'q quantity_ops \<Rightarrow> (string, Statistic \<times> Statistic) gomap \<Rightarrow> (Statistic \<Rightarrow> float64 option) \<Rightarrow>
     'q container \<Rightarrow> 'q container \<Rightarrow> bool" where
  "recommended_for ops stats sel c d \<longleftrightarrow> ContainerName d = ContainerName c \<and>
     (case mget stats (ContainerName c) of
        None \<Rightarrow> d = c
      | Some (cpu, mem) \<Rightarrow> (\<exists>a b. sel cpu = Some a \<and> sel mem = Some b \<and>
          Requests d = Some [(''cpu'', QNewMilli ops (trunc_int64 (a * float_of_int 1000))),
            (''memory'', QNew ops (trunc_int64 b))]) \<and>
          map_option mkeys (Limits d) = map_option mkeys (Limits c) \<and>
          (\<forall>k. k \<notin> {''cpu'', ''memory''} \<longrightarrow>
             map_option (\<lambda>l. mget l k) (Limits d) = map_option (\<lambda>l. mget l k) (Limits c)))"

text \<open>A pod and the one recommended for it by one of the four statistics: the same in all but its containers.\<close>

definition pod_for ::
    "'q quantity_ops \<Rightarrow> (string, Statistic \<times> Statistic) gomap \<Rightarrow> (Statistic \<Rightarrow> float64 option) \<Rightarrow>
     'q pod \<Rightarrow> 'q pod \<Rightarrow> bool" where
  "pod_for ops stats sel p q \<longleftrightarrow> q = p\<lparr>PodContainers := PodContainers q\<rparr> \<and>
     list_all2 (recommended_for ops stats sel) (PodContainers p) (PodContainers q)"

lemma replace_if_keys [simp]: "mkeys (replace_if k v m) = mkeys m"
proof (cases "mget m k")
  case (Some x)
  then have "k \<in> mkeys m" using mget_None_iff [of m k] by simp
  then show ?thesis by (simp add: replace_if_def Some insert_absorb)
qed (simp add: replace_if_def)

lemma mget_replace_if: "mget (replace_if k v m) j = (if j = k \<and> mget m k \<noteq> None then Some v else mget m j)"
  by (simp add: replace_if_def)

lemma pod_for_start: "pod_for ops [] sel p p"
  by (simp add: pod_for_def list_all2_refl recommended_for_def)

lemma set_resources_for:
  assumes "recommended_for ops stats sel c d" "sel cpu = Some a" "sel mem = Some b"
  shows "recommended_for ops (mput name (cpu, mem) stats) sel c
    (if ContainerName d = name then set_resources ops ratios a b d else d)"
proof (cases "ContainerName c = name")
  case True
  have old: "ContainerName d = ContainerName c" "map_option mkeys (Limits d) = map_option mkeys (Limits c)"
    "k \<notin> {''cpu'', ''memory''} \<Longrightarrow> map_option (\<lambda>l. mget l k) (Limits d) = map_option (\<lambda>l. mget l k) (Limits c)" for k
    using assms(1) by (auto simp: recommended_for_def split: option.splits prod.splits)
  let ?e = "set_resources ops ratios a b d"
  have "map_option mkeys (Limits ?e) = map_option mkeys (Limits d)"
    by (simp add: set_resources_def split: option.split)
  moreover have "map_option (\<lambda>l. mget l k) (Limits ?e) = map_option (\<lambda>l. mget l k) (Limits d)"
    if "k \<notin> {''cpu'', ''memory''}" for k
    using that by (simp add: set_resources_def mget_replace_if split: option.split)
  ultimately show ?thesis
    using True old assms(2,3) by (simp add: recommended_for_def set_resources_def cpu_mem_def)
next
  case False
  with assms(1) show ?thesis by (simp add: recommended_for_def)
qed

lemma recommend_for:
  assumes "pod_for ops stats sel p q" "sel cpu = Some a" "sel mem = Some b"
  shows "pod_for ops (mput name (cpu, mem) stats) sel p (recommend ops ratios name (sel cpu) (sel mem) q)"
proof -
  have "list_all2 (recommended_for ops stats sel) (PodContainers p) (PodContainers q)"
    using assms(1) by (simp add: pod_for_def)
  then have "list_all2 (recommended_for ops (mput name (cpu, mem) stats) sel) (PodContainers p)
      (map (\<lambda>x. if ContainerName x = name then set_resources ops ratios a b x else x) (PodContainers q))"
    unfolding list_all2_map2 by (rule list_all2_mono) (rule set_resources_for [OF _ assms(2,3)])
  moreover have "q = p\<lparr>PodContainers := PodContainers q\<rparr>" using assms(1) by (simp add: pod_for_def)
  ultimately show ?thesis
    unfolding pod_for_def recommend_def by (cases p; cases q) (simp add: assms(2,3))
qed

text \<open>All four pods are those of the statistics so far.\<close>

definition rec_same :: "'q quantity_ops \<Rightarrow> 'q pod \<Rightarrow> 'q rec_pods \<Rightarrow> bool" where
  "rec_same ops p r \<longleftrightarrow> pod_for ops (RecStats r) Recommended p (RecPod r) \<and>
     pod_for ops (RecStats r) Percentile p (PertRecPod r) \<and>
     pod_for ops (RecStats r) Max p (MaxRecPod r) \<and>
     pod_for ops (RecStats r) MaxRecommended p (MaxMarginRecPod r)"

lemma recommend_all_same:
  assumes "rec_same ops p r" "Estimation st ts cfg = Inr cpu" "Estimation st ts' cfg = Inr mem"
  shows "rec_same ops p (recommend_all ops c cpu mem r)"
proof -
  have some: "\<exists>a b. sel cpu = Some a \<and> sel mem = Some b"
    if "sel \<in> {Recommended, Percentile, Max, MaxRecommended}" for sel
    using that Estimation_complete [OF assms(2)] Estimation_complete [OF assms(3)] by auto
  have step: "pod_for ops (mput name (cpu, mem) stats) sel p (recommend ops ratios name (sel cpu) (sel mem) q)"
    if "pod_for ops stats sel p q" "sel \<in> {Recommended, Percentile, Max, MaxRecommended}" for name stats sel ratios q
    using some [OF that(2)] recommend_for [OF that(1)] by blast
  show ?thesis
    using assms(1) by (simp add: rec_same_def recommend_all_def Let_def step)
qed

lemma rec_container_cases:
  assumes "rec_container ops st cfg data c r = Inr r'"
  shows "r' = r \<or> (\<exists>ts ts' cpu mem. Estimation st ts cfg = Inr cpu \<and> Estimation st ts' cfg = Inr mem \<and>
    r' = recommend_all ops c cpu mem r)"
  using assms by (auto simp: rec_container_def split: option.splits sum.splits)

lemma rec_containers_same:
  "rec_same ops p r \<Longrightarrow> rec_containers ops st cfg data cs r = Inr r' \<Longrightarrow> rec_same ops p r'"
proof (induction cs arbitrary: r)
  case (Cons c cs)
  from Cons.prems(2) obtain r1 where r1: "rec_container ops st cfg data c r = Inr r1"
    "rec_containers ops st cfg data cs r1 = Inr r'" by (auto split: sum.splits)
  from rec_container_cases [OF r1(1)] Cons.prems(1) have "rec_same ops p r1"
    by (auto intro: recommend_all_same)
  from Cons.IH [OF this r1(2)] show ?case .
qed simp

lemma spec_of_Inr: "spec_of p2s goods p w = (Inr s, w') \<Longrightarrow> PodRef s = p \<and> GoodsNum s = goods"
  by (auto simp: spec_of_def split: prod.splits sum.splits)

text \<open>What holds of the recommendation of a workload: the four specs, each by its statistic.\<close>

definition fits_workload :: "'q quantity_ops \<Rightarrow> 'q CloudPodSpec \<Rightarrow> 'q WorkloadRecommendedData \<Rightarrow> bool" where
  "fits_workload ops s d \<longleftrightarrow>
     (\<forall>(sel, t) \<in> {(Recommended, Some (RecommendedSpec d)), (Percentile, PercentRecommendedSpec d),
         (Max, MaxRecommendedSpec d), (MaxRecommended, MaxMarginRecommendedSpec d)}.
        \<exists>x. t = Some x \<and> GoodsNum x = GoodsNum s \<and> pod_for ops (RecContainers d) sel (PodRef s) (PodRef x))"

lemma rec_workload_fits:
  assumes "rec_workload ops st cfg p2s data s w = (Inr d, w')"
  shows "fits_workload ops s d"
proof -
  let ?p = "PodRef s"
  from assms obtain r where r: "rec_containers ops st cfg data (PodContainers ?p)
      \<lparr>RecPod = ?p, PertRecPod = ?p, MaxRecPod = ?p, MaxMarginRecPod = ?p, RecStats = []\<rparr> = Inr r"
    by (auto simp: rec_workload_def Let_def split: sum.splits)
  have same: "rec_same ops ?p r"
    by (rule rec_containers_same [OF _ r]) (simp add: rec_same_def pod_for_start)
  from assms r obtain a b c e w1 w2 w3 where
    "spec_of p2s (GoodsNum s) (RecPod r) w = (Inr a, w1)"
    "spec_of p2s (GoodsNum s) (MaxRecPod r) w1 = (Inr b, w2)"
    "spec_of p2s (GoodsNum s) (MaxMarginRecPod r) w2 = (Inr c, w3)"
    "spec_of p2s (GoodsNum s) (PertRecPod r) w3 = (Inr e, w')"
    and d: "d = \<lparr>RecommendedSpec = a, PercentRecommendedSpec = Some e, MaxRecommendedSpec = Some b,
      MaxMarginRecommendedSpec = Some c, RecContainers = RecStats r\<rparr>"
    by (auto simp: rec_workload_def Let_def split: prod.splits sum.splits)
  from this(1-4) [THEN spec_of_Inr] same show ?thesis
    by (simp add: fits_workload_def d rec_same_def)
qed

lemma rec_workloads_get:
  assumes "\<And>data s w d w'. f data s w = (Inr d, w') \<Longrightarrow> fits_workload ops s d"
  shows "rec_workloads f kd ws acc w = (Inr m, w') \<Longrightarrow> wf_map ws \<Longrightarrow>
    (\<forall>nn s. mget ws nn = Some s \<longrightarrow> (\<exists>d. mget m nn = Some d \<and> fits_workload ops s d)) \<and>
    (\<forall>nn. nn \<notin> mkeys ws \<longrightarrow> mget m nn = mget acc nn)"
proof (induction ws arbitrary: acc w)
  case (Cons x ws)
  obtain nn s where x: "x = (nn, s)" by fastforce
  from Cons.prems(1) obtain d w1 where
    d: "f (case kd of None \<Rightarrow> None | Some d \<Rightarrow> mget d nn) s w = (Inr d, w1)"
    and rest: "rec_workloads f kd ws (mput nn d acc) w1 = (Inr m, w')"
    by (auto simp: x split: prod.splits sum.splits)
  have wf: "wf_map ws" "nn \<notin> mkeys ws" using Cons.prems(2) by (simp_all add: x wf_map_def)
  from Cons.IH [OF rest wf(1)] wf(2) assms [OF d] show ?case by (auto simp: x)
qed simp

lemma rec_kinds_get:
  assumes "\<And>data s w d w'. f data s w = (Inr d, w') \<Longrightarrow> fits_workload ops s d"
  shows "rec_kinds f data specs acc w = (Inr m, w') \<Longrightarrow> wf_map specs \<Longrightarrow>
    \<forall>ws \<in> snd ` set specs. wf_map ws \<Longrightarrow>
    (\<forall>kind ws. mget specs kind = Some ws \<longrightarrow> (\<exists>ds. mget m kind = Some ds \<and>
      mkeys ds = mkeys ws \<and>
      (\<forall>nn s. mget ws nn = Some s \<longrightarrow> (\<exists>d. mget ds nn = Some d \<and> fits_workload ops s d)))) \<and>
    (\<forall>kind. kind \<notin> mkeys specs \<longrightarrow> mget m kind = mget acc kind)"
proof (induction specs arbitrary: acc w)
  case (Cons x specs)
  obtain kind ws where x: "x = (kind, ws)" by fastforce
  from Cons.prems(1) obtain ds w1 where
    d: "rec_workloads f (mget data kind) ws [] w = (Inr ds, w1)"
    and rest: "rec_kinds f data specs (mput kind ds acc) w1 = (Inr m, w')"
    by (auto simp: x split: prod.splits sum.splits)
  have wf: "wf_map specs" "kind \<notin> mkeys specs" "wf_map ws" "\<forall>ws \<in> snd ` set specs. wf_map ws"
    using Cons.prems(2, 3) by (simp_all add: x wf_map_def)
  from rec_workloads_get [OF assms d wf(3)] have
    ds: "\<forall>nn s. mget ws nn = Some s \<longrightarrow> (\<exists>d. mget ds nn = Some d \<and> fits_workload ops s d)"
    and keys: "\<forall>nn. nn \<notin> mkeys ws \<longrightarrow> mget ds nn = None" by auto
  have "mkeys ds = mkeys ws"
  proof (rule set_eqI)
    fix nn
    show "nn \<in> mkeys ds \<longleftrightarrow> nn \<in> mkeys ws"
      using ds keys mget_None_iff [of ds nn] mget_None_iff [of ws nn] by (metis option.exhaust option.distinct(1))
  qed
  with Cons.IH [OF rest wf(1, 4)] wf(2) ds show ?case by (auto simp: x)
qed simp

text \<open>
  C17. When the recommendations are made, there is one for each workload of each kind and none
  else. Each has all four specs, all with the workload's own number of replicas, a daemon set's
  too, and of pods that differ from the workload's in their containers' resources only. A container with statistics
  requests exactly the CPU and the memory of the statistic that the spec is named for: what else it requested, such as a
  GPU, is gone, and it requests them even where it requested nothing. Its limits are of the resources
  they were of, those that are not CPU or memory unchanged; a container without statistics is unchanged.
\<close>

theorem recommendations_complete:
  assumes "GetAllWorkloadRecommendedData ops st cfg p2s data specs w = (Inr recs, w')"
    and "wf_map specs" "\<forall>ws \<in> snd ` set specs. wf_map ws"
  shows "mkeys recs = mkeys specs \<and>
    (\<forall>kind ws. mget specs kind = Some ws \<longrightarrow> (\<exists>ds. mget recs kind = Some ds \<and> mkeys ds = mkeys ws \<and>
      (\<forall>nn s. mget ws nn = Some s \<longrightarrow> (\<exists>d. mget ds nn = Some d \<and> fits_workload ops s d))))"
proof -
  have f: "\<And>data s w d w'. rec_workload ops st cfg p2s data s w = (Inr d, w') \<Longrightarrow> fits_workload ops s d"
    by (rule rec_workload_fits)
  from assms(1) have "rec_kinds (rec_workload ops st cfg p2s) data specs [] w = (Inr recs, w')"
    by (simp add: GetAllWorkloadRecommendedData_def)
  from rec_kinds_get [OF f this assms(2, 3)] have
    some: "\<forall>kind ws. mget specs kind = Some ws \<longrightarrow> (\<exists>ds. mget recs kind = Some ds \<and> mkeys ds = mkeys ws \<and>
      (\<forall>nn s. mget ws nn = Some s \<longrightarrow> (\<exists>d. mget ds nn = Some d \<and> fits_workload ops s d)))"
    and none: "\<forall>kind. kind \<notin> mkeys specs \<longrightarrow> mget recs kind = None" by auto
  have "mkeys recs = mkeys specs"
  proof (rule set_eqI)
    fix k
    show "k \<in> mkeys recs \<longleftrightarrow> k \<in> mkeys specs"
      using some none mget_None_iff [of recs k] mget_None_iff [of specs k]
      by (metis option.exhaust option.distinct(1))
  qed
  with some show ?thesis by blast
qed

section \<open>An example\<close>

text \<open>A container of one core and limit two, four of memory and limit four; constant statistics.\<close>

definition example_container :: "nat container" where
  "example_container = \<lparr>ContainerName = ''c'', Requests = Some [(''cpu'', 1), (''memory'', 4)],
     Limits = Some [(''cpu'', 2), (''memory'', 4)]\<rparr>"

definition example_pod :: "nat pod" where
  "example_pod = pending_pod\<lparr>PodContainers := [example_container]\<rparr>"

definition example_spec :: "nat CloudPodSpec" where
  "example_spec = pod_spec nat_ops example_pod ''Burstable'' 7 False ([], [])"

definition const_stats :: "string stats_ops" where
  "const_stats = \<lparr>StatPercentile = (\<lambda>xs p. Inr (lit 8 1)), StatMax = (\<lambda>xs. Inr (lit 16 1))\<rparr>"

definition example_series :: series_list where
  "example_series = [Some \<lparr>Labels = [], Samples = [\<lparr>Timestamp = 1, SValue = lit 8 1\<rparr>]\<rparr>]"

definition example_raw :: RawContainerTimeSeriesData where
  "example_raw = \<lparr>RawContainerTimeSeriesData.Cpu = example_series, Mem = example_series, CpuRequests = [],
     MemRequests = [], CpuLimits = [], MemLimits = []\<rparr>"

definition example_data :: container_cache where
  "example_data = [(''Deployment'', [((''default'', ''web''), [(''c'', example_raw)])])]"

definition example_specs :: "nat workload_specs" where
  "example_specs = [(''Deployment'', [((''default'', ''web''), example_spec)])]"

definition plain_spec :: "nat pod \<Rightarrow> nat \<Rightarrow> (cloud_error + nat CloudPodSpec) \<times> nat" where
  "plain_spec p w = (Inr (pod_spec nat_ops p ''Burstable'' 1 True ([], [])), w + 1)"

definition example_recs :: "nat recommendations" where
  "example_recs = projr (fst (GetAllWorkloadRecommendedData nat_ops const_stats [] plain_spec example_data
     example_specs 0))"

lemma example_recs_eq:
  "GetAllWorkloadRecommendedData nat_ops const_stats [] plain_spec example_data example_specs 0 =
     (Inr example_recs, 4)"
proof -
  have "\<not> isl (fst (GetAllWorkloadRecommendedData nat_ops const_stats [] plain_spec example_data example_specs 0)) \<and>
      snd (GetAllWorkloadRecommendedData nat_ops const_stats [] plain_spec example_data example_specs 0) = 4"
    by code_simp
  then show ?thesis
    by (cases "GetAllWorkloadRecommendedData nat_ops const_stats [] plain_spec example_data example_specs 0")
      (auto simp: example_recs_def isl_def)
qed

theorem recommendations_complete_witness:
  "mkeys example_recs = {''Deployment''} \<and>
   (\<exists>ds d. mget example_recs ''Deployment'' = Some ds \<and> mget ds (''default'', ''web'') = Some d \<and>
      fits_workload nat_ops example_spec d)"
proof -
  have "wf_map example_specs" "\<forall>ws \<in> snd ` set example_specs. wf_map ws"
    by (simp_all add: example_specs_def wf_map_def)
  from recommendations_complete [OF example_recs_eq this]
  have r: "mkeys example_recs = mkeys example_specs" "\<And>kind ws. mget example_specs kind = Some ws \<Longrightarrow>
      \<exists>ds. mget example_recs kind = Some ds \<and> mkeys ds = mkeys ws \<and>
        (\<forall>nn s. mget ws nn = Some s \<longrightarrow> (\<exists>d. mget ds nn = Some d \<and> fits_workload nat_ops s d))"
    by blast+
  have "mget example_specs ''Deployment'' = Some [((''default'', ''web''), example_spec)]"
    "mget [((''default'', ''web''), example_spec)] (''default'', ''web'') = Some example_spec"
    by (simp_all add: example_specs_def)
  with r(2) have "\<exists>ds d. mget example_recs ''Deployment'' = Some ds \<and> mget ds (''default'', ''web'') = Some d \<and>
      fits_workload nat_ops example_spec d" by blast
  with r(1) show ?thesis by (simp add: example_specs_def)
qed

section \<open>The recommended quantities\<close>

text \<open>
  C19. A container whose series can be estimated gets as requests the recommended CPU in thousandths
  and the recommended memory, cut to integers. Its limits, where it had them, are the recommended
  quantities times the ratio of the CPU limit to the CPU request: the memory limit too, on which
  the container's own memory request and limit have no influence.
\<close>

theorem memory_limit_by_cpu_ratio:
  assumes "data = Some ds" "mget ds (ContainerName c) = Some raw"
    and "MergeTimeSeriesList (RawContainerTimeSeriesData.Cpu raw) = Some cpuTs" "Estimation st cpuTs cfg = Inr cpu"
    and "MergeTimeSeriesList (RawContainerTimeSeriesData.Mem raw) = Some memTs" "Estimation st memTs cfg = Inr mem"
    and "c \<in> set (PodContainers (RecPod r))" "Limits c = Some l"
  shows "\<exists>r' d rc rm. rec_container ops st cfg data c r = Inr r' \<and> d \<in> set (PodContainers (RecPod r')) \<and>
    ContainerName d = ContainerName c \<and> Recommended cpu = Some rc \<and> Recommended mem = Some rm \<and>
    Requests d = Some (cpu_mem (QNewMilli ops (trunc_int64 (rc * float_of_int 1000))) (QNew ops (trunc_int64 rm))) \<and>
    (\<exists>l'. Limits d = Some l' \<and> mkeys l' = mkeys l \<and>
      mget l' ''memory'' = map_option (\<lambda>q. QNew ops (trunc_int64 (rm * cpu_ratio ops c))) (mget l ''memory'') \<and>
      mget l' ''cpu'' = map_option (\<lambda>q. QNewMilli ops
        (trunc_int64 (rc * cpu_ratio ops c * float_of_int 1000))) (mget l ''cpu''))"
proof -
  from Estimation_complete [OF assms(4)] Estimation_complete [OF assms(6)] obtain rc rm where
    rec: "Recommended cpu = Some rc" "Recommended mem = Some rm" by auto
  let ?d = "set_resources ops (ReqLimRatios ops c) rc rm c"
  let ?r = "recommend_all ops c cpu mem r"
  have "rec_container ops st cfg data c r = Inr ?r"
    by (simp add: rec_container_def assms(1-6))
  moreover have "?d \<in> set (PodContainers (RecPod ?r))"
    using assms(7) by (force simp: recommend_all_def recommend_def rec Let_def)
  moreover have "\<exists>l'. Limits ?d = Some l' \<and> mkeys l' = mkeys l \<and>
      mget l' ''memory'' = map_option (\<lambda>q. QNew ops (trunc_int64 (rm * cpu_ratio ops c))) (mget l ''memory'') \<and>
      mget l' ''cpu'' = map_option (\<lambda>q. QNewMilli ops
        (trunc_int64 (rc * cpu_ratio ops c * float_of_int 1000))) (mget l ''cpu'')"
    by (cases "mget l ''memory''"; cases "mget l ''cpu''")
      (simp_all add: set_resources_def assms(8) ReqLimRatios_def mget_replace_if)
  moreover have "ContainerName ?d = ContainerName c"
    "Requests ?d = Some (cpu_mem (QNewMilli ops (trunc_int64 (rc * float_of_int 1000))) (QNew ops (trunc_int64 rm)))"
    by (simp_all add: set_resources_def)
  ultimately show ?thesis using rec by blast
qed

definition merged_example :: time_series where
  "merged_example = \<lparr>Labels = [], Samples = [\<lparr>Timestamp = 1, SValue = lit 8 1\<rparr>]\<rparr>"

definition example_start :: "nat rec_pods" where
  "example_start = \<lparr>RecPod = example_pod, PertRecPod = example_pod, MaxRecPod = example_pod,
     MaxMarginRecPod = example_pod, RecStats = []\<rparr>"

definition example_statistic :: Statistic where
  "example_statistic = projr (Estimation const_stats merged_example [])"

theorem memory_limit_by_cpu_ratio_witness:
  "\<exists>r'. rec_container nat_ops const_stats [] (Some [(''c'', example_raw)]) example_container example_start = Inr r'"
proof -
  have m: "MergeTimeSeriesList (RawContainerTimeSeriesData.Cpu example_raw) = Some merged_example"
    "MergeTimeSeriesList (RawContainerTimeSeriesData.Mem example_raw) = Some merged_example"
    by (simp_all add: example_raw_def example_series_def MergeTimeSeriesList_def NewTimeSeries_def merged_example_def)
  have "\<not> isl (Estimation const_stats merged_example [])" by code_simp
  then have e: "Estimation const_stats merged_example [] = Inr example_statistic"
    by (simp add: example_statistic_def)
  have "example_container \<in> set (PodContainers (RecPod example_start))"
    by (simp add: example_start_def example_pod_def)
  from memory_limit_by_cpu_ratio [OF refl _ m(1) e m(2) e this,
      of "[(''c'', example_raw)]" "[(''cpu'', 2), (''memory'', 4)]" nat_ops]
  show ?thesis by (auto simp: example_container_def)
qed

end
