(* ===== verification/Collection.thy ===== *)
theory Collection
  imports Workload_Target Recommendation Metric_Query
begin

text \<open>
  How the \<open>Comparator\<close> of \<open>pkg/cost-comparator/comparator.go\<close> collects what it analyses: the specs of
  the cluster's pods, nodes and workloads, the queries for the usage of containers and workloads,
  and the caches that it fills from a checkpoint or from the data source. The conversion of a pod
  to an unstructured object is a parameter, as are the cloud's specs and the data source's answers.
\<close>

section \<open>Pods and nodes\<close>

fun GetAllPodsSpec ::
    "('q, 'w) spec_fun \<Rightarrow> 'q pod list \<Rightarrow> (string, 'q CloudPodSpec) gomap \<Rightarrow> 'w \<Rightarrow>
     (cloud_error + (string, 'q CloudPodSpec) gomap) \<times> 'w" where
  "GetAllPodsSpec p2s [] m w = (Inr m, w)"
| "GetAllPodsSpec p2s (p # ps) m w = (case p2s p w of
     (Inl e, w') \<Rightarrow> (Inl e, w')
   | (Inr s, w') \<Rightarrow> GetAllPodsSpec p2s ps (mput (KObj p) s m) w')"

definition GetAllNodesSpec ::
    "('q node \<Rightarrow> 'q CloudNodeSpec) \<Rightarrow> 'q node list \<Rightarrow> (string, 'q CloudNodeSpec) gomap" where
  "GetAllNodesSpec n2s nodes = fold (\<lambda>n. mput (NodeName n) (n2s n)) nodes []"

section \<open>Workloads\<close>

text \<open>A spec in the cache of workloads has the workload's object beside the pod's fields.\<close>

record 'q workload_spec = "'q CloudPodSpec" +
  SpecWorkload :: kube_object

type_synonym 'q workloads = "(string, (namespaced_name, 'q workload_spec) gomap) gomap"

definition with_workload :: "'q CloudPodSpec \<Rightarrow> kube_object \<Rightarrow> 'q workload_spec" where
  "with_workload s root = CloudPodSpec.extend s (workload_spec.fields root)"

definition pod_specs :: "'q workloads \<Rightarrow> 'q workload_specs" where
  "pod_specs m = map (\<lambda>(kind, ws). (kind, map (\<lambda>(nn, s). (nn, CloudPodSpec.truncate s)) ws)) m"

definition root_of ::
    "('e, 'm, 'l, 's) target_env \<Rightarrow> ('q pod \<Rightarrow> 'e + kube_object) \<Rightarrow> 'q pod \<Rightarrow>
     ('e kube_error + kube_object) option" where
  "root_of env conv pod = (case conv pod of
     Inl e \<Rightarrow> Some (Inl (KubeError e))
   | Inr u \<Rightarrow> FindRootOwner (kube_env.truncate env) u)"

definition target_of :: "kube_object \<Rightarrow> workload_ref" where
  "target_of u = \<lparr>TargetKind = ObjKind u, TargetNamespace = ObjNamespace u, TargetName = ObjName u,
     TargetAPIVersion = ObjAPIVersion u\<rparr>"

definition nn_of :: "kube_object \<Rightarrow> namespaced_name" where
  "nn_of u = (ObjNamespace u, ObjName u)"

text \<open>The goods of a workload, given those of its pod; \<open>None\<close> when it is passed over.\<close>

definition workload_goods ::
    "('e, 'm, 'l, 's) target_env \<Rightarrow> kube_object \<Rightarrow> int \<Rightarrow> int option" where
  "workload_goods env root goods =
     (let kind = to_lower (ObjKind root)
      in if kind = ''pod'' then Some goods
         else if kind = ''cronjob'' \<or> kind = ''job'' then None
         else case FetchReplicas env (target_of root) of
           Inl e \<Rightarrow> None
         | Inr (desired, current) \<Rightarrow> Some (uint64 desired))"

text \<open>A kind gets its map as soon as one pod leads to it; a workload already there is kept.\<close>

definition workload_step ::
    "('e, 'm, 'l, 's) target_env \<Rightarrow> ('q pod \<Rightarrow> 'e + kube_object) \<Rightarrow> ('q, 'w) spec_fun \<Rightarrow> 'q pod \<Rightarrow>
     'q workloads \<Rightarrow> 'w \<Rightarrow> ((cloud_error + 'q workloads) \<times> 'w) option" where
  "workload_step env conv p2s pod m w = (case root_of env conv pod of
     None \<Rightarrow> None
   | Some (Inl e) \<Rightarrow> Some (Inr m, w)
   | Some (Inr root) \<Rightarrow>
       (let kind = ObjKind root; ws = mget_default [] m kind; m = mput kind ws m
        in if mget ws (nn_of root) \<noteq> None then Some (Inr m, w)
           else case p2s pod w of
             (Inl e, w') \<Rightarrow> Some (Inl e, w')
           | (Inr s, w') \<Rightarrow> (case workload_goods env root (GoodsNum s) of
               None \<Rightarrow> Some (Inr m, w')
             | Some g \<Rightarrow> Some (Inr (put2 kind (nn_of root) (with_workload (s\<lparr>GoodsNum := g\<rparr>) root) m), w'))))"

fun workload_loop ::
    "('e, 'm, 'l, 's) target_env \<Rightarrow> ('q pod \<Rightarrow> 'e + kube_object) \<Rightarrow> ('q, 'w) spec_fun \<Rightarrow> 'q pod list \<Rightarrow>
     'q workloads \<Rightarrow> 'w \<Rightarrow> ((cloud_error + 'q workloads) \<times> 'w) option" where
  "workload_loop env conv p2s [] m w = Some (Inr m, w)"
| "workload_loop env conv p2s (p # ps) m w = (case workload_step env conv p2s p m w of
     None \<Rightarrow> None
   | Some (Inl e, w') \<Rightarrow> Some (Inl e, w')
   | Some (Inr m', w') \<Rightarrow> workload_loop env conv p2s ps m' w')"

definition initWorkloadsSpec ::
    "('e, 'm, 'l, 's) target_env \<Rightarrow> ('q pod \<Rightarrow> 'e + kube_object) \<Rightarrow> ('q, 'w) spec_fun \<Rightarrow> 'q pod list \<Rightarrow>
     'w \<Rightarrow> ((cloud_error + 'q workloads) \<times> 'w) option" where
  "initWorkloadsSpec env conv p2s pods w = workload_loop env conv p2s pods [] w"

text \<open>\<open>GetAllWorkloads\<close>: the root of every pod that has one, \<open>None\<close> if a search does not end.\<close>

fun GetAllWorkloads ::
    "('e, 'm, 'l, 's) target_env \<Rightarrow> ('q pod \<Rightarrow> 'e + kube_object) \<Rightarrow> 'q pod list \<Rightarrow> kube_object list option" where
  "GetAllWorkloads env conv [] = Some []"
| "GetAllWorkloads env conv (p # ps) = (case root_of env conv p of
     None \<Rightarrow> None
   | Some (Inl e) \<Rightarrow> GetAllWorkloads env conv ps
   | Some (Inr root) \<Rightarrow> map_option ((#) root) (GetAllWorkloads env conv ps))"

section \<open>Queries\<close>

record query_range =
  RangeStart :: int
  RangeEnd :: int
  RangeStep :: int

record history_config =
  EndTime :: string
  HistoryLength :: int
  HistoryStep :: int

text \<open>
  Times are nanoseconds; \<open>parse\<close> is \<open>time.Parse\<close> for RFC 3339, \<open>now\<close> the clock, read again when
  the parser fails.
\<close>

definition getQueryRange ::
    "(string \<Rightarrow> 'x + int) \<Rightarrow> int \<Rightarrow> int \<Rightarrow> history_config \<Rightarrow> query_range" where
  "getQueryRange parse now later h =
     (let end = (if EndTime h \<noteq> [] then (case parse (EndTime h) of Inl e \<Rightarrow> later | Inr t \<Rightarrow> t) else now)
      in \<lparr>RangeStart = end - HistoryLength h, RangeEnd = end, RangeStep = HistoryStep h\<rparr>)"

text \<open>The comparator's data source: the answer for a metric over a range.\<close>

type_synonym ('s, 'e) data_source = "'s metric \<Rightarrow> query_range \<Rightarrow> 'e + time_series list"

text \<open>The queries one after the other; the first error ends them.\<close>

fun query_all :: "('s, 'e) data_source \<Rightarrow> query_range \<Rightarrow> 's metric list \<Rightarrow> series_list list option" where
  "query_all ds rg [] = Some []"
| "query_all ds rg (m # ms) = (case ds m rg of
     Inl e \<Rightarrow> None
   | Inr tss \<Rightarrow> map_option ((#) (map Some tss)) (query_all ds rg ms))"

definition container_queries ::
    "('s, 'r) selector_ops \<Rightarrow> 's \<Rightarrow> string \<Rightarrow> string \<Rightarrow> namespaced_name \<Rightarrow> string \<Rightarrow> 's metric list" where
  "container_queries ops everything cid kind nn c =
     (let usage = ResourceToContainerMetricNamer ops cid (fst nn) (snd nn) c;
          other = (\<lambda>name. ContainerMetricNamer ops cid kind (fst nn) (snd nn) c name (Some everything))
      in [usage ''cpu'', usage ''memory'', other ''cpu_request'', other ''mem_request'',
          other ''cpu_limit'', other ''mem_limit''])"

definition container_data :: "series_list list \<Rightarrow> RawContainerTimeSeriesData" where
  "container_data tss = \<lparr>RawContainerTimeSeriesData.Cpu = tss ! 0, Mem = tss ! 1, CpuRequests = tss ! 2,
     MemRequests = tss ! 3, CpuLimits = tss ! 4, MemLimits = tss ! 5\<rparr>"

definition fetch_container ::
    "('s, 'r) selector_ops \<Rightarrow> 's \<Rightarrow> string \<Rightarrow> ('s, 'e) data_source \<Rightarrow> query_range \<Rightarrow> string \<Rightarrow>
     namespaced_name \<Rightarrow> string \<Rightarrow> RawContainerTimeSeriesData option" where
  "fetch_container ops everything cid ds rg kind nn c =
     map_option container_data (query_all ds rg (container_queries ops everything cid kind nn c))"

definition fetch_containers ::
    "(string \<Rightarrow> RawContainerTimeSeriesData option) \<Rightarrow> string list \<Rightarrow>
     (string, RawContainerTimeSeriesData) gomap" where
  "fetch_containers fetch names =
     fold (\<lambda>c m. case fetch c of None \<Rightarrow> m | Some d \<Rightarrow> mput c d m) names []"

definition fetchContainerData ::
    "('s, 'r) selector_ops \<Rightarrow> 's \<Rightarrow> string \<Rightarrow> ('s, 'e) data_source \<Rightarrow> query_range \<Rightarrow> 'q workloads \<Rightarrow>
     container_cache" where
  "fetchContainerData ops everything cid ds rg workloads =
     map (\<lambda>(kind, ws). (kind, map (\<lambda>(nn, s). (nn,
       fetch_containers (fetch_container ops everything cid ds rg kind nn)
         (map ContainerName (PodContainers (PodRef s))))) ws)) workloads"

definition object_target :: "kube_object \<Rightarrow> object_ref" where
  "object_target u = \<lparr>RefKind = ObjKind u, RefNamespace = ObjNamespace u, RefName = ObjName u,
     RefAPIVersion = ObjAPIVersion u\<rparr>"

text \<open>The usage namer panics without a selector only, and is given one.\<close>

definition workload_queries ::
    "('s, 'r) selector_ops \<Rightarrow> 's \<Rightarrow> string \<Rightarrow> kube_object \<Rightarrow> 's metric list" where
  "workload_queries ops everything cid u =
     (let t = object_target u;
          usage = (\<lambda>r. the (ResourceToWorkloadMetricNamer ops cid t r (Some everything)));
          other = (\<lambda>name. WorkloadMetricNamer ops cid t name (Some everything))
      in [usage ''cpu'', usage ''memory'', other ''cpu_request'', other ''cpu_limit'',
          other ''mem_request'', other ''mem_limit'', other ''replicas''])"

definition workload_data :: "series_list list \<Rightarrow> RawWorkloadTimeSeriesData" where
  "workload_data tss = \<lparr>RawContainerTimeSeriesData.Cpu = tss ! 0, Mem = tss ! 1, CpuRequests = tss ! 2,
     MemRequests = tss ! 4, CpuLimits = tss ! 3, MemLimits = tss ! 5, Replicas = tss ! 6\<rparr>"

definition fetch_workload ::
    "('s, 'r) selector_ops \<Rightarrow> 's \<Rightarrow> string \<Rightarrow> ('s, 'e) data_source \<Rightarrow> query_range \<Rightarrow> kube_object \<Rightarrow>
     RawWorkloadTimeSeriesData option" where
  "fetch_workload ops everything cid ds rg u =
     map_option workload_data (query_all ds rg (workload_queries ops everything cid u))"

definition fetchWorkloadMetricData ::
    "('s, 'r) selector_ops \<Rightarrow> 's \<Rightarrow> string \<Rightarrow> ('s, 'e) data_source \<Rightarrow> query_range \<Rightarrow> 'q workloads \<Rightarrow>
     workload_cache" where
  "fetchWorkloadMetricData ops everything cid ds rg workloads =
     map (\<lambda>(kind, ws). (kind, fold (\<lambda>(nn, s) m.
       case fetch_workload ops everything cid ds rg (SpecWorkload s) of
         None \<Rightarrow> m | Some d \<Rightarrow> mput nn d m) ws [])) workloads"

section \<open>The caches\<close>

record comparator_config =
  ClusterId :: string
  OutputMode :: string
  EnableContainerCheckpoint :: bool
  EnableWorkloadTimeSeries :: bool
  EnableWorkloadCheckpoint :: bool

text \<open>The comparator's caches, and its two checkpoint files, \<open>None\<close> when there is none.\<close>

record 'q comparator =
  workloadsSpecCache :: "'q workloads"
  containersTimeSeriesDataCache :: container_cache
  workloadsTimeSeriesDataCache :: workload_cache
  ContainerFile :: "table option"
  WorkloadFile :: "table option"

text \<open>These errors stand for panics, which no caller handles.\<close>

definition panics :: "checkpoint_error \<Rightarrow> bool" where
  "panics e \<longleftrightarrow> e = NilSeries \<or> e = IndexOutOfRange"

definition ContainerTsDataInit ::
    "comparator_config \<Rightarrow> ('q workloads \<Rightarrow> container_cache) \<Rightarrow> 'q comparator \<Rightarrow>
     'q comparator \<times> checkpoint_error option" where
  "ContainerTsDataInit cfg fetch c =
     (case LoadContainerTimeSeriesDataFromCheckpoint (ContainerFile c) of
        Inr data \<Rightarrow> (c\<lparr>containersTimeSeriesDataCache := data\<rparr>, None)
      | Inl e \<Rightarrow>
          if panics e then (c, Some e)
          else let data = fetch (workloadsSpecCache c); c = c\<lparr>containersTimeSeriesDataCache := data\<rparr>
               in if EnableContainerCheckpoint cfg then
                    (case ContainerDataCheckpoint data of
                       Inl e \<Rightarrow> (c, Some e)
                     | Inr t \<Rightarrow> (c\<lparr>ContainerFile := Some t\<rparr>, None))
                  else (c, None))"

text \<open>Without checkpointing the error of the load is the one returned.\<close>

definition WorkloadTsDataInit ::
    "comparator_config \<Rightarrow> ('q workloads \<Rightarrow> workload_cache) \<Rightarrow> 'q comparator \<Rightarrow>
     'q comparator \<times> checkpoint_error option" where
  "WorkloadTsDataInit cfg fetch c =
     (case LoadWorkloadTimeSeriesDataFromCheckpoint (WorkloadFile c) of
        Inr data \<Rightarrow> (c\<lparr>workloadsTimeSeriesDataCache := data\<rparr>, None)
      | Inl e \<Rightarrow>
          if panics e then (c, Some e)
          else let data = fetch (workloadsSpecCache c); c = c\<lparr>workloadsTimeSeriesDataCache := data\<rparr>
               in if EnableWorkloadCheckpoint cfg then
                    (case workloadTimeSeriesDataCheckpoint data of
                       Inl e \<Rightarrow> (c, Some e)
                     | Inr t \<Rightarrow> (c\<lparr>WorkloadFile := Some t\<rparr>, None))
                  else (c, Some e))"

datatype init_error = SpecPanic cloud_error | InitFatal checkpoint_error

text \<open>\<open>Init\<close>: an error of a cache ends the process; it may not return when owners form a cycle.\<close>

definition init_caches ::
    "comparator_config \<Rightarrow> ('q workloads \<Rightarrow> container_cache) \<Rightarrow> ('q workloads \<Rightarrow> workload_cache) \<Rightarrow>
     'q comparator \<Rightarrow> init_error + 'q comparator" where
  "init_caches cfg fetchC fetchW c = (case ContainerTsDataInit cfg fetchC c of
     (c, Some e) \<Rightarrow> Inl (InitFatal e)
   | (c, None) \<Rightarrow>
       if EnableWorkloadTimeSeries cfg then
         (case WorkloadTsDataInit cfg fetchW c of
            (c, Some e) \<Rightarrow> Inl (InitFatal e)
          | (c, None) \<Rightarrow> Inr c)
       else Inr c)"

definition Init ::
    "comparator_config \<Rightarrow> ('e, 'm, 'l, 's) target_env \<Rightarrow> ('q pod \<Rightarrow> 'e + kube_object) \<Rightarrow>
     ('q, 'w) spec_fun \<Rightarrow> ('q workloads \<Rightarrow> container_cache) \<Rightarrow> ('q workloads \<Rightarrow> workload_cache) \<Rightarrow>
     'q pod list \<Rightarrow> 'q comparator \<Rightarrow> 'w \<Rightarrow> ((init_error + 'q comparator) \<times> 'w) option" where
  "Init cfg env conv p2s fetchC fetchW pods c w = (case initWorkloadsSpec env conv p2s pods w of
     None \<Rightarrow> None
   | Some (Inl e, w') \<Rightarrow> Some (Inl (SpecPanic e), w')
   | Some (Inr m, w') \<Rightarrow> Some (init_caches cfg fetchC fetchW (c\<lparr>workloadsSpecCache := m\<rparr>), w'))"


section \<open>Which workloads are collected\<close>

definition lookup2 :: "('k, ('n, 'v) gomap) gomap \<Rightarrow> 'k \<Rightarrow> 'n \<Rightarrow> 'v option" where
  "lookup2 m k n = (case mget m k of None \<Rightarrow> None | Some ws \<Rightarrow> mget ws n)"

definition wf2 :: "('k, ('n, 'v) gomap) gomap \<Rightarrow> bool" where
  "wf2 m \<longleftrightarrow> wf_map m \<and> (\<forall>ws \<in> snd ` set m. wf_map ws)"

lemma lookup2_Nil [simp]: "lookup2 [] k n = None"
  by (simp add: lookup2_def)

lemma wf2_Nil [simp]: "wf2 []"
  by (simp add: wf2_def)

lemma lookup2_put [simp]:
  "lookup2 (mput k ws m) j n = (if j = k then mget ws n else lookup2 m j n)"
  by (simp add: lookup2_def)

lemma mget_default_lookup2: "mget (mget_default [] m k) n = lookup2 m k n"
  by (simp add: mget_default_def lookup2_def split: option.split)

lemma lookup2_put2 [simp]:
  "lookup2 (put2 k n v m) j i = (if j = k \<and> i = n then Some v else lookup2 m j i)"
  by (simp add: put2_def mget_default_lookup2)

lemma wf2_put: "wf2 m \<Longrightarrow> wf_map ws \<Longrightarrow> wf2 (mput k ws m)"
  using set_mput_subset [of k ws m] by (force simp: wf2_def)

lemma wf2_inner: "wf2 m \<Longrightarrow> wf_map (mget_default [] m k)"
  by (force simp: wf2_def mget_default_def split: option.split dest: map_of_SomeD)

lemma wf2_put2: "wf2 m \<Longrightarrow> wf2 (put2 k n v m)"
  unfolding put2_def by (intro wf2_put wf_map_put wf2_inner)

text \<open>The root of the pod is a workload that is analysed: no job, and its replicas are found.\<close>

definition analysed ::
    "('e, 'm, 'l, 's) target_env \<Rightarrow> ('q pod \<Rightarrow> 'e + kube_object) \<Rightarrow> 'q pod \<Rightarrow> string \<Rightarrow> namespaced_name \<Rightarrow> bool" where
  "analysed env conv pod kind nn = (case root_of env conv pod of
     Some (Inr root) \<Rightarrow> ObjKind root = kind \<and> nn_of root = nn \<and> workload_goods env root 0 \<noteq> None
   | _ \<Rightarrow> False)"

definition made_from ::
    "('e, 'm, 'l, 's) target_env \<Rightarrow> ('q pod \<Rightarrow> 'e + kube_object) \<Rightarrow> ('q, 'w) spec_fun \<Rightarrow> 'q pod \<Rightarrow>
     'q workload_spec \<Rightarrow> bool" where
  "made_from env conv p2s pod s \<longleftrightarrow> (\<exists>root s0 g w w'. root_of env conv pod = Some (Inr root) \<and>
     p2s pod w = (Inr s0, w') \<and> workload_goods env root (GoodsNum s0) = Some g \<and>
     s = with_workload (s0\<lparr>GoodsNum := g\<rparr>) root)"

lemma workload_goods_None: "workload_goods env root g = None \<longleftrightarrow> workload_goods env root 0 = None"
  by (simp add: workload_goods_def Let_def split: sum.split)

text \<open>What is kept for a key: the entry there, or one made from the first pod that leads to it.\<close>

definition entry_ok ::
    "('e, 'm, 'l, 's) target_env \<Rightarrow> ('q pod \<Rightarrow> 'e + kube_object) \<Rightarrow> ('q, 'w) spec_fun \<Rightarrow> 'q pod list \<Rightarrow>
     'q workloads \<Rightarrow> 'q workloads \<Rightarrow> string \<Rightarrow> namespaced_name \<Rightarrow> bool" where
  "entry_ok env conv p2s pods m m' kind nn = (case lookup2 m kind nn of
     Some s \<Rightarrow> lookup2 m' kind nn = Some s
   | None \<Rightarrow> (case find (\<lambda>p. analysed env conv p kind nn) pods of
       None \<Rightarrow> lookup2 m' kind nn = None
     | Some p \<Rightarrow> \<exists>s. lookup2 m' kind nn = Some s \<and> made_from env conv p2s p s))"

lemma entry_ok_same: "(\<And>p. p \<in> set pods \<Longrightarrow> \<not> analysed env conv p kind nn \<or> lookup2 m kind nn \<noteq> None) \<Longrightarrow>
    lookup2 m' kind nn = lookup2 m kind nn \<Longrightarrow> entry_ok env conv p2s pods m m' kind nn"
proof (cases "lookup2 m kind nn")
  case None
  assume a: "\<And>p. p \<in> set pods \<Longrightarrow> \<not> analysed env conv p kind nn \<or> lookup2 m kind nn \<noteq> None"
    and eq: "lookup2 m' kind nn = lookup2 m kind nn"
  have "find (\<lambda>p. analysed env conv p kind nn) pods = None"
    using a None unfolding find_None_iff by blast
  with None eq show ?thesis by (simp add: entry_ok_def)
qed (simp add: entry_ok_def)

lemma workload_step_entries:
  assumes "workload_step env conv p2s pod m w = Some (Inr m', w')"
  shows "entry_ok env conv p2s [pod] m m' kind nn \<and> (wf2 m \<longrightarrow> wf2 m')"
proof (cases "\<exists>root. root_of env conv pod = Some (Inr root)")
  case False
  with assms have "m' = m" by (auto simp: workload_step_def split: option.splits sum.splits)
  with False show ?thesis by (auto simp: analysed_def split: option.splits sum.splits intro!: entry_ok_same)
next
  case True
  then obtain root where root: "root_of env conv pod = Some (Inr root)" by blast
  let ?k = "ObjKind root" and ?n = "nn_of root" let ?m = "mput ?k (mget_default [] m ?k) m"
  have m: "lookup2 ?m kind nn = lookup2 m kind nn" "wf2 m \<Longrightarrow> wf2 ?m"
    by (simp_all add: mget_default_lookup2 wf2_put wf2_inner)
  show ?thesis
  proof (cases "lookup2 m ?k ?n")
    case (Some s)
    with assms have "m' = ?m" by (simp add: workload_step_def root Let_def mget_default_lookup2)
    with Some m show ?thesis
      by (auto simp: analysed_def root intro!: entry_ok_same)
  next
    case None
    then obtain s0 w1 where s0: "p2s pod w = (Inr s0, w1)"
      using assms by (auto simp: workload_step_def root Let_def mget_default_lookup2 split: prod.splits sum.splits)
    show ?thesis
    proof (cases "workload_goods env root (GoodsNum s0)")
      case (Some g)
      with assms None s0 have m': "m' = put2 ?k ?n (with_workload (s0\<lparr>GoodsNum := g\<rparr>) root) ?m"
        by (simp add: workload_step_def root Let_def mget_default_lookup2)
      have made: "made_from env conv p2s pod (with_workload (s0\<lparr>GoodsNum := g\<rparr>) root)"
        using root s0 Some unfolding made_from_def by blast
      have an: "analysed env conv pod kind nn \<longleftrightarrow> kind = ?k \<and> nn = ?n"
        using Some workload_goods_None [of env root "GoodsNum s0"] by (auto simp: analysed_def root)
      show ?thesis
      proof (cases "kind = ?k \<and> nn = ?n")
        case True
        with None made an m(2) show ?thesis by (simp add: entry_ok_def m' wf2_put2)
      next
        case False
        with an m show ?thesis by (auto simp: m' mget_default_lookup2 wf2_put2 intro!: entry_ok_same)
      qed
    next
      case None
      with assms \<open>lookup2 m ?k ?n = None\<close> s0 have "m' = ?m"
        by (simp add: workload_step_def root Let_def mget_default_lookup2)
      with None m workload_goods_None [of env root "GoodsNum s0"] show ?thesis
        by (auto simp: analysed_def root intro!: entry_ok_same)
    qed
  qed
qed

lemma workload_loop_entries:
  "workload_loop env conv p2s pods m w = Some (Inr m', w') \<Longrightarrow>
     entry_ok env conv p2s pods m m' kind nn \<and> (wf2 m \<longrightarrow> wf2 m')"
proof (induction pods arbitrary: m w)
  case Nil
  then show ?case by (auto intro: entry_ok_same)
next
  case (Cons p ps)
  from Cons.prems obtain m1 w1 where step: "workload_step env conv p2s p m w = Some (Inr m1, w1)"
    and rest: "workload_loop env conv p2s ps m1 w1 = Some (Inr m', w')"
    by (auto split: option.splits prod.splits sum.splits)
  from workload_step_entries [OF step, of kind nn] Cons.IH [OF rest]
  show ?case
    by (cases "lookup2 m kind nn"; cases "analysed env conv p kind nn") (auto simp: entry_ok_def)
qed

text \<open>
  C12. The nested maps that the walk over the pods builds implement a partial function from kinds and
  names: a workload is there exactly when some pod leads to it and it is analysed, and its spec is
  made from the first such pod, with the replicas the API server tells unless it is a pod itself.
  Keys are distinct at both levels, and jobs and cron jobs are never there.
\<close>

theorem workloads_exact:
  assumes "initWorkloadsSpec env conv p2s pods w = Some (Inr m, w')"
  shows "wf2 m \<and>
    (case find (\<lambda>p. analysed env conv p kind nn) pods of
       None \<Rightarrow> lookup2 m kind nn = None
     | Some p \<Rightarrow> \<exists>s. lookup2 m kind nn = Some s \<and> made_from env conv p2s p s) \<and>
    (to_lower kind \<in> {''job'', ''cronjob''} \<longrightarrow> lookup2 m kind nn = None)"
proof -
  from workload_loop_entries [OF assms [unfolded initWorkloadsSpec_def]]
  have e: "entry_ok env conv p2s pods [] m kind nn" and wf: "wf2 m" by simp_all
  have "\<not> analysed env conv p kind nn" if "to_lower kind \<in> {''job'', ''cronjob''}" for p
    using that by (auto simp: analysed_def workload_goods_def split: option.splits sum.splits)
  then have "find (\<lambda>p. analysed env conv p kind nn) pods = None" if "to_lower kind \<in> {''job'', ''cronjob''}"
    using that unfolding find_None_iff by blast
  with e wf show ?thesis by (auto simp: entry_ok_def split: option.splits)
qed

text \<open>Two pods of one workload with three replicas, and one of a job.\<close>

definition example_target_env :: "(string, string, unit, unit) target_env" where
  "example_target_env = \<lparr>ParseGroupVersion = (\<lambda>s. Inr ([], s)), RESTMappings = (\<lambda>g k v. Inr [''things'']),
     GetObject = (\<lambda>m ns n. Inr (example_object (if n = ''batch'' then ''Job'' else ''Deployment'') n None)),
     ToUnstructured = Inr, GetDaemonSet = (\<lambda>ns n. Inl ''none''),
     GetScale = (\<lambda>ns m n. Inr \<lparr>SpecReplicas = 3, StatusReplicas = 2, StatusSelector = []\<rparr>),
     SelectorOf = (\<lambda>l. Inr ()), ParseSelector = (\<lambda>s. Inr ())\<rparr>"

definition owned_pod :: "string \<Rightarrow> string \<Rightarrow> nat pod" where
  "owned_pod name owner = example_pod\<lparr>PodName := name,
     PodOwners := [\<lparr>OwnerKind = ''T'', OwnerName = owner, OwnerAPIVersion = ''v1''\<rparr>]\<rparr>"

definition example_conv :: "nat pod \<Rightarrow> string + kube_object" where
  "example_conv p = Inr (example_object ''Pod'' (PodName p) (Some (OwnerName (hd (PodOwners p)))))"

definition example_pods :: "nat pod list" where
  "example_pods = [owned_pod ''a'' ''web'', owned_pod ''b'' ''batch'', owned_pod ''c'' ''web'']"

lemma owner_step_example:
  "FindRootOwner (kube_env.truncate example_target_env) (example_object k n (Some o')) =
     Some (Inr (example_object (if o' = ''batch'' then ''Job'' else ''Deployment'') o' None))"
proof -
  let ?e = "kube_env.truncate example_target_env"
  have "owner_step ?e (example_object k n (Some o')) =
      Inr (example_object (if o' = ''batch'' then ''Job'' else ''Deployment'') o' None)"
    "owner_step ?e (example_object j o' None) = Inl (Inr (example_object j o' None))" for j
    by (simp_all add: owner_step_def example_object_def kube_env.truncate_def example_target_env_def)
  then show ?thesis by (simp add: FindRootOwner.simps)
qed

lemma example_roots:
  "root_of example_target_env example_conv (owned_pod n o') =
     Some (Inr (example_object (if o' = ''batch'' then ''Job'' else ''Deployment'') o' None))"
  by (simp add: root_of_def example_conv_def owned_pod_def owner_step_example)

lemma example_goods:
  "workload_goods example_target_env (example_object ''Deployment'' ''web'' None) 0 = Some 3"
  "workload_goods example_target_env (example_object ''Deployment'' ''web'' None) 1 = Some 3"
  "workload_goods example_target_env (example_object ''Job'' ''batch'' None) 1 = None"
  by code_simp+

lemma example_objects:
  "ObjKind (example_object k n o') = k" "nn_of (example_object k n o') = (''default'', n)"
  by (simp_all add: example_object_def nn_of_def)

definition example_web :: "nat workload_spec" where
  "example_web = with_workload ((projr (fst (plain_spec (owned_pod ''a'' ''web'') 0)))\<lparr>GoodsNum := 3\<rparr>)
     (example_object ''Deployment'' ''web'' None)"

definition example_workloads :: "nat workloads" where
  "example_workloads = [(''Deployment'', [((''default'', ''web''), example_web)]), (''Job'', [])]"

lemma example_steps:
  "workload_step example_target_env example_conv plain_spec (owned_pod ''a'' ''web'') [] 0 =
     Some (Inr [(''Deployment'', [((''default'', ''web''), example_web)])], 1)"
  "workload_step example_target_env example_conv plain_spec (owned_pod ''b'' ''batch'')
     [(''Deployment'', [((''default'', ''web''), example_web)])] 1 = Some (Inr example_workloads, 2)"
  "workload_step example_target_env example_conv plain_spec (owned_pod ''c'' ''web'')
     example_workloads 2 = Some (Inr example_workloads, 2)"
  by (simp_all add: workload_step_def example_roots example_objects plain_spec_def example_goods
      mget_default_def put2_def example_web_def example_workloads_def Let_def)

lemma example_workloads_eq:
  "initWorkloadsSpec example_target_env example_conv plain_spec example_pods 0 =
     Some (Inr example_workloads, 2)"
  by (simp add: initWorkloadsSpec_def example_pods_def example_steps del: One_nat_def)

theorem workloads_exact_witness:
  "\<exists>s. lookup2 example_workloads ''Deployment'' (''default'', ''web'') = Some s \<and>
     made_from example_target_env example_conv plain_spec (owned_pod ''a'' ''web'') s"
proof -
  have "analysed example_target_env example_conv (owned_pod ''a'' ''web'') ''Deployment'' (''default'', ''web'')"
    by (simp add: analysed_def example_roots example_objects example_goods)
  then have "find (\<lambda>p. analysed example_target_env example_conv p ''Deployment'' (''default'', ''web'')) example_pods =
      Some (owned_pod ''a'' ''web'')"
    by (simp add: example_pods_def)
  with workloads_exact [OF example_workloads_eq, of "''Deployment''" "(''default'', ''web'')"] show ?thesis by simp
qed

section \<open>Which data is fetched\<close>

definition answered :: "('s, 'e) data_source \<Rightarrow> query_range \<Rightarrow> 's metric \<Rightarrow> bool" where
  "answered ds rg m \<longleftrightarrow> \<not> isl (ds m rg)"

definition answer :: "('s, 'e) data_source \<Rightarrow> query_range \<Rightarrow> 's metric \<Rightarrow> series_list" where
  "answer ds rg m = map Some (projr (ds m rg))"

lemma query_all_eq:
  "query_all ds rg ms = (if list_all (answered ds rg) ms then Some (map (answer ds rg) ms) else None)"
  by (induction ms) (auto simp: answered_def answer_def split: sum.split)

lemma mget_map_value: "mget (map (\<lambda>(k, v). (k, f k v)) m) k = map_option (f k) (mget m k)"
  by (induction m) auto

lemma lookup2_map:
  "lookup2 (map (\<lambda>(k, ws). (k, map (\<lambda>(n, v). (n, f k n v)) ws)) m) k n = map_option (f k n) (lookup2 m k n)"
  by (simp add: lookup2_def mget_map_value split: option.split)

lemma lookup3_lookup2: "lookup3 m k n c = (case lookup2 m k n of None \<Rightarrow> None | Some cs \<Rightarrow> mget cs c)"
  by (simp add: lookup3_def lookup2_def split: option.split)

lemma fold_fetch:
  "mget (fold (\<lambda>c m. case fetch c of None \<Rightarrow> m | Some d \<Rightarrow> mput c d m) names m) c =
     (if c \<in> set names \<and> fetch c \<noteq> None then fetch c else mget m c)"
  by (induction names arbitrary: m) (auto split: option.split)

lemma mget_fetch_containers:
  "mget (fetch_containers fetch names) c = (if c \<in> set names then fetch c else None)"
  by (simp add: fetch_containers_def fold_fetch)

lemma fetchContainerData_lookup2:
  "lookup2 (fetchContainerData ops everything cid ds rg workloads) kind nn =
     map_option (\<lambda>s. fetch_containers (fetch_container ops everything cid ds rg kind nn)
       (map ContainerName (PodContainers (PodRef s)))) (lookup2 workloads kind nn)"
  unfolding fetchContainerData_def by (rule lookup2_map)

lemma container_columns_data: "length tss = 6 \<Longrightarrow> container_columns (container_data tss) = tss"
  by (auto simp: container_columns_def container_data_def length_Suc_conv eval_nat_numeral)

lemma six_queries: "length (container_queries ops everything cid kind nn c) = 6"
  by (simp add: container_queries_def Let_def)

text \<open>
  C16. Every workload gets an entry in the cache of the containers, and in it a container of its pod
  has data exactly when the data source answers all six queries for it: the columns are then the six
  answers. One query that fails loses that container and no other.
\<close>

theorem container_data_exact:
  "lookup3 (fetchContainerData ops everything cid ds rg workloads) kind nn c =
     (case lookup2 workloads kind nn of
        None \<Rightarrow> None
      | Some s \<Rightarrow>
          if c \<in> ContainerName ` set (PodContainers (PodRef s)) \<and>
             list_all (answered ds rg) (container_queries ops everything cid kind nn c)
          then Some (container_data (map (answer ds rg) (container_queries ops everything cid kind nn c)))
          else None) \<and>
   container_columns (container_data (map (answer ds rg) (container_queries ops everything cid kind nn c))) =
     map (answer ds rg) (container_queries ops everything cid kind nn c) \<and>
   (lookup2 (fetchContainerData ops everything cid ds rg workloads) kind nn = None \<longleftrightarrow>
      lookup2 workloads kind nn = None)"
  by (simp add: lookup3_lookup2 fetchContainerData_lookup2 mget_fetch_containers fetch_container_def
      query_all_eq container_columns_data six_queries split: option.split)

section \<open>Starting and starting again\<close>

definition wf3 :: "('k, ('n, ('c, 'd) gomap) gomap) gomap \<Rightarrow> bool" where
  "wf3 m \<longleftrightarrow> wf2 m \<and> (\<forall>ws \<in> snd ` set m. \<forall>cs \<in> snd ` set ws. wf_map cs)"

definition flat_kind :: "string \<Rightarrow> (namespaced_name, (string, RawContainerTimeSeriesData) gomap) gomap \<Rightarrow>
    ((string \<times> string \<times> string \<times> string) \<times> RawContainerTimeSeriesData) list" where
  "flat_kind kind ws = concat (map (\<lambda>(nn, cs). map (\<lambda>(c, d). ((kind, fst nn, snd nn, c), d)) cs) ws)"

lemma flat_kinds: "flat cache = concat (map (\<lambda>(kind, ws). flat_kind kind ws) cache)"
  by (simp add: flat_def flat_kind_def split_def)

lemma distinct_tagged:
  "distinct (map fst xs) \<Longrightarrow> (\<And>k v. (k, v) \<in> set xs \<Longrightarrow> distinct (map fst (f k v))) \<Longrightarrow>
     (\<And>k v e. e \<in> set (f k v) \<Longrightarrow> tag (fst e) = k) \<Longrightarrow>
     distinct (map fst (concat (map (\<lambda>(k, v). f k v) xs)))"
proof (induction xs)
  case (Cons x xs)
  obtain k v where x: "x = (k, v)" by fastforce
  have "tag e \<noteq> k" if "e \<in> fst ` set (concat (map (\<lambda>(k, v). f k v) xs))" for e
    using that Cons.prems(1, 3) by (auto simp: x split: prod.splits) (metis fst_conv image_eqI)
  moreover have "tag e = k" if "e \<in> fst ` set (f k v)" for e
    using that Cons.prems(3) by auto
  moreover have "distinct (map fst (concat (map (\<lambda>(k, v). f k v) xs)))"
    using Cons.prems by (intro Cons.IH) simp_all
  moreover have "distinct (map fst (f k v))" using Cons.prems(2) [of k v] by (simp add: x)
  ultimately have "distinct (map fst (f k v))" "distinct (map fst (concat (map (\<lambda>(k, v). f k v) xs)))"
    "fst ` set (f k v) \<inter> fst ` set (concat (map (\<lambda>(k, v). f k v) xs)) = {}" by blast+
  then show ?case by (simp only: x list.map concat.simps prod.case map_append distinct_append set_map simp_thms)
qed simp

lemma distinct_flat:
  assumes "wf3 cache"
  shows "distinct (map fst (flat cache))"
  unfolding flat_kinds
proof (rule distinct_tagged [where tag = fst])
  show "distinct (map fst cache)" using assms by (simp add: wf3_def wf2_def wf_map_def)
  fix kind ws assume e: "(kind, ws) \<in> set cache"
  show "distinct (map fst (flat_kind kind ws))"
    unfolding flat_kind_def
  proof (rule distinct_tagged [where tag = "\<lambda>(k, ns, n, c). (ns, n)"])
    show "distinct (map fst ws)" using assms e by (force simp: wf3_def wf2_def wf_map_def)
    fix nn :: namespaced_name and cs assume "(nn, cs) \<in> set ws"
    then have "distinct (map fst cs)" using assms e by (force simp: wf3_def wf_map_def)
    then show "distinct (map fst (map (\<lambda>(c, d). ((kind, fst nn, snd nn, c), d)) cs))"
      by (force simp: distinct_map inj_on_def)
  qed (auto split: prod.splits)
qed (auto simp: flat_kind_def)

lemma map_of_flat:
  assumes "wf3 cache"
  shows "map_of (flat cache) (k, ns, n, c) = lookup3 cache k (ns, n) c"
proof -
  have "map_of (flat cache) (k, ns, n, c) = Some d \<longleftrightarrow> lookup3 cache k (ns, n) c = Some d" for d
  proof -
    have "map_of (flat cache) (k, ns, n, c) = Some d \<longleftrightarrow> ((k, ns, n, c), d) \<in> set (flat cache)"
      using distinct_flat [OF assms] by simp
    also have "\<dots> \<longleftrightarrow> (\<exists>ws cs. (k, ws) \<in> set cache \<and> ((ns, n), cs) \<in> set ws \<and> (c, d) \<in> set cs)"
      by (force simp: flat_kinds flat_kind_def)
    also have "\<dots> \<longleftrightarrow> (\<exists>ws cs. mget cache k = Some ws \<and> mget ws (ns, n) = Some cs \<and> mget cs c = Some d)"
    proof -
      have "(c, d) \<in> set cs \<longleftrightarrow> mget cs c = Some d"
        if "(k, ws) \<in> set cache" "((ns, n), cs) \<in> set ws" for ws cs
        using assms that by (intro wf_map_mget [symmetric]) (force simp: wf3_def)
      moreover have "((ns, n), cs) \<in> set ws \<longleftrightarrow> mget ws (ns, n) = Some cs" if "(k, ws) \<in> set cache" for ws cs
        using assms that by (intro wf_map_mget [symmetric]) (force simp: wf3_def wf2_def)
      moreover have "(k, ws) \<in> set cache \<longleftrightarrow> mget cache k = Some ws" for ws
        using assms by (intro wf_map_mget [symmetric]) (simp add: wf3_def wf2_def)
      ultimately show ?thesis by metis
    qed
    finally show ?thesis by (auto simp: lookup3_def split: option.splits)
  qed
  then show ?thesis by (metis option.exhaust)
qed

lemma wf_fetch_containers: "wf_map (fetch_containers fetch names)"
proof -
  have "wf_map (fold (\<lambda>c m. case fetch c of None \<Rightarrow> m | Some d \<Rightarrow> mput c d m) names m)" if "wf_map m" for m
    using that by (induction names arbitrary: m) (auto split: option.split)
  then show ?thesis by (simp add: fetch_containers_def)
qed

definition map_values :: "('k \<Rightarrow> 'a \<Rightarrow> 'b) \<Rightarrow> ('k, 'a) gomap \<Rightarrow> ('k, 'b) gomap" where
  "map_values f m = map (\<lambda>(k, v). (k, f k v)) m"

lemma wf_map_values [simp]: "wf_map (map_values f m) \<longleftrightarrow> wf_map m"
  by (simp add: wf_map_def map_values_def split_def comp_def)

lemma set_map_values: "set (map_values f m) = (\<lambda>(k, v). (k, f k v)) ` set m"
  by (simp add: map_values_def)

lemma wf3_fetch:
  assumes "wf2 workloads"
  shows "wf3 (fetchContainerData ops everything cid ds rg workloads)"
proof -
  let ?fetch = "\<lambda>kind nn s. fetch_containers (fetch_container ops everything cid ds rg kind nn)
    (map ContainerName (PodContainers (PodRef s)))"
  have data: "fetchContainerData ops everything cid ds rg workloads =
      map_values (\<lambda>kind. map_values (?fetch kind)) workloads"
    by (simp add: fetchContainerData_def map_values_def)
  show ?thesis
    unfolding wf3_def wf2_def data
    using assms by (auto simp: wf2_def wf_fetch_containers set_map_values)
qed

lemma ContainerTsDataInit_saved:
  assumes "ContainerTsDataInit cfg fetch c = (c', None)" "EnableContainerCheckpoint cfg"
    and "isl (LoadContainerTimeSeriesDataFromCheckpoint (ContainerFile c))"
  shows "containersTimeSeriesDataCache c' = fetch (workloadsSpecCache c) \<and>
    (\<exists>t. ContainerDataCheckpoint (fetch (workloadsSpecCache c)) = Inr t \<and> ContainerFile c' = Some t)"
  using assms by (auto simp: ContainerTsDataInit_def Let_def split: sum.splits if_splits)

text \<open>
  C7. When the first start has fetched the containers' data and saved it, every later start finds
  that data, whatever its data source would answer and its workloads are: the same containers, each
  series with its timestamps and with the values its saved decimals give. This holds when the data
  has a sample at all and the samples at an index of a column have one timestamp.
\<close>

theorem restart_reloads:
  assumes "wf2 (workloadsSpecCache c)" "EnableContainerCheckpoint cfg"
    and "isl (LoadContainerTimeSeriesDataFromCheckpoint (ContainerFile c))"
    and "ContainerTsDataInit cfg (fetchContainerData ops everything cid ds rg) c = (c', None)"
    and "aligned_cache T (containersTimeSeriesDataCache c')" "times_ok T"
    and "lookup3 (containersTimeSeriesDataCache c') k (ns, n) x = Some d" "i < 6"
    and "first_samples (container_columns d ! i) \<noteq> []"
    and "ContainerFile b = ContainerFile c'"
  shows "\<exists>m. ContainerTsDataInit cfg' fetch' b = (b\<lparr>containersTimeSeriesDataCache := m\<rparr>, None) \<and>
    (\<forall>kind nn x. lookup3 m kind nn x =
       map_option reload (lookup3 (containersTimeSeriesDataCache c') kind nn x))"
proof -
  from ContainerTsDataInit_saved [OF assms(4, 2, 3)] obtain t where
    c': "containersTimeSeriesDataCache c' = fetchContainerData ops everything cid ds rg (workloadsSpecCache c)"
    and t: "ContainerDataCheckpoint (containersTimeSeriesDataCache c') = Inr t" "ContainerFile c' = Some t"
    by auto
  have wf: "wf3 (containersTimeSeriesDataCache c')" unfolding c' by (rule wf3_fetch [OF assms(1)])
  from assms(7) have "((k, ns, n, x), d) \<in> set (flat (containersTimeSeriesDataCache c'))"
    using map_of_flat [OF wf, of k ns n x] by (intro map_of_SomeD) simp
  with assms(8, 9) have "\<exists>(key, d) \<in> set (flat (containersTimeSeriesDataCache c')). \<exists>k < 6.
      first_samples (container_columns d ! k) \<noteq> []" by fastforce
  from container_reload [OF t(1) assms(5, 6) distinct_flat [OF wf] this] obtain m where
    m: "LoadContainerTimeSeriesDataFromCheckpoint (Some t) = Inr m"
    and look: "\<forall>k ns n c. lookup3 m k (ns, n) c =
      map_option reload (map_of (flat (containersTimeSeriesDataCache c')) (k, ns, n, c))" by blast
  from m t(2) assms(10) have "ContainerTsDataInit cfg' fetch' b = (b\<lparr>containersTimeSeriesDataCache := m\<rparr>, None)"
    by (simp add: ContainerTsDataInit_def)
  moreover from look have "\<forall>kind nn x. lookup3 m kind nn x =
      map_option reload (lookup3 (containersTimeSeriesDataCache c') kind nn x)"
    by (simp add: map_of_flat [OF wf])
  ultimately show ?thesis by blast
qed

lemma ContainerTsDataInit_other:
  "ContainerTsDataInit cfg fetch c = (c', r) \<Longrightarrow> WorkloadFile c' = WorkloadFile c \<and>
     workloadsSpecCache c' = workloadsSpecCache c"
  by (auto simp: ContainerTsDataInit_def Let_def split: sum.splits if_splits)

text \<open>
  With the workloads' series wanted and none saved before, Init succeeds exactly when the
  containers' data can be had, checkpointing the workloads is enabled and the checkpoint can be
  written: without that option the error of the missing file is returned as the outcome, and
  the process ends although the data has been fetched.
\<close>

theorem Init_needs_checkpoint:
  assumes "EnableWorkloadTimeSeries cfg" "LoadWorkloadTimeSeriesDataFromCheckpoint (WorkloadFile c) = Inl e"
    and "\<not> panics e" "initWorkloadsSpec env conv p2s pods w = Some (Inr m, w')"
  shows "\<exists>r. Init cfg env conv p2s fetchC fetchW pods c w = Some (r, w') \<and>
    (\<not> isl r \<longleftrightarrow> snd (ContainerTsDataInit cfg fetchC (c\<lparr>workloadsSpecCache := m\<rparr>)) = None \<and>
       EnableWorkloadCheckpoint cfg \<and> \<not> isl (workloadTimeSeriesDataCheckpoint (fetchW m)))"
proof -
  obtain c1 r1 where c1: "ContainerTsDataInit cfg fetchC (c\<lparr>workloadsSpecCache := m\<rparr>) = (c1, r1)" by fastforce
  from ContainerTsDataInit_other [OF this] have "WorkloadFile c1 = WorkloadFile c" "workloadsSpecCache c1 = m"
    by simp_all
  with assms c1 show ?thesis
    by (cases r1) (simp_all add: Init_def init_caches_def WorkloadTsDataInit_def Let_def split: sum.split)
qed

section \<open>Examples\<close>

text \<open>A data source that has the same two samples for everything, and a first start.\<close>

definition example_answer :: time_series where
  "example_answer = Time_Series.example_series [60, 120] (lit 5 10)"

definition example_source :: "((string \<times> string) list, string) data_source" where
  "example_source m rg = Inr [example_answer]"

definition example_range :: query_range where
  "example_range = getQueryRange (\<lambda>s. Inl ()) 1000 1000 \<lparr>EndTime = [], HistoryLength = 900, HistoryStep = 60\<rparr>"

definition example_config :: "bool \<Rightarrow> comparator_config" where
  "example_config b = \<lparr>ClusterId = ''cls'', OutputMode = ''csv'', EnableContainerCheckpoint = True,
     EnableWorkloadTimeSeries = True, EnableWorkloadCheckpoint = b\<rparr>"

definition first_start :: "nat comparator" where
  "first_start = \<lparr>workloadsSpecCache = example_workloads, containersTimeSeriesDataCache = [],
     workloadsTimeSeriesDataCache = [], ContainerFile = None, WorkloadFile = None\<rparr>"

definition example_fetch :: "nat workloads \<Rightarrow> container_cache" where
  "example_fetch = fetchContainerData list_ops [] ''cls'' example_source example_range"

definition fetched_data :: RawContainerTimeSeriesData where
  "fetched_data = container_data (replicate 6 [Some example_answer])"

definition fetched_cache :: container_cache where
  "fetched_cache = [(''Deployment'', [((''default'', ''web''), [(''c'', fetched_data)])]), (''Job'', [])]"

lemma map_const: "map (\<lambda>x. k) xs = replicate (length xs) k"
  by (induction xs) simp_all

lemma answer_example: "answer example_source rg = (\<lambda>m. [Some example_answer])" "answered example_source rg m"
  by (auto simp: answer_def answered_def example_source_def)

lemma example_web_containers: "map ContainerName (PodContainers (PodRef example_web)) = [''c'']"
  by (simp add: example_web_def with_workload_def CloudPodSpec.extend_def plain_spec_def owned_pod_def
      example_pod_def example_container_def pod_spec_def)

lemma example_fetched: "example_fetch example_workloads = fetched_cache"
proof -
  have "fetch_container list_ops [] ''cls'' example_source example_range kind nn c = Some fetched_data" for kind nn c
    by (simp add: fetch_container_def query_all_eq answer_example list_all_iff map_const six_queries fetched_data_def)
  then show ?thesis
    by (simp add: example_fetch_def fetchContainerData_def example_workloads_def example_web_containers
        fetch_containers_def fetched_cache_def)
qed

definition saved_file :: table where
  "saved_file = projr (ContainerDataCheckpoint fetched_cache)"

lemma saved_eq: "ContainerDataCheckpoint fetched_cache = Inr saved_file"
proof -
  have "\<not> isl (ContainerDataCheckpoint fetched_cache)" by code_simp
  then show ?thesis by (simp add: saved_file_def)
qed

lemma first_start_eq:
  "ContainerTsDataInit (example_config b) example_fetch first_start =
     (first_start\<lparr>containersTimeSeriesDataCache := fetched_cache, ContainerFile := Some saved_file\<rparr>, None)"
  by (simp add: ContainerTsDataInit_def first_start_def LoadContainerTimeSeriesDataFromCheckpoint_def
      panics_def Let_def example_fetched saved_eq example_config_def)

lemma fetched_columns: "container_columns fetched_data = replicate 6 [Some example_answer]"
  by (simp add: fetched_data_def container_columns_data)

lemma fetched_aligned: "aligned_cache (\<lambda>k i. if i = 0 then 60 else 120) fetched_cache"
  by (simp add: aligned_cache_def flat_def fetched_cache_def fetched_columns first_samples_def aligned_def
      example_answer_def Time_Series.example_series_def nth_Cons' less_Suc_eq)

theorem restart_reloads_witness:
  "\<exists>m. ContainerTsDataInit (example_config True) (\<lambda>ws. [])
      (first_start\<lparr>workloadsSpecCache := [], ContainerFile := Some saved_file\<rparr>) =
      (first_start\<lparr>workloadsSpecCache := [], ContainerFile := Some saved_file,
         containersTimeSeriesDataCache := m\<rparr>, None) \<and>
    lookup3 m ''Deployment'' (''default'', ''web'') ''c'' = Some (reload fetched_data)"
proof -
  let ?b = "first_start\<lparr>workloadsSpecCache := [], ContainerFile := Some saved_file\<rparr>"
  have wf: "wf2 (workloadsSpecCache first_start)"
    by (simp add: first_start_def wf2_def wf_map_def example_workloads_def)
  have isl: "isl (LoadContainerTimeSeriesDataFromCheckpoint (ContainerFile first_start))"
    by (simp add: first_start_def LoadContainerTimeSeriesDataFromCheckpoint_def)
  have look: "lookup3 fetched_cache ''Deployment'' (''default'', ''web'') ''c'' = Some fetched_data"
    by (simp add: lookup3_def fetched_cache_def)
  have some: "first_samples (container_columns fetched_data ! 0) \<noteq> []"
    by (simp add: fetched_columns first_samples_def example_answer_def Time_Series.example_series_def)
  have enabled: "EnableContainerCheckpoint (example_config True)" by (simp add: example_config_def)
  have times: "times_ok (\<lambda>k i. if i = 0 then 60 else 120)" by (simp add: times_ok_def)
  obtain m where "ContainerTsDataInit (example_config True) (\<lambda>ws. []) ?b =
      (?b\<lparr>containersTimeSeriesDataCache := m\<rparr>, None)"
    "\<forall>kind nn x. lookup3 m kind nn x = map_option reload (lookup3 fetched_cache kind nn x)"
    using restart_reloads [OF wf enabled isl first_start_eq [unfolded example_fetch_def] _ times _ _ _ ,
        of "''Deployment''" "''default''" "''web''" "''c''" fetched_data 0 ?b "example_config True" "\<lambda>ws. []"]
      fetched_aligned look some by auto
  with look show ?thesis by auto
qed

theorem Init_needs_checkpoint_witness:
  "\<exists>r. Init (example_config False) example_target_env example_conv plain_spec example_fetch (\<lambda>ws. [])
      example_pods first_start 0 = Some (r, 2) \<and> isl r"
proof -
  have "EnableWorkloadTimeSeries (example_config False)" "\<not> EnableWorkloadCheckpoint (example_config False)"
    by (simp_all add: example_config_def)
  moreover have "LoadWorkloadTimeSeriesDataFromCheckpoint (WorkloadFile first_start) = Inl FileNotFound"
    "\<not> panics FileNotFound"
    by (simp_all add: first_start_def LoadWorkloadTimeSeriesDataFromCheckpoint_def panics_def)
  ultimately show ?thesis
    using Init_needs_checkpoint [OF _ _ _ example_workloads_eq] by blast
qed

end
