(* ===== verification/Prom_Provider.thy ===== *)
theory Prom_Provider
  imports Prom_Query Prom_Builder Collection
begin

text \<open>
  The data source of \<open>pkg/datasource-providers/prom/prometheus.go\<close>: the builder that is registered
  for Prometheus makes the query of a metric, the context of \<open>ctx.go\<close> runs it. And the choice of
  data sources in \<open>cmd/fadvisor/app/fadvisor.go\<close>. A nil dereference, or a query that does not
  return, is \<open>None\<close>; the deadline of a query is left to the context.
\<close>

datatype provider_error = BuildFailed metric_error | QueryFailed prom_error

definition query_result ::
    "time_series list \<times> prom_error option \<Rightarrow> provider_error + time_series list" where
  "query_result r = (case r of
     (tss, Some e) \<Rightarrow> Inl (QueryFailed e)
   | (tss, None) \<Rightarrow> Inr tss)"

definition prom_QueryTimeSeries ::
    "'s factories \<Rightarrow> prom_env \<Rightarrow> prom_context \<Rightarrow> bool \<Rightarrow> 's Metric_Query.metric \<Rightarrow> int \<Rightarrow> int \<Rightarrow> int \<Rightarrow>
     (provider_error + time_series list) option" where
  "prom_QueryTimeSeries fs env c fed m start en step = (case Builder fs m PrometheusMetricSource of
     None \<Rightarrow> None
   | Some build \<Rightarrow> (case build fed of
       Inl e \<Rightarrow> Some (Inl (BuildFailed e))
     | Inr q \<Rightarrow> (case Prometheus q of
         None \<Rightarrow> None
       | Some expr \<Rightarrow> map_option query_result (QueryRangeSync env c expr start en step))))"

definition prom_QueryLatestTimeSeries ::
    "'s factories \<Rightarrow> prom_context \<Rightarrow> bool \<Rightarrow> 's Metric_Query.metric \<Rightarrow> int \<Rightarrow>
     (provider_error + time_series list) option" where
  "prom_QueryLatestTimeSeries fs c fed m now = (case Builder fs m PrometheusMetricSource of
     None \<Rightarrow> None
   | Some build \<Rightarrow> (case build fed of
       Inl e \<Rightarrow> Some (Inl (BuildFailed e))
     | Inr q \<Rightarrow> (case Prometheus q of
         None \<Rightarrow> None
       | Some expr \<Rightarrow> Some (query_result (QuerySync c expr now)))))"

text \<open>The factories that the packages of builders register when they are loaded.\<close>

definition registered :: "('s, 'r) selector_ops \<Rightarrow> 's factories" where
  "registered ops = the (RegisterBuilderFactory QCloudMonitorMetricSource QCloudMonitor_BuildQuery
     (the (RegisterBuilderFactory MetricServerMetricSource MetricServer_BuildQuery
       (the (RegisterBuilderFactory PrometheusMetricSource (BuildQuery ops) [])))))"

section \<open>Which data source\<close>

text \<open>The realtime, the history and the hybrid source; the comparator is given the last.\<close>

definition initializationDataSource ::
    "string \<Rightarrow> 'p \<Rightarrow> 'p \<Rightarrow> 'p \<Rightarrow> 'p option \<times> 'p option \<times> 'p option" where
  "initializationDataSource name ms qm prom =
     (let n = to_lower name
      in if n \<in> {''metricserver'', ''ms''} then (Some ms, None, None)
         else if n \<in> {''qmonitor'', ''qcloudmonitor'', ''qm''} then (Some qm, Some qm, Some qm)
         else (Some prom, Some prom, Some prom))"

section \<open>When a query returns\<close>

lemma registered_prom: "Builder (registered ops) m PrometheusMetricSource = Some (BuildQuery ops m)"
  by (simp add: registered_def Builder_def GetBuilderFactory_def RegisterBuilderFactory_def)

lemma BuildQuery_isl: "isl (BuildQuery ops m fed) \<longleftrightarrow> \<not> supported m"
proof (cases "Type m")
  case PromQLMetricType
  then show ?thesis by (simp add: BuildQuery_def promqlQuery_def supported_def split: option.split)
next
  case (OtherMetricType s)
  then show ?thesis by (simp add: BuildQuery_def supported_def)
qed (simp_all add: BuildQuery_def workload_supported container_supported pod_supported node_supported)

lemma BuildQuery_Prometheus: "BuildQuery ops m fed = Inr q \<Longrightarrow> Prometheus q \<noteq> None"
  by (auto simp: BuildQuery_def workloadQuery_def podQuery_def containerQuery_def nodeQuery_def
      promqlQuery_def promQuery_def Let_def split: metric_type.splits option.splits if_splits)

lemma QueryRangeSync_None: "QueryRangeSync env c expr start en step = None \<longleftrightarrow> start \<le> en \<and> step \<le> 0"
proof -
  have "QueryRangeSync env c expr start en step = None \<longleftrightarrow>
      ComputeWindowShards \<lparr>Start = start, End = en, Step = step\<rparr> (maxPointsPerTimeSeries c) = None"
    by (simp add: QueryRangeSync_def Let_def split: option.split sum.split)
  then show ?thesis by (simp add: ComputeWindowShards_def count_points_None_iff)
qed

text \<open>
  C35. With the builders that are registered, a query of a metric is refused by the builder exactly when the
  metric is not supported; and it does not return exactly when the metric is supported, the range is
  not empty and its step is not positive.
\<close>

theorem provider_outcome:
  "((\<exists>e. prom_QueryTimeSeries (registered ops) env c fed m start en step = Some (Inl (BuildFailed e))) \<longleftrightarrow>
      \<not> supported m) \<and>
   (prom_QueryTimeSeries (registered ops) env c fed m start en step = None \<longleftrightarrow>
      supported m \<and> start \<le> en \<and> step \<le> 0)"
proof (cases "BuildQuery ops m fed")
  case (Inl e)
  then have "\<not> supported m" using BuildQuery_isl [of ops m fed] by simp
  with Inl show ?thesis by (simp add: prom_QueryTimeSeries_def registered_prom)
next
  case (Inr q)
  then obtain expr where expr: "Prometheus q = Some expr" using BuildQuery_Prometheus by blast
  have "supported m" using Inr BuildQuery_isl [of ops m fed] by simp
  moreover have "query_result r \<noteq> Inl (BuildFailed e)" for r e
    by (cases r; cases "snd r") (auto simp: query_result_def)
  ultimately show ?thesis
    using Inr by (auto simp: prom_QueryTimeSeries_def registered_prom expr QueryRangeSync_None)
qed

section \<open>Which workloads get series\<close>

text \<open>The comparator's data source, for queries that return.\<close>

definition prom_source ::
    "'s factories \<Rightarrow> prom_env \<Rightarrow> prom_context \<Rightarrow> bool \<Rightarrow> ('s, provider_error) data_source" where
  "prom_source fs env c fed m rg =
     the (prom_QueryTimeSeries fs env c fed m (RangeStart rg) (RangeEnd rg) (RangeStep rg))"

lemma unsupported_answer: "\<not> supported m \<Longrightarrow> \<not> answered (prom_source (registered ops) env c fed) rg m"
proof -
  assume "\<not> supported m"
  then obtain e where "BuildQuery ops m fed = Inl e"
    using BuildQuery_isl [of ops m fed] by (auto simp: isl_def)
  then show ?thesis by (simp add: answered_def prom_source_def prom_QueryTimeSeries_def registered_prom)
qed

lemma fold_workloads:
  "distinct (map fst ws) \<Longrightarrow>
     mget (fold (\<lambda>(nn, s) m. case fetch s of None \<Rightarrow> m | Some d \<Rightarrow> mput nn d m) ws m) nn =
       (case mget ws nn of None \<Rightarrow> mget m nn
        | Some s \<Rightarrow> (case fetch s of None \<Rightarrow> mget m nn | Some d \<Rightarrow> Some d))"
proof (induction ws arbitrary: m)
  case (Cons x ws)
  obtain n s where x: "x = (n, s)" by fastforce
  have "mget ws n = None" using Cons.prems by (simp add: x map_of_eq_None_iff)
  with Cons x show ?case by (simp split: option.split)
qed simp

lemma fetchWorkloadMetricData_lookup2:
  assumes "wf2 workloads"
  shows "lookup2 (fetchWorkloadMetricData ops everything cid ds rg workloads) kind nn =
    Option.bind (lookup2 workloads kind nn) (\<lambda>s. fetch_workload ops everything cid ds rg (SpecWorkload s))"
proof (cases "mget workloads kind")
  case None
  then show ?thesis by (simp add: lookup2_def fetchWorkloadMetricData_def mget_map_value)
next
  case (Some ws)
  then have "ws \<in> snd ` set workloads" by (force dest: map_of_SomeD)
  then have "distinct (map fst ws)" using assms by (auto simp: wf2_def wf_map_def)
  from fold_workloads [OF this, of "\<lambda>s. fetch_workload ops everything cid ds rg (SpecWorkload s)" "[]" nn] Some
  show ?thesis
    by (simp add: lookup2_def fetchWorkloadMetricData_def mget_map_value split: option.split)
qed

lemma replicas_query:
  "WorkloadMetricNamer ops cid (object_target u) ''replicas'' (Some everything) \<in>
     set (workload_queries ops everything cid u)"
  by (simp add: workload_queries_def Let_def)

lemma replicas_supported:
  "supported (WorkloadMetricNamer ops cid (object_target u) ''replicas'' g) \<longleftrightarrow>
     to_lower (ObjKind u) \<in> {''deployment'', ''statefulset'', ''statefulsetplus'', ''daemonset''}"
proof -
  have r: "to_lower ''replicas'' = ''replicas''" "''replicas'' \<notin> resource_names"
    by code_simp (simp add: resource_names_def usage_names_def)
  then show ?thesis
    by (simp add: supported_def WorkloadMetricNamer_def workload_metric_def empty_metric_def object_target_def)
qed

text \<open>
  The comparator over Prometheus has series for a workload exactly when all seven of its queries are
  answered, and that takes a deployment, a stateful set or a daemon set: the query for the
  replicas of any other kind fails, and with it the usage of such a workload is lost.
\<close>

theorem other_kinds_lost:
  fixes ops and env and c and fed
  assumes "wf2 workloads"
  defines "ds \<equiv> prom_source (registered ops) env c fed"
  shows "(lookup2 (fetchWorkloadMetricData ops everything cid ds rg workloads) kind nn \<noteq> None \<longleftrightarrow>
      (\<exists>s. lookup2 workloads kind nn = Some s \<and>
        list_all (answered ds rg) (workload_queries ops everything cid (SpecWorkload s)))) \<and>
    (\<forall>s. lookup2 workloads kind nn = Some s \<longrightarrow>
      to_lower (ObjKind (SpecWorkload s)) \<notin> {''deployment'', ''statefulset'', ''statefulsetplus'', ''daemonset''} \<longrightarrow>
      lookup2 (fetchWorkloadMetricData ops everything cid ds rg workloads) kind nn = None)"
proof -
  have look: "lookup2 (fetchWorkloadMetricData ops everything cid ds rg workloads) kind nn =
      Option.bind (lookup2 workloads kind nn) (\<lambda>s.
        if list_all (answered ds rg) (workload_queries ops everything cid (SpecWorkload s))
        then Some (workload_data (map (answer ds rg) (workload_queries ops everything cid (SpecWorkload s))))
        else None)"
    by (simp add: fetchWorkloadMetricData_lookup2 [OF assms(1)] fetch_workload_def query_all_eq
        if_distrib [of "map_option workload_data"] cong: if_cong)
  have "\<not> list_all (answered ds rg) (workload_queries ops everything cid u)"
    if "to_lower (ObjKind u) \<notin> {''deployment'', ''statefulset'', ''statefulsetplus'', ''daemonset''}" for u
  proof -
    from that have "\<not> supported (WorkloadMetricNamer ops cid (object_target u) ''replicas'' (Some everything))"
      unfolding replicas_supported .
    from unsupported_answer [OF this] replicas_query [of ops cid u everything] show ?thesis
      unfolding ds_def list_all_iff by blast
  qed
  with look show ?thesis by (auto split: if_splits Option.bind_splits)
qed

text \<open>A workload of another kind, whose queries Prometheus answers all.\<close>

definition other_workloads :: "nat workloads" where
  "other_workloads = [(''CloneSet'', [((''default'', ''web''),
     with_workload (CloudPodSpec.truncate example_web) (example_object ''CloneSet'' ''web'' None))])]"

theorem other_kinds_lost_witness:
  "lookup2 (fetchWorkloadMetricData list_ops [] ''cls''
     (prom_source (registered list_ops) Prom_Query.example_env example_context True) example_range other_workloads)
     ''CloneSet'' (''default'', ''web'') = None"
proof -
  let ?s = "with_workload (CloudPodSpec.truncate example_web) (example_object ''CloneSet'' ''web'' None)"
  have wf: "wf2 other_workloads" by (simp add: other_workloads_def wf2_def wf_map_def)
  have s: "lookup2 other_workloads ''CloneSet'' (''default'', ''web'') = Some ?s"
    by (simp add: other_workloads_def lookup2_def)
  have "ObjKind (SpecWorkload ?s) = ''CloneSet''"
    by (simp add: with_workload_def CloudPodSpec.extend_def workload_spec.fields_def example_object_def)
  moreover have "to_lower ''CloneSet'' \<notin> {''deployment'', ''statefulset'', ''statefulsetplus'', ''daemonset''}"
    by code_simp
  ultimately show ?thesis
    using other_kinds_lost [OF wf, where ops = list_ops and env = Prom_Query.example_env and
        c = example_context and fed = True and everything = "[]" and cid = "''cls''" and
        rg = example_range and kind = "''CloneSet''" and nn = "(''default'', ''web'')"] s by simp
qed

end
