(* ===== verification/Report.thy ===== *)
theory Report
  imports Prom_Provider
begin

text \<open>
  \<open>DoAnalysis\<close> of \<open>pkg/cost-comparator/comparator.go\<close> and the reports of \<open>comparator_reporter.go\<close>: the
  rows of the seven reports and where they go. A report is a table on standard output and a file
  of its rows, each only in some output modes; a file that can not be written ends the process.
  \<open>Report_Run\<close> has the methods themselves, with their titles and colours, and shows that this is what comes out of them. The JSON of a container's statistics is a
  parameter, which \<open>Csv_Files\<close> fills in with the bytes and the paths of the files; that of labels is for labels as Kubernetes accepts them, where nothing is escaped.
\<close>

section \<open>Numbers and labels\<close>

definition cores :: "'q quantity_ops \<Rightarrow> 'q \<Rightarrow> string" where
  "cores ops q = Float642Str (float_of_int (QMilliValue ops q) / float_of_int 1000)"

definition gigabytes :: "'q quantity_ops \<Rightarrow> 'q \<Rightarrow> string" where
  "gigabytes ops q = Float642Str (float_of_int (QValue ops q) / GB)"

definition format_bool :: "bool \<Rightarrow> string" where
  "format_bool b = (if b then ''true'' else ''false'')"

definition quoted :: "string \<Rightarrow> string" where
  "quoted s = CHR 0x22 # s @ [CHR 0x22]"

text \<open>\<open>json.Marshal\<close> of a map: its keys in order.\<close>

definition json_labels :: "labels \<Rightarrow> string" where
  "json_labels m = ''{'' @ join_with '','' (map (\<lambda>k. quoted k @ '':'' @ quoted (mget_default [] m k))
     (sort (map fst m))) @ ''}''"

section \<open>Reports\<close>

record report =
  ReportName :: string
  ReportHeader :: "string list"
  ReportRows :: table

text \<open>What a pod asks for and may use: CPU and memory of each.\<close>

definition resource_cells :: "'q quantity_ops \<Rightarrow> 'q \<Rightarrow> 'q \<Rightarrow> 'q \<Rightarrow> 'q \<Rightarrow> string list" where
  "resource_cells ops cpu mem cpuLim memLim =
     [cores ops cpu, gigabytes ops mem, cores ops cpuLim, gigabytes ops memLim]"

definition original_row ::
    "'q quantity_ops \<Rightarrow> 'q pod_ops \<Rightarrow> string \<Rightarrow> namespaced_name \<Rightarrow> 'q workload_spec \<Rightarrow> string list" where
  "original_row ops pops kind nn s =
     [kind, fst nn, snd nn] @
     (if Serverless s then resource_cells ops (CloudPodSpec.Cpu s) (CloudPodSpec.Mem s) (CpuLimit s) (MemLimit s)
      else let (req, lim) = PodRequestsAndLimits pops (PodRef s)
           in resource_cells ops (res ops req ''cpu'') (res ops req ''memory'')
                (res ops lim ''cpu'') (res ops lim ''memory'')) @
     [format_int (GoodsNum s), format_bool (Serverless s), QoSClass s,
      (case ObjLabels (SpecWorkload s) of None \<Rightarrow> [] | Some m \<Rightarrow> json_labels m)]"

definition each_workload ::
    "(string \<Rightarrow> namespaced_name \<Rightarrow> 'd \<Rightarrow> 'r) \<Rightarrow> (string, (namespaced_name, 'd) gomap) gomap \<Rightarrow> 'r list" where
  "each_workload f m = concat (map (\<lambda>(kind, ws). map (\<lambda>(nn, d). f kind nn d) ws) m)"

definition distribution_header :: "string \<Rightarrow> string list" where
  "distribution_header l = [''Kind'', ''Namespace'', ''Name'', ''CpuReq'', ''MemReq'', ''CpuLim'',
     ''MemLim'', ''Replicas'', ''Serverless'', ''K8SQoS'', l]"

definition ReportOriginalWorkloadsResourceDistribution ::
    "'q quantity_ops \<Rightarrow> 'q pod_ops \<Rightarrow> 'q workloads \<Rightarrow> report" where
  "ReportOriginalWorkloadsResourceDistribution ops pops workloads =
     \<lparr>ReportName = ''-original-workloads-distribution'', ReportHeader = distribution_header ''Labels'',
      ReportRows = each_workload (original_row ops pops) workloads\<rparr>"

type_synonym stats_json = "(string, Statistic \<times> Statistic) gomap \<Rightarrow> string"

definition recommended_row ::
    "'q quantity_ops \<Rightarrow> stats_json \<Rightarrow> string \<Rightarrow> namespaced_name \<Rightarrow> 'q WorkloadRecommendedData \<Rightarrow>
     string list" where
  "recommended_row ops json kind nn d =
     (let s = RecommendedSpec d
      in [kind, fst nn, snd nn] @
         resource_cells ops (CloudPodSpec.Cpu s) (CloudPodSpec.Mem s) (CpuLimit s) (MemLimit s) @
         [format_int (GoodsNum s), format_bool (Serverless s), QoSClass s, json (RecContainers d)])"

definition ReportRecommendedWorkloadsResourceDistribution ::
    "'q quantity_ops \<Rightarrow> stats_json \<Rightarrow> 'q recommendations \<Rightarrow> report" where
  "ReportRecommendedWorkloadsResourceDistribution ops json recs =
     \<lparr>ReportName = ''-recommended-workloads-distribution'',
      ReportHeader = distribution_header ''ContainerStats'',
      ReportRows = each_workload (recommended_row ops json) recs\<rparr>"

definition total_row :: "'q quantity_ops \<Rightarrow> string \<Rightarrow> 'q resource_list \<Rightarrow> string list" where
  "total_row ops name rl = [name, cores ops (res ops rl ''cpu''), gigabytes ops (res ops rl ''memory'')]"

text \<open>The virtual nodes' row has the quantities as Kubernetes writes them.\<close>

definition ReportOriginalResourceSummary ::
    "'q quantity_ops \<Rightarrow> 'q pod_ops \<Rightarrow> ('q pod \<Rightarrow> bool) \<Rightarrow> ('q node \<Rightarrow> bool) \<Rightarrow> 'q pod list \<Rightarrow> 'q node list \<Rightarrow>
     report" where
  "ReportOriginalResourceSummary ops pops serverless virtual pods nodes =
     (let cluster = PodsRequestsAndLimitsTotal ops pops pods (\<lambda>p. False) False;
          serverful = PodsRequestsAndLimitsTotal ops pops pods serverless False;
          serverless = PodsRequestsAndLimitsTotal ops pops pods serverless True;
          real = NodesResourceTotal ops nodes virtual False;
          virtual = NodesResourceTotal ops nodes virtual True
      in \<lparr>ReportName = ''-original-resource-summary'', ReportHeader = [''Type'', ''Cpu'', ''Mem''],
          ReportRows =
            [total_row ops ''clusterRequestsTotal'' (fst cluster),
             total_row ops ''clusterLimitsTotal'' (snd cluster),
             total_row ops ''serverfulRequestsTotal'' (fst serverful),
             total_row ops ''serverfulLimitsTotal'' (snd serverful),
             total_row ops ''serverlessRequestsTotal'' (fst serverless),
             total_row ops ''serverlessLimitsTotal'' (snd serverless),
             total_row ops ''clusterRealNodesCapacityTotal'' real,
             [''clusterVirtualNodesCapacityTotal'', QString ops (res ops virtual ''cpu''),
              QString ops (res ops virtual ''memory'')]]\<rparr>)"

definition cost_header :: "string list" where
  "cost_header = [''Type'', ''TotalCost'', ''ServerfulCost'', ''ServerlessCost'', ''ServerfulPlatformCost'',
     ''ServerlessPlatformCost'']"

definition cost_row :: "string \<Rightarrow> Coster.Cost \<Rightarrow> string list" where
  "cost_row name c = [name, Float642Str (TotalCost c), Float642Str (ServerfulCost c),
     Float642Str (ServerlessCost c), Float642Str (ServerfulPlatformCost c),
     Float642Str (ServerlessPlatformCost c)]"

definition ReportOriginalCostSummary :: "('q, 'e) CosterContext \<Rightarrow> report" where
  "ReportOriginalCostSummary ctx = \<lparr>ReportName = ''-original-cost-summary'', ReportHeader = cost_header,
     ReportRows = [cost_row ''tke'' (serverful_TotalCost ctx)]\<rparr>"

definition ReportRawServerlessCostSummary :: "('q, 'e) CosterContext \<Rightarrow> report" where
  "ReportRawServerlessCostSummary ctx = \<lparr>ReportName = ''-direct-migrate-serverless-cost-summary'',
     ReportHeader = cost_header, ReportRows = [cost_row ''eks'' (serverless_TotalCost ctx)]\<rparr>"

definition ReportRecommendedResourceSummary ::
    "'q quantity_ops \<Rightarrow> 'q recommendations \<Rightarrow> report" where
  "ReportRecommendedResourceSummary ops recs =
     \<lparr>ReportName = ''-recommended-serverless-resource-summary'', ReportHeader = [''Type'', ''Cpu'', ''Mem''],
      ReportRows = [total_row ops ''recomendedServerlessResourceTotal''
        (ServerlessWorkloadsResourceTotal ops recs)]\<rparr>"

definition rec_cost_row :: "string \<Rightarrow> RecommendedCost \<Rightarrow> string list" where
  "rec_cost_row name c = [name, Float642Str (RTotalCost c), Float642Str (WorkloadCost c),
     Float642Str (PlatformCost c)]"

definition ReportRecommendedCostSummary :: "('q, 'e) CosterContext \<Rightarrow> report" where
  "ReportRecommendedCostSummary ctx = (case recommender_TotalCost ctx of (recd, percentile, mx, margin) \<Rightarrow>
     \<lparr>ReportName = ''-recommended-cost-summary'',
      ReportHeader = [''Type'', ''TotalCost'', ''WorkloadCost'', ''PlatformCost''],
      ReportRows = [rec_cost_row ''eks-recommended-by-percentile-margin'' recd,
        rec_cost_row ''eks-recommended-by-percentile'' percentile,
        rec_cost_row ''eks-recommended-by-max-margin'' margin,
        rec_cost_row ''eks-recommended-by-max'' mx]\<rparr>)"

section \<open>Output\<close>

text \<open>Standard output, and the files written, both in their order; whether the process goes on.\<close>

record outputs =
  Printed :: "(string list \<times> table) list"
  Written :: "(string \<times> table) list"
  Alive :: bool

definition publish :: "comparator_config \<Rightarrow> (string \<Rightarrow> bool) \<Rightarrow> report \<Rightarrow> outputs \<Rightarrow> outputs" where
  "publish cfg writable r out =
     (if \<not> Alive out then out
      else let mode = OutputMode cfg; file = ClusterId cfg @ ReportName r @ ''.csv'';
               out = (if mode = [] \<or> mode = ''stdout''
                      then out\<lparr>Printed := Printed out @ [(ReportHeader r, ReportRows r)]\<rparr> else out)
           in if mode = [] \<or> mode = ''csv'' then
                (if writable file then out\<lparr>Written := Written out @ [(file, ReportHeader r # ReportRows r)]\<rparr>
                 else out\<lparr>Alive := False\<rparr>)
              else out)"

definition reports ::
    "'q quantity_ops \<Rightarrow> 'q pod_ops \<Rightarrow> stats_json \<Rightarrow> ('q pod \<Rightarrow> bool) \<Rightarrow> ('q node \<Rightarrow> bool) \<Rightarrow> 'q pod list \<Rightarrow>
     'q node list \<Rightarrow> 'q workloads \<Rightarrow> ('q, 'e) CosterContext \<Rightarrow> report list" where
  "reports ops pops json serverless virtual pods nodes workloads ctx =
     [ReportOriginalResourceSummary ops pops serverless virtual pods nodes,
      ReportOriginalCostSummary ctx,
      ReportRawServerlessCostSummary ctx,
      ReportRecommendedResourceSummary ops (WorkloadsRecSpec ctx),
      ReportRecommendedCostSummary ctx,
      ReportOriginalWorkloadsResourceDistribution ops pops workloads,
      ReportRecommendedWorkloadsResourceDistribution ops json (WorkloadsRecSpec ctx)]"

section \<open>The analysis\<close>

text \<open>What the comparator calls of its cloud.\<close>

record ('q, 'w, 'e) baseline_cloud =
  CPod2Spec :: "('q, 'w) spec_fun"
  CPod2ServerlessSpec :: "('q, 'w) spec_fun"
  CNode2Spec :: "'q node \<Rightarrow> 'q CloudNodeSpec"
  CIsServerlessPod :: "'q pod \<Rightarrow> bool"
  CIsVirtualNode :: "'q node \<Rightarrow> bool"
  CPricer :: "('q, 'e) Pricer"

definition no_outputs :: outputs where
  "no_outputs = \<lparr>Printed = [], Written = [], Alive = True\<rparr>"

definition coster_context ::
    "('q, 'w, 'e) baseline_cloud \<Rightarrow> int \<times> float64 \<Rightarrow> (string, 'q CloudPodSpec) gomap \<Rightarrow>
     (string, 'q CloudNodeSpec) gomap \<Rightarrow> 'q workloads \<Rightarrow> 'q recommendations \<Rightarrow> ('q, 'e) CosterContext" where
  "coster_context cl span pods nodes workloads recs =
     \<lparr>TimeSpanSeconds = fst span, Discount = Some (snd span), PodsSpec = pods, NodesSpec = nodes,
      WorkloadsSpec = pod_specs workloads, WorkloadsRecSpec = recs, CtxPricer = CPricer cl\<rparr>"

definition DoAnalysis ::
    "comparator_config \<Rightarrow> int \<times> float64 \<Rightarrow> (string \<Rightarrow> bool) \<Rightarrow> 'q quantity_ops \<Rightarrow> 'q pod_ops \<Rightarrow>
     stats_json \<Rightarrow> 'x stats_ops \<Rightarrow> ('q, 'w, 'e) baseline_cloud \<Rightarrow> 'q pod list \<Rightarrow> 'q node list \<Rightarrow>
     'q comparator \<Rightarrow> 'w \<Rightarrow> (cloud_error + outputs) \<times> 'w" where
  "DoAnalysis cfg span writable ops pops json st cl pods nodes c w =
     (case GetAllPodsSpec (CPod2Spec cl) pods [] w of
        (Inl e, w1) \<Rightarrow> (Inl e, w1)
      | (Inr podsSpec, w1) \<Rightarrow>
          (case GetAllWorkloadRecommendedData ops st [] (CPod2ServerlessSpec cl)
              (containersTimeSeriesDataCache c) (pod_specs (workloadsSpecCache c)) w1 of
             (Inl e, w2) \<Rightarrow> (Inl e, w2)
           | (Inr recs, w2) \<Rightarrow>
               (let ctx = coster_context cl span podsSpec (GetAllNodesSpec (CNode2Spec cl) nodes)
                      (workloadsSpecCache c) recs;
                    rs = reports ops pops json (CIsServerlessPod cl) (CIsVirtualNode cl) pods nodes
                      (workloadsSpecCache c) ctx
                in (Inr (fold (publish cfg writable) rs no_outputs), w2))))"

section \<open>What comes out\<close>

definition prints :: "comparator_config \<Rightarrow> bool" where
  "prints cfg \<longleftrightarrow> OutputMode cfg = [] \<or> OutputMode cfg = ''stdout''"

definition writes :: "comparator_config \<Rightarrow> bool" where
  "writes cfg \<longleftrightarrow> OutputMode cfg = [] \<or> OutputMode cfg = ''csv''"

definition file_of :: "comparator_config \<Rightarrow> report \<Rightarrow> string" where
  "file_of cfg r = ClusterId cfg @ ReportName r @ ''.csv''"

definition table_of :: "report \<Rightarrow> string list \<times> table" where
  "table_of r = (ReportHeader r, ReportRows r)"

definition csv_of :: "comparator_config \<Rightarrow> report \<Rightarrow> string \<times> table" where
  "csv_of cfg r = (file_of cfg r, ReportHeader r # ReportRows r)"

text \<open>The outputs of a list of reports: all of them, or up to the first that can not be written.\<close>

definition published :: "comparator_config \<Rightarrow> (string \<Rightarrow> bool) \<Rightarrow> report list \<Rightarrow> outputs" where
  "published cfg writable rs =
     (let ok = (\<lambda>r. writes cfg \<longrightarrow> writable (file_of cfg r)); before = takeWhile ok rs
      in \<lparr>Printed = (if prints cfg then map table_of (take (Suc (length before)) rs) else []),
          Written = (if writes cfg then map (csv_of cfg) before else []),
          Alive = list_all ok rs\<rparr>)"

lemma publish_simps:
  "publish cfg writable r out = (if \<not> Alive out then out else
     \<lparr>Printed = Printed out @ (if prints cfg then [table_of r] else []),
      Written = Written out @ (if writes cfg \<and> writable (file_of cfg r) then [csv_of cfg r] else []),
      Alive = (writes cfg \<longrightarrow> writable (file_of cfg r))\<rparr>)"
  by (cases out) (simp add: publish_def prints_def writes_def file_of_def table_of_def csv_of_def Let_def)

lemma publish_stopped: "\<not> Alive out \<Longrightarrow> fold (publish cfg writable) rs out = out"
  by (induction rs) (simp_all add: publish_simps)

lemma fold_publish:
  "Alive out \<Longrightarrow> fold (publish cfg writable) rs out =
     (let new = published cfg writable rs
      in \<lparr>Printed = Printed out @ Printed new, Written = Written out @ Written new, Alive = Alive new\<rparr>)"
proof (induction rs arbitrary: out)
  case (Cons r rs)
  show ?case
  proof (cases "writes cfg \<longrightarrow> writable (file_of cfg r)")
    case True
    then have "Alive (publish cfg writable r out)" by (simp add: publish_simps Cons.prems)
    from Cons.IH [OF this] True Cons.prems show ?thesis
      by (auto simp: publish_simps [of cfg writable r out] published_def Let_def)
  next
    case False
    then have "\<not> Alive (publish cfg writable r out)" by (simp add: publish_simps Cons.prems)
    from publish_stopped [OF this, of cfg writable rs] False Cons.prems show ?thesis
      by (auto simp: publish_simps [of cfg writable r out] published_def Let_def)
  qed
qed (simp add: published_def Let_def)

text \<open>
  C13. An analysis that returns has made its seven reports in their order. A mode that is neither
  empty nor one of the two known ones gives no output at all; otherwise the tables are printed
  and the files written as the mode says, each file holding the rows of its table, and the
  first file that can not be written ends the process after its table and before the next report.
\<close>

theorem analysis_outputs:
  assumes "DoAnalysis cfg span writable ops pops json st cl pods nodes c w = (Inr out, w')"
  shows "\<exists>podsSpec recs w1.
    GetAllPodsSpec (CPod2Spec cl) pods [] w = (Inr podsSpec, w1) \<and>
    GetAllWorkloadRecommendedData ops st [] (CPod2ServerlessSpec cl) (containersTimeSeriesDataCache c)
      (pod_specs (workloadsSpecCache c)) w1 = (Inr recs, w') \<and>
    out = published cfg writable (reports ops pops json (CIsServerlessPod cl) (CIsVirtualNode cl) pods nodes
      (workloadsSpecCache c) (coster_context cl span podsSpec (GetAllNodesSpec (CNode2Spec cl) nodes)
        (workloadsSpecCache c) recs)) \<and>
    (OutputMode cfg \<notin> {[], ''stdout'', ''csv''} \<longrightarrow> Printed out = [] \<and> Written out = [] \<and> Alive out)"
proof -
  from assms obtain podsSpec recs w1 where
    a: "GetAllPodsSpec (CPod2Spec cl) pods [] w = (Inr podsSpec, w1)"
    "GetAllWorkloadRecommendedData ops st [] (CPod2ServerlessSpec cl) (containersTimeSeriesDataCache c)
      (pod_specs (workloadsSpecCache c)) w1 = (Inr recs, w')"
    and out: "out = fold (publish cfg writable) (reports ops pops json (CIsServerlessPod cl)
      (CIsVirtualNode cl) pods nodes (workloadsSpecCache c) (coster_context cl span podsSpec
      (GetAllNodesSpec (CNode2Spec cl) nodes) (workloadsSpecCache c) recs)) no_outputs"
    by (auto simp: DoAnalysis_def Let_def split: prod.splits sum.splits)
  have pub: "fold (publish cfg writable) rs no_outputs = published cfg writable rs" for rs
    using fold_publish [of no_outputs cfg writable rs] by (simp add: no_outputs_def published_def Let_def)
  have "Printed (published cfg writable rs) = [] \<and> Written (published cfg writable rs) = [] \<and>
      Alive (published cfg writable rs)" if "OutputMode cfg \<notin> {[], ''stdout'', ''csv''}" for rs
    using that by (simp add: published_def Let_def prints_def writes_def list_all_iff)
  with a out show ?thesis unfolding pub by blast
qed

section \<open>The two distributions\<close>

lemma mget_pod_specs:
  "mget (pod_specs m) kind = map_option (map (\<lambda>(nn, s). (nn, CloudPodSpec.truncate s))) (mget m kind)"
  by (simp add: pod_specs_def mget_map_value)

lemma lookup2_pod_specs: "lookup2 (pod_specs m) kind nn = map_option CloudPodSpec.truncate (lookup2 m kind nn)"
  unfolding pod_specs_def by (rule lookup2_map)

lemma wf2_pod_specs: "wf2 m \<Longrightarrow> wf_map (pod_specs m) \<and> (\<forall>ws \<in> snd ` set (pod_specs m). wf_map ws)"
proof -
  assume wf: "wf2 m"
  have eq: "pod_specs m = map_values (\<lambda>k. map_values (\<lambda>nn. CloudPodSpec.truncate)) m"
    by (simp add: pod_specs_def map_values_def)
  show ?thesis using wf unfolding eq by (auto simp: wf2_def set_map_values)
qed

lemma each_workload_mem:
  assumes "wf2 m"
  shows "r \<in> set (each_workload f m) \<longleftrightarrow> (\<exists>kind nn d. lookup2 m kind nn = Some d \<and> r = f kind nn d)"
proof -
  have "r \<in> set (each_workload f m) \<longleftrightarrow>
      (\<exists>kind ws nn d. (kind, ws) \<in> set m \<and> (nn, d) \<in> set ws \<and> r = f kind nn d)"
    by (force simp: each_workload_def)
  also have "\<dots> \<longleftrightarrow> (\<exists>kind nn d. lookup2 m kind nn = Some d \<and> r = f kind nn d)"
  proof -
    have outer: "(kind, ws) \<in> set m \<longleftrightarrow> mget m kind = Some ws" for kind ws
      using assms by (intro wf_map_mget [symmetric]) (simp add: wf2_def)
    have inner: "(nn, d) \<in> set ws \<longleftrightarrow> mget ws nn = Some d" if "(kind, ws) \<in> set m" for kind ws nn d
      using assms that by (intro wf_map_mget [symmetric]) (force simp: wf2_def)
    have "lookup2 m kind nn = Some d \<longleftrightarrow> (\<exists>ws. (kind, ws) \<in> set m \<and> (nn, d) \<in> set ws)" for kind nn d
    proof (cases "mget m kind")
      case None
      with outer [of kind] show ?thesis by (simp add: lookup2_def)
    next
      case (Some ws)
      with outer [of kind] inner [of kind ws nn d] show ?thesis by (simp add: lookup2_def)
    qed
    then show ?thesis by blast
  qed
  finally show ?thesis .
qed

text \<open>The kind, the namespace, the name and the replicas of a row.\<close>

definition row_key :: "string list \<Rightarrow> string list" where
  "row_key r = take 3 r @ [r ! 7]"

lemma each_workload_keys:
  assumes "wf2 m"
  shows "g ` set (each_workload f m) =
    {g (f kind nn d) | kind nn d. lookup2 m kind nn = Some d}"
proof (rule set_eqI)
  fix x
  have "x \<in> g ` set (each_workload f m) \<longleftrightarrow> (\<exists>r. r \<in> set (each_workload f m) \<and> x = g r)"
    by (simp only: image_iff Bex_def)
  also have "\<dots> \<longleftrightarrow> (\<exists>kind nn d. lookup2 m kind nn = Some d \<and> x = g (f kind nn d))"
    unfolding each_workload_mem [OF assms] by blast
  finally show "x \<in> g ` set (each_workload f m) \<longleftrightarrow>
      x \<in> {g (f kind nn d) | kind nn d. lookup2 m kind nn = Some d}"
    by (simp only: mem_Collect_eq conj_commute)
qed

lemma row_keys:
  "row_key (original_row ops pops kind nn s) = [kind, fst nn, snd nn, format_int (GoodsNum s)]"
  "row_key (recommended_row ops json kind nn d) =
     [kind, fst nn, snd nn, format_int (GoodsNum (RecommendedSpec d))]"
  "take 3 (original_row ops pops kind nn s) = [kind, fst nn, snd nn]"
  "take 3 (recommended_row ops json kind nn d) = [kind, fst nn, snd nn]"
  by (simp_all add: row_key_def original_row_def recommended_row_def resource_cells_def Let_def split_def)

lemma GoodsNum_truncate [simp]: "GoodsNum (CloudPodSpec.truncate s) = GoodsNum s"
  by (simp add: CloudPodSpec.truncate_def)

lemma recs_lookup2:
  assumes "GetAllWorkloadRecommendedData ops st ecfg p2s data (pod_specs m) w = (Inr recs, w')" "wf2 m"
  shows "(\<forall>s. lookup2 m kind nn = Some s \<longrightarrow> (\<exists>d. lookup2 recs kind nn = Some d \<and>
      GoodsNum (RecommendedSpec d) = GoodsNum s)) \<and>
    (lookup2 m kind nn = None \<longrightarrow> lookup2 recs kind nn = None)"
proof -
  have f: "\<And>data s w d w'. rec_workload ops st ecfg p2s data s w = (Inr d, w') \<Longrightarrow> fits_workload ops s d"
    by (rule rec_workload_fits)
  from assms(1) have g: "rec_kinds (rec_workload ops st ecfg p2s) data (pod_specs m) [] w = (Inr recs, w')"
    by (simp add: GetAllWorkloadRecommendedData_def)
  from rec_kinds_get [OF f g] wf2_pod_specs [OF assms(2)] have
    some: "\<And>kind ws. mget (pod_specs m) kind = Some ws \<Longrightarrow> \<exists>ds. mget recs kind = Some ds \<and> mkeys ds = mkeys ws \<and>
      (\<forall>nn s. mget ws nn = Some s \<longrightarrow> (\<exists>d. mget ds nn = Some d \<and> fits_workload ops s d))"
    and none: "\<And>kind. kind \<notin> mkeys (pod_specs m) \<Longrightarrow> mget recs kind = None" by auto
  show ?thesis
  proof (cases "mget (pod_specs m) kind")
    case None
    with none have "mget recs kind = None" by (simp add: mget_None_iff)
    with None show ?thesis by (simp add: lookup2_def mget_pod_specs)
  next
    case (Some ws)
    from some [OF this] obtain ds where ds: "mget recs kind = Some ds" "mkeys ds = mkeys ws"
      "\<forall>nn s. mget ws nn = Some s \<longrightarrow> (\<exists>d. mget ds nn = Some d \<and> fits_workload ops s d)" by blast
    have look: "map_option CloudPodSpec.truncate (lookup2 m kind nn) = mget ws nn"
      using Some lookup2_pod_specs [of m kind nn] by (simp add: lookup2_def)
    show ?thesis
    proof (cases "lookup2 m kind nn")
      case None
      with look have "nn \<notin> mkeys ws" by (simp add: mget_None_iff [symmetric])
      with ds(2) have "mget ds nn = None" by (simp add: mget_None_iff)
      with None ds(1) show ?thesis by (simp add: lookup2_def)
    next
      case (Some s)
      with look have "mget ws nn = Some (CloudPodSpec.truncate s)" by simp
      with ds(3) obtain d where d: "mget ds nn = Some d" "fits_workload ops (CloudPodSpec.truncate s) d" by blast
      with Some ds(1) show ?thesis by (auto simp: lookup2_def fits_workload_def)
    qed
  qed
qed

lemma recs_shape:
  assumes "GetAllWorkloadRecommendedData ops st ecfg p2s data (pod_specs m) w = (Inr recs, w')"
  shows "wf2 recs"
proof -
  have ws: "rec_workloads f kd specs acc w = (Inr ds, w') \<Longrightarrow> wf_map acc \<Longrightarrow> wf_map ds"
    for f kd specs acc w ds w'
    by (induction f kd specs acc w rule: rec_workloads.induct) (auto split: prod.splits sum.splits)
  have "rec_kinds f data specs acc w = (Inr recs, w') \<Longrightarrow> wf2 acc \<Longrightarrow> wf2 recs" for f data specs acc w recs w'
    by (induction f data specs acc w rule: rec_kinds.induct)
      (auto split: prod.splits sum.splits intro!: wf2_put dest!: ws)
  from this [of _ data "pod_specs m" "[]" w recs w'] assms show ?thesis
    by (simp add: GetAllWorkloadRecommendedData_def)
qed

text \<open>
  The two distributions are about the same workloads: the rows of one have the same kinds, namespaces,
  names and numbers of replicas as the rows of the other, one row for each workload in both.
\<close>

theorem distributions_agree:
  assumes "GetAllWorkloadRecommendedData ops st ecfg p2s data (pod_specs m) w = (Inr recs, w')" "wf2 m"
  shows "row_key ` set (ReportRows (ReportOriginalWorkloadsResourceDistribution ops pops m)) =
      row_key ` set (ReportRows (ReportRecommendedWorkloadsResourceDistribution ops json recs)) \<and>
    [kind, ns, n, g] \<in> row_key ` set (ReportRows (ReportOriginalWorkloadsResourceDistribution ops pops m)) =
      (\<exists>s. lookup2 m kind (ns, n) = Some s \<and> g = format_int (GoodsNum s))"
proof
  have o: "row_key ` set (ReportRows (ReportOriginalWorkloadsResourceDistribution ops pops m)) =
      {[kind, fst nn, snd nn, format_int (GoodsNum s)] | kind nn s. lookup2 m kind nn = Some s}"
    unfolding ReportOriginalWorkloadsResourceDistribution_def
    by (simp add: each_workload_keys [OF assms(2)] row_keys)
  have r: "row_key ` set (ReportRows (ReportRecommendedWorkloadsResourceDistribution ops json recs)) =
      {[kind, fst nn, snd nn, format_int (GoodsNum (RecommendedSpec d))] | kind nn d. lookup2 recs kind nn = Some d}"
    unfolding ReportRecommendedWorkloadsResourceDistribution_def
    by (simp add: each_workload_keys [OF recs_shape [OF assms(1)]] row_keys)
  have "(\<exists>s. lookup2 m kind nn = Some s \<and> GoodsNum s = k) \<longleftrightarrow>
      (\<exists>d. lookup2 recs kind nn = Some d \<and> GoodsNum (RecommendedSpec d) = k)" for kind nn k
    using recs_lookup2 [OF assms, of kind nn] by (cases "lookup2 m kind nn") auto
  then show "row_key ` set (ReportRows (ReportOriginalWorkloadsResourceDistribution ops pops m)) =
      row_key ` set (ReportRows (ReportRecommendedWorkloadsResourceDistribution ops json recs))"
    unfolding o r by auto metis+
  show "[kind, ns, n, g] \<in> row_key ` set (ReportRows (ReportOriginalWorkloadsResourceDistribution ops pops m)) =
      (\<exists>s. lookup2 m kind (ns, n) = Some s \<and> g = format_int (GoodsNum s))"
    unfolding o by auto
qed

section \<open>Examples\<close>

definition analysed_recs :: "nat recommendations" where
  "analysed_recs = projr (fst (GetAllWorkloadRecommendedData nat_ops const_stats [] plain_spec []
     (pod_specs example_workloads) 3))"

lemma analysed_recs_eq:
  "GetAllWorkloadRecommendedData nat_ops const_stats [] plain_spec [] (pod_specs example_workloads) 3 =
     (Inr analysed_recs, 7)"
proof -
  have "\<not> isl (fst (GetAllWorkloadRecommendedData nat_ops const_stats [] plain_spec []
      (pod_specs example_workloads) 3)) \<and>
    snd (GetAllWorkloadRecommendedData nat_ops const_stats [] plain_spec [] (pod_specs example_workloads) 3) = 7"
    by code_simp
  then show ?thesis
    by (cases "GetAllWorkloadRecommendedData nat_ops const_stats [] plain_spec [] (pod_specs example_workloads) 3")
      (auto simp: analysed_recs_def isl_def)
qed

lemma example_workloads_wf: "wf2 example_workloads"
  by (simp add: example_workloads_def wf2_def wf_map_def)

theorem distributions_agree_witness:
  "[''Deployment'', ''default'', ''web'', format_int 3] \<in> row_key `
     set (ReportRows (ReportRecommendedWorkloadsResourceDistribution nat_ops (\<lambda>m. []) analysed_recs))"
proof -
  have "lookup2 example_workloads ''Deployment'' (''default'', ''web'') = Some example_web"
    by (simp add: example_workloads_def lookup2_def)
  moreover have "GoodsNum example_web = 3"
    by (simp add: example_web_def with_workload_def CloudPodSpec.extend_def)
  ultimately show ?thesis
    using distributions_agree [OF analysed_recs_eq example_workloads_wf, where json = "\<lambda>m. []" and
        kind = "''Deployment''" and ns = "''default''" and n = "''web''" and g = "format_int 3" and
        pops = nat_pod_ops] by auto
qed

definition example_cloud :: "(nat, nat, string) baseline_cloud" where
  "example_cloud = \<lparr>CPod2Spec = plain_spec, CPod2ServerlessSpec = plain_spec,
     CNode2Spec = (\<lambda>n. \<lparr>NodeRef = n, NodeCpu = 0, NodeMem = 0, NodeInstanceType = [], NodeChargeType = [],
       NodeZone = [], NodeRegion = [], VirtualNode = False\<rparr>),
     CIsServerlessPod = (\<lambda>p. False), CIsVirtualNode = (\<lambda>n. False),
     CPricer = \<lparr>Pricer.NodePrice = (\<lambda>n. Inl ''none''), ServerlessPodPrice = (\<lambda>p. Inl ''none''),
       PlatformPrice = (\<lambda>p. \<lparr>TotalPrice = 0, DiscountPrice = None\<rparr>)\<rparr>\<rparr>"

theorem analysis_outputs_witness:
  "\<exists>out. DoAnalysis ((example_config True)\<lparr>OutputMode := ''xml''\<rparr>) (3600, 1) (\<lambda>f. True) nat_ops nat_pod_ops
      (\<lambda>m. []) const_stats example_cloud example_pods [] first_start 0 = (Inr out, 7) \<and>
    Printed out = [] \<and> Written out = []"
proof -
  let ?cfg = "(example_config True)\<lparr>OutputMode := ''xml''\<rparr>"
  have "\<exists>m. GetAllPodsSpec plain_spec example_pods [] 0 = (Inr m, 3)"
    by (simp add: example_pods_def plain_spec_def)
  then obtain m where m: "GetAllPodsSpec plain_spec example_pods [] 0 = (Inr m, 3)" by blast
  have "\<exists>out. DoAnalysis ?cfg (3600, 1) (\<lambda>f. True) nat_ops nat_pod_ops (\<lambda>m. []) const_stats example_cloud
      example_pods [] first_start 0 = (Inr out, 7)"
    by (simp add: DoAnalysis_def example_cloud_def m first_start_def analysed_recs_eq Let_def)
  then obtain out where out: "DoAnalysis ?cfg (3600, 1) (\<lambda>f. True) nat_ops nat_pod_ops (\<lambda>m. []) const_stats
      example_cloud example_pods [] first_start 0 = (Inr out, 7)" by blast
  moreover from analysis_outputs [OF out] have "Printed out = [] \<and> Written out = []" by auto
  ultimately show ?thesis by blast
qed

end
