(* ===== verification/Startup.thy ===== *)
theory Startup
  imports Qcloud_Cache
begin

text \<open>
  How the clouds come into being: the factories of \<open>pkg/cloudproviders/qcloud/register.go\<close> and
  \<open>pkg/cloudproviders/default/register.go\<close>, the stores of credentials of
  \<open>pkg/cloudsdk/qcloud/credential\<close>, and what \<open>InitCloudProvider\<close> gives for a name. Reading the
  configuration file, a library's job, is a parameter that gives the parsed file.
\<close>

section \<open>Credentials\<close>

record credential =
  CredSecretId :: string
  CredSecretKey :: string
  CredToken :: string

record CustomCredential =
  customedSecretId :: string
  customedSecretKey :: string

definition NewQCloudCredential :: "string \<Rightarrow> string \<Rightarrow> CustomCredential" where
  "NewQCloudCredential i k = \<lparr>customedSecretId = i, customedSecretKey = k\<rparr>"

definition GetQCloudCredential :: "CustomCredential \<Rightarrow> credential" where
  "GetQCloudCredential c =
     \<lparr>CredSecretId = customedSecretId c, CredSecretKey = customedSecretKey c, CredToken = []\<rparr>"

definition UpdateQCloudCustomCredential ::
    "string \<Rightarrow> string \<Rightarrow> CustomCredential \<Rightarrow> CustomCredential \<times> credential" where
  "UpdateQCloudCustomCredential i k c =
     (let c = c\<lparr>customedSecretId := i, customedSecretKey := k\<rparr> in (c, GetQCloudCredential c))"

text \<open>The fake store falls back on assumed secrets.\<close>

record FakeCred = CustomCredential +
  assumedSecretId :: string
  assumedSecretKey :: string
  assumedToken :: string

definition NewFakeCred :: "string \<Rightarrow> string \<Rightarrow> FakeCred" where
  "NewFakeCred i k = \<lparr>customedSecretId = i, customedSecretKey = k, assumedSecretId = [],
     assumedSecretKey = [], assumedToken = []\<rparr>"

definition GetQCloudAssumedCredential :: "FakeCred \<Rightarrow> credential option" where
  "GetQCloudAssumedCredential c =
     (if assumedToken c = [] \<or> assumedSecretId c = [] \<or> assumedSecretKey c = [] then None
      else Some \<lparr>CredSecretId = assumedSecretId c, CredSecretKey = assumedSecretKey c,
        CredToken = assumedToken c\<rparr>)"

definition fake_GetQCloudCredential :: "FakeCred \<Rightarrow> credential" where
  "fake_GetQCloudCredential c =
     (if customedSecretId c \<noteq> [] \<and> customedSecretKey c \<noteq> []
      then \<lparr>CredSecretId = customedSecretId c, CredSecretKey = customedSecretKey c, CredToken = []\<rparr>
      else \<lparr>CredSecretId = assumedSecretId c, CredSecretKey = assumedSecretKey c,
        CredToken = assumedToken c\<rparr>)"

definition fake_UpdateQCloudCustomCredential ::
    "string \<Rightarrow> string \<Rightarrow> FakeCred \<Rightarrow> FakeCred \<times> credential" where
  "fake_UpdateQCloudCustomCredential i k c =
     (c\<lparr>customedSecretId := i, customedSecretKey := k\<rparr>,
      \<lparr>CredSecretId = i, CredSecretKey = k, CredToken = []\<rparr>)"

text \<open>The interface: what has been set, if it is whole, is what is given out, until it is set again.\<close>

locale qcloud_credential =
  fixes get :: "'c \<Rightarrow> credential" and upd :: "string \<Rightarrow> string \<Rightarrow> 'c \<Rightarrow> 'c \<times> credential"
  assumes upd_gives: "snd (upd i k c) = \<lparr>CredSecretId = i, CredSecretKey = k, CredToken = []\<rparr>"
    and get_upd: "i \<noteq> [] \<Longrightarrow> k \<noteq> [] \<Longrightarrow> get (fst (upd i k c)) = snd (upd i k c)"
begin

definition updates :: "(string \<times> string) list \<Rightarrow> 'c \<Rightarrow> 'c" where
  "updates us c = fold (\<lambda>(i, k) c. fst (upd i k c)) us c"

lemma get_updates:
  "i \<noteq> [] \<Longrightarrow> k \<noteq> [] \<Longrightarrow>
     get (updates (us @ [(i, k)]) c) = \<lparr>CredSecretId = i, CredSecretKey = k, CredToken = []\<rparr>"
  by (simp add: updates_def get_upd upd_gives)

end

interpretation custom_credential: qcloud_credential GetQCloudCredential UpdateQCloudCustomCredential
  by unfold_locales (simp_all add: UpdateQCloudCustomCredential_def GetQCloudCredential_def Let_def)

interpretation fake_credential: qcloud_credential fake_GetQCloudCredential fake_UpdateQCloudCustomCredential
  by unfold_locales (simp_all add: fake_UpdateQCloudCustomCredential_def fake_GetQCloudCredential_def)

section \<open>The factories\<close>

record ClientProfile =
  Debug :: bool
  DefaultLimit :: int
  DefaultLanguage :: string
  DefaultTimeoutSeconds :: int
  ProfileRegion :: string
  DomainSuffix :: string
  Scheme :: string

record CloudConfig = ClientProfile +
  ClusterId :: string
  AppId :: string
  SecretId :: string
  SecretKey :: string

text \<open>The client's configuration; the timeout is in nanoseconds. The rate limiter is left out.\<close>

record QCloudClientConfig =
  ConfigDebug :: bool
  ConfigLimit :: int
  ConfigLanguage :: string
  ConfigTimeout :: int
  ConfigRegion :: string
  ConfigDomainSuffix :: string
  ConfigScheme :: string
  DefaultRetryCnt :: int
  Credential :: CustomCredential

datatype 'e startup_error = ReadFailed 'e | NilReader | EmptyCache | NilCache | NoRegion

text \<open>
  The library reads from the reader it is given at once, so a nil one panics. So does a nil cache,
  \<open>NilCache\<close>, but where its absence is an error of its own.
\<close>

definition buildClientConfig ::
    "('f \<Rightarrow> 'e + CloudConfig) \<Rightarrow> 'f option \<Rightarrow> 'e startup_error + QCloudClientConfig" where
  "buildClientConfig read_cfg reader = (case reader of
     None \<Rightarrow> Inl NilReader
   | Some f \<Rightarrow> (case read_cfg f of
       Inl e \<Rightarrow> Inl (ReadFailed e)
     | Inr cfg \<Rightarrow> Inr
         \<lparr>ConfigDebug = Debug cfg, ConfigLimit = DefaultLimit cfg, ConfigLanguage = DefaultLanguage cfg,
          ConfigTimeout = int64 (DefaultTimeoutSeconds cfg * 1000000000), ConfigRegion = ProfileRegion cfg,
          ConfigDomainSuffix = DomainSuffix cfg, ConfigScheme = Scheme cfg, DefaultRetryCnt = 3,
          Credential = NewQCloudCredential (SecretId cfg) (SecretKey cfg)\<rparr>))"

definition NewTencentCloud :: "CustomPricing option \<Rightarrow> TencentCloud" where
  "NewTencentCloud pricing = \<lparr>standardPricing = [], instances = [], customPricing = pricing\<rparr>"

text \<open>Only the first of the cached nodes is asked for its region.\<close>

definition detected_region :: "'q node list \<Rightarrow> string" where
  "detected_region nodes = (case nodes of [] \<Rightarrow> [] | n # ns \<Rightarrow> DetectRegion n)"

datatype started = Tencent QCloudClientConfig TencentCloud | Default "CustomPricing option"

definition registerTencent ::
    "('f \<Rightarrow> 'e + CloudConfig) \<Rightarrow> CustomPricing option \<Rightarrow> 'q node list option \<Rightarrow>
     ('f, 'e startup_error, started) factory" where
  "registerTencent read_cfg pricing cache reader = (case buildClientConfig read_cfg reader of
     Inl e \<Rightarrow> Inl e
   | Inr c \<Rightarrow> (case cache of
       None \<Rightarrow> Inl (if ConfigRegion c = [] then EmptyCache else NilCache)
     | Some nodes \<Rightarrow>
         (let c = (if ConfigRegion c = [] then c\<lparr>ConfigRegion := detected_region nodes\<rparr> else c)
          in if ConfigRegion c = [] then Inl NoRegion
             else Inr (Some (Tencent c (NewTencentCloud pricing))))))"

definition registerDefault ::
    "CustomPricing option \<Rightarrow> 'q node list option \<Rightarrow> ('f, 'e startup_error, started) factory" where
  "registerDefault pricing cache reader = (case cache of
     None \<Rightarrow> Inl NilCache
   | Some nodes \<Rightarrow> Inr (Some (Default pricing)))"

text \<open>The providers after the packages of both clouds are loaded.\<close>

definition loaded ::
    "('f \<Rightarrow> 'e + CloudConfig) \<Rightarrow> CustomPricing option \<Rightarrow> 'q node list option \<Rightarrow>
     ('f, 'e startup_error, started) providers option" where
  "loaded read_cfg pricing cache = put_all RegisterCloudProvider
     [(''default'', registerDefault pricing cache), (''qcloud'', registerTencent read_cfg pricing cache)] []"

section \<open>Which cloud starts\<close>

definition region_for :: "CloudConfig \<Rightarrow> 'q node list \<Rightarrow> string" where
  "region_for cfg nodes = (if ProfileRegion cfg \<noteq> [] then ProfileRegion cfg else detected_region nodes)"

lemma loaded_providers:
  "\<exists>m. loaded read_cfg pricing cache = Some m \<and>
     (\<forall>k. mget m k = map_of [(''default'', registerDefault pricing cache),
        (''qcloud'', registerTencent read_cfg pricing cache)] k)"
  by (auto simp: loaded_def RegisterCloudProvider_def)

text \<open>
  C32. Which cloud the program starts with, for the name and the configuration file it is given. The
  default cloud starts without a file, and with one that can be opened. Tencent's starts exactly when there is a file that can be opened and read and a
  region, the configured one or that of the first cached node; it starts with empty caches in a state
  from which all its reachable states are counted, and the region and the secrets of the file. Without a file
  it panics, and any other name is unknown.
\<close>

theorem cloud_started:
  assumes "loaded read_cfg pricing (Some nodes) = Some m" "f \<noteq> []" "open_file f = Some h"
  shows "InitCloudProvider open_file m ''default'' [] = Inr (Default pricing) \<and>
    InitCloudProvider open_file m ''default'' f = Inr (Default pricing) \<and>
    InitCloudProvider open_file m ''qcloud'' [] = Inl (InitFailed ''qcloud'' NilReader) \<and>
    (p \<notin> {''default'', ''qcloud''} \<longrightarrow> InitCloudProvider open_file m p f = Inl (UnknownProvider p)) \<and>
    (case read_cfg h of
       Inl e \<Rightarrow> InitCloudProvider open_file m ''qcloud'' f = Inl (InitFailed ''qcloud'' (ReadFailed e))
     | Inr cfg \<Rightarrow> if region_for cfg nodes = []
         then InitCloudProvider open_file m ''qcloud'' f = Inl (InitFailed ''qcloud'' NoRegion)
         else \<exists>c tc. InitCloudProvider open_file m ''qcloud'' f = Inr (Tencent c tc) \<and>
           ConfigRegion c = region_for cfg nodes \<and> customPricing tc = pricing \<and>
           GetQCloudCredential (Credential c) =
             \<lparr>CredSecretId = SecretId cfg, CredSecretKey = SecretKey cfg, CredToken = []\<rparr> \<and>
           (\<forall>cl w. cloud_reach cl tc w))"
proof -
  from assms(1) loaded_providers [of read_cfg pricing "Some nodes"]
  have m: "mget m k = map_of [(''default'', registerDefault pricing (Some nodes)),
      (''qcloud'', registerTencent read_cfg pricing (Some nodes))] k" for k by simp
  have reach: "cloud_reach cl (NewTencentCloud pricing) w" for cl :: "'w cvm_client" and w
    unfolding NewTencentCloud_def by (rule cloud_reach.start)
  show ?thesis
    using assms(2, 3) reach
    by (auto simp: InitCloudProvider_def GetCloudProvider_def m registerTencent_def registerDefault_def
        buildClientConfig_def region_for_def NewQCloudCredential_def GetQCloudCredential_def NewTencentCloud_def
        Let_def split: sum.split)
qed

text \<open>A file without a region, and one node in Guangzhou.\<close>

definition plain_file :: CloudConfig where
  "plain_file = \<lparr>Debug = False, DefaultLimit = 100, DefaultLanguage = [], DefaultTimeoutSeconds = 10,
     ProfileRegion = [], DomainSuffix = [], Scheme = [], ClusterId = [], AppId = [], SecretId = ''id'',
     SecretKey = ''key''\<rparr>"

definition gz_node :: "nat node" where
  "gz_node = \<lparr>NodeName = ''n'', NodeLabels = [(''topology.kubernetes.io/region'', ''gz'')],
     NodeProviderID = ''qcloud:///1/ins-a'', NodeCapacity = []\<rparr>"

theorem cloud_started_witness:
  "\<exists>m c tc. loaded (\<lambda>u :: unit. Inr plain_file :: unit + CloudConfig) None (Some [gz_node]) = Some m \<and>
    InitCloudProvider (\<lambda>f. Some ()) m ''qcloud'' ''file'' = Inr (Tencent c tc) \<and>
    ConfigRegion c = ''ap-guangzhou''"
proof -
  let ?read = "\<lambda>u :: unit. Inr plain_file :: unit + CloudConfig"
  obtain m where m: "loaded ?read None (Some [gz_node]) = Some m" using loaded_providers by blast
  have r: "region_for plain_file [gz_node] = ''ap-guangzhou''" by code_simp
  have named: "''file'' \<noteq> []" "(\<lambda>f :: string. Some ()) ''file'' = Some ()" by simp_all
  from cloud_started [OF m named, of "[]", THEN conjunct2, THEN conjunct2, THEN conjunct2] r
  have "\<exists>c tc. InitCloudProvider (\<lambda>f. Some ()) m ''qcloud'' ''file'' = Inr (Tencent c tc) \<and>
      ConfigRegion c = ''ap-guangzhou''" by (simp only: sum.case) auto
  with m show ?thesis by blast
qed

end
