(* ===== verification/Sdk_Client.thy ===== *)
theory Sdk_Client
  imports Startup
begin

text \<open>
  The clients of Tencent's SDK as \<open>cvm.go\<close>, \<open>tke.go\<close> and \<open>qmonitor.go\<close> keep them. Each makes its client
  when it is first asked for one, from the configuration as it is then. The machine and the container
  clients of a cloud share one configuration, which \<open>NewTencentCloud\<close> hands to both. Each operation is
  under its client's lock, and one step; the SDK's constructor is a parameter that tells the error.
  What the debug mode prints is left out.
\<close>

section \<open>One client\<close>

record made_client =
  MadeCred :: credential
  MadeRegion :: string
  MadeLanguage :: string
  MadeDebug :: bool
  MadeEndpoint :: string
  MadeScheme :: string

definition sdk_domain :: "string \<Rightarrow> QCloudClientConfig \<Rightarrow> string" where
  "sdk_domain product cfg = product @ ''.'' @ ConfigDomainSuffix cfg"

definition make_client :: "string \<Rightarrow> string \<Rightarrow> QCloudClientConfig \<Rightarrow> made_client" where
  "make_client product r cfg =
     \<lparr>MadeCred = GetQCloudCredential (Credential cfg), MadeRegion = r, MadeLanguage = ConfigLanguage cfg,
      MadeDebug = ConfigDebug cfg, MadeEndpoint = sdk_domain product cfg, MadeScheme = ConfigScheme cfg\<rparr>"

definition getClient ::
    "(made_client \<Rightarrow> 'e option) \<Rightarrow> string \<Rightarrow> QCloudClientConfig \<Rightarrow> made_client option \<Rightarrow>
     ('e + made_client) \<times> made_client option" where
  "getClient new product cfg client = (case client of
     Some m \<Rightarrow> (Inr m, Some m)
   | None \<Rightarrow> (let m = make_client product (ConfigRegion cfg) cfg
              in case new m of Some e \<Rightarrow> (Inl e, None) | None \<Rightarrow> (Inr m, Some m)))"

text \<open>The client for the query of the regions has none itself, and is given the credentials each time.\<close>

definition getDefaultClient ::
    "(made_client \<Rightarrow> 'e option) \<Rightarrow> QCloudClientConfig \<Rightarrow> made_client option \<Rightarrow>
     ('e + made_client) \<times> made_client option" where
  "getDefaultClient new cfg client =
     (let cred = GetQCloudCredential (Credential cfg)
      in case client of
           Some m \<Rightarrow> (let m = m\<lparr>MadeCred := cred\<rparr> in (Inr m, Some m))
         | None \<Rightarrow> (let m = make_client ''cvm'' [] cfg
                    in case new m of
                         Some e \<Rightarrow> (Inl e, None)
                       | None \<Rightarrow> (let m = m\<lparr>MadeCred := cred\<rparr> in (Inr m, Some m))))"

section \<open>The clients of a cloud\<close>

record sdk_clients =
  SdkConfig :: QCloudClientConfig
  CvmClient :: "made_client option"
  CvmDefault :: "made_client option"
  TkeClient :: "made_client option"

definition new_clients :: "QCloudClientConfig \<Rightarrow> sdk_clients" where
  "new_clients cfg = \<lparr>SdkConfig = cfg, CvmClient = None, CvmDefault = None, TkeClient = None\<rparr>"

definition cvm_getClient ::
    "(made_client \<Rightarrow> 'e option) \<Rightarrow> sdk_clients \<Rightarrow> ('e + made_client) \<times> sdk_clients" where
  "cvm_getClient new s = (case getClient new ''cvm'' (SdkConfig s) (CvmClient s) of
     (r, cl) \<Rightarrow> (r, s\<lparr>CvmClient := cl\<rparr>))"

definition cvm_getDefaultClient ::
    "(made_client \<Rightarrow> 'e option) \<Rightarrow> sdk_clients \<Rightarrow> ('e + made_client) \<times> sdk_clients" where
  "cvm_getDefaultClient new s = (case getDefaultClient new (SdkConfig s) (CvmDefault s) of
     (r, cl) \<Rightarrow> (r, s\<lparr>CvmDefault := cl\<rparr>))"

definition tke_getClient ::
    "(made_client \<Rightarrow> 'e option) \<Rightarrow> sdk_clients \<Rightarrow> ('e + made_client) \<times> sdk_clients" where
  "tke_getClient new s = (case getClient new ''tke'' (SdkConfig s) (TkeClient s) of
     (r, cl) \<Rightarrow> (r, s\<lparr>TkeClient := cl\<rparr>))"

text \<open>The updates, the same for both clients since they share what they write to.\<close>

definition UpdateCredential :: "CustomCredential \<Rightarrow> sdk_clients \<Rightarrow> sdk_clients" where
  "UpdateCredential cred s = s\<lparr>SdkConfig := (SdkConfig s)\<lparr>Credential := cred\<rparr>\<rparr>"

definition UpdateCustomCredential :: "string \<Rightarrow> string \<Rightarrow> sdk_clients \<Rightarrow> sdk_clients" where
  "UpdateCustomCredential i k s = s\<lparr>SdkConfig := (SdkConfig s)
     \<lparr>Credential := fst (UpdateQCloudCustomCredential i k (Credential (SdkConfig s)))\<rparr>\<rparr>"

definition EnableDebug :: "sdk_clients \<Rightarrow> bool \<times> sdk_clients" where
  "EnableDebug s = (let cfg = (SdkConfig s)\<lparr>ConfigDebug := True\<rparr> in (ConfigDebug cfg, s\<lparr>SdkConfig := cfg\<rparr>))"

definition DebugMode :: "sdk_clients \<Rightarrow> bool" where
  "DebugMode s = ConfigDebug (SdkConfig s)"

inductive sdk_step :: "(made_client \<Rightarrow> 'e option) \<Rightarrow> sdk_clients \<Rightarrow> sdk_clients \<Rightarrow> bool" for new where
  cvm: "sdk_step new s (snd (cvm_getClient new s))"
| default: "sdk_step new s (snd (cvm_getDefaultClient new s))"
| tke: "sdk_step new s (snd (tke_getClient new s))"
| credential: "sdk_step new s (UpdateCredential cred s)"
| custom: "sdk_step new s (UpdateCustomCredential i k s)"
| debug: "sdk_step new s (snd (EnableDebug s))"

inductive_cases sdk_stepE: "sdk_step new s t"

lemmas sdk_defs = cvm_getClient_def cvm_getDefaultClient_def tke_getClient_def UpdateCredential_def
  UpdateCustomCredential_def EnableDebug_def getClient_def getDefaultClient_def Let_def

section \<open>Which credentials sign a request\<close>

lemma step_keeps:
  assumes "sdk_step new s t"
  shows "(CvmClient s = Some m \<longrightarrow> CvmClient t = Some m) \<and> (TkeClient s = Some m' \<longrightarrow> TkeClient t = Some m')"
  using assms by (cases rule: sdk_step.cases) (auto simp: sdk_defs split: option.split)

lemma steps_keep:
  assumes "(sdk_step new)\<^sup>*\<^sup>* s t"
  shows "(CvmClient s = Some m \<longrightarrow> CvmClient t = Some m) \<and> (TkeClient s = Some m' \<longrightarrow> TkeClient t = Some m')"
  using assms by (induction rule: rtranclp_induct) (auto dest: step_keeps)

text \<open>
  C31. Once the machine or the container client has been made, it is the one that every later call is given, with
  the credentials, the region and the settings of the time it was made, whatever is updated in between. The client
  for the query of the regions is given the newest credentials each time: after an update of the
  secrets the two sign differently.
\<close>

theorem credentials_go_stale:
  assumes "(sdk_step new)\<^sup>*\<^sup>* s t"
  shows "(CvmClient s = Some m \<longrightarrow> fst (cvm_getClient new (UpdateCustomCredential i k t)) = Inr m) \<and>
    (TkeClient s = Some m' \<longrightarrow> fst (tke_getClient new (UpdateCustomCredential i k t)) = Inr m') \<and>
    (\<forall>d. fst (cvm_getDefaultClient new (UpdateCustomCredential i k t)) = Inr d \<longrightarrow>
       MadeCred d = \<lparr>CredSecretId = i, CredSecretKey = k, CredToken = []\<rparr>)"
proof -
  have "GetQCloudCredential (fst (UpdateQCloudCustomCredential i k c)) =
      \<lparr>CredSecretId = i, CredSecretKey = k, CredToken = []\<rparr>" for c
    by (simp add: UpdateQCloudCustomCredential_def GetQCloudCredential_def Let_def)
  then show ?thesis
    using steps_keep [OF assms, of m m']
    by (auto simp: sdk_defs make_client_def split: option.splits)
qed

text \<open>A client made with one key, and asked for again after the key has changed.\<close>

definition example_client_config :: QCloudClientConfig where
  "example_client_config = \<lparr>ConfigDebug = False, ConfigLimit = 100, ConfigLanguage = [], ConfigTimeout = 0,
     ConfigRegion = ''ap-guangzhou'', ConfigDomainSuffix = ''tencentcloudapi.com'', ConfigScheme = ''HTTP'',
     DefaultRetryCnt = 3, Credential = NewQCloudCredential ''id'' ''old''\<rparr>"

theorem credentials_go_stale_witness:
  "let s = snd (cvm_getClient (\<lambda>m. None :: unit option) (new_clients example_client_config));
       t = UpdateCustomCredential ''id'' ''new'' s
   in fst (cvm_getClient (\<lambda>m. None :: unit option) t) =
        Inr (make_client ''cvm'' ''ap-guangzhou'' example_client_config) \<and>
      CredSecretKey (MadeCred (make_client ''cvm'' ''ap-guangzhou'' example_client_config)) = ''old''"
proof -
  let ?new = "\<lambda>m :: made_client. None :: unit option"
  let ?s = "snd (cvm_getClient ?new (new_clients example_client_config))"
  let ?m = "make_client ''cvm'' ''ap-guangzhou'' example_client_config"
  have s: "CvmClient ?s = Some ?m"
    by (simp add: cvm_getClient_def getClient_def new_clients_def Let_def) (simp add: example_client_config_def)
  have "CredSecretKey (MadeCred ?m) = ''old''"
    by (simp add: make_client_def example_client_config_def GetQCloudCredential_def NewQCloudCredential_def)
  with credentials_go_stale [of ?new ?s ?s ?m "''id''" "''new''"] s show ?thesis by simp
qed

end
