(* ===== verification/Tencent_Baseline.thy ===== *)
theory Tencent_Baseline
  imports Report Sdk_Client
begin

text \<open>
  The comparator over Tencent's cloud: the operations of \<open>TencentCloud\<close> that \<open>NewComparator\<close> is given as
  its baseline, and what the cluster as it is costs there. The container service answers a
  request alike each time it is asked, so its state is \<open>unit\<close>; its failures stay.
\<close>

definition tencent_pricer ::
    "'q quantity_ops \<Rightarrow> ('q, unit) tke_client \<Rightarrow> TencentCloud \<Rightarrow> ('q, cloud_error) Pricer" where
  "tencent_pricer ops c tc =
     \<lparr>Pricer.NodePrice = Qcloud_Price.NodePrice ops tc,
      Pricer.ServerlessPodPrice = (\<lambda>s. fst (Qcloud_Spec.ServerlessPodPrice ops c tc s ())),
      Pricer.PlatformPrice = Qcloud_Platform.PlatformPrice\<rparr>"

definition tencent_baseline ::
    "'q quantity_ops \<Rightarrow> 'q pod_ops \<Rightarrow> ('q, unit) tke_client \<Rightarrow> TencentCloud \<Rightarrow> 'q node list \<Rightarrow>
     ('q, unit, cloud_error) baseline_cloud" where
  "tencent_baseline ops pops c tc nodes =
     \<lparr>CPod2Spec = Pod2Spec ops pops c nodes, CPod2ServerlessSpec = Pod2ServerlessSpec ops pops c,
      CNode2Spec = Node2Spec ops tc, CIsServerlessPod = IsServerlessPod nodes,
      CIsVirtualNode = (\<lambda>n. IsVirtualNode (Some n)), CPricer = tencent_pricer ops c tc\<rparr>"

text \<open>The context of the costers for it, and the nodes that are machines.\<close>

definition tencent_context ::
    "'q quantity_ops \<Rightarrow> 'q pod_ops \<Rightarrow> ('q, unit) tke_client \<Rightarrow> TencentCloud \<Rightarrow> 'q node list \<Rightarrow>
     int \<times> float64 \<Rightarrow> (string, 'q CloudPodSpec) gomap \<Rightarrow> 'q workloads \<Rightarrow> 'q recommendations \<Rightarrow>
     ('q, cloud_error) CosterContext" where
  "tencent_context ops pops c tc nodes span pods ws recs =
     (let cl = tencent_baseline ops pops c tc nodes
      in coster_context cl span pods (GetAllNodesSpec (CNode2Spec cl) nodes) ws recs)"

definition real_nodes :: "'q node list \<Rightarrow> 'q node list" where
  "real_nodes nodes = filter (\<lambda>n. \<not> IsVirtualNode (Some n)) nodes"

section \<open>The cluster as it is\<close>

lemma GetAllNodesSpec_distinct:
  assumes "distinct (map NodeName nodes)"
  shows "GetAllNodesSpec n2s nodes = map (\<lambda>n. (NodeName n, n2s n)) nodes"
proof -
  have "distinct (map NodeName nodes) \<Longrightarrow> \<forall>n \<in> set nodes. NodeName n \<notin> mkeys m \<Longrightarrow>
      fold (\<lambda>n. mput (NodeName n) (n2s n)) nodes m = m @ map (\<lambda>n. (NodeName n, n2s n)) nodes" for m
  proof (induction nodes arbitrary: m)
    case (Cons n nodes)
    then have "\<forall>x \<in> set nodes. NodeName x \<notin> mkeys (m @ [(NodeName n, n2s n)])" by (auto simp: image_iff)
    with Cons show ?case by (simp add: mput_fresh)
  qed simp
  from this [of "[]"] assms show ?thesis by (simp add: GetAllNodesSpec_def)
qed

lemma Node2Spec_simps: "VirtualNode (Node2Spec ops tc n) = IsVirtualNode (Some n)" "NodeRef (Node2Spec ops tc n) = n"
  by (simp_all add: Node2Spec_def Let_def split: option.split)

lemma int32_small: "0 \<le> k \<Longrightarrow> k < 2^31 \<Longrightarrow> int32 k = k"
  by (rule int32_id) simp_all

lemma node_steps:
  assumes "CtxPricer ctx = tencent_pricer ops c tc" "0 \<le> k"
    and "k + int (length (filter (\<lambda>n. \<not> IsVirtualNode (Some n)) nodes)) < 2^31"
  shows "foldl (serverful_node_step ctx) (acc, k) (map (\<lambda>n. (NodeName n, Node2Spec ops tc n)) nodes) =
    (foldl (\<lambda>t n. case priced (computeNodeBreakdownCost ops tc (customPricing tc) (Some n)) of
         None \<Rightarrow> t | Some p \<Rightarrow> t + p * timespanInHour ctx) acc (filter (\<lambda>n. \<not> IsVirtualNode (Some n)) nodes),
     k + int (length (filter (\<lambda>n. \<not> IsVirtualNode (Some n)) nodes)))"
  using assms(2, 3)
proof (induction nodes arbitrary: acc k)
  case (Cons n nodes)
  have price: "priced (Pricer.NodePrice (CtxPricer ctx) (Node2Spec ops tc n)) =
      priced (computeNodeBreakdownCost ops tc (customPricing tc) (Some n))"
    by (simp add: assms(1) tencent_pricer_def Qcloud_Price.NodePrice_def Node2Spec_simps)
  show ?case
  proof (cases "IsVirtualNode (Some n)")
    case True
    with Cons show ?thesis by (simp add: serverful_node_step_def Node2Spec_simps)
  next
    case False
    have "int32 (k + 1) = k + 1" using Cons.prems False by (intro int32_small) simp_all
    with Cons.prems Cons.IH [of "k + 1"] False show ?thesis
      by (simp add: serverful_node_step_def Node2Spec_simps price split: option.split)
  qed
qed simp

lemma costs_price:
  assumes "distinct (map NodeName nodes)" "GetNodesCost ops tc nodes = Inr costs"
    and "n \<in> set nodes" "\<not> IsVirtualNode (Some n)"
  shows "Option.bind (mget costs (NodeName n)) (\<lambda>p. parse_price (BaseInstancePrice.Cost p)) =
    priced (computeNodeBreakdownCost ops tc (customPricing tc) (Some n))"
proof -
  from assms(2) obtain cfg where cfg: "customPricing tc = Some cfg"
    by (auto simp: GetNodesCost_def split: option.splits)
  with assms(2) have l: "nodes_loop (\<lambda>n. IsVirtualNode (Some n)) (computeNodeBreakdownCost ops tc (Some cfg)) nodes [] =
      Inr costs"
    by (simp add: GetNodesCost_def)
  have same: "x = n" if "x \<in> set nodes" "NodeName x = NodeName n" for x
    using assms(1, 3) that by (auto simp: distinct_map inj_on_def)
  have "mget costs (NodeName n) = Some p \<longleftrightarrow> computeNodeBreakdownCost ops tc (Some cfg) (Some n) = Inr p" for p
    using tencent.nodes_priced [OF l assms(1)] same assms(3, 4) by auto
  note iff = this
  show ?thesis
  proof (cases "computeNodeBreakdownCost ops tc (Some cfg) (Some n)")
    case (Inl e)
    with iff have "mget costs (NodeName n) = None" by (cases "mget costs (NodeName n)") auto
    with Inl show ?thesis by (simp add: cfg priced_def)
  next
    case (Inr p)
    with iff [of p] show ?thesis by (simp add: cfg priced_def)
  qed
qed

text \<open>
  C10. What the cluster as it is costs on Tencent's cloud, by the comparator, from what the exporter shows of
  it: each real node's hourly cost in the map of node costs, times the hours, added in the order of the
  nodes, with nothing for a node that can not be priced or whose cost does not parse; and the fee of a managed
  cluster of as many nodes as are real. A serverless cluster has no fee.
\<close>

theorem tencent_original_cost:
  assumes "distinct (map NodeName nodes)" "length nodes < 2^31" "GetNodesCost ops tc nodes = Inr costs"
  shows "ServerfulCost (serverful_TotalCost (tencent_context ops pops c tc nodes span pods ws recs)) =
      foldl (\<lambda>t n. case Option.bind (mget costs (NodeName n)) (\<lambda>p. parse_price (BaseInstancePrice.Cost p)) of
          None \<Rightarrow> t | Some p \<Rightarrow> t + p * (float_of_int (fst span) / float_of_int 3600)) 0 (real_nodes nodes) \<and>
    ServerfulPlatformCost (serverful_TotalCost (tencent_context ops pops c tc nodes span pods ws recs)) =
      TotalPrice (TKE_PlatformCost \<lparr>Nodes = Some (int (length (real_nodes nodes))), ClusterLevel = None,
        Platform = ServerfulKind\<rparr>) \<and>
    ServerlessPlatformCost (serverful_TotalCost (tencent_context ops pops c tc nodes span pods ws recs)) = 0"
proof -
  let ?ctx = "tencent_context ops pops c tc nodes span pods ws recs" and ?real = "real_nodes nodes"
  have ctx: "CtxPricer ?ctx = tencent_pricer ops c tc" "NodesSpec ?ctx = map (\<lambda>n. (NodeName n, Node2Spec ops tc n)) nodes"
    "timespanInHour ?ctx = float_of_int (fst span) / float_of_int 3600"
    by (simp_all add: tencent_context_def coster_context_def tencent_baseline_def
        GetAllNodesSpec_distinct [OF assms(1)] timespanInHour_def Let_def)
  have "length ?real \<le> length nodes" by (simp add: real_nodes_def)
  with assms(2) have "length ?real < 2^31" by (rule order_le_less_trans [rotated])
  then have "int (length ?real) < int (2^31)" by (simp only: of_nat_less_iff)
  then have "0 + int (length ?real) < 2^31" by simp
  note steps = node_steps [OF ctx(1) order_refl this [unfolded real_nodes_def], of 0, folded real_nodes_def]
  have "foldl (\<lambda>t n. case priced (computeNodeBreakdownCost ops tc (customPricing tc) (Some n)) of
        None \<Rightarrow> t | Some p \<Rightarrow> t + p * timespanInHour ?ctx) 0 ?real =
      foldl (\<lambda>t n. case Option.bind (mget costs (NodeName n)) (\<lambda>p. parse_price (BaseInstancePrice.Cost p)) of
        None \<Rightarrow> t | Some p \<Rightarrow> t + p * timespanInHour ?ctx) 0 ?real"
    by (rule foldl_cong) (use costs_price [OF assms(1, 3)] in \<open>simp_all add: real_nodes_def\<close>)
  then have "fst (foldl (serverful_node_step ?ctx) (0, 0) (NodesSpec ?ctx)) =
      foldl (\<lambda>t n. case Option.bind (mget costs (NodeName n)) (\<lambda>p. parse_price (BaseInstancePrice.Cost p)) of
        None \<Rightarrow> t | Some p \<Rightarrow> t + p * timespanInHour ?ctx) 0 ?real"
    using steps by (simp add: ctx(2))
  note cost = this [unfolded ctx(3)]
  have "snd (foldl (serverful_node_step ?ctx) (0, 0) (NodesSpec ?ctx)) = int (length ?real)"
    using steps by (simp add: ctx(2))
  with cost show ?thesis
    by (simp add: serverful_TotalCost_def ctx(1) Let_def split_def tencent_pricer_def PlatformPrice_def EKS_PlatformCost_def)
qed

text \<open>A cluster of one machine, priced by the configuration.\<close>

definition unit_tke :: "(nat, unit) tke_client" where
  "unit_tke = \<lparr>TKEClientError = None, GetPrice = (\<lambda>r w. (Inr None, w)),
     GetPodSpecification = (\<lambda>r w. (Inr (Some ''2'', Some ''4''), w)), TKERetryCnt = 3,
     TKERand = (\<lambda>i. 4), MarshalResources = (\<lambda>x. Some ''{}''), ParseQuantity = (\<lambda>s. Some 2)\<rparr>"

definition one_machine :: "nat node" where
  "one_machine = example_node ''n'' ''qcloud:///1/ins-a''"

theorem tencent_original_cost_witness:
  "ServerfulPlatformCost (serverful_TotalCost (tencent_context nat_ops nat_pod_ops unit_tke priced_cloud
     [one_machine] (3600, 1) [] [] [])) =
   TotalPrice (TKE_PlatformCost \<lparr>Nodes = Some 1, ClusterLevel = None, Platform = ServerfulKind\<rparr>)"
proof -
  have v: "\<not> IsVirtualNode (Some one_machine)" "customPricing priced_cloud = Some Qcloud_Price.example_pricing"
    "cached_price priced_cloud one_machine = None" by code_simp+
  obtain p where "computeNodeBreakdownCost nat_ops priced_cloud (Some Qcloud_Price.example_pricing) (Some one_machine) = Inr p"
    by (simp add: computeNodeBreakdownCost_def v getCloudInstancePrice_def Let_def getDefaultNodePrice_def
        config_price_def empty_price_def)
  then have g: "GetNodesCost nat_ops priced_cloud [one_machine] = Inr [(NodeName one_machine, p)]"
    by (simp add: GetNodesCost_def v)
  have d: "distinct (map NodeName [one_machine])" "length [one_machine] < 2^31" by simp_all
  have "int (length (real_nodes [one_machine])) = 1" using v(1) by (simp add: real_nodes_def)
  with tencent_original_cost [OF d g, of nat_pod_ops unit_tke "(3600, 1)" "[]" "[]" "[]", THEN conjunct2,
      THEN conjunct1] show ?thesis by simp
qed

end
