(* ===== verification/Emitter.thy ===== *)
theory Emitter
  imports Cloud_Core
begin

text \<open>
  \<open>pkg/cost-exporter/store/prometheus/prom_emitter.go\<close>: the loop that publishes the prices of the
  nodes as gauges and removes those of nodes that are gone, and the cost model of
  \<open>pkg/cost-exporter/cloudcost/model.go\<close> that it asks. A gauge vector is a map from the values of its
  labels to a number, and deletes nothing when it is given values it does not have.
\<close>

section \<open>The cost model\<close>

text \<open>The calls of the cloud that the model passes on.\<close>

record ('n, 'p, 'r, 'x) cloud_price =
  CloudNodesCost :: "'x + 'n"
  CloudPodsCost :: "'x + 'p"
  CloudNodesPricing :: "'x + 'r"
  CloudConfig :: "'x + CustomPricing"
  CloudUpdateConfig :: "(string, string) gomap \<Rightarrow> 'x + CustomPricing"

datatype 'x model_error = ProviderError 'x | NotImplemented

definition passed :: "'x + 'a \<Rightarrow> 'x model_error + 'a" where
  "passed r = (case r of Inl e \<Rightarrow> Inl (ProviderError e) | Inr x \<Rightarrow> Inr x)"

definition model_GetNodesCost :: "('n, 'p, 'r, 'x) cloud_price \<Rightarrow> 'x model_error + 'n" where
  "model_GetNodesCost m = passed (CloudNodesCost m)"

definition model_GetPodsCost :: "('n, 'p, 'r, 'x) cloud_price \<Rightarrow> 'x model_error + 'p" where
  "model_GetPodsCost m = passed (CloudPodsCost m)"

definition model_UpdateConfigFromConfigMap ::
    "('n, 'p, 'r, 'x) cloud_price \<Rightarrow> (string, string) gomap \<Rightarrow> 'x model_error + CustomPricing" where
  "model_UpdateConfigFromConfigMap m cfg = passed (CloudUpdateConfig m cfg)"

definition model_GetConfig :: "('n, 'p, 'r, 'x) cloud_price \<Rightarrow> 'x model_error + CustomPricing" where
  "model_GetConfig m = passed (CloudConfig m)"

definition model_ContainerAllocation :: "('n, 'p, 'r, 'x) cloud_price \<Rightarrow> 'x model_error + unit" where
  "model_ContainerAllocation m = Inl NotImplemented"

definition model_GetNodesPricing :: "('n, 'p, 'r, 'x) cloud_price \<Rightarrow> 'x model_error + 'r" where
  "model_GetNodesPricing m = passed (CloudNodesPricing m)"

section \<open>One round\<close>

type_synonym gauges = "(string list, float64) gomap"

record emitter =
  CpuGauge :: gauges
  RamGauge :: gauges
  TotalGauge :: gauges
  LastSeen :: "(string, bool) gomap"

definition NewCostMetricEmitter :: emitter where
  "NewCostMetricEmitter = \<lparr>CpuGauge = [], RamGauge = [], TotalGauge = [], LastSeen = []\<rparr>"

text \<open>A number that is neither NaN nor infinite, else the default.\<close>

definition finite_or :: "float64 \<Rightarrow> float64 \<Rightarrow> float64" where
  "finite_or d x = (case x of Fin s m e \<Rightarrow> x | NaN \<Rightarrow> d | Inf s \<Rightarrow> d)"

definition parse_or :: "float64 \<Rightarrow> string \<Rightarrow> float64" where
  "parse_or d s = finite_or d (fst (ParseFloat s))"

definition node_labels :: "string \<Rightarrow> BaseInstancePrice \<Rightarrow> string list" where
  "node_labels name p = [name, name, BaseInstancePrice.InstanceType p, PRegion p, BaseInstancePrice.ProviderID p]"

definition cpu_cost :: "CustomPricing \<Rightarrow> BaseInstancePrice \<Rightarrow> float64" where
  "cpu_cost cfg p = parse_or (CpuHourlyPrice cfg) (CpuHourlyCost p)"

definition ram_cost :: "CustomPricing \<Rightarrow> BaseInstancePrice \<Rightarrow> float64" where
  "ram_cost cfg p = parse_or (finite_or 0 (RamGBHourlyPrice cfg)) (RamGBHourlyCost p)"

definition total_cost :: "CustomPricing \<Rightarrow> BaseInstancePrice \<Rightarrow> float64" where
  "total_cost cfg p = parse_or 1 (PCpu p) * cpu_cost cfg p + ram_cost cfg p * parse_or 0 (Ram p)"

definition emit_node :: "CustomPricing \<Rightarrow> string \<times> BaseInstancePrice \<Rightarrow> emitter \<Rightarrow> emitter" where
  "emit_node cfg np e = (case np of (name, p) \<Rightarrow>
     (let ls = node_labels name p
      in e\<lparr>CpuGauge := mput ls (cpu_cost cfg p) (CpuGauge e),
           RamGauge := mput ls (ram_cost cfg p) (RamGauge e),
           TotalGauge := mput ls (total_cost cfg p) (TotalGauge e),
           LastSeen := mput (join_with '','' ls) True (LastSeen e)\<rparr>))"

text \<open>Labels not seen in this round are removed, the others are to be seen in the next.\<close>

definition sweep :: "string \<times> bool \<Rightarrow> emitter \<Rightarrow> emitter" where
  "sweep kv e = (case kv of (key, seen) \<Rightarrow>
     if \<not> seen then
       (let ls = split_on CHR '','' key
        in e\<lparr>TotalGauge := mdel ls (TotalGauge e), CpuGauge := mdel ls (CpuGauge e),
             RamGauge := mdel ls (RamGauge e), LastSeen := mdel key (LastSeen e)\<rparr>)
     else e\<lparr>LastSeen := mput key False (LastSeen e)\<rparr>)"

definition emit_round ::
    "CustomPricing \<Rightarrow> (string, BaseInstancePrice) gomap \<Rightarrow> emitter \<Rightarrow> emitter" where
  "emit_round cfg nodes e = (let e = fold (emit_node cfg) nodes e in fold sweep (LastSeen e) e)"

section \<open>The loop\<close>

text \<open>After an error the loop goes on at once; else it waits for the stop channel or the ticker.\<close>

datatype turn = Again | Select

definition emitter_turn ::
    "'x + CustomPricing \<Rightarrow> 'x + (string, BaseInstancePrice) gomap \<Rightarrow> emitter \<Rightarrow> turn \<times> emitter" where
  "emitter_turn cfg nodes e = (case cfg of
     Inl x \<Rightarrow> (Again, e)
   | Inr c \<Rightarrow> (case nodes of Inl x \<Rightarrow> (Again, e) | Inr ns \<Rightarrow> (Select, emit_round c ns e)))"

text \<open>
  What a turn meets: the model's two answers, and whether its select, if it comes to one, takes
  the stop channel. The loop's end is the flag.
\<close>

record 'x turn_input =
  ConfigAnswer :: "'x + CustomPricing"
  NodesAnswer :: "'x + (string, BaseInstancePrice) gomap"
  StopTaken :: bool

fun emitter_Start :: "'x turn_input list \<Rightarrow> emitter \<Rightarrow> emitter \<times> bool" where
  "emitter_Start [] e = (e, False)"
| "emitter_Start (i # is) e = (case emitter_turn (ConfigAnswer i) (NodesAnswer i) e of
     (Again, e') \<Rightarrow> emitter_Start is e'
   | (Select, e') \<Rightarrow> if StopTaken i then (e', True) else emitter_Start is e')"

section \<open>What a round leaves\<close>

definition no_comma :: "string \<times> BaseInstancePrice \<Rightarrow> bool" where
  "no_comma np = (case np of (name, p) \<Rightarrow> \<forall>l \<in> set (node_labels name p). CHR '','' \<notin> set l)"

definition labels_of :: "string \<times> BaseInstancePrice \<Rightarrow> string list" where
  "labels_of np = (case np of (name, p) \<Rightarrow> node_labels name p)"

lemma split_labels: "no_comma np \<Longrightarrow> split_on CHR '','' (join_with '','' (labels_of np)) = labels_of np"
  by (rule split_join) (auto simp: no_comma_def labels_of_def node_labels_def split: prod.splits)

lemma join_split: "join_with [c] (split_on c s) = s"
proof (induction s)
  case (Cons x s)
  obtain w ws where "split_on c s = w # ws" using split_on_nonempty [of c s] by (metis list.exhaust)
  with Cons show ?case by (cases ws) auto
qed simp

lemma mkeys_dom: "mkeys m = {k. mget m k \<noteq> None}"
  by (auto simp: mget_None_iff)

text \<open>The gauges have one entry for each key seen, and no key has been seen in the round to come.\<close>

definition emitter_inv :: "emitter \<Rightarrow> bool" where
  "emitter_inv e \<longleftrightarrow> wf_map (LastSeen e) \<and> (\<forall>k. mget (LastSeen e) k \<noteq> Some True) \<and>
     (\<forall>g \<in> {CpuGauge e, RamGauge e, TotalGauge e}. mkeys g = split_on CHR '','' ` mkeys (LastSeen e))"

lemma emit_LastSeen:
  "mget (LastSeen (fold (emit_node cfg) nodes e)) k =
     (if k \<in> (\<lambda>np. join_with '','' (labels_of np)) ` set nodes then Some True else mget (LastSeen e) k)"
  by (induction nodes arbitrary: e) (auto simp: emit_node_def labels_of_def Let_def)

lemma emit_wf: "wf_map (LastSeen e) \<Longrightarrow> wf_map (LastSeen (fold (emit_node cfg) nodes e))"
  by (induction nodes arbitrary: e) (auto simp: emit_node_def Let_def split: prod.split)

lemma emit_gauge:
  assumes gauge: "\<And>np e. gauge (emit_node cfg np e) = mput (labels_of np) (value np) (gauge e)"
    and "distinct (map labels_of nodes)"
  shows "mget (gauge (fold (emit_node cfg) nodes e)) ls =
    (case map_of (map (\<lambda>np. (labels_of np, value np)) nodes) ls of
       Some v \<Rightarrow> Some v | None \<Rightarrow> mget (gauge e) ls)"
  using assms(2)
proof (induction nodes arbitrary: e)
  case (Cons np nodes)
  have "map_of (map (\<lambda>np. (labels_of np, value np)) nodes) (labels_of np) = None"
    using Cons.prems by (auto simp: map_of_eq_None_iff)
  with Cons show ?case by (auto simp: gauge split: option.split)
qed simp

lemma sweep_LastSeen:
  "distinct (map fst xs) \<Longrightarrow> mget (LastSeen (fold sweep xs e)) k =
     (case map_of xs k of None \<Rightarrow> mget (LastSeen e) k | Some seen \<Rightarrow> if seen then Some False else None)"
proof (induction xs arbitrary: e)
  case (Cons x xs)
  obtain j b where x: "x = (j, b)" by fastforce
  have "map_of xs j = None" using Cons.prems by (simp add: x map_of_eq_None_iff)
  with Cons show ?case by (auto simp: x sweep_def Let_def split: option.split)
qed simp

lemma sweep_wf: "wf_map (LastSeen e) \<Longrightarrow> wf_map (LastSeen (fold sweep xs e))"
  by (induction xs arbitrary: e) (auto simp: sweep_def Let_def split: prod.split)

lemma sweep_gauge:
  assumes gauge: "\<And>key e. gauge (sweep (key, True) e) = gauge e"
    "\<And>key e. gauge (sweep (key, False) e) = mdel (split_on CHR '','' key) (gauge e)"
  shows "mget (gauge (fold sweep xs e)) ls =
    (if \<exists>key. (key, False) \<in> set xs \<and> split_on CHR '','' key = ls then None else mget (gauge e) ls)"
proof (induction xs arbitrary: e)
  case (Cons x xs)
  obtain j b where x: "x = (j, b)" by fastforce
  show ?case by (cases b) (auto simp: x Cons.IH gauge)
qed simp

lemma labels_distinct: "wf_map nodes \<Longrightarrow> distinct (map labels_of nodes)"
proof -
  assume wf: "wf_map nodes"
  have "inj_on labels_of (set nodes)"
    using wf by (auto simp: inj_on_def labels_of_def node_labels_def wf_map_def dest: eq_key_imp_eq_value)
  with wf show ?thesis by (simp add: distinct_map wf_map_def)
qed

lemma round_gauge:
  assumes inv: "wf_map (LastSeen e)" "\<And>k. mget (LastSeen e) k \<noteq> Some True"
    "mkeys (gauge e) = split_on CHR '','' ` mkeys (LastSeen e)"
    and emit: "\<And>np e. gauge (emit_node cfg np e) = mput (labels_of np) (value np) (gauge e)"
    and swp: "\<And>key e. gauge (sweep (key, True) e) = gauge e"
      "\<And>key e. gauge (sweep (key, False) e) = mdel (split_on CHR '','' key) (gauge e)"
    and nodes: "wf_map nodes" "\<forall>np \<in> set nodes. no_comma np"
  shows "mget (gauge (emit_round cfg nodes e)) ls = map_of (map (\<lambda>np. (labels_of np, value np)) nodes) ls"
proof -
  define e1 where "e1 = fold (emit_node cfg) nodes e"
  let ?key = "\<lambda>np. join_with '','' (labels_of np)"
  let ?new = "map_of (map (\<lambda>np. (labels_of np, value np)) nodes)"
  have wf1: "wf_map (LastSeen e1)" unfolding e1_def by (rule emit_wf [OF inv(1)])
  have seen: "(k, False) \<in> set (LastSeen e1) \<longleftrightarrow> k \<notin> ?key ` set nodes \<and> mget (LastSeen e) k \<noteq> None" for k
    using inv(2) [of k] unfolding wf_map_mget [OF wf1, symmetric]
    by (auto simp: e1_def emit_LastSeen)
  have g1: "mget (gauge e1) ls = (case ?new ls of Some v \<Rightarrow> Some v | None \<Rightarrow> mget (gauge e) ls)"
    unfolding e1_def by (rule emit_gauge [OF emit labels_distinct [OF nodes(1)]])
  have g2: "mget (gauge (emit_round cfg nodes e)) ls =
      (if \<exists>key. (key, False) \<in> set (LastSeen e1) \<and> split_on CHR '','' key = ls then None else mget (gauge e1) ls)"
    unfolding emit_round_def Let_def e1_def [symmetric] by (rule sweep_gauge [OF swp])
  show ?thesis
  proof (cases "?new ls")
    case (Some v)
    then obtain np where np: "np \<in> set nodes" "ls = labels_of np" by (auto dest!: map_of_SomeD)
    have "key \<in> ?key ` set nodes" if "split_on CHR '','' key = ls" for key
      using that np join_split [of "CHR '',''" key] by auto
    with Some show ?thesis unfolding g2 g1 seen by auto
  next
    case None
    have "\<exists>key. (key, False) \<in> set (LastSeen e1) \<and> split_on CHR '','' key = ls" if "mget (gauge e) ls \<noteq> None"
    proof -
      from that inv(3) obtain key where key: "mget (LastSeen e) key \<noteq> None" "split_on CHR '','' key = ls"
        by (auto simp: mkeys_dom set_eq_iff image_iff)
      have "key \<notin> ?key ` set nodes"
      proof
        assume "key \<in> ?key ` set nodes"
        then obtain np where np: "np \<in> set nodes" "key = ?key np" by blast
        with nodes(2) key(2) have "ls = labels_of np" using split_labels [of np] by auto
        with np(1) None show False by (force simp: map_of_eq_None_iff)
      qed
      with key seen show ?thesis by blast
    qed
    then show ?thesis using None unfolding g2 g1 by (cases "mget (gauge e) ls") simp_all
  qed
qed

lemma round_seen:
  assumes "wf_map (LastSeen e)" "\<And>k. mget (LastSeen e) k \<noteq> Some True"
  shows "mget (LastSeen (emit_round cfg nodes e)) k =
    (if k \<in> (\<lambda>np. join_with '','' (labels_of np)) ` set nodes then Some False else None)"
proof -
  have "wf_map (LastSeen (fold (emit_node cfg) nodes e))" by (rule emit_wf [OF assms(1)])
  from sweep_LastSeen [OF this [unfolded wf_map_def], of "fold (emit_node cfg) nodes e" k] assms(2) [of k]
  show ?thesis
    by (cases "mget (LastSeen e) k") (auto simp: emit_round_def Let_def emit_LastSeen)
qed

lemma gauge_simps:
  "CpuGauge (emit_node cfg np e) = mput (labels_of np) (cpu_cost cfg (snd np)) (CpuGauge e)"
  "RamGauge (emit_node cfg np e) = mput (labels_of np) (ram_cost cfg (snd np)) (RamGauge e)"
  "TotalGauge (emit_node cfg np e) = mput (labels_of np) (total_cost cfg (snd np)) (TotalGauge e)"
  "CpuGauge (sweep (key, True) e) = CpuGauge e"
  "RamGauge (sweep (key, True) e) = RamGauge e"
  "TotalGauge (sweep (key, True) e) = TotalGauge e"
  "CpuGauge (sweep (key, False) e) = mdel (split_on CHR '','' key) (CpuGauge e)"
  "RamGauge (sweep (key, False) e) = mdel (split_on CHR '','' key) (RamGauge e)"
  "TotalGauge (sweep (key, False) e) = mdel (split_on CHR '','' key) (TotalGauge e)"
  by (simp_all add: emit_node_def sweep_def labels_of_def Let_def split_def)

lemma round_gauges:
  assumes "emitter_inv e" "wf_map nodes" "\<forall>np \<in> set nodes. no_comma np"
  shows "mget (CpuGauge (emit_round cfg nodes e)) =
      map_of (map (\<lambda>np. (labels_of np, cpu_cost cfg (snd np))) nodes)"
    "mget (RamGauge (emit_round cfg nodes e)) =
      map_of (map (\<lambda>np. (labels_of np, ram_cost cfg (snd np))) nodes)"
    "mget (TotalGauge (emit_round cfg nodes e)) =
      map_of (map (\<lambda>np. (labels_of np, total_cost cfg (snd np))) nodes)"
proof -
  have e: "wf_map (LastSeen e)" "mget (LastSeen e) k \<noteq> Some True"
    "mkeys (CpuGauge e) = split_on CHR '','' ` mkeys (LastSeen e)"
    "mkeys (RamGauge e) = split_on CHR '','' ` mkeys (LastSeen e)"
    "mkeys (TotalGauge e) = split_on CHR '','' ` mkeys (LastSeen e)" for k
    using assms(1) by (simp_all add: emitter_inv_def)
  show "mget (CpuGauge (emit_round cfg nodes e)) =
      map_of (map (\<lambda>np. (labels_of np, cpu_cost cfg (snd np))) nodes)"
    by (rule ext, rule round_gauge [OF e(1, 2, 3) gauge_simps(1, 4, 7) assms(2, 3)])
  show "mget (RamGauge (emit_round cfg nodes e)) =
      map_of (map (\<lambda>np. (labels_of np, ram_cost cfg (snd np))) nodes)"
    by (rule ext, rule round_gauge [OF e(1, 2, 4) gauge_simps(2, 5, 8) assms(2, 3)])
  show "mget (TotalGauge (emit_round cfg nodes e)) =
      map_of (map (\<lambda>np. (labels_of np, total_cost cfg (snd np))) nodes)"
    by (rule ext, rule round_gauge [OF e(1, 2, 5) gauge_simps(3, 6, 9) assms(2, 3)])
qed

lemma emitter_inv_round:
  assumes "emitter_inv e" "wf_map nodes" "\<forall>np \<in> set nodes. no_comma np"
  shows "emitter_inv (emit_round cfg nodes e)"
proof -
  from assms(1) have e: "wf_map (LastSeen e)" "\<And>k. mget (LastSeen e) k \<noteq> Some True"
    by (simp_all add: emitter_inv_def)
  have keys: "mkeys (LastSeen (emit_round cfg nodes e)) = (\<lambda>np. join_with '','' (labels_of np)) ` set nodes"
    unfolding mkeys_dom by (auto simp: round_seen [OF e])
  have "split_on CHR '','' ` (\<lambda>np. join_with '','' (labels_of np)) ` set nodes = labels_of ` set nodes"
    using assms(3) split_labels by (force simp: image_iff)
  moreover have "mkeys g = labels_of ` set nodes" if "mget g = map_of (map (\<lambda>np. (labels_of np, v np)) nodes)"
    for g :: gauges and v
  proof -
    have "mkeys g = mkeys (map (\<lambda>np. (labels_of np, v np)) nodes)" by (simp only: mkeys_dom that)
    then show ?thesis by (simp add: image_image)
  qed
  moreover have "wf_map (LastSeen (emit_round cfg nodes e))"
    unfolding emit_round_def Let_def by (intro sweep_wf emit_wf e(1))
  ultimately show ?thesis
    using round_gauges [OF assms, of cfg] by (auto simp: emitter_inv_def keys round_seen [OF e])
qed

text \<open>What a running emitter can come to, with nodes whose labels have no comma; errors are texts.\<close>

inductive emitter_reach :: "emitter \<Rightarrow> bool" where
  new: "emitter_reach NewCostMetricEmitter"
| turn: "emitter_reach e \<Longrightarrow> (\<And>ns. nodes = Inr ns \<Longrightarrow> wf_map ns \<and> (\<forall>np \<in> set ns. no_comma np)) \<Longrightarrow>
    emitter_reach (snd (emitter_turn (cfg :: string + CustomPricing) nodes e))"

lemma emitter_reach_inv: "emitter_reach e \<Longrightarrow> emitter_inv e"
proof (induction rule: emitter_reach.induct)
  case (turn e nodes cfg)
  then show ?case
    by (cases cfg; cases nodes) (simp_all add: emitter_turn_def emitter_inv_round)
qed (simp add: emitter_inv_def NewCostMetricEmitter_def)

text \<open>
  C26. Whatever rounds and errors came before, after a round each of the three gauges has exactly the
  nodes of that round, with the costs computed for them: a node that is gone, or whose type, region or
  identifier changed, leaves nothing behind. This is for labels without a comma, which the
  emitter joins and splits them by.
\<close>

theorem emitter_reflects_nodes:
  assumes "emitter_reach e" "wf_map nodes" "\<forall>np \<in> set nodes. no_comma np"
  shows "mget (CpuGauge (emit_round cfg nodes e)) =
      map_of (map (\<lambda>np. (labels_of np, cpu_cost cfg (snd np))) nodes) \<and>
    mget (RamGauge (emit_round cfg nodes e)) =
      map_of (map (\<lambda>np. (labels_of np, ram_cost cfg (snd np))) nodes) \<and>
    mget (TotalGauge (emit_round cfg nodes e)) =
      map_of (map (\<lambda>np. (labels_of np, total_cost cfg (snd np))) nodes)"
  using round_gauges [OF emitter_reach_inv [OF assms(1)] assms(2, 3)] by blast

section \<open>When it stops\<close>

definition costs_ok :: "'x turn_input \<Rightarrow> bool" where
  "costs_ok i \<longleftrightarrow> \<not> isl (ConfigAnswer i) \<and> \<not> isl (NodesAnswer i)"

text \<open>
  The emitter returns exactly when a turn that has both its answers takes the stop channel. As long
  as the configuration or the costs can not be had, it neither waits for the ticker nor stops.
\<close>

theorem emitter_stops:
  "snd (emitter_Start is e) \<longleftrightarrow> (\<exists>i. i \<in> set is \<and> costs_ok i \<and> StopTaken i)"
proof (induction "is" arbitrary: e)
  case (Cons i "is")
  then show ?case
    by (cases "ConfigAnswer i"; cases "NodesAnswer i") (auto simp: emitter_turn_def costs_ok_def)
qed simp

text \<open>A node that goes.\<close>

definition example_price :: BaseInstancePrice where
  "example_price = empty_price\<lparr>CpuHourlyCost := ''0.5'', PCpu := ''2'', BaseInstancePrice.InstanceType := ''S5'',
     PRegion := ''gz'', BaseInstancePrice.ProviderID := ''ins-1''\<rparr>"

definition example_pricing :: CustomPricing where
  "example_pricing = \<lparr>CRegion = [], CProvider = [], CDescription = [], CpuHourlyPrice = 0, RamGBHourlyPrice = 0\<rparr>"

theorem emitter_reflects_nodes_witness:
  "mget (CpuGauge (emit_round example_pricing []
     (snd (emitter_turn (Inr example_pricing :: string + CustomPricing) (Inr [(''n1'', example_price)])
        NewCostMetricEmitter)))) [''n1'', ''n1'', ''S5'', ''gz'', ''ins-1''] = None"
proof -
  have "no_comma (''n1'', example_price)" by code_simp
  then have "emitter_reach (snd (emitter_turn (Inr example_pricing :: string + CustomPricing)
      (Inr [(''n1'', example_price)]) NewCostMetricEmitter))"
    by (intro emitter_reach.intros) (auto simp: wf_map_def)
  from emitter_reflects_nodes [OF this, of "[]" example_pricing] show ?thesis by simp
qed

end
