(* ===== verification/Exporter.thy ===== *)
theory Exporter
  imports Emitter Qcloud_Spec
begin

text \<open>
  The cost exporter put together: the cost model over Tencent's cloud and over the default one
  (\<open>cmd/fadvisor/app/fadvisor.go\<close> gives the cloud that the configuration names to the model, and the
  model to the emitter and to the server), and the two HTTP handlers of \<open>pkg/cost-exporter/server.go\<close>.
  The JSON of a map of costs is a
  parameter here; \<open>Exporter_Http\<close> fills it in. A nil configuration is shown as an error of \<open>GetConfig\<close>:
  the emitter asks for the costs next, which are an error then.
\<close>

section \<open>The clouds behind the model\<close>

type_synonym node_costs = "(string, BaseInstancePrice) gomap"

datatype cloud_failure = CloudFailed cloud_error | PricingFailed pricing_error

type_synonym cloud_model = "(node_costs, node_costs, (string, Price) gomap, cloud_failure) cloud_price"

definition config_answer :: "CustomPricing option \<Rightarrow> cloud_failure + CustomPricing" where
  "config_answer cfg = (case cfg of None \<Rightarrow> Inl (PricingFailed pricing_error.NilConfig) | Some c \<Rightarrow> Inr c)"

definition config_update :: "CustomPricing option \<Rightarrow> labels \<Rightarrow> cloud_failure + CustomPricing" where
  "config_update cfg conf = (case cfg of
     None \<Rightarrow> Inl (PricingFailed pricing_error.NilConfig)
   | Some c \<Rightarrow> (case UpdateConfigFromConfigMap c conf of
       (c', None) \<Rightarrow> Inr c'
     | (c', Some e) \<Rightarrow> Inl (PricingFailed e)))"

definition from_cloud :: "cloud_error + 'a \<Rightarrow> cloud_failure + 'a" where
  "from_cloud r = (case r of Inl e \<Rightarrow> Inl (CloudFailed e) | Inr x \<Rightarrow> Inr x)"

definition tencent_cloud ::
    "'q quantity_ops \<Rightarrow> TencentCloud \<Rightarrow> 'q node list \<Rightarrow> 'q pod list \<Rightarrow> cloud_model" where
  "tencent_cloud ops tc nodes pods =
     \<lparr>CloudNodesCost = from_cloud (GetNodesCost ops tc nodes),
      CloudPodsCost = from_cloud (GetPodsCost ops tc nodes pods),
      CloudNodesPricing = from_cloud (GetNodesPricing tc), CloudConfig = config_answer (customPricing tc),
      CloudUpdateConfig = config_update (customPricing tc)\<rparr>"

definition default_GetNodesPricing :: "cloud_error + (string, Price) gomap" where
  "default_GetNodesPricing = Inr []"

definition default_cloud ::
    "'q quantity_ops \<Rightarrow> CustomPricing option \<Rightarrow> 'q node list \<Rightarrow> 'q pod list \<Rightarrow> cloud_model" where
  "default_cloud ops cfg nodes pods =
     \<lparr>CloudNodesCost = from_cloud (default_GetNodesCost ops cfg nodes),
      CloudPodsCost = from_cloud (default_GetPodsCost ops cfg nodes pods),
      CloudNodesPricing = from_cloud default_GetNodesPricing, CloudConfig = config_answer cfg,
      CloudUpdateConfig = config_update cfg\<rparr>"

text \<open>One turn of the emitter over a cloud as it is at that turn.\<close>

definition export_turn :: "cloud_model \<Rightarrow> emitter \<Rightarrow> turn \<times> emitter" where
  "export_turn c e = emitter_turn (model_GetConfig c) (model_GetNodesCost c) e"

section \<open>The HTTP handlers\<close>

text \<open>A response: its status, 200 when the handler writes none, and its body.\<close>

record response =
  StatusCode :: int
  ResponseBody :: string

text \<open>What both handlers do with the model's answer; \<open>text\<close> is the text of an error.\<close>

definition answer_json ::
    "('x model_error \<Rightarrow> string) \<Rightarrow> ('a \<Rightarrow> string + string) \<Rightarrow> 'x model_error + 'a \<Rightarrow> response" where
  "answer_json err marshal r = (case r of
     Inl e \<Rightarrow> \<lparr>StatusCode = 500, ResponseBody = err e\<rparr>
   | Inr a \<Rightarrow> (case marshal a of
       Inl e \<Rightarrow> \<lparr>StatusCode = 500, ResponseBody = e\<rparr>
     | Inr data \<Rightarrow> \<lparr>StatusCode = 200, ResponseBody = data\<rparr>))"

definition NodesCostHandler ::
    "('x model_error \<Rightarrow> string) \<Rightarrow> ('n \<Rightarrow> string + string) \<Rightarrow> ('n, 'p, 'r, 'x) cloud_price \<Rightarrow> response" where
  "NodesCostHandler err marshal m = answer_json err marshal (model_GetNodesCost m)"

definition NodesPriceHandler ::
    "('x model_error \<Rightarrow> string) \<Rightarrow> ('r \<Rightarrow> string + string) \<Rightarrow> ('n, 'p, 'r, 'x) cloud_price \<Rightarrow> response" where
  "NodesPriceHandler err marshal m = answer_json err marshal (model_GetNodesPricing m)"

text \<open>The handlers that \<open>RegisterHandlers\<close> adds to those of the base handler.\<close>

definition RegisterHandlers :: "(string, 'h) gomap \<Rightarrow> 'h \<Rightarrow> 'h \<Rightarrow> (string, 'h) gomap" where
  "RegisterHandlers base costs pricing = mput ''/nodes/pricing'' pricing (mput ''/nodes/cost'' costs base)"

section \<open>What the exporter shows of a cloud\<close>

text \<open>
  A node of the cluster is shown with a price when its cloud can price it. The contract that both
  clouds keep: the costs are a map of the nodes that can be priced, by their names.
\<close>

locale costed_cloud =
  fixes model :: "'q node list \<Rightarrow> cloud_model" and config :: "CustomPricing"
    and priced :: "'q node \<Rightarrow> BaseInstancePrice \<Rightarrow> bool"
  assumes has_config: "CloudConfig (model nodes) = Inr config"
    and wf_costs: "CloudNodesCost (model nodes) = Inr costs \<Longrightarrow> wf_map costs"
    and costs_iff: "distinct (map NodeName nodes) \<Longrightarrow> CloudNodesCost (model nodes) = Inr costs \<Longrightarrow>
      mget costs name = Some p \<longleftrightarrow> (\<exists>n \<in> set nodes. NodeName n = name \<and> priced n p)"
begin

lemma turn_select:
  assumes "CloudNodesCost (model nodes) = Inr costs"
  shows "export_turn (model nodes) e = (Select, emit_round config costs e)"
  by (simp add: export_turn_def emitter_turn_def model_GetConfig_def model_GetNodesCost_def passed_def
      has_config assms)

text \<open>After a turn the total gauge shows the nodes that can be priced and nothing else.\<close>

lemma shown:
  assumes "emitter_reach e" "distinct (map NodeName nodes)" "CloudNodesCost (model nodes) = Inr costs"
    and comma: "\<forall>n \<in> set nodes. \<forall>p. priced n p \<longrightarrow> no_comma (NodeName n, p)"
    and turn: "export_turn (model nodes) e = (Select, e')"
  shows "mget (TotalGauge e') ls = Some v \<longleftrightarrow>
    (\<exists>n \<in> set nodes. \<exists>p. priced n p \<and> ls = node_labels (NodeName n) p \<and> v = total_cost config p)"
proof -
  note wf = wf_costs [OF assms(3)] and iff = costs_iff [OF assms(2, 3)]
  have mem: "(name, p) \<in> set costs \<longleftrightarrow> (\<exists>n \<in> set nodes. NodeName n = name \<and> priced n p)" for name p
    using iff [of name p] wf_map_mget [OF wf, of name p] by simp
  have "\<forall>np \<in> set costs. no_comma np"
  proof
    fix np assume np_in: "np \<in> set costs"
    obtain name p where np: "np = (name, p)" by fastforce
    with np_in have "(name, p) \<in> set costs" by simp
    then obtain n where "n \<in> set nodes" "NodeName n = name" "priced n p" using mem by blast
    with comma np show "no_comma np" by auto
  qed
  from round_gauges(3) [OF emitter_reach_inv [OF assms(1)] wf this, of config] turn turn_select [OF assms(3)]
  have "mget (TotalGauge e') ls = map_of (map (\<lambda>np. (labels_of np, total_cost config (snd np))) costs) ls"
    by simp
  also have "\<dots> = Some v \<longleftrightarrow> (ls, v) \<in> (\<lambda>np. (labels_of np, total_cost config (snd np))) ` set costs"
    using labels_distinct [OF wf] by (subst map_of_eq_Some_iff) (simp_all add: comp_def)
  also have "\<dots> \<longleftrightarrow> (\<exists>n \<in> set nodes. \<exists>p. priced n p \<and> ls = node_labels (NodeName n) p \<and> v = total_cost config p)"
  proof
    assume "(ls, v) \<in> (\<lambda>np. (labels_of np, total_cost config (snd np))) ` set costs"
    then obtain name p where np: "(name, p) \<in> set costs" "ls = labels_of (name, p)" "v = total_cost config p"
      by auto
    then obtain n where "n \<in> set nodes" "NodeName n = name" "priced n p" using mem by blast
    with np show "\<exists>n \<in> set nodes. \<exists>p. priced n p \<and> ls = node_labels (NodeName n) p \<and> v = total_cost config p"
      by (auto simp: labels_of_def)
  next
    assume "\<exists>n \<in> set nodes. \<exists>p. priced n p \<and> ls = node_labels (NodeName n) p \<and> v = total_cost config p"
    then obtain n p where np: "n \<in> set nodes" "priced n p" "ls = labels_of (NodeName n, p)"
      "v = total_cost config p" by (auto simp: labels_of_def)
    then have "(NodeName n, p) \<in> set costs" using mem by blast
    with np show "(ls, v) \<in> (\<lambda>np. (labels_of np, total_cost config (snd np))) ` set costs"
      by (intro rev_image_eqI [of "(NodeName n, p)"]) simp_all
  qed
  finally show ?thesis .
qed

end

lemma from_cloud_Inr [simp]: "from_cloud r = Inr x \<longleftrightarrow> r = Inr x"
  by (cases r) (simp_all add: from_cloud_def)

lemma nodes_loop_wf: "nodes_loop skip cost ns m = Inr m' \<Longrightarrow> wf_map m \<Longrightarrow> wf_map m'"
  by (induction ns arbitrary: m) (auto split: if_splits sum.splits)

lemma default_nodes_cost:
  "\<exists>costs. default_GetNodesCost ops (Some cfg) nodes = Inr costs"
proof -
  have "nodes_loop (\<lambda>n. False) (default_computeNodeBreakdownCost ops cfg) nodes m \<noteq> Inl e" for m e
    by (induction nodes arbitrary: m) (simp_all add: default_computeNodeBreakdownCost_def)
  then show ?thesis
    by (cases "default_GetNodesCost ops (Some cfg) nodes") (auto simp: default_GetNodesCost_def)
qed

interpretation tencent_exported: costed_cloud
  "\<lambda>nodes. tencent_cloud ops (tc\<lparr>customPricing := Some cfg\<rparr>) nodes pods" cfg
  "\<lambda>n p. \<not> IsVirtualNode (Some n) \<and>
     computeNodeBreakdownCost ops (tc\<lparr>customPricing := Some cfg\<rparr>) (Some cfg) (Some n) = Inr p"
proof unfold_locales
  let ?tc = "tc\<lparr>customPricing := Some cfg\<rparr>"
  fix nodes costs name p
  show "CloudConfig (tencent_cloud ops ?tc nodes pods) = Inr cfg"
    by (simp add: tencent_cloud_def config_answer_def)
  assume "CloudNodesCost (tencent_cloud ops ?tc nodes pods) = Inr costs"
  then have l: "nodes_loop (\<lambda>n. IsVirtualNode (Some n)) (computeNodeBreakdownCost ops ?tc (Some cfg)) nodes [] =
      Inr costs"
    by (simp add: tencent_cloud_def GetNodesCost_def)
  then show "wf_map costs" by (rule nodes_loop_wf) simp
  assume "distinct (map NodeName nodes)"
  from tencent.nodes_priced [OF l this]
  show "mget costs name = Some p \<longleftrightarrow> (\<exists>n \<in> set nodes. NodeName n = name \<and> \<not> IsVirtualNode (Some n) \<and>
      computeNodeBreakdownCost ops ?tc (Some cfg) (Some n) = Inr p)"
    by simp
qed

interpretation default_exported: costed_cloud
  "\<lambda>nodes. default_cloud ops (Some cfg) nodes pods" cfg
  "\<lambda>n p. p = config_price ops cfg (CRegion cfg) n"
proof unfold_locales
  fix nodes costs name p
  show "CloudConfig (default_cloud ops (Some cfg) nodes pods) = Inr cfg"
    by (simp add: default_cloud_def config_answer_def)
  assume "CloudNodesCost (default_cloud ops (Some cfg) nodes pods) = Inr costs"
  then have l: "nodes_loop (\<lambda>n. False) (default_computeNodeBreakdownCost ops cfg) nodes [] = Inr costs"
    by (simp add: default_cloud_def default_GetNodesCost_def)
  then show "wf_map costs" by (rule nodes_loop_wf) simp
  assume "distinct (map NodeName nodes)"
  from Qcloud_Price.default_cloud.nodes_priced [OF l this]
  show "mget costs name = Some p \<longleftrightarrow>
      (\<exists>n \<in> set nodes. NodeName n = name \<and> p = config_price ops cfg (CRegion cfg) n)"
    by (auto simp: default_computeNodeBreakdownCost_def)
qed

text \<open>
  C2. From the nodes of the cluster to the gauges. After a turn of the emitter over Tencent's cloud, whatever
  it showed before, the gauge of the total costs shows exactly the real nodes that the cloud can
  price, each with the labels and the cost of its price; over the default cloud the turn always comes
  to its end, and the gauge shows every node, with the configured prices. This is for nodes of
  distinct names and labels without a comma.
\<close>

theorem exporter_shows_nodes:
  assumes "emitter_reach e" "distinct (map NodeName nodes)"
  shows "(customPricing tc = Some cfg \<and> GetNodesCost ops tc nodes = Inr costs \<and>
      (\<forall>n \<in> set nodes. \<forall>p. \<not> IsVirtualNode (Some n) \<and>
        computeNodeBreakdownCost ops tc (Some cfg) (Some n) = Inr p \<longrightarrow> no_comma (NodeName n, p)) \<longrightarrow>
      (\<exists>e'. export_turn (tencent_cloud ops tc nodes pods) e = (Select, e') \<and>
        (\<forall>ls v. mget (TotalGauge e') ls = Some v \<longleftrightarrow> (\<exists>n \<in> set nodes. \<exists>p. \<not> IsVirtualNode (Some n) \<and>
          computeNodeBreakdownCost ops tc (Some cfg) (Some n) = Inr p \<and>
          ls = node_labels (NodeName n) p \<and> v = total_cost cfg p)))) \<and>
    ((\<forall>n \<in> set nodes. no_comma (NodeName n, config_price ops cfg (CRegion cfg) n)) \<longrightarrow>
      (\<exists>e'. export_turn (default_cloud ops (Some cfg) nodes pods) e = (Select, e') \<and>
        (\<forall>ls v. mget (TotalGauge e') ls = Some v \<longleftrightarrow> (\<exists>n \<in> set nodes.
          ls = node_labels (NodeName n) (config_price ops cfg (CRegion cfg) n) \<and>
          v = total_cost cfg (config_price ops cfg (CRegion cfg) n)))))"
    (is "(?t \<longrightarrow> ?T) \<and> (?d \<longrightarrow> ?D)")
proof (intro conjI impI)
  assume t: ?t
  then have "tc\<lparr>customPricing := Some cfg\<rparr> = tc" by (cases tc) simp
  note tc = this
  from t have c: "CloudNodesCost (tencent_cloud ops tc nodes pods) = Inr costs" by (simp add: tencent_cloud_def)
  note turn = tencent_exported.turn_select [where tc = tc and cfg = cfg, unfolded tc, OF c, of e]
  from t have comma: "\<forall>n \<in> set nodes. \<forall>p. \<not> IsVirtualNode (Some n) \<and>
      computeNodeBreakdownCost ops tc (Some cfg) (Some n) = Inr p \<longrightarrow> no_comma (NodeName n, p)" by blast
  from tencent_exported.shown [where tc = tc and cfg = cfg, unfolded tc, OF assms c comma turn] turn
  show ?T by auto
next
  assume d: ?d
  obtain costs' where "default_GetNodesCost ops (Some cfg) nodes = Inr costs'" using default_nodes_cost by blast
  then have c: "CloudNodesCost (default_cloud ops (Some cfg) nodes pods) = Inr costs'"
    by (simp add: default_cloud_def)
  note turn = default_exported.turn_select [OF c, of e]
  from d have comma: "\<forall>n \<in> set nodes. \<forall>p. p = config_price ops cfg (CRegion cfg) n \<longrightarrow>
      no_comma (NodeName n, p)" by blast
  from default_exported.shown [OF assms c comma turn] turn show ?D by auto
qed

text \<open>One real node, priced by the configuration in both clouds.\<close>

definition exported_node :: "nat node" where
  "exported_node = example_node ''n'' ''qcloud:///1/ins-a''"

abbreviation exported_cfg :: CustomPricing where
  "exported_cfg \<equiv> Qcloud_Price.example_pricing"

abbreviation shown_price :: BaseInstancePrice where
  "shown_price \<equiv> config_price nat_ops exported_cfg (CRegion exported_cfg) exported_node"

definition shown_labels :: "string list" where
  "shown_labels = [''n'', ''n'', [], ''r'', ''qcloud:///1/ins-a'']"

lemma exported_facts:
  "NodeName exported_node = ''n''" "\<not> IsVirtualNode (Some exported_node)"
  "customPricing priced_cloud = Some exported_cfg" "cached_price priced_cloud exported_node = None"
  "fst (GetInstanceType (NodeLabels exported_node)) = []" "getNodeRegion exported_node = []"
  "NodeProviderID exported_node = ''qcloud:///1/ins-a''"
  by code_simp+

lemma shown_labels: "node_labels ''n'' shown_price = shown_labels"
  by (simp add: node_labels_def config_price_def empty_price_def exported_node_def example_node_def
      Qcloud_Price.example_pricing_def shown_labels_def GetInstanceType_def Let_def)

lemma tencent_price:
  "\<exists>p. computeNodeBreakdownCost nat_ops priced_cloud (Some exported_cfg) (Some exported_node) = Inr p \<and>
    no_comma (''n'', p)"
  by (simp add: computeNodeBreakdownCost_def exported_facts getCloudInstancePrice_def Let_def
      getDefaultNodePrice_def config_price_def empty_price_def no_comma_def node_labels_def)

theorem exporter_shows_nodes_witness:
  "(\<exists>e'. export_turn (default_cloud nat_ops (Some exported_cfg) [exported_node] [])
      NewCostMetricEmitter = (Select, e') \<and>
    mget (TotalGauge e') shown_labels = Some (total_cost exported_cfg shown_price)) \<and>
   fst (export_turn (tencent_cloud nat_ops priced_cloud [exported_node] [])
      NewCostMetricEmitter) = Select"
proof -
  have "distinct (map NodeName [exported_node])" by simp
  note shows_nodes = exporter_shows_nodes [OF emitter_reach.new this, where ops = nat_ops and cfg = exported_cfg
    and pods = "[]"]
  have "no_comma (''n'', shown_price)" by (simp add: no_comma_def shown_labels) (simp add: shown_labels_def)
  then have d: "\<forall>n \<in> set [exported_node]. no_comma (NodeName n, config_price nat_ops exported_cfg
      (CRegion exported_cfg) n)" by (simp add: exported_facts)
  obtain p where p: "computeNodeBreakdownCost nat_ops priced_cloud (Some exported_cfg) (Some exported_node) = Inr p"
    "no_comma (''n'', p)" using tencent_price by blast
  have g: "GetNodesCost nat_ops priced_cloud [exported_node] = Inr [(''n'', p)]"
    by (simp add: GetNodesCost_def exported_facts p)
  from shows_nodes [THEN conjunct2, THEN mp, OF d]
  obtain e' where e': "export_turn (default_cloud nat_ops (Some exported_cfg) [exported_node] []) NewCostMetricEmitter = (Select, e')"
    "\<forall>ls v. mget (TotalGauge e') ls = Some v \<longleftrightarrow> (\<exists>n \<in> set [exported_node].
      ls = node_labels (NodeName n) (config_price nat_ops exported_cfg (CRegion exported_cfg) n) \<and>
      v = total_cost exported_cfg (config_price nat_ops exported_cfg (CRegion exported_cfg) n))"
    by blast
  have "customPricing priced_cloud = Some exported_cfg \<and>
      GetNodesCost nat_ops priced_cloud [exported_node] = Inr [(''n'', p)] \<and>
      (\<forall>n \<in> set [exported_node]. \<forall>q. \<not> IsVirtualNode (Some n) \<and>
        computeNodeBreakdownCost nat_ops priced_cloud (Some exported_cfg) (Some n) = Inr q \<longrightarrow>
        no_comma (NodeName n, q))"
    using p g by (simp add: exported_facts)
  from shows_nodes [THEN conjunct1, THEN mp, OF this]
  have "fst (export_turn (tencent_cloud nat_ops priced_cloud [exported_node] [])
      NewCostMetricEmitter) = Select" by auto
  moreover have "mget (TotalGauge e') shown_labels = Some (total_cost exported_cfg shown_price)"
    using e'(2) by (simp add: exported_facts shown_labels)
  ultimately show ?thesis using e'(1) by blast
qed

end
