(* ===== verification/Go_Ftoa.thy ===== *)
theory Go_Ftoa
  imports Go_Strconv Complex_Main
begin

text \<open>
  The text that \<open>%v\<close> gives of a \<open>float64\<close> reads back as the same \<open>float64\<close>. The prices of the exporter go
  through such texts. Shown on the way: what \<open>rnd\<close> rounds to, that \<open>dec_exp\<close> counts the digits, and
  that 17 digits are always enough.
\<close>

text \<open>The values that operations return: 53 significant bits, or fewer in the last binade.\<close>

definition canonical :: "float64 \<Rightarrow> bool" where
  "canonical x = (case x of NaN \<Rightarrow> False | Inf s \<Rightarrow> False
     | Fin s m e \<Rightarrow> (m = 0 \<and> e = -1074) \<or>
         (0 < m \<and> m < 2^53 \<and> -1074 \<le> e \<and> e \<le> 971 \<and> (2^52 \<le> m \<or> e = -1074)))"

abbreviation ratio :: "int \<Rightarrow> int \<Rightarrow> real" where
  "ratio n d \<equiv> real_of_int n / real_of_int d"

abbreviation two_to :: "int \<Rightarrow> real" where
  "two_to e \<equiv> 2 powi e"

section \<open>Rounding\<close>

lemma pow2_real: "0 \<le> e \<Longrightarrow> real_of_int (pow2 e) = two_to e"
  by (simp add: pow2_eq power_int_def)

lemma pow10_real: "0 \<le> e \<Longrightarrow> real_of_int (pow10 e) = 10 powi e"
  by (simp add: pow10_def power_int_def)

lemma blen_nonneg: "0 \<le> blen n"
proof (induction n rule: blen.induct)
  case (1 n)
  then show ?case by (subst blen.simps) simp
qed

lemma blen_bounds: "0 < n \<Longrightarrow> two_to (blen n - 1) \<le> real_of_int n \<and> real_of_int n < two_to (blen n)"
proof (induction n rule: blen.induct)
  case (1 n)
  have b: "blen n = 1 + blen (n div 2)" using 1(2) by (simp add: blen.simps [of n])
  show ?case
  proof (cases "n = 1")
    case True
    with b show ?thesis by (simp add: blen.simps [of 0])
  next
    case False
    with 1(2) have h: "0 < n div 2" by simp
    with 1 have IH: "two_to (blen (n div 2) - 1) \<le> real_of_int (n div 2)"
      "real_of_int (n div 2) < two_to (blen (n div 2))" by simp_all
    have "two_to (blen n - 1) = 2 * two_to (blen (n div 2) - 1)" "two_to (blen n) = 2 * two_to (blen (n div 2))"
      using power_int_add_1' [of "2::real" "blen (n div 2) - 1"] power_int_add_1' [of "2::real" "blen (n div 2)"]
      by (simp_all add: b add.commute)
    moreover have "2 * (n div 2) \<le> n" "n < 2 * (n div 2) + 2" by presburger+
    then have "2 * real_of_int (n div 2) \<le> real_of_int n" "real_of_int n < 2 * real_of_int (n div 2) + 2"
      by linarith+
    moreover have "real_of_int (n div 2) + 1 \<le> two_to (blen (n div 2))"
    proof -
      have nn: "0 \<le> blen (n div 2)" using h by (metis blen_nonneg)
      from IH(2) have "n div 2 < pow2 (blen (n div 2))"
        unfolding pow2_real [OF nn, symmetric] by simp
      then have "n div 2 + 1 \<le> pow2 (blen (n div 2))" by simp
      then show ?thesis unfolding pow2_real [OF nn, symmetric] by linarith
    qed
    ultimately show ?thesis using IH by linarith
  qed
qed


lemma two_to_pos [simp]: "0 < two_to e"
  by simp

lemma two_to_diff: "two_to (a - b) = two_to a / two_to b"
  by (simp add: power_int_diff)

lemma two_to_add: "two_to (a + b) = two_to a * two_to b"
  by (simp add: power_int_add)

lemma two_to_Suc: "two_to (e + 1) = 2 * two_to e"
  by (simp add: power_int_add_1')

lemma two_to_less: "a < b \<Longrightarrow> two_to a < two_to b"
  by (rule power_int_strict_increasing) simp_all

lemma two_to_mono: "a \<le> b \<Longrightarrow> two_to a \<le> two_to b"
  by (rule power_int_increasing) simp_all

lemma scale_ratio:
  assumes "0 < n" "0 < d" "scale n d e = (a, b)"
  shows "0 < a" "0 < b" "ratio a b = ratio n d / two_to e"
proof -
  show "0 < a" "0 < b" using assms by (auto simp: scale_def split: if_splits)
  show "ratio a b = ratio n d / two_to e"
  proof (cases "0 \<le> e")
    case True
    with assms(3) have "a = n" "b = d * pow2 e" by (auto simp: scale_def)
    with pow2_real [OF True] show ?thesis by simp
  next
    case False
    with assms(3) have "a = n * pow2 (- e)" "b = d" by (auto simp: scale_def)
    moreover have "real_of_int (pow2 (- e)) = 1 / two_to e"
      using False pow2_real [of "- e"] by (simp add: power_int_minus inverse_eq_divide)
    ultimately show ?thesis by simp
  qed
qed

lemma floor_ratio: "0 < b \<Longrightarrow> \<lfloor>ratio a b\<rfloor> = a div b"
  by (simp add: floor_divide_of_int_eq)

text \<open>The exponent at which the quotient has 53 bits before the point.\<close>

lemma ulp_exp_spec:
  assumes "0 < n" "0 < d"
  obtains e where "ulp_exp n d = max e (-1074)" "two_to 52 \<le> ratio n d / two_to e" "ratio n d / two_to e < two_to 53"
proof -
  let ?y = "ratio n d" and ?e = "blen n - blen d - 53"
  obtain a b where ab: "scale n d ?e = (a, b)" by fastforce
  note r = scale_ratio [OF assms ab]
  have bn: "two_to (blen n - 1) \<le> real_of_int n" "real_of_int n < two_to (blen n)"
    and bd: "two_to (blen d - 1) \<le> real_of_int d" "real_of_int d < two_to (blen d)"
    using blen_bounds assms by blast+
  have pos: "0 < real_of_int n" "0 < real_of_int d" using assms by simp_all
  have lo: "two_to 52 < ?y / two_to ?e"
  proof -
    have "two_to (blen n - 1) / two_to (blen d) < ?y"
      using bn(1) bd(2) pos by (intro frac_less2) simp_all
    moreover have "two_to (blen n - 1) / two_to (blen d) = two_to 52 * two_to ?e"
      using two_to_add [of 52 ?e] by (simp only: two_to_diff [symmetric]) (simp add: algebra_simps)
    ultimately show ?thesis by (simp only: pos_less_divide_eq [OF two_to_pos])
  qed
  have hi: "?y / two_to ?e < 2 * two_to 53"
  proof -
    have "?y < two_to (blen n) / two_to (blen d - 1)"
      using bn(2) bd(1) pos by (intro frac_less) simp_all
    moreover have "two_to (blen n) / two_to (blen d - 1) = two_to 54 * two_to ?e"
      using two_to_add [of 54 ?e] by (simp only: two_to_diff [symmetric]) (simp add: algebra_simps)
    ultimately have "?y < 2 * two_to 53 * two_to ?e" by simp
    then show ?thesis by (simp only: pos_divide_less_eq [OF two_to_pos])
  qed
  have test: "9007199254740992 \<le> a div b \<longleftrightarrow> two_to 53 \<le> ?y / two_to ?e"
    using floor_ratio [OF r(2), of a] le_floor_iff [of 9007199254740992 "ratio a b"] r(3)
    by simp
  show ?thesis
  proof (cases "9007199254740992 \<le> a div b")
    case True
    define z where "z = ?y / two_to ?e"
    have "?y / two_to (?e + 1) = ?y / two_to ?e / 2" by (simp only: two_to_Suc) simp
    then have half: "?y / two_to (?e + 1) = z / 2" by (simp only: z_def)
    have z: "two_to 53 \<le> z" "z < 2 * two_to 53" using True test hi by (simp_all only: z_def)
    have "ulp_exp n d = max (?e + 1) (-1074)" using True ab by (simp add: ulp_exp_def Let_def)
    moreover have "two_to 52 \<le> ?y / two_to (?e + 1)" unfolding half using z by simp
    moreover have "?y / two_to (?e + 1) < two_to 53" unfolding half using z by simp
    ultimately show ?thesis by (rule that)
  next
    case False
    then have "ulp_exp n d = max ?e (-1074)" using ab by (simp add: ulp_exp_def Let_def)
    moreover have "two_to 52 \<le> ?y / two_to ?e" using lo by linarith
    moreover have "?y / two_to ?e < two_to 53" using False [unfolded test] by linarith
    ultimately show ?thesis by (rule that)
  qed
qed

lemma scaled_unique:
  assumes "two_to 52 \<le> y / two_to e" "y / two_to e < two_to 53"
    and "two_to 52 \<le> y / two_to f" "y / two_to f < two_to 53"
  shows "e = f"
proof -
  have "two_to (52 + e) \<le> y" "y < two_to (53 + e)" "two_to (52 + f) \<le> y" "y < two_to (53 + f)"
    using assms by (simp_all add: power_int_add field_simps)
  then have "two_to (52 + e) < two_to (53 + f)" "two_to (52 + f) < two_to (53 + e)" by linarith+
  then have "52 + e < 53 + f" "52 + f < 53 + e"
    using two_to_mono [of "53 + f" "52 + e"] two_to_mono [of "53 + e" "52 + f"] by (meson not_less)+
  then show ?thesis by simp
qed

text \<open>What is less than a half away from an integer is rounded to it.\<close>

lemma rdiv_near:
  assumes "0 < b" "\<bar>ratio a b - real_of_int m\<bar> < 1 / 2"
  shows "rdiv a b = m"
proof -
  have b: "0 < real_of_int b" using assms(1) by simp
  have "ratio a b * real_of_int b = real_of_int a" using b by simp
  have ab: "\<bar>real_of_int a - real_of_int m * real_of_int b\<bar> < real_of_int b / 2"
  proof -
    have "\<bar>real_of_int a - real_of_int m * real_of_int b\<bar> = \<bar>ratio a b - real_of_int m\<bar> * real_of_int b"
    proof -
      have "real_of_int a - real_of_int m * real_of_int b = (ratio a b - real_of_int m) * real_of_int b"
        using b by (simp add: left_diff_distrib)
      then show ?thesis using b by (simp add: abs_mult)
    qed
    also have "\<dots> < 1 / 2 * real_of_int b" using assms(2) b by (intro mult_strict_right_mono) simp_all
    finally show ?thesis by simp
  qed
  then have "real_of_int (2 * \<bar>a - m * b\<bar>) < real_of_int b" by simp
  then have lt: "2 * \<bar>a - m * b\<bar> < b" by linarith
  have "m * b \<le> a \<and> a - m * b < b \<or> a < m * b \<and> m * b - a < b"
    using lt assms(1) by (cases "m * b \<le> a") simp_all
  then consider "m * b \<le> a" "a - m * b < b" | "a < m * b" "m * b - a < b" by blast
  then show ?thesis
  proof cases
    case 1
    moreover have "a = b * m + (a - m * b)" by (simp add: algebra_simps)
    moreover have "0 \<le> a - m * b" using 1(1) by simp
    ultimately have "a div b = m" "a mod b = a - m * b"
      using int_div_pos_eq int_mod_pos_eq by blast+
    with lt 1 show ?thesis by (simp add: rdiv_def Let_def)
  next
    case 2
    have "a = b * (m - 1) + (a - (m - 1) * b)" by (simp add: algebra_simps)
    moreover have "0 \<le> a - (m - 1) * b" "a - (m - 1) * b < b" using lt 2 by (simp_all add: left_diff_distrib)
    ultimately have "a div b = m - 1" "a mod b = a - (m - 1) * b"
      using int_div_pos_eq int_mod_pos_eq by blast+
    moreover have "b < 2 * (a - (m - 1) * b)" using lt 2 by (simp add: left_diff_distrib)
    ultimately show ?thesis by (simp add: rdiv_def Let_def)
  qed
qed


text \<open>A quotient closer to a canonical value than to its neighbours is rounded to it.\<close>

lemma rnd_near:
  assumes nd: "0 < n" "0 < d" and x: "canonical (Fin s m e)" "0 < m"
    and near: "\<bar>ratio n d / two_to e - real_of_int m\<bar> < 1 / 2"
    and low: "m = 2^52 \<Longrightarrow> real_of_int m - ratio n d / two_to e < 1 / 4"
  shows "rnd s n d = Fin s m e"
proof -
  let ?y = "ratio n d"
  from x have m: "m < 2^53" "-1074 \<le> e" "e \<le> 971" "2^52 \<le> m \<or> e = -1074" by (auto simp: canonical_def)
  obtain f where f: "ulp_exp n d = max f (-1074)" "two_to 52 \<le> ?y / two_to f" "?y / two_to f < two_to 53"
    by (rule ulp_exp_spec [OF nd])
  define u where "u = ulp_exp n d"
  obtain a b where ab: "scale n d u = (a, b)" by fastforce
  note r = scale_ratio [OF nd ab]
  have rnd: "rnd s n d = (let m = rdiv a b;
      (m', e') = (if m = 9007199254740992 then (4503599627370496, u + 1) else (m, u))
      in if 971 < e' then Inf s else Fin s m' e')"
    using nd ab by (simp add: rnd_def u_def Let_def)
  have below: "?y / two_to e < two_to 53"
  proof -
    have "m \<le> 2^53 - 1" using m(1) by simp
    then have "real_of_int m \<le> two_to 53 - 1" by simp
    with near show ?thesis by linarith
  qed
  show ?thesis
  proof (cases "two_to 52 \<le> ?y / two_to e \<or> e = -1074")
    case True
    have "u = e"
    proof (cases "two_to 52 \<le> ?y / two_to e")
      case True
      from scaled_unique [OF f(2, 3) this below] f(1) m(2) show ?thesis by (simp add: u_def)
    next
      case False
      with \<open>two_to 52 \<le> ?y / two_to e \<or> e = -1074\<close> have e: "e = -1074" by blast
      have "f \<le> e"
      proof (rule ccontr)
        assume "\<not> f \<le> e"
        then have "two_to e \<le> two_to f" using two_to_mono by simp
        moreover have "0 \<le> ?y" using nd by simp
        ultimately have "?y / two_to f \<le> ?y / two_to e" by (intro divide_left_mono) simp_all
        with f(2) False show False by linarith
      qed
      with f(1) e show ?thesis by (simp add: u_def)
    qed
    moreover from this r(3) near have "rdiv a b = m" by (intro rdiv_near [OF r(2)]) simp
    ultimately show ?thesis using m by (simp add: rnd)
  next
    case False
    then have e: "e \<noteq> -1074" and less: "?y / two_to e < two_to 52" by auto
    have m52: "m = 2^52"
    proof -
      have "2^52 \<le> m" using e m(4) by blast
      moreover have "real_of_int m < two_to 52 + 1" using near less by linarith
      then have "m < 2^52 + 1" by simp
      ultimately show ?thesis by simp
    qed
    define z where "z = ?y / two_to e"
    have "?y / two_to (e - 1) = 2 * (?y / two_to e)"
      using two_to_Suc [of "e - 1"] by simp
    then have half: "?y / two_to (e - 1) = 2 * z" by (simp only: z_def)
    have lo: "real_of_int m - z < 1 / 4" using low [OF m52] by (simp only: z_def)
    have less: "z < two_to 52" using less by (simp only: z_def)
    have "two_to 52 \<le> ?y / two_to (e - 1)" "?y / two_to (e - 1) < two_to 53"
      unfolding half using lo less m52 by simp_all
    from scaled_unique [OF f(2, 3) this] have "f = e - 1" .
    with f(1) e m(2) have u: "u = e - 1" by (simp add: u_def)
    have "\<bar>ratio a b - real_of_int (2^53)\<bar> < 1 / 2"
      unfolding r(3) u half using lo less m52 by simp
    from rdiv_near [OF r(2) this] have "rdiv a b = 2^53" .
    with m u m52 show ?thesis by (simp add: rnd)
  qed
qed


section \<open>The digits before the point\<close>

abbreviation ten_to :: "int \<Rightarrow> real" where
  "ten_to k \<equiv> 10 powi k"

lemma ten_to_pos [simp]: "0 < ten_to k"
  by simp

lemma ten_to_add: "ten_to (a + b) = ten_to a * ten_to b"
  by (simp add: power_int_add)

lemma ten_to_mono: "a \<le> b \<Longrightarrow> ten_to a \<le> ten_to b"
  by (rule power_int_increasing) simp_all

lemma ten_two_nat: "1000 * k \<le> 301 * b \<Longrightarrow> (10::real) ^ k \<le> 2 ^ b"
proof -
  assume le: "1000 * k \<le> 301 * b"
  have "((10::real) ^ k) ^ 1000 = 10 ^ (1000 * k)" by (simp add: power_mult [symmetric] mult.commute)
  also have "\<dots> \<le> 10 ^ (301 * b)" using le by (intro power_increasing) simp_all
  also have "\<dots> = (10 ^ 301) ^ b" by (simp only: power_mult)
  also have "\<dots> \<le> (2 ^ 1000) ^ b" by (intro power_mono) simp_all
  also have "\<dots> = (2 ^ b) ^ 1000" by (simp only: power_mult [symmetric] mult.commute)
  finally show ?thesis by (rule power_le_imp_le_base [of _ 999, simplified]) simp_all
qed

lemma two_ten_nat: "302 * b \<le> 1000 * k \<Longrightarrow> (2::real) ^ b \<le> 10 ^ k"
proof -
  assume le: "302 * b \<le> 1000 * k"
  have "((2::real) ^ b) ^ 1000 = (2 ^ 1000) ^ b" by (simp only: power_mult [symmetric] mult.commute)
  also have "\<dots> \<le> (10 ^ 302) ^ b" by (intro power_mono) simp_all
  also have "\<dots> = 10 ^ (302 * b)" by (simp only: power_mult)
  also have "\<dots> \<le> 10 ^ (1000 * k)" using le by (intro power_increasing) simp_all
  also have "\<dots> = (10 ^ k) ^ 1000" by (simp only: power_mult [symmetric] mult.commute)
  finally show ?thesis by (rule power_le_imp_le_base [of _ 999, simplified]) simp_all
qed

lemma ten_le_two:
  assumes "0 \<le> b \<and> 1000 * k \<le> 301 * b \<or> b < 0 \<and> 1000 * k \<le> 302 * b"
  shows "ten_to k \<le> two_to b"
proof (cases "0 \<le> b")
  case True
  show ?thesis
  proof (cases "0 \<le> k")
    case True
    with \<open>0 \<le> b\<close> assms ten_two_nat [of "nat k" "nat b"] show ?thesis
      by (simp add: power_int_def)
  next
    case False
    then have "ten_to k \<le> ten_to 0" by (intro ten_to_mono) simp
    moreover have "two_to 0 \<le> two_to b" using \<open>0 \<le> b\<close> by (rule two_to_mono)
    ultimately show ?thesis by simp
  qed
next
  case False
  with assms have b: "b < 0" "k < 0" "302 * - b \<le> 1000 * - k" by auto
  then have "302 * nat (- b) \<le> 1000 * nat (- k)" by linarith
  from le_imp_inverse_le [OF two_ten_nat [OF this]] b show ?thesis
    unfolding power_int_def power_inverse by simp
qed

lemma two_le_ten:
  assumes "0 \<le> b \<and> 302 * b \<le> 1000 * k \<or> b < 0 \<and> 301 * b \<le> 1000 * k"
  shows "two_to b \<le> ten_to k"
proof (cases "0 \<le> b")
  case True
  with assms two_ten_nat [of "nat b" "nat k"] show ?thesis by (simp add: power_int_def)
next
  case False
  show ?thesis
  proof (cases "0 \<le> k")
    case True
    then have "ten_to 0 \<le> ten_to k" by (rule ten_to_mono)
    moreover have "two_to b \<le> two_to 0" using False by (intro two_to_mono) simp
    ultimately show ?thesis by simp
  next
    case False
    with \<open>\<not> 0 \<le> b\<close> assms have b: "b < 0" "k < 0" "1000 * - k \<le> 301 * - b" by auto
    then have "1000 * nat (- k) \<le> 301 * nat (- b)" by linarith
    from le_imp_inverse_le [OF ten_two_nat [OF this]] b show ?thesis
      unfolding power_int_def power_inverse by simp
  qed
qed

lemma ten_test:
  assumes "0 < d" shows "pow10 k * d \<le> n * pow10 (- k) \<longleftrightarrow> ten_to k \<le> ratio n d"
proof (cases "0 \<le> k")
  case True
  then have "pow10 (- k) = 1" by (cases "k = 0") (simp_all add: pow10_def)
  moreover have "pow10 k * d \<le> n \<longleftrightarrow> real_of_int (pow10 k) * real_of_int d \<le> real_of_int n"
    by (simp only: of_int_mult [symmetric] of_int_le_iff)
  ultimately show ?thesis
    using assms pow10_real [OF True] by (simp add: pos_le_divide_eq)
next
  case False
  then have "pow10 k = 1" by (simp add: pow10_def)
  moreover have "d \<le> n * pow10 (- k) \<longleftrightarrow> real_of_int d \<le> real_of_int n * real_of_int (pow10 (- k))"
    by (simp only: of_int_mult [symmetric] of_int_le_iff)
  moreover have "real_of_int (pow10 (- k)) = 1 / ten_to k"
    using False pow10_real [of "- k"] by (simp add: power_int_minus inverse_eq_divide)
  ultimately show ?thesis using assms by (simp add: pos_le_divide_eq mult.commute)
qed

lemma dec_exp_from:
  assumes "0 < d" "ten_to (k - 1) \<le> ratio n d" "ratio n d < ten_to (k + int fuel)"
  shows "ten_to (dec_exp_from fuel k n d - 1) \<le> ratio n d \<and> ratio n d < ten_to (dec_exp_from fuel k n d)"
  using assms(2, 3)
proof (induction fuel arbitrary: k)
  case (Suc fuel)
  show ?case
  proof (cases "ten_to k \<le> ratio n d")
    case True
    with Suc.IH [of "k + 1"] Suc.prems show ?thesis by (simp add: ten_test [OF assms(1)] add.assoc)
  next
    case False
    with Suc.prems show ?thesis by (simp add: ten_test [OF assms(1)])
  qed
qed simp

text \<open>For every size that a float can have, and some more.\<close>

lemma dec_exp:
  assumes "0 < n" "0 < d" "-7000 \<le> blen n - blen d" "blen n - blen d \<le> 7000"
  shows "ten_to (dec_exp n d - 1) \<le> ratio n d \<and> ratio n d < ten_to (dec_exp n d)"
proof -
  define b where "b = blen n - blen d - 1"
  define k where "k = (if 0 \<le> b then (b * 301) div 1000 - 1 else (b * 302) div 1000 - 1)"
  have bn: "two_to (blen n - 1) \<le> real_of_int n" "real_of_int n < two_to (blen n)"
    and bd: "two_to (blen d - 1) \<le> real_of_int d" "real_of_int d < two_to (blen d)"
    using blen_bounds assms by blast+
  have pos: "0 < real_of_int n" "0 < real_of_int d" using assms by simp_all
  have "two_to (blen n - 1) / two_to (blen d) \<le> ratio n d" using bn bd pos by (intro frac_le) simp_all
  then have lo: "two_to b \<le> ratio n d" by (simp add: two_to_diff [symmetric] b_def algebra_simps)
  have "ratio n d < two_to (blen n) / two_to (blen d - 1)" using bn bd pos by (intro frac_less) simp_all
  then have hi: "ratio n d < two_to (b + 2)" by (simp add: two_to_diff [symmetric] b_def algebra_simps)
  have b: "-7001 \<le> b" "b \<le> 6999" using assms(3, 4) by (simp_all add: b_def)
  have "ten_to (k - 1) \<le> two_to b"
    by (rule ten_le_two) (auto simp: k_def)
  moreover have "two_to (b + 2) \<le> ten_to (k + int 10)"
    by (rule two_le_ten) (use b in \<open>auto simp: k_def\<close>)
  ultimately have "ten_to (k - 1) \<le> ratio n d" "ratio n d < ten_to (k + int 10)" using lo hi by linarith+
  from dec_exp_from [OF assms(2) this] have
    "ten_to (dec_exp_from 10 k n d - 1) \<le> ratio n d \<and> ratio n d < ten_to (dec_exp_from 10 k n d)" .
  moreover have "dec_exp n d = dec_exp_from 10 k n d" by (simp only: dec_exp_def Let_def b_def k_def)
  ultimately show ?thesis by simp
qed


section \<open>Shortest texts\<close>

text \<open>Rounding looks at the quotient only.\<close>

definition round_even :: "real \<Rightarrow> int" where
  "round_even z = (let f = \<lfloor>z\<rfloor> in
     if z - real_of_int f < 1 / 2 then f else if 1 / 2 < z - real_of_int f then f + 1 else f + f mod 2)"

lemma ratio_div: "0 < b \<Longrightarrow> ratio a b = real_of_int (a div b) + real_of_int (a mod b) / real_of_int b"
proof -
  assume b: "0 < b"
  have "a = b * (a div b) + a mod b" by simp
  then have "real_of_int a = real_of_int b * real_of_int (a div b) + real_of_int (a mod b)"
    by (metis of_int_add of_int_mult)
  then show ?thesis using b by (simp add: field_simps)
qed

lemma rdiv_round: "0 < b \<Longrightarrow> rdiv a b = round_even (ratio a b)"
proof -
  assume b: "0 < b"
  have z: "ratio a b - real_of_int (a div b) = real_of_int (a mod b) / real_of_int b"
    using ratio_div [OF b, of a] by simp
  have "2 * (a mod b) < b \<longleftrightarrow> real_of_int (2 * (a mod b)) < real_of_int b"
    "b < 2 * (a mod b) \<longleftrightarrow> real_of_int b < real_of_int (2 * (a mod b))"
    by (simp_all only: of_int_less_iff)
  then have "2 * (a mod b) < b \<longleftrightarrow> real_of_int (a mod b) / real_of_int b < 1 / 2"
    "b < 2 * (a mod b) \<longleftrightarrow> 1 / 2 < real_of_int (a mod b) / real_of_int b"
    using b by (simp_all add: field_simps)
  with z b show ?thesis unfolding rdiv_def round_even_def Let_def by (simp add: floor_ratio)
qed

lemma rnd_ratio:
  assumes "0 < n" "0 < d" "0 < n'" "0 < d'" "ratio n d = ratio n' d'"
  shows "rnd s n d = rnd s n' d'"
proof -
  obtain e where e: "ulp_exp n d = max e (-1074)" "two_to 52 \<le> ratio n d / two_to e" "ratio n d / two_to e < two_to 53"
    by (rule ulp_exp_spec [OF assms(1, 2)])
  obtain f where f: "ulp_exp n' d' = max f (-1074)" "two_to 52 \<le> ratio n' d' / two_to f" "ratio n' d' / two_to f < two_to 53"
    by (rule ulp_exp_spec [OF assms(3, 4)])
  from scaled_unique [OF e(2, 3), of f] f(2, 3) e(1) f(1) assms(5) have u: "ulp_exp n' d' = ulp_exp n d" by simp
  obtain a b where ab: "scale n d (ulp_exp n d) = (a, b)" by fastforce
  obtain a' b' where ab': "scale n' d' (ulp_exp n d) = (a', b')" by fastforce
  note r = scale_ratio [OF assms(1, 2) ab] and r' = scale_ratio [OF assms(3, 4) ab']
  from rdiv_round [OF r(2), of a] rdiv_round [OF r'(2), of a'] r(3) r'(3) assms(5)
  have "rdiv a b = rdiv a' b'" by simp
  with assms(1, 3) u ab ab' show ?thesis by (simp add: rnd_def Let_def)
qed

lemma pow10_pos [simp]: "0 < pow10 k"
  by (simp add: pow10_def)

lemma pow10_quot: "ratio (pow10 k) (pow10 (- k)) = ten_to k"
proof (cases "0 \<le> k")
  case True
  moreover have "pow10 (- k) = 1" using True by (cases "k = 0") (simp_all add: pow10_def)
  ultimately show ?thesis by (simp add: pow10_real)
next
  case False
  then have "real_of_int (pow10 (- k)) = ten_to (- k)" by (intro pow10_real) simp
  moreover have "pow10 k = 1" using False by (simp add: pow10_def)
  ultimately show ?thesis by (simp add: power_int_minus inverse_eq_divide)
qed

lemma dec_to_float_rnd: "dec_to_float s q k 0 = rnd s (q * pow10 k) (pow10 (- k))"
  by (simp add: dec_to_float_def pow2_eq)

lemma dec_ratio: "ratio (q * pow10 k) (pow10 (- k)) = real_of_int q * ten_to k"
  by (simp only: of_int_mult pow10_quot [symmetric] times_divide_eq_right)

lemma dec_to_float_eq:
  assumes "0 < q" "0 < q'" "real_of_int q * ten_to k = real_of_int q' * ten_to k'"
  shows "dec_to_float s q k 0 = dec_to_float s q' k' 0"
  unfolding dec_to_float_rnd using assms by (intro rnd_ratio) (simp_all only: dec_ratio, simp_all)

lemma scaled_ratio: "ratio (n * pow10 (- k)) (d * pow10 k) = ratio n d / ten_to k"
proof -
  have "ratio (n * pow10 (- k)) (d * pow10 k) = ratio n d / ratio (pow10 k) (pow10 (- k))" by simp
  then show ?thesis by (simp only: pow10_quot)
qed

text \<open>One float and its fraction.\<close>

definition fraction_of :: "int \<Rightarrow> int \<Rightarrow> int \<Rightarrow> int \<Rightarrow> int \<Rightarrow> bool" where
  "fraction_of m e n d de \<longleftrightarrow> canonical (Fin False m e) \<and> 0 < m \<and> n = m * pow2 e \<and> d = pow2 (- e) \<and> de = dec_exp n d"

lemma fraction_value:
  assumes "fraction_of m e n d de"
  shows "0 < n" "0 < d" "ratio n d = real_of_int m * two_to e"
proof -
  from assms have a: "0 < m" "m < 2^53" "-1074 \<le> e" "e \<le> 971" "n = m * pow2 e" "d = pow2 (- e)" "de = dec_exp n d"
    by (auto simp: fraction_of_def canonical_def)
  show n: "0 < n" and d: "0 < d" using a by simp_all
  show r: "ratio n d = real_of_int m * two_to e"
  proof (cases "0 \<le> e")
    case True
    then have "pow2 (- e) = 1" by (simp add: pow2_eq)
    with a True show ?thesis by (simp add: pow2_real)
  next
    case False
    then have "real_of_int (pow2 (- e)) = two_to (- e)" by (intro pow2_real) simp
    moreover have "pow2 e = 1" using False by (simp add: pow2_eq)
    ultimately show ?thesis using a by (simp add: power_int_minus inverse_eq_divide)
  qed
qed

lemma dec_exp_from_bounds: "k \<le> dec_exp_from fuel k n d \<and> dec_exp_from fuel k n d \<le> k + int fuel"
proof (induction fuel arbitrary: k)
  case (Suc fuel)
  from Suc.IH [of "k + 1"] show ?case by auto
qed simp

lemma fraction_blen:
  assumes "fraction_of m e n d de"
  shows "-1075 \<le> blen n - blen d" "blen n - blen d \<le> 1024"
proof -
  note n = fraction_value(1) [OF assms] and d = fraction_value(2) [OF assms] and r = fraction_value(3) [OF assms]
  from assms have a: "0 < m" "m < 2^53" "-1074 \<le> e" "e \<le> 971" by (auto simp: fraction_of_def canonical_def)
  have bn: "two_to (blen n - 1) \<le> real_of_int n" "real_of_int n < two_to (blen n)"
    and bd: "two_to (blen d - 1) \<le> real_of_int d" "real_of_int d < two_to (blen d)"
    using blen_bounds n d by blast+
  have pos: "0 < real_of_int n" "0 < real_of_int d" using n d by simp_all
  have le: "two_to (blen n - 1 - blen d) \<le> ratio n d"
    unfolding two_to_diff [of "blen n - 1"] using bn bd pos by (intro frac_le) simp_all
  have less: "ratio n d < two_to (blen n - (blen d - 1))"
    unfolding two_to_diff [of "blen n" "blen d - 1"] using bn bd pos by (intro frac_less) simp_all
  have "real_of_int m < two_to 53" using a(2) by (simp add: power_int_def)
  then have "ratio n d < two_to 53 * two_to 971"
    unfolding r using two_to_mono [OF a(4)] a(1) by (intro mult_less_le_imp_less) simp_all
  then have "two_to (blen n - 1 - blen d) < two_to (53 + 971)" using le by (simp only: two_to_add)
  then have "blen n - 1 - blen d < 53 + 971" using two_to_mono by (meson not_less)
  moreover have "1 * two_to (-1074) \<le> ratio n d"
    unfolding r using two_to_mono [OF a(3)] a(1) by (intro mult_mono) simp_all
  then have "two_to (-1074) < two_to (blen n - (blen d - 1))" using less by linarith
  then have "-1074 < blen n - (blen d - 1)" using two_to_mono by (meson not_less)
  ultimately show "-1075 \<le> blen n - blen d" "blen n - blen d \<le> 1024" by simp_all
qed

lemma fraction_facts:
  assumes "fraction_of m e n d de"
  shows "0 < n" "0 < d" "ratio n d = real_of_int m * two_to e"
    "ten_to (de - 1) \<le> ratio n d" "ratio n d < ten_to de"
proof -
  note v = fraction_value [OF assms]
  show "0 < n" "0 < d" "ratio n d = real_of_int m * two_to e" by (fact v)+
  have "-7000 \<le> blen n - blen d" "blen n - blen d \<le> 7000" using fraction_blen [OF assms] by simp_all
  from dec_exp [OF v(1, 2) this] assms show "ten_to (de - 1) \<le> ratio n d" "ratio n d < ten_to de"
    by (simp_all add: fraction_of_def)
qed

lemma fraction_digits:
  assumes "fraction_of m e n d de"
  shows "-400 \<le> de" "de \<le> 400"
proof -
  define b where "b = blen n - blen d - 1"
  define k where "k = (if 0 \<le> b then (b * 301) div 1000 - 1 else (b * 302) div 1000 - 1)"
  have "de = dec_exp_from 10 k n d" using assms by (simp only: fraction_of_def dec_exp_def Let_def b_def k_def)
  moreover have "-1076 \<le> b" "b \<le> 1023" using fraction_blen [OF assms] by (simp_all add: b_def)
  then have "-330 \<le> k" "k \<le> 330" by (auto simp: k_def)
  ultimately show "-400 \<le> de" "de \<le> 400" using dec_exp_from_bounds [of k 10 n d] by simp_all
qed

text \<open>A decimal of 17 digits next to a float is read as the float.\<close>

lemma near_17:
  assumes f: "fraction_of m e n d de"
    and near: "\<bar>real_of_int q - ratio n d / ten_to (de - 17)\<bar> \<le> 1 / 2"
  shows "dec_to_float False q (de - 17) 0 = Fin False m e" "0 < q"
proof -
  note ff = fraction_facts [OF f]
  from f have c: "canonical (Fin False m e)" "0 < m" by (simp_all add: fraction_of_def)
  let ?t = "ten_to (de - 17)"
  define y where "y = ratio n d"
  have split: "ten_to (de - 1) = 10^16 * ?t" using ten_to_add [of 16 "de - 17"] by simp
  have big: "10^16 * ?t \<le> y" using ff(4) unfolding split y_def .
  define z where "z = y / ?t"
  have "10^16 \<le> z" using big by (simp add: z_def pos_le_divide_eq)
  then have "1 \<le> z" by simp
  moreover have "\<bar>real_of_int q - z\<bar> \<le> 1 / 2" using near by (simp only: z_def y_def)
  ultimately have "0 < real_of_int q" by linarith
  then show q: "0 < q" by simp
  have val: "ratio (q * pow10 (de - 17)) (pow10 (- (de - 17))) = real_of_int q * ?t" by (rule dec_ratio)
  have "\<bar>real_of_int q * ?t - y\<bar> = \<bar>real_of_int q - y / ?t\<bar> * ?t"
  proof -
    have "real_of_int q * ?t - y = (real_of_int q - y / ?t) * ?t" by (simp add: left_diff_distrib)
    then show ?thesis by (simp add: abs_mult)
  qed
  also have "\<dots> \<le> 1 / 2 * ?t" using near unfolding y_def by (intro mult_right_mono) simp_all
  finally have err: "\<bar>real_of_int q * ?t - y\<bar> \<le> y / 20000000000000000" using big by simp
  have y: "y = real_of_int m * two_to e" using ff(3) by (simp add: y_def)
  have two: "0 < two_to e" by simp
  have rel: "\<bar>real_of_int q * ?t / two_to e - real_of_int m\<bar> \<le> real_of_int m / 20000000000000000"
  proof -
    have "\<bar>real_of_int q * ?t / two_to e - real_of_int m\<bar> = \<bar>real_of_int q * ?t - y\<bar> / two_to e"
    proof -
      have "real_of_int q * ?t / two_to e - real_of_int m = (real_of_int q * ?t - y) / two_to e"
        by (simp add: y diff_divide_distrib)
      then show ?thesis by (simp add: abs_divide)
    qed
    also have "\<dots> \<le> (real_of_int m * two_to e / 20000000000000000) / two_to e"
      using err unfolding y by (intro divide_right_mono) simp_all
    finally show ?thesis using two by simp
  qed
  have m: "real_of_int m \<le> 9007199254740992" using c(1) by (auto simp: canonical_def)
  show "dec_to_float False q (de - 17) 0 = Fin False m e"
    unfolding dec_to_float_rnd
  proof (rule rnd_near [OF _ _ c])
    show "0 < q * pow10 (de - 17)" "0 < pow10 (- (de - 17))" using q by simp_all
    show "\<bar>ratio (q * pow10 (de - 17)) (pow10 (- (de - 17))) / two_to e - real_of_int m\<bar> < 1 / 2"
      unfolding val using rel m by linarith
    show "real_of_int m - ratio (q * pow10 (de - 17)) (pow10 (- (de - 17))) / two_to e < 1 / 4" if "m = 2^52"
    proof -
      define z where "z = real_of_int q * ?t / two_to e"
      have "real_of_int m = 4503599627370496" using that by simp
      moreover have "\<bar>z - real_of_int m\<bar> \<le> real_of_int m / 20000000000000000" using rel by (simp only: z_def)
      ultimately have "real_of_int m - z < 1 / 4" by linarith
      then show ?thesis unfolding val z_def .
    qed
  qed
qed

text \<open>What \<open>shortest_with\<close> finds is next to the float and is read as it.\<close>

lemma shortest_with:
  assumes f: "fraction_of m e n d de" and "shortest_with (Fin False m e) n d de k = Some q" "1 \<le> k"
  shows "dec_to_float False q (de - k) 0 = Fin False m e" "pow10 (k - 1) \<le> q" "q \<le> pow10 k"
proof -
  note ff = fraction_facts [OF f]
  let ?a = "n * pow10 (k - de)" and ?b = "d * pow10 (de - k)"
  from assms(2) have q: "q = ?a div ?b \<or> q = ?a div ?b + 1" "dec_to_float False q (de - k) 0 = Fin False m e"
    by (auto simp: shortest_with_def Let_def split: if_splits)
  show "dec_to_float False q (de - k) 0 = Fin False m e" by (rule q(2))
  have r: "ratio ?a ?b = ratio n d / ten_to (de - k)"
    using scaled_ratio [of n "de - k" d] by (simp add: minus_diff_eq)
  have b: "0 < ?b" using ff(2) by simp
  have split: "ten_to (de - 1) = ten_to (k - 1) * ten_to (de - k)" "ten_to de = ten_to k * ten_to (de - k)"
    by (simp_all add: power_int_add [symmetric])
  have "ten_to (k - 1) \<le> ratio ?a ?b" "ratio ?a ?b < ten_to k"
    using ff(4, 5) unfolding r split
    by (simp_all only: pos_le_divide_eq [OF ten_to_pos] pos_divide_less_eq [OF ten_to_pos])
  then have z: "real_of_int (pow10 (k - 1)) \<le> ratio ?a ?b" "ratio ?a ?b < real_of_int (pow10 k)"
    using assms(3) by (simp_all add: pow10_real)
  have "pow10 (k - 1) \<le> ?a div ?b" using z(1) unfolding floor_ratio [OF b, symmetric] le_floor_iff .
  moreover have "?a div ?b < pow10 k" using z(2) unfolding floor_ratio [OF b, symmetric] floor_less_iff .
  ultimately show "pow10 (k - 1) \<le> q" "q \<le> pow10 k" using q(1) by auto
qed

lemma half_le: "0 < b \<Longrightarrow> 2 * r \<le> b \<Longrightarrow> ratio r b \<le> 1 / 2"
  by (simp add: pos_divide_le_eq)

lemma half_ge: "0 < b \<Longrightarrow> b \<le> 2 * r \<Longrightarrow> 1 / 2 \<le> ratio r b"
  by (simp add: pos_le_divide_eq)

lemma shortest_17:
  assumes f: "fraction_of m e n d de"
  obtains q where "shortest_with (Fin False m e) n d de 17 = Some q"
proof -
  note ff = fraction_facts [OF f]
  let ?a = "n * pow10 (17 - de)" and ?b = "d * pow10 (de - 17)"
  have r: "ratio ?a ?b = ratio n d / ten_to (de - 17)"
    using scaled_ratio [of n "de - 17" d] by (simp add: minus_diff_eq)
  have b: "0 < ?b" using ff(2) by simp
  define lo where "lo = ?a div ?b"
  define rem where "rem = ?a mod ?b"
  have z: "ratio n d / ten_to (de - 17) = real_of_int lo + real_of_int rem / real_of_int ?b"
    using ratio_div [OF b, of ?a] unfolding r lo_def rem_def .
  have rem: "0 \<le> rem" "rem < ?b" using b by (simp_all add: rem_def)
  show ?thesis
  proof (cases "2 * rem \<le> ?b")
    case True
    then have "real_of_int rem / real_of_int ?b \<le> 1 / 2" by (rule half_le [OF b])
    moreover have "0 \<le> real_of_int rem / real_of_int ?b"
      using rem(1) b by (intro divide_nonneg_pos) (simp_all only: of_int_0_le_iff of_int_0_less_iff)
    ultimately have "\<bar>real_of_int lo - ratio n d / ten_to (de - 17)\<bar> \<le> 1 / 2" unfolding z by linarith
    from near_17(1) [OF f this] True that show ?thesis
      by (simp add: shortest_with_def Let_def lo_def rem_def)
  next
    case False
    then have "1 / 2 \<le> real_of_int rem / real_of_int ?b" by (intro half_ge [OF b]) simp
    moreover have "real_of_int rem / real_of_int ?b < 1"
      using rem(2) b by (simp only: pos_divide_less_eq of_int_0_less_iff mult_1 of_int_less_iff)
    ultimately have "\<bar>real_of_int (lo + 1) - ratio n d / ten_to (de - 17)\<bar> \<le> 1 / 2" unfolding z by simp
    from near_17(1) [OF f this] False that show ?thesis
      by (simp add: shortest_with_def Let_def lo_def rem_def)
  qed
qed


lemma shortest_from:
  assumes f: "fraction_of m e n d de" and "1 \<le> k" "k \<le> 17" "int fuel + k = 18"
    and "shortest_from fuel k (Fin False m e) n d de = (q, de')"
  obtains l where "1 \<le> l" "pow10 (l - 1) \<le> q" "q < pow10 l" "dec_to_float False q (de' - l) 0 = Fin False m e"
    "de \<le> de'" "de' \<le> de + 1"
proof -
  have "\<exists>l. 1 \<le> l \<and> pow10 (l - 1) \<le> q \<and> q < pow10 l \<and> dec_to_float False q (de' - l) 0 = Fin False m e \<and>
      de \<le> de' \<and> de' \<le> de + 1"
    using assms(2-5)
  proof (induction fuel arbitrary: k)
    case (Suc fuel)
    show ?case
    proof (cases "shortest_with (Fin False m e) n d de k")
      case None
      with shortest_17 [OF f] have "k \<noteq> 17" by force
      with Suc.IH [of "k + 1"] Suc.prems None show ?thesis by simp
    next
      case (Some p)
      note w = shortest_with [OF f Some Suc.prems(1)]
      show ?thesis
      proof (cases "p = pow10 k")
        case True
        with Some Suc.prems(4) have q: "q = 1" "de' = de + 1" by auto
        have "real_of_int 1 * ten_to de = real_of_int (pow10 k) * ten_to (de - k)"
          using Suc.prems(1) by (simp add: pow10_real power_int_add [symmetric])
        from dec_to_float_eq [OF _ _ this, of False] w(1) True have "dec_to_float False 1 de 0 = Fin False m e" by simp
        with q show ?thesis by (intro exI [of _ 1]) (simp add: pow10_def)
      next
        case False
        with Some Suc.prems w show ?thesis by (intro exI [of _ k]) auto
      qed
    qed
  qed simp
  with that show ?thesis by blast
qed


section \<open>Reading a text back\<close>

text \<open>The length of a number in decimal, and its first digit.\<close>

definition all_digits :: "string \<Rightarrow> bool" where
  "all_digits ds \<longleftrightarrow> list_all (\<lambda>c. digit_val c \<noteq> None) ds"

lemma all_digits_simps [simp]:
  "all_digits []" "all_digits (c # ds) \<longleftrightarrow> digit_val c \<noteq> None \<and> all_digits ds"
  "all_digits (ds @ es) \<longleftrightarrow> all_digits ds \<and> all_digits es"
  by (simp_all add: all_digits_def)

lemma digit_val_cases:
  assumes "digit_val c \<noteq> None" shows "c \<in> set ''0123456789''"
  using assms by (auto simp: digit_val_def digit_table_def split: if_splits)

lemma digit_facts:
  assumes "digit_val c = Some v"
  shows "lower_char c = c" "map_of digit_table c = Some v" "c \<noteq> CHR ''_''" "c \<noteq> CHR ''.''" "c \<noteq> CHR ''-''" "c \<noteq> CHR ''+''"
    "c \<noteq> CHR ''x''" "c \<noteq> CHR ''i''" "c \<noteq> CHR ''n''" "0 \<le> v" "v < 10"
proof -
  have c: "c \<in> set ''0123456789''" using assms by (intro digit_val_cases) simp
  have low: "\<forall>c \<in> set ''0123456789''. lower_char c = c" by (simp add: lower_char_def lower_table_def)
  from c low show "lower_char c = c" by blast
  show "map_of digit_table c = Some v" using assms by (simp add: digit_val_def)
  from c show "c \<noteq> CHR ''_''" "c \<noteq> CHR ''.''" "c \<noteq> CHR ''-''" "c \<noteq> CHR ''+''"
    "c \<noteq> CHR ''x''" "c \<noteq> CHR ''i''" "c \<noteq> CHR ''n''" by auto
  from c assms show "0 \<le> v" "v < 10" by (auto simp: digit_val_def digit_table_def)
qed

lemma digits_acc_append: "digits_acc n acc = digits_acc n [] @ acc"
proof (induction "nat n" arbitrary: n acc rule: less_induct)
  case less
  show ?case
  proof (cases "n \<le> 0")
    case False
    then have "nat (n div 10) < nat n" by simp
    from less [OF this, of "[digit_char (n mod 10)]"] less [OF this, of "digit_char (n mod 10) # acc"] False
    show ?thesis by (simp add: digits_acc.simps [of n])
  qed (simp add: digits_acc.simps [of n])
qed

lemma format_nat_step: "10 \<le> n \<Longrightarrow> format_nat n = format_nat (n div 10) @ [digit_char (n mod 10)]"
proof -
  assume "10 \<le> n"
  then have "\<not> n \<le> 0" "\<not> n div 10 \<le> 0" by simp_all
  with digits_acc_append [of "n div 10" "[digit_char (n mod 10)]"] show ?thesis
    by (simp add: format_nat_def digits_acc.simps [of n])
qed

lemma format_nat_digit: "0 < n \<Longrightarrow> n < 10 \<Longrightarrow> format_nat n = [digit_char n]"
  by (simp add: format_nat_def digits_acc.simps [of n] digits_acc.simps [of 0])

lemma format_nat_length:
  assumes "10 ^ j \<le> q" "q < 10 ^ Suc j" shows "length (format_nat q) = Suc j"
  using assms
proof (induction j arbitrary: q)
  case 0
  then show ?case by (simp add: format_nat_digit)
next
  case (Suc j)
  have "(1::int) \<le> 10 ^ j" by simp
  with Suc.prems(1) have q: "10 \<le> q" unfolding power_Suc by linarith
  have "10 ^ j \<le> q div 10" "q div 10 < 10 ^ Suc j" using Suc.prems by simp_all
  with Suc.IH format_nat_step [OF q] show ?case by simp
qed

lemma all_digits_format: "all_digits (format_nat n)"
proof -
  have "\<forall>c \<in> set ''0123456789''. digit_val c \<noteq> None" by (simp add: digit_val_def digit_table_def)
  with format_nat_digits [of n] show ?thesis unfolding all_digits_def list_all_iff by blast
qed

lemma format_nat_head: "0 < n \<Longrightarrow> \<exists>c r. format_nat n = c # r \<and> digit_val c \<noteq> None \<and> c \<noteq> CHR ''0''"
proof (induction "nat n" arbitrary: n rule: less_induct)
  case less
  show ?case
  proof (cases "n < 10")
    case True
    with less.prems digit_cases [of n] format_nat_digit [of n] show ?thesis
      by (auto simp: digit_char_def digit_val_def digit_table_def)
  next
    case False
    then have "nat (n div 10) < nat n" "0 < n div 10" by simp_all
    from less.hyps [OF this] False format_nat_step [of n] show ?thesis by auto
  qed
qed

section \<open>Scanning digits\<close>

lemma parse_digits_append: "parse_digits ds n = Some v \<Longrightarrow> parse_digits (ds @ s) n = parse_digits s v"
  by (induction ds arbitrary: n) (auto split: option.splits)

lemma parse_digits_all: "parse_digits ds n \<noteq> None \<longleftrightarrow> all_digits ds"
  by (induction ds arbitrary: n) (auto split: option.splits)

lemma parse_zeros: "parse_digits (replicate k CHR ''0'' @ s) 0 = parse_digits s 0"
  by (induction k) (simp_all add: digit_val_def digit_table_def)

lemma parse_digits_mono: "parse_digits ds n = Some v \<Longrightarrow> 0 \<le> n \<Longrightarrow> n \<le> v"
proof (induction ds arbitrary: n)
  case (Cons c ds)
  then obtain d where d: "digit_val c = Some d" "parse_digits ds (10 * n + d) = Some v" by (auto split: option.splits)
  from digit_facts(10) [OF d(1)] Cons.prems have "0 \<le> 10 * n + d" "n \<le> 10 * n + d" by simp_all
  with Cons.IH [OF d(2)] show ?case by simp
qed simp

lemma scan_digits:
  "parse_digits ds (mant m) = Some v \<Longrightarrow>
     scan_mantissa 10 digit_table (ds @ s) m = scan_mantissa 10 digit_table s
       (m\<lparr>mant := v, saw_digits := saw_digits m \<or> ds \<noteq> [],
          frac_digits := frac_digits m + (if saw_dot m then int (length ds) else 0)\<rparr>)"
proof (induction ds arbitrary: m)
  case (Cons c ds)
  then obtain d where d: "digit_val c = Some d" "parse_digits ds (10 * mant m + d) = Some v" by (auto split: option.splits)
  note c = digit_facts [OF d(1)]
  from Cons.IH [of "m\<lparr>mant := 10 * mant m + d, saw_digits := True,
      frac_digits := frac_digits m + (if saw_dot m then 1 else 0)\<rparr>"] d c
  show ?case by (cases "saw_dot m") (simp_all add: algebra_simps)
next
  case Nil
  then show ?case by (cases m) simp
qed

lemma scan_dot: "\<not> saw_dot m \<Longrightarrow> scan_mantissa b t (CHR ''.'' # s) m = scan_mantissa b t s (m\<lparr>saw_dot := True\<rparr>)"
  by simp

lemma scan_e: "scan_mantissa 10 digit_table (CHR ''e'' # s) m = (m, CHR ''e'' # s)"
  by (simp add: lower_char_def lower_table_def digit_table_def)

lemma scan_exponent_digits:
  "parse_digits ds n = Some v \<Longrightarrow> 0 \<le> n \<Longrightarrow> v < 10000 \<Longrightarrow> scan_exponent ds n us = (v, us, [])"
proof (induction ds arbitrary: n)
  case (Cons c ds)
  then obtain d where d: "digit_val c = Some d" "parse_digits ds (10 * n + d) = Some v" by (auto split: option.splits)
  note c = digit_facts [OF d(1)]
  have "n < 10000" using parse_digits_mono [OF Cons.prems(1, 2)] Cons.prems(3) by simp
  with Cons d c show ?case by simp
qed simp


section \<open>Reading a layout\<close>

definition with_sign :: "bool \<Rightarrow> string \<Rightarrow> string" where
  "with_sign neg t = (if neg then ''-'' else []) @ t"

text \<open>Digits, and after a point the others, if there are any.\<close>

definition pointed :: "string \<Rightarrow> string \<Rightarrow> string" where
  "pointed ip fp = ip @ (if fp = [] then [] else CHR ''.'' # fp)"

abbreviation scan_start :: mantissa where
  "scan_start \<equiv> \<lparr>mant = 0, frac_digits = 0, saw_dot = False, saw_digits = False, saw_underscore = False\<rparr>"

lemma scan_pointed:
  assumes "parse_digits (ip @ fp) 0 = Some v" "ip \<noteq> []"
  shows "scan_mantissa 10 digit_table (pointed ip fp @ s) scan_start = scan_mantissa 10 digit_table s
    \<lparr>mant = v, frac_digits = int (length fp), saw_dot = (fp \<noteq> []), saw_digits = True, saw_underscore = False\<rparr>"
proof -
  have "all_digits (ip @ fp)" using assms(1) parse_digits_all by blast
  then have "parse_digits ip 0 \<noteq> None" using parse_digits_all by simp
  then obtain u where u: "parse_digits ip 0 = Some u" by blast
  with assms(1) have v: "parse_digits fp u = Some v" by (simp add: parse_digits_append)
  show ?thesis
  proof (cases "fp = []")
    case True
    with u v assms(2) scan_digits [of ip scan_start u s] show ?thesis by (simp add: pointed_def)
  next
    case False
    with u v assms(2) scan_digits [of ip scan_start u "CHR ''.'' # fp @ s"]
      scan_digits [of fp "\<lparr>mant = u, frac_digits = 0, saw_dot = True, saw_digits = True, saw_underscore = False\<rparr>" v s]
    show ?thesis by (simp add: pointed_def)
  qed
qed

definition number_char :: "char \<Rightarrow> bool" where
  "number_char c \<longleftrightarrow> c \<in> set ''0123456789.e+-''"

lemma number_char_facts: "number_char c \<Longrightarrow> lower_char c = c \<and> c \<noteq> CHR ''x'' \<and> c \<noteq> CHR ''i'' \<and> c \<noteq> CHR ''n''"
proof -
  have "\<forall>c \<in> set ''0123456789.e+-''. lower_char c = c \<and> c \<noteq> CHR ''x'' \<and> c \<noteq> CHR ''i'' \<and> c \<noteq> CHR ''n''"
    by (simp add: lower_char_def lower_table_def)
  then show "number_char c \<Longrightarrow> lower_char c = c \<and> c \<noteq> CHR ''x'' \<and> c \<noteq> CHR ''i'' \<and> c \<noteq> CHR ''n''"
    unfolding number_char_def by blast
qed

lemma digits_number: "all_digits ds \<Longrightarrow> list_all number_char ds"
proof -
  have "number_char c" if "digit_val c \<noteq> None" for c
    using digit_val_cases [OF that] by (auto simp: number_char_def)
  then show "all_digits ds \<Longrightarrow> list_all number_char ds" by (simp add: all_digits_def list_all_iff)
qed

text \<open>What a text of the two layouts starts with, and is made of.\<close>

definition number_text :: "string \<Rightarrow> bool" where
  "number_text t \<longleftrightarrow> list_all number_char t \<and> (\<exists>c r. t = c # r \<and> digit_val c \<noteq> None)"

lemma no_hex: "number_text t \<Longrightarrow> \<not> hex_prefix t"
  using number_char_facts by (auto simp: number_text_def hex_prefix_def split: list.splits)

lemma strip_with_sign: "number_text t \<Longrightarrow> strip_sign (with_sign neg t) = (neg, neg, t)"
  using digit_facts(5, 6) by (auto simp: number_text_def with_sign_def strip_sign_def)

lemma not_special:
  assumes "number_text t" shows "special (with_sign neg t) = None"
proof -
  from assms obtain c r d where t: "t = c # r" "digit_val c = Some d" by (auto simp: number_text_def)
  with digit_facts [OF t(2)] strip_with_sign [OF assms] show ?thesis
    by (simp add: special_def Let_def to_lower_def)
qed

lemma read_pointed:
  assumes "parse_digits (ip @ fp) 0 = Some v" "ip \<noteq> []" "number_text (pointed ip fp)"
  shows "read_float (with_sign neg (pointed ip fp)) = Some (neg, v, - int (length fp), 0)"
  using scan_pointed [OF assms(1, 2), of "[]"] no_hex [OF assms(3)]
  by (simp add: read_float_def strip_with_sign [OF assms(3)] Let_def)

lemma read_pointed_exp:
  assumes "parse_digits (ip @ fp) 0 = Some v" "ip \<noteq> []"
    and t: "t = pointed ip fp @ ''e'' @ (if e < 0 then ''-'' else ''+'') @ es" "number_text t"
    and es: "es \<noteq> []" "parse_digits es 0 = Some \<bar>e\<bar>" "\<bar>e\<bar> < 10000"
  shows "read_float (with_sign neg t) = Some (neg, v, e - int (length fp), 0)"
proof -
  from es(1, 2) obtain c r d where c: "es = c # r" "digit_val c = Some d" by (cases es) (auto split: option.splits)
  let ?r = "(if e < 0 then ''-'' else ''+'') @ es"
  have sign: "strip_sign ?r = (True, e < 0, es)" by (simp add: strip_sign_def)
  have exp: "scan_exponent es 0 False = (\<bar>e\<bar>, False, [])" using es by (intro scan_exponent_digits) simp_all
  have low: "lower_char CHR ''e'' = CHR ''e''" by (simp add: lower_char_def lower_table_def)
  have scan: "scan_mantissa 10 digit_table t scan_start = (\<lparr>mant = v, frac_digits = int (length fp),
      saw_dot = (fp \<noteq> []), saw_digits = True, saw_underscore = False\<rparr>, CHR ''e'' # ?r)"
    unfolding t(1) scan_pointed [OF assms(1, 2)] by (simp only: append_Cons append_Nil scan_e)
  show ?thesis
    using no_hex [OF t(2)] sign exp c
    by (auto simp add: read_float_def strip_with_sign [OF t(2)] scan low Let_def split: list.split)
qed


lemma pad_left_digits:
  assumes "parse_digits s 0 = Some v"
  shows "parse_digits (pad_left k s) 0 = Some v" "s \<noteq> [] \<Longrightarrow> pad_left k s \<noteq> []" "all_digits (pad_left k s)"
proof -
  show "parse_digits (pad_left k s) 0 = Some v" using assms by (simp add: pad_left_def parse_zeros)
  then show "all_digits (pad_left k s)" using parse_digits_all by blast
qed (simp add: pad_left_def)

lemma number_text_pointed:
  assumes "all_digits (ip @ fp)" "ip \<noteq> []" "list_all number_char s"
  shows "number_text (pointed ip fp @ s)"
proof -
  have "number_char CHR ''.''" by (simp add: number_char_def)
  with assms digits_number [of ip] digits_number [of fp] show ?thesis
    by (cases ip) (simp_all add: number_text_def pointed_def)
qed

lemma read_layout_e:
  assumes "parse_digits ds 0 = Some v" "ds \<noteq> []" "\<bar>e\<bar> < 10000"
  shows "read_float (with_sign neg (layout_e ds e)) = Some (neg, v, e - int (length ds) + 1, 0)"
    "number_text (layout_e ds e)"
proof -
  let ?es = "pad_left 2 (format_nat \<bar>e\<bar>)"
  have es: "parse_digits ?es 0 = Some \<bar>e\<bar>" "?es \<noteq> []" "all_digits ?es"
    using pad_left_digits [OF format_nat_parse [of "\<bar>e\<bar>"]] format_nat_ne by simp_all
  have split: "take 1 ds @ drop 1 ds = ds" "take 1 ds \<noteq> []" using assms(2) by simp_all
  have t: "layout_e ds e = pointed (take 1 ds) (drop 1 ds) @ ''e'' @ (if e < 0 then ''-'' else ''+'') @ ?es"
    by (simp add: layout_e_def pointed_def)
  have "all_digits ds" using assms(1) parse_digits_all by blast
  moreover have "list_all number_char (''e'' @ (if e < 0 then ''-'' else ''+'') @ ?es)"
    using digits_number [OF es(3)] by (simp add: number_char_def)
  ultimately show n: "number_text (layout_e ds e)" unfolding t using split by (intro number_text_pointed) simp_all
  from read_pointed_exp [OF _ split(2) t n es(2, 1) assms(3), of v neg] assms(1) split(1)
  have "read_float (with_sign neg (layout_e ds e)) = Some (neg, v, e - int (length (drop 1 ds)), 0)" by simp
  moreover have "int (length (drop 1 ds)) = int (length ds) - 1" using assms(2) by (cases ds) simp_all
  ultimately show "read_float (with_sign neg (layout_e ds e)) = Some (neg, v, e - int (length ds) + 1, 0)" by simp
qed

lemma parse_trailing_zeros: "parse_digits ds n = Some v \<Longrightarrow> parse_digits (ds @ replicate k CHR ''0'') n = Some (v * 10 ^ k)"
proof (induction k)
  case (Suc k)
  then have "parse_digits (ds @ replicate k CHR ''0'') n = Some (v * 10 ^ k)" by simp
  from parse_digits_append [OF this, of "''0''"]
  have "parse_digits ((ds @ replicate k CHR ''0'') @ ''0'') n = Some (v * 10 ^ Suc k)"
    by (simp add: digit_val_def digit_table_def mult_ac)
  moreover have "ds @ replicate (Suc k) CHR ''0'' = (ds @ replicate k CHR ''0'') @ ''0''"
    by (simp add: replicate_append_same)
  ultimately show ?case by (simp only:)
qed simp

text \<open>What is read has the value that is laid out.\<close>

lemma read_layout_f:
  assumes "parse_digits ds 0 = Some v" "ds \<noteq> []" "0 < v"
  obtains u k where "read_float (with_sign neg (layout_f ds de)) = Some (neg, u, k, 0)" "0 < u"
    "real_of_int u * ten_to k = real_of_int v * ten_to (de - int (length ds))" "number_text (layout_f ds de)"
proof -
  have all: "all_digits ds" using assms(1) parse_digits_all by blast
  consider "de \<le> 0" | "0 < de" "int (length ds) \<le> de" | "0 < de" "de < int (length ds)" by linarith
  then show ?thesis
  proof cases
    case 1
    let ?fp = "replicate (nat (- de)) CHR ''0'' @ ds"
    have t: "layout_f ds de = pointed ''0'' ?fp" using 1 assms(2) by (simp add: layout_f_def pointed_def)
    have p: "parse_digits (''0'' @ ?fp) 0 = Some v"
      using parse_zeros [of "Suc (nat (- de))" ds] assms(1) by simp
    then have "all_digits (''0'' @ ?fp)" using parse_digits_all by blast
    then have n: "number_text (pointed ''0'' ?fp)" using number_text_pointed [of "''0''" ?fp "[]"] by simp
    from read_pointed [OF p _ n] have "read_float (with_sign neg (layout_f ds de)) = Some (neg, v, de - int (length ds), 0)"
      using 1 by (simp add: t)
    with that assms(3) n show ?thesis by (simp add: t)
  next
    case 2
    let ?ip = "ds @ replicate (nat de - length ds) CHR ''0''"
    have t: "layout_f ds de = pointed ?ip []" using 2 by (simp add: layout_f_def pointed_def)
    have p: "parse_digits (?ip @ []) 0 = Some (v * 10 ^ (nat de - length ds))" using parse_trailing_zeros [OF assms(1)] by simp
    then have "all_digits (?ip @ [])" using parse_digits_all by blast
    then have n: "number_text (pointed ?ip [])" using number_text_pointed [of ?ip "[]" "[]"] assms(2) by simp
    from read_pointed [OF p _ n] have r: "read_float (with_sign neg (layout_f ds de)) =
        Some (neg, v * 10 ^ (nat de - length ds), 0, 0)" using assms(2) by (simp add: t)
    have "(10::real) ^ (nat de - length ds) = ten_to (de - int (length ds))"
      using 2 by (simp add: power_int_def nat_diff_distrib)
    with that [OF r] assms(3) n show ?thesis by (simp add: t)
  next
    case 3
    have t: "layout_f ds de = pointed (take (nat de) ds) (drop (nat de) ds)" using 3 by (simp add: layout_f_def pointed_def)
    have p: "parse_digits (take (nat de) ds @ drop (nat de) ds) 0 = Some v" using assms(1) by simp
    have ne: "take (nat de) ds \<noteq> []" using 3 assms(2) by simp
    have n: "number_text (pointed (take (nat de) ds) (drop (nat de) ds))"
      using number_text_pointed [of "take (nat de) ds" "drop (nat de) ds" "[]"] all ne by simp
    have "int (length (drop (nat de) ds)) = int (length ds) - de" using 3 by simp
    with read_pointed [OF p ne n] have "read_float (with_sign neg (layout_f ds de)) = Some (neg, v, de - int (length ds), 0)"
      by (simp add: t)
    with that assms(3) n show ?thesis by (simp add: t)
  qed
qed

lemma rnd_sign: "rnd s n d = (case rnd False n d of NaN \<Rightarrow> NaN | Inf t \<Rightarrow> Inf s | Fin t m e \<Rightarrow> Fin s m e)"
  by (simp add: rnd_def Let_def split: prod.split)

text \<open>A decimal that stands for a float is read as it, in whatever layout, and with its sign.\<close>

lemma parse_decimal:
  assumes "read_float (with_sign neg t) = Some (neg, u, k, 0)" "number_text t" "0 < u" "0 < q"
    and "real_of_int u * ten_to k = real_of_int q * ten_to l"
    and "dec_to_float False q l 0 = Fin False m e"
  shows "ParseFloat (with_sign neg t) = (Fin neg m e, None)"
proof -
  have "dec_to_float False u k 0 = Fin False m e" using dec_to_float_eq [OF assms(3, 4, 5), of False] assms(6) by simp
  then have "dec_to_float neg u k 0 = Fin neg m e"
    unfolding dec_to_float_rnd by (subst rnd_sign) simp
  with assms(1) not_special [OF assms(2)] show ?thesis by (simp add: ParseFloat_def)
qed


section \<open>The round trip\<close>

text \<open>The digits of a positive float, and what they stand for.\<close>

lemma shortest_digits:
  assumes "canonical (Fin False m e)" "0 < m"
    and "shortest_from 17 1 (Fin False m e) (m * pow2 e) (pow2 (- e)) (dec_exp (m * pow2 e) (pow2 (- e))) = (q, de)"
  shows "0 < q" "dec_to_float False q (de - int (length (format_nat q))) 0 = Fin False m e" "\<bar>de\<bar> < 1000"
proof -
  have f: "fraction_of m e (m * pow2 e) (pow2 (- e)) (dec_exp (m * pow2 e) (pow2 (- e)))"
    using assms(1, 2) by (simp add: fraction_of_def)
  obtain l where l: "1 \<le> l" "pow10 (l - 1) \<le> q" "q < pow10 l" "dec_to_float False q (de - l) 0 = Fin False m e"
    "dec_exp (m * pow2 e) (pow2 (- e)) \<le> de" "de \<le> dec_exp (m * pow2 e) (pow2 (- e)) + 1"
    by (rule shortest_from [OF f _ _ _ assms(3)]) simp_all
  have "0 < pow10 (l - 1)" by simp
  with l(2) show "0 < q" by linarith
  have s: "nat l = Suc (nat (l - 1))" using l(1) by simp
  from l(2, 3) have "10 ^ nat (l - 1) \<le> q" "q < 10 ^ Suc (nat (l - 1))" unfolding pow10_def s by simp_all
  then have "length (format_nat q) = nat l" unfolding s by (rule format_nat_length)
  with l(1, 4) show "dec_to_float False q (de - int (length (format_nat q))) 0 = Fin False m e" by simp
  from fraction_digits [OF f] l(5, 6) show "\<bar>de\<bar> < 1000" by simp
qed

text \<open>Both layouts of these digits read back.\<close>

lemma parse_layouts:
  assumes "0 < q" "dec_to_float False q (de - int (length (format_nat q))) 0 = Fin False m e" "\<bar>de\<bar> < 1000"
  shows "ParseFloat (with_sign s (layout_e (format_nat q) (de - 1))) = (Fin s m e, None)"
    "ParseFloat (with_sign s (layout_f (format_nat q) de)) = (Fin s m e, None)"
proof -
  have p: "parse_digits (format_nat q) 0 = Some q" using assms(1) by (simp add: format_nat_parse)
  note e = read_layout_e [OF p format_nat_ne, of "de - 1"]
  show "ParseFloat (with_sign s (layout_e (format_nat q) (de - 1))) = (Fin s m e, None)"
    by (rule parse_decimal [OF e(1) e(2) assms(1) assms(1) _ assms(2)]) (use assms(3) in \<open>simp_all add: algebra_simps\<close>)
  obtain u k where f: "read_float (with_sign s (layout_f (format_nat q) de)) = Some (s, u, k, 0)" "0 < u"
    "real_of_int u * ten_to k = real_of_int q * ten_to (de - int (length (format_nat q)))"
    "number_text (layout_f (format_nat q) de)"
    by (rule read_layout_f [OF p format_nat_ne assms(1)])
  from parse_decimal [OF f(1, 4, 2) assms(1) f(3) assms(2)]
  show "ParseFloat (with_sign s (layout_f (format_nat q) de)) = (Fin s m e, None)" .
qed

text \<open>Every value but a pattern of bits that no operation returns.\<close>

definition proper :: "float64 \<Rightarrow> bool" where
  "proper x \<longleftrightarrow> x = NaN \<or> (\<exists>s. x = Inf s) \<or> canonical x"

theorem parse_format_v:
  assumes "proper x" shows "ParseFloat (format_v x) = (x, None)"
proof (cases x)
  case NaN
  have "ParseFloat ''NaN'' = (NaN, None)" by code_simp
  with NaN show ?thesis by (simp add: format_v_def)
next
  case (Inf s)
  have "ParseFloat ''-Inf'' = (Inf True, None)" "ParseFloat ''+Inf'' = (Inf False, None)" by code_simp+
  with Inf show ?thesis by (simp add: format_v_def)
next
  case (Fin s m e)
  with assms have c: "canonical (Fin s m e)" by (simp add: proper_def)
  show ?thesis
  proof (cases "m = 0")
    case True
    have "ParseFloat ''-0'' = (Fin True 0 (-1074), None)" "ParseFloat ''0'' = (Fin False 0 (-1074), None)"
      by code_simp+
    with True Fin c show ?thesis by (auto simp: format_v_def canonical_def)
  next
    case False
    with c have m: "canonical (Fin False m e)" "0 < m" by (auto simp: canonical_def)
    obtain q de where q: "shortest_from 17 1 (Fin False m e) (m * pow2 e) (pow2 (- e))
        (dec_exp (m * pow2 e) (pow2 (- e))) = (q, de)" by fastforce
    note p = parse_layouts [OF shortest_digits [OF m q]]
    have "format_v x = with_sign s (layout (format_nat q) de)"
      using Fin False q by (simp add: format_v_def with_sign_def Let_def)
    with p Fin show ?thesis by (simp add: layout_def)
  qed
qed

section \<open>Operations give proper values\<close>

lemma rnd_proper:
  assumes "0 \<le> n" "0 < d" shows "proper (rnd s n d)"
proof (cases "n = 0")
  case True
  then show ?thesis by (simp add: rnd_def proper_def canonical_def)
next
  case False
  with assms have n: "0 < n" by simp
  obtain f where f: "ulp_exp n d = max f (-1074)" "two_to 52 \<le> ratio n d / two_to f" "ratio n d / two_to f < two_to 53"
    by (rule ulp_exp_spec [OF n assms(2)])
  define u where "u = ulp_exp n d"
  obtain a b where ab: "scale n d u = (a, b)" by fastforce
  note r = scale_ratio [OF n assms(2) ab]
  have y: "0 < ratio n d" using n assms(2) by simp
  have "two_to f \<le> two_to u" using two_to_mono [of f u] f(1) by (simp add: u_def)
  then have "ratio n d / two_to u \<le> ratio n d / two_to f" using y by (intro divide_left_mono) simp_all
  then have hi: "ratio a b < two_to 53" using f(3) r(3) by linarith
  define z where "z = ratio a b"
  have near: "\<lfloor>z\<rfloor> \<le> rdiv a b" "rdiv a b \<le> \<lfloor>z\<rfloor> + 1"
    using rdiv_round [OF r(2), of a] by (auto simp: z_def round_even_def Let_def)
  have z: "z < 2^53" "0 < z" using hi r(1, 2) by (simp_all add: z_def)
  then have fl: "\<lfloor>z\<rfloor> < 2^53" "0 \<le> \<lfloor>z\<rfloor>" by (simp_all add: floor_less_iff)
  have m: "0 \<le> rdiv a b" using near(1) fl(2) by linarith
  have m': "rdiv a b \<le> 2^53" using near(2) fl(1) by linarith
  have low: "u = -1074 \<or> 2^52 \<le> rdiv a b"
  proof (cases "u = -1074")
    case False
    have "u = f" using False f(1) by (simp add: u_def)
    with f(2) r(3) have "two_to 52 \<le> z" by (simp add: z_def)
    then have "2^52 \<le> \<lfloor>z\<rfloor>" by (simp add: le_floor_iff)
    then show ?thesis using near(1) by linarith
  qed simp
  have "-1074 \<le> u" using f(1) by (simp add: u_def)
  with n ab m m' low show ?thesis
    by (auto simp: rnd_def u_def [symmetric] Let_def proper_def canonical_def)
qed


lemma rnd_exp_proper: "0 \<le> n \<Longrightarrow> proper (rnd_exp s n e)"
  by (simp add: rnd_exp_def rnd_proper)

lemma proper_simps [simp]: "proper NaN" "proper (Inf s)"
  by (simp_all add: proper_def)

lemma proper_Fin: "proper (Fin s m e) \<Longrightarrow> 0 \<le> m"
  by (auto simp: proper_def canonical_def)

lemma proper_zero: "proper (Fin s 0 (-1074))"
  by (simp add: proper_def canonical_def)

lemma neg_proper: "proper x \<Longrightarrow> proper (- x)"
  by (cases x) (simp_all add: uminus_float64_def proper_def canonical_def)

lemma add_proper:
  assumes "proper x" "proper y" shows "proper (x + y)"
proof (cases "\<exists>s m e t k f. x = Fin s m e \<and> y = Fin t k f")
  case True
  then obtain s m e t k f where xy: "x = Fin s m e" "y = Fin t k f" by blast
  obtain a b g where abg: "align s m e t k f = (a, b, g)" by (cases "align s m e t k f")
  with assms xy show ?thesis
    by (simp add: plus_float64_def proper_zero rnd_exp_proper)
next
  case False
  with assms show ?thesis by (cases x; cases y) (simp_all add: plus_float64_def)
qed

lemma mul_proper: "proper x \<Longrightarrow> proper y \<Longrightarrow> proper (x * y)"
  by (cases x; cases y) (simp_all add: times_float64_def rnd_exp_proper proper_Fin)

lemma div_proper: "proper x \<Longrightarrow> proper y \<Longrightarrow> proper (x / y)"
proof (cases "\<exists>s m e t k f. x = Fin s m e \<and> y = Fin t k f")
  case True
  assume p: "proper x" "proper y"
  from True obtain s m e t k f where xy: "x = Fin s m e" "y = Fin t k f" by blast
  with p proper_Fin have "0 \<le> m" "0 \<le> k" by blast+
  with xy show ?thesis by (auto simp: divide_float64_def intro!: rnd_proper)
next
  case False
  assume "proper x" "proper y"
  with False show ?thesis by (cases x; cases y) (simp_all add: divide_float64_def proper_zero)
qed

lemma literal_proper: "0 \<le> n \<Longrightarrow> 0 < d \<Longrightarrow> proper (lit n d)"
  by (simp add: lit_def rnd_proper)

lemma int_proper: "proper (float_of_int i)"
  by (simp add: float_of_int_def rnd_proper)

text \<open>Finite results.\<close>

lemma rnd_finite:
  assumes "0 \<le> n" "0 < d" "ratio n d < two_to 1023" shows "canonical (rnd s n d)"
proof (cases "n = 0")
  case True
  then show ?thesis by (simp add: rnd_def canonical_def)
next
  case False
  with assms have n: "0 < n" by simp
  obtain f where f: "ulp_exp n d = max f (-1074)" "two_to 52 \<le> ratio n d / two_to f" "ratio n d / two_to f < two_to 53"
    by (rule ulp_exp_spec [OF n assms(2)])
  have "two_to (52 + f) \<le> ratio n d" using f(2) by (simp only: pos_le_divide_eq [OF two_to_pos] two_to_add)
  then have "two_to (52 + f) < two_to 1023" using assms(3) by linarith
  then have "52 + f < 1023" using two_to_mono by (meson not_less)
  with f(1) have "ulp_exp n d \<le> 970" by simp
  then have "rnd s n d \<noteq> NaN" "rnd s n d \<noteq> Inf t" for t
    using n by (auto simp: rnd_def Let_def split: prod.splits)
  with rnd_proper [OF assms(1, 2), of s] show ?thesis by (auto simp: proper_def)
qed

lemma int_finite: "\<bar>i\<bar> \<le> 2^64 \<Longrightarrow> canonical (float_of_int i)"
proof -
  assume "\<bar>i\<bar> \<le> 2^64"
  then have "real_of_int \<bar>i\<bar> \<le> real_of_int (2^64)" by (simp only: of_int_le_iff)
  then have "real_of_int \<bar>i\<bar> \<le> 2^64" by simp
  also have "\<dots> < two_to 1023" by (simp add: power_int_def)
  finally show ?thesis unfolding float_of_int_def by (intro rnd_finite) simp_all
qed

text \<open>A quotient by a number between one and \<open>2^30\<close> or so.\<close>

lemma div_finite:
  assumes "canonical x" "2^52 \<le> k" "-50 \<le> f" shows "canonical (x / Fin False k f)"
proof (cases x)
  case (Fin s m e)
  with assms(1) have m: "0 \<le> m" "m < 2^53" "e \<le> 971" by (auto simp: canonical_def)
  then have "real_of_int m < real_of_int (2^53)" by (simp only: of_int_less_iff)
  then have m53: "real_of_int m < two_to 53" by simp
  have "real_of_int (2^52) \<le> real_of_int k" using assms(2) by (simp only: of_int_le_iff)
  then have k: "two_to 52 \<le> real_of_int k" "0 < k" using assms(2) by simp_all
  show ?thesis
  proof (cases "f \<le> e")
    case True
    let ?p = "real_of_int (pow2 (e - f))"
    have "?p = two_to (e - f)" using True by (intro pow2_real) simp
    also have "\<dots> \<le> two_to 1021" using m assms(3) by (intro two_to_mono) simp
    finally have p: "?p \<le> two_to 1021" .
    have "real_of_int m * ?p \<le> two_to 53 * two_to 1021"
      using m53 p by (intro mult_mono less_imp_le [OF m53]) (simp_all add: pow2_eq)
    also have "\<dots> = two_to 1022 * two_to 52" by (simp only: two_to_add [symmetric]) simp
    also have "\<dots> < two_to 1023 * two_to 52" by (intro mult_strict_right_mono two_to_less) simp_all
    also have "\<dots> \<le> two_to 1023 * real_of_int k" by (intro mult_left_mono k) simp
    finally have lt: "real_of_int m * ?p < two_to 1023 * real_of_int k" .
    have r: "ratio (m * pow2 (e - f)) k = real_of_int m * ?p / real_of_int k" by simp
    have kr: "0 < real_of_int k" using k(2) by simp
    have "ratio (m * pow2 (e - f)) k < two_to 1023"
      unfolding r by (simp only: pos_divide_less_eq [OF kr] lt)
    then show ?thesis using Fin True m k by (simp add: divide_float64_def rnd_finite pow2_eq)
  next
    case False
    then have "1 \<le> pow2 (f - e)" by (simp add: pow2_eq)
    then have d: "1 \<le> k * pow2 (f - e)" using k(2) by (metis int_one_le_iff_zero_less mult_pos_pos order_less_le_trans zero_less_one)
    then have "1 \<le> real_of_int (k * pow2 (f - e))" by (simp only: of_int_1_le_iff)
    then have "ratio m (k * pow2 (f - e)) \<le> real_of_int m / 1"
      using m by (intro divide_left_mono) simp_all
    then have "ratio m (k * pow2 (f - e)) \<le> real_of_int m" by simp
    also have "\<dots> < two_to 1023" using m53 two_to_mono [of 53 1023] by linarith
    finally show ?thesis using Fin False m d k by (simp add: divide_float64_def rnd_finite)
  qed
qed (use assms in \<open>simp_all add: canonical_def\<close>)

lemmas proper_intros = add_proper mul_proper div_proper neg_proper literal_proper int_proper

end
