(* ===== verification/Go_Json.thy ===== *)
theory Go_Json
  imports Go_Ftoa
begin

text \<open>
  Go's \<open>encoding/json\<close>, as far as the program uses it: values as trees, \<open>Marshal\<close>'s text of a tree, and
  the scanner by which \<open>Unmarshal\<close> reads one. The scanner takes one byte at a time and keeps the
  containers that are open on a stack, as the library's does. Shown is that a printed tree reads back,
  and so does a number in it.
\<close>

section \<open>UTF-8\<close>

abbreviation byte :: "char \<Rightarrow> nat" where
  "byte c \<equiv> of_char c"

definition continues :: "nat \<Rightarrow> string \<Rightarrow> bool" where
  "continues n s \<longleftrightarrow> n \<le> length s \<and> list_all (\<lambda>c. 0x80 \<le> byte c \<and> byte c < 0xC0) (take n s)"

definition second_ok :: "nat \<Rightarrow> string \<Rightarrow> bool" where
  "second_ok a s = (case s of [] \<Rightarrow> False | b # r \<Rightarrow>
     if a = 0xE0 then 0xA0 \<le> byte b else if a = 0xED then byte b < 0xA0
     else if a = 0xF0 then 0x90 \<le> byte b else if a = 0xF4 then byte b < 0x90 else True)"

text \<open>The length of the well-formed rune in front, 0 when there is none.\<close>

definition rune_len :: "string \<Rightarrow> nat" where
  "rune_len s = (case s of [] \<Rightarrow> 0 | c # r \<Rightarrow> (let a = byte c in
     if a < 0x80 then 1
     else if 0xC2 \<le> a \<and> a < 0xE0 then (if continues 1 r then 2 else 0)
     else if 0xE0 \<le> a \<and> a < 0xF0 then (if second_ok a r \<and> continues 2 r then 3 else 0)
     else if 0xF0 \<le> a \<and> a < 0xF5 then (if second_ok a r \<and> continues 3 r then 4 else 0)
     else 0))"

function valid_utf8 :: "string \<Rightarrow> bool" where
  "valid_utf8 s = (if s = [] then True else if rune_len s = 0 then False
     else valid_utf8 (drop (rune_len s) s))"
  by pat_completeness auto
termination by (relation "measure length") auto

declare valid_utf8.simps [simp del]

text \<open>The bytes of a code point.\<close>

definition utf8_encode :: "nat \<Rightarrow> string" where
  "utf8_encode n = map char_of (
     if n < 0x80 then [n]
     else if n < 0x800 then [0xC0 + n div 64, 0x80 + n mod 64]
     else if n < 0x10000 then [0xE0 + n div 4096, 0x80 + n div 64 mod 64, 0x80 + n mod 64]
     else [0xF0 + n div 262144, 0x80 + n div 4096 mod 64, 0x80 + n div 64 mod 64, 0x80 + n mod 64])"

definition replacement_char :: string where
  "replacement_char = utf8_encode 0xFFFD"

section \<open>Values and their text\<close>

text \<open>A number is its text.\<close>

datatype json = JNull | JBool bool | JNum string | JStr string
  | JArr "json list" | JObj "(string \<times> json) list"

definition hex_digit :: "nat \<Rightarrow> char" where
  "hex_digit n = ''0123456789abcdef'' ! n"

definition escape_ascii :: "char \<Rightarrow> string" where
  "escape_ascii c =
     (if c = CHR 0x22 \<or> c = CHR 0x5C then [CHR 0x5C, c]
      else if c = CHR 0x0A then [CHR 0x5C, CHR ''n'']
      else if c = CHR 0x0D then [CHR 0x5C, CHR ''r'']
      else if c = CHR 0x09 then [CHR 0x5C, CHR ''t'']
      else if byte c < 0x20 \<or> c = CHR ''<'' \<or> c = CHR ''>'' \<or> c = CHR ''&''
      then CHR 0x5C # ''u00'' @ [hex_digit (byte c div 16), hex_digit (byte c mod 16)]
      else [c])"

text \<open>The two line separators of Unicode, which JavaScript does not take in a string.\<close>

definition line_separator :: "string \<Rightarrow> char option" where
  "line_separator s =
     (if take 3 s = [CHR 0xE2, CHR 0x80, CHR 0xA8] then Some CHR ''8''
      else if take 3 s = [CHR 0xE2, CHR 0x80, CHR 0xA9] then Some CHR ''9'' else None)"

function escape :: "string \<Rightarrow> string" where
  "escape s = (case s of [] \<Rightarrow> [] | c # r \<Rightarrow>
     if rune_len s = 0 then CHR 0x5C # ''ufffd'' @ escape r
     else if rune_len s = 1 then escape_ascii c @ escape r
     else (case line_separator s of Some d \<Rightarrow> CHR 0x5C # ''u202'' @ [d] | None \<Rightarrow> take (rune_len s) s) @
       escape (drop (rune_len s) s))"
  by pat_completeness auto
termination by (relation "measure length") auto

declare escape.simps [simp del]

definition quote :: "string \<Rightarrow> string" where
  "quote s = CHR 0x22 # escape s @ [CHR 0x22]"

fun print_json :: "json \<Rightarrow> string" where
  "print_json JNull = ''null''"
| "print_json (JBool b) = (if b then ''true'' else ''false'')"
| "print_json (JNum t) = t"
| "print_json (JStr s) = quote s"
| "print_json (JArr vs) = ''['' @ join_with '','' (map print_json vs) @ '']''"
| "print_json (JObj kvs) = ''{'' @ join_with '','' (map (\<lambda>(k, v). quote k @ '':'' @ print_json v) kvs) @ ''}''"

section \<open>The scanner\<close>

text \<open>An open container, with what it holds so far; an object also with the key it is at.\<close>

datatype container = InArr "json list" | InObj "(string \<times> json) list" string

datatype num_state = NNeg | NZero | NDigits | NDot | NFrac | NExp | NExpSign | NExpDigits

datatype mode = Begin | BeginOrClose | Key | KeyOrClose | Colon | EndVal | Done json | Bad
  | InString bool string | InEscape bool string | InHex bool string nat
  | InNum num_state string | InWord string json

type_synonym scanner = "mode \<times> container list"

definition is_space :: "char \<Rightarrow> bool" where
  "is_space c \<longleftrightarrow> c = CHR '' '' \<or> c = CHR 0x09 \<or> c = CHR 0x0D \<or> c = CHR 0x0A"

definition is_digit :: "char \<Rightarrow> bool" where
  "is_digit c \<longleftrightarrow> digit_val c \<noteq> None"

definition is_hex :: "char \<Rightarrow> bool" where
  "is_hex c \<longleftrightarrow> map_of hex_table (lower_char c) \<noteq> None"

definition deliver :: "json \<Rightarrow> container list \<Rightarrow> scanner" where
  "deliver v K = (case K of
     [] \<Rightarrow> (Done v, [])
   | InArr vs # K' \<Rightarrow> (EndVal, InArr (vs @ [v]) # K')
   | InObj kvs k # K' \<Rightarrow> (EndVal, InObj (kvs @ [(k, v)]) k # K'))"

text \<open>At most 10000 containers may be open.\<close>

definition push :: "container \<Rightarrow> mode \<Rightarrow> container list \<Rightarrow> scanner" where
  "push f m K = (if length K < 10000 then (m, f # K) else (Bad, K))"

definition begin_value :: "char \<Rightarrow> container list \<Rightarrow> scanner" where
  "begin_value c K =
     (if c = CHR ''{'' then push (InObj [] []) KeyOrClose K
      else if c = CHR ''['' then push (InArr []) BeginOrClose K
      else if c = CHR 0x22 then (InString False [], K)
      else if c = CHR ''-'' then (InNum NNeg [c], K)
      else if c = CHR ''0'' then (InNum NZero [c], K)
      else if is_digit c then (InNum NDigits [c], K)
      else if c = CHR ''t'' then (InWord ''rue'' (JBool True), K)
      else if c = CHR ''f'' then (InWord ''alse'' (JBool False), K)
      else if c = CHR ''n'' then (InWord ''ull'' JNull, K)
      else (Bad, K))"

fun close :: "char \<Rightarrow> container list \<Rightarrow> scanner" where
  "close c (InArr vs # K) =
     (if c = CHR '','' then (Begin, InArr vs # K)
      else if c = CHR '']'' then deliver (JArr vs) K else (Bad, InArr vs # K))"
| "close c (InObj kvs k # K) =
     (if c = CHR '','' then (Key, InObj kvs k # K)
      else if c = CHR ''}'' then deliver (JObj kvs) K else (Bad, InObj kvs k # K))"
| "close c [] = (Bad, [])"

definition after_value :: "char \<Rightarrow> scanner \<Rightarrow> scanner" where
  "after_value c s = (if is_space c then s else close c (snd s))"

definition num_done :: "num_state \<Rightarrow> bool" where
  "num_done n \<longleftrightarrow> n = NZero \<or> n = NDigits \<or> n = NFrac \<or> n = NExpDigits"

definition is_exp :: "char \<Rightarrow> bool" where
  "is_exp c \<longleftrightarrow> c = CHR ''e'' \<or> c = CHR ''E''"

text \<open>Where a number goes with a byte that belongs to it.\<close>

definition num_next :: "num_state \<Rightarrow> char \<Rightarrow> num_state option" where
  "num_next n c = (case n of
     NNeg \<Rightarrow> (if c = CHR ''0'' then Some NZero else if is_digit c then Some NDigits else None)
   | NZero \<Rightarrow> (if c = CHR ''.'' then Some NDot else if is_exp c then Some NExp else None)
   | NDigits \<Rightarrow> (if is_digit c then Some NDigits else if c = CHR ''.'' then Some NDot
       else if is_exp c then Some NExp else None)
   | NDot \<Rightarrow> (if is_digit c then Some NFrac else None)
   | NFrac \<Rightarrow> (if is_digit c then Some NFrac else if is_exp c then Some NExp else None)
   | NExp \<Rightarrow> (if c = CHR ''+'' \<or> c = CHR ''-'' then Some NExpSign
       else if is_digit c then Some NExpDigits else None)
   | NExpSign \<Rightarrow> (if is_digit c then Some NExpDigits else None)
   | NExpDigits \<Rightarrow> (if is_digit c then Some NExpDigits else None))"

text \<open>The code point of four digits.\<close>

definition hex_val :: "char \<Rightarrow> nat" where
  "hex_val c = (case map_of hex_table (lower_char c) of None \<Rightarrow> 0 | Some n \<Rightarrow> nat n)"

definition hex4 :: "string \<Rightarrow> nat" where
  "hex4 s = foldl (\<lambda>n c. 16 * n + hex_val c) 0 (take 4 s)"

definition surrogate :: "nat \<Rightarrow> bool" where
  "surrogate n \<longleftrightarrow> 0xD800 \<le> n \<and> n < 0xE000"

text \<open>What the two halves of a pair stand for.\<close>

definition pair_rune :: "nat \<Rightarrow> string \<Rightarrow> nat option" where
  "pair_rune a s =
     (if 2 \<le> length s \<and> take 2 s = [CHR 0x5C, CHR ''u''] then
        (let b = hex4 (drop 2 s)
         in if 0xD800 \<le> a \<and> a < 0xDC00 \<and> 0xDC00 \<le> b \<and> b < 0xE000
            then Some (0x10000 + (a - 0xD800) * 1024 + (b - 0xDC00)) else None)
      else None)"

definition simple_escape :: "char \<Rightarrow> char" where
  "simple_escape c = (if c = CHR ''b'' then CHR 0x08 else if c = CHR ''f'' then CHR 0x0C
     else if c = CHR ''n'' then CHR 0x0A else if c = CHR ''r'' then CHR 0x0D
     else if c = CHR ''t'' then CHR 0x09 else c)"

text \<open>The string that a scanned literal denotes; bytes that are no rune become U+FFFD.\<close>

function unquote :: "string \<Rightarrow> string" where
  "unquote s = (case s of [] \<Rightarrow> [] | c # r \<Rightarrow>
     if c = CHR 0x5C then
       (case r of [] \<Rightarrow> [] | e # q \<Rightarrow>
          if e = CHR ''u'' then
            (let n = hex4 q; q = drop 4 q
             in if surrogate n then
                  (case pair_rune n q of
                     Some p \<Rightarrow> utf8_encode p @ unquote (drop 6 q)
                   | None \<Rightarrow> replacement_char @ unquote q)
                else utf8_encode n @ unquote q)
          else simple_escape e # unquote q)
     else if rune_len s = 0 then replacement_char @ unquote r
     else take (rune_len s) s @ unquote (drop (rune_len s) s))"
  by pat_completeness auto
termination by (relation "measure length") auto

declare unquote.simps [simp del]

definition end_string :: "bool \<Rightarrow> string \<Rightarrow> container list \<Rightarrow> scanner" where
  "end_string key raw K = (if key then
       (case K of InObj kvs k # K' \<Rightarrow> (Colon, InObj kvs (unquote raw) # K') | _ \<Rightarrow> (Bad, K))
     else deliver (JStr (unquote raw)) K)"

definition step :: "scanner \<Rightarrow> char \<Rightarrow> scanner" where
  "step s c = (let K = snd s in case fst s of
     Begin \<Rightarrow> (if is_space c then s else begin_value c K)
   | BeginOrClose \<Rightarrow> (if is_space c then s else if c = CHR '']'' then close c K else begin_value c K)
   | Key \<Rightarrow> (if is_space c then s else if c = CHR 0x22 then (InString True [], K) else (Bad, K))
   | KeyOrClose \<Rightarrow> (if is_space c then s else if c = CHR ''}'' then close c K
       else if c = CHR 0x22 then (InString True [], K) else (Bad, K))
   | Colon \<Rightarrow> (if is_space c then s else if c = CHR '':'' then (Begin, K) else (Bad, K))
   | EndVal \<Rightarrow> after_value c s
   | Done v \<Rightarrow> (if is_space c then s else (Bad, K))
   | Bad \<Rightarrow> s
   | InString key raw \<Rightarrow>
       (if c = CHR 0x22 then end_string key raw K
        else if c = CHR 0x5C then (InEscape key (raw @ [c]), K)
        else if byte c < 0x20 then (Bad, K) else (InString key (raw @ [c]), K))
   | InEscape key raw \<Rightarrow>
       (if c = CHR ''u'' then (InHex key (raw @ [c]) 4, K)
        else if c \<in> set (''bfnrt/'' @ [CHR 0x5C, CHR 0x22]) then (InString key (raw @ [c]), K)
        else (Bad, K))
   | InHex key raw n \<Rightarrow>
       (if is_hex c then (if n = 1 then InString key (raw @ [c]) else InHex key (raw @ [c]) (n - 1), K)
        else (Bad, K))
   | InNum n t \<Rightarrow> (case num_next n c of
       Some n' \<Rightarrow> (InNum n' (t @ [c]), K)
     | None \<Rightarrow> if \<not> num_done n then (Bad, K)
         else (let s' = deliver (JNum t) K
               in case fst s' of Done v \<Rightarrow> (if is_space c then s' else (Bad, K)) | _ \<Rightarrow> after_value c s'))
   | InWord w v \<Rightarrow> (case w of [] \<Rightarrow> (Bad, K) | a # r \<Rightarrow>
       if c \<noteq> a then (Bad, K) else if r = [] then deliver v K else (InWord r v, K)))"

text \<open>At the end of the input the scanner is given a space.\<close>

definition parse_json :: "string \<Rightarrow> json option" where
  "parse_json t = (case fst (step (foldl step (Begin, []) t) CHR '' '') of Done v \<Rightarrow> Some v | _ \<Rightarrow> None)"

section \<open>Strings read back\<close>

lemma rune_len_Nil [simp]: "rune_len [] = 0"
  by (simp add: rune_len_def)

lemma rune_len_le: "rune_len s \<le> length s"
  by (auto simp: rune_len_def continues_def Let_def split: list.split)

lemma continues_append: "continues n s \<Longrightarrow> continues n (take n s @ t)"
  by (simp add: continues_def)

lemma second_ok_append: "second_ok a s \<Longrightarrow> 0 < n \<Longrightarrow> second_ok a (take n s @ t)"
  by (cases s; cases n) (simp_all add: second_ok_def)

lemma rune_len_append: "rune_len s = k \<Longrightarrow> k \<noteq> 0 \<Longrightarrow> rune_len (take k s @ t) = k"
  by (cases s) (auto simp: rune_len_def Let_def continues_append second_ok_append split: if_splits)

lemma rune_len_ascii: "rune_len (c # s) = 1 \<longleftrightarrow> byte c < 0x80"
  by (auto simp: rune_len_def Let_def)

lemma rune_len_1: "byte c < 0x80 \<Longrightarrow> rune_len (c # s) = 1"
  by (simp add: rune_len_def Let_def)

lemma rune_len_high: "rune_len (c # s) \<noteq> 0 \<Longrightarrow> rune_len (c # s) \<noteq> 1 \<Longrightarrow> 0x80 \<le> byte c"
  by (auto simp: rune_len_def Let_def split: if_splits)

lemma hex_digit_facts:
  assumes "n < 16"
  shows "hex_val (hex_digit n) = n" "is_hex (hex_digit n)" 
proof -
  have "n \<in> {0, 1, 2, 3, 4, 5, 6, 7, 8, 9, 10, 11, 12, 13, 14, 15}"
    using assms unfolding insert_iff empty_iff by presburger
  moreover have "\<forall>n \<in> {0, 1, 2, 3, 4, 5, 6, 7, 8, 9, 10, 11, 12, 13, 14, 15}.
      hex_val (hex_digit n) = n \<and> is_hex (hex_digit n)" by code_simp
  ultimately show "hex_val (hex_digit n) = n" "is_hex (hex_digit n)" by metis+
qed

lemma byte_inverse: "utf8_encode (byte c) = [c]" if "byte c < 0x80"
  using that by (simp add: utf8_encode_def)

lemma unquote_hex:
  assumes "byte c < 0x80"
  shows "unquote (CHR 0x5C # ''u00'' @ [hex_digit (byte c div 16), hex_digit (byte c mod 16)] @ t) = c # unquote t"
proof -
  have "hex_val CHR ''0'' = 0" by code_simp
  moreover have "byte c div 16 < 16" "byte c mod 16 < 16" using assms by simp_all
  ultimately have "hex4 (''00'' @ [hex_digit (byte c div 16), hex_digit (byte c mod 16)] @ t) = byte c"
    by (simp add: hex4_def hex_digit_facts)
  with assms byte_inverse [OF assms] show ?thesis
    by (subst unquote.simps) (simp add: surrogate_def Let_def)
qed

lemma unquote_ascii:
  assumes "byte c < 0x80" shows "unquote (escape_ascii c @ t) = c # unquote t"
proof -
  consider "c = CHR 0x22 \<or> c = CHR 0x5C" | "c = CHR 0x0A" | "c = CHR 0x0D" | "c = CHR 0x09"
    | "byte c < 0x20 \<or> c = CHR ''<'' \<or> c = CHR ''>'' \<or> c = CHR ''&''" "c \<noteq> CHR 0x22" "c \<noteq> CHR 0x5C"
      "c \<noteq> CHR 0x0A" "c \<noteq> CHR 0x0D" "c \<noteq> CHR 0x09"
    | "c \<noteq> CHR 0x5C" "escape_ascii c = [c]"
    unfolding escape_ascii_def by argo
  then show ?thesis
  proof cases
    case 5
    then have "escape_ascii c = CHR 0x5C # ''u00'' @ [hex_digit (byte c div 16), hex_digit (byte c mod 16)]"
      by (simp add: escape_ascii_def)
    with unquote_hex [OF assms, of t] show ?thesis by simp
  next
    case 6
    with rune_len_1 [OF assms, of t] show ?thesis by (subst unquote.simps) simp
  qed (auto simp: escape_ascii_def unquote.simps [of "CHR 0x5C # s" for s] simple_escape_def)
qed

lemma line_separator_some:
  assumes "line_separator s = Some d"
  obtains t where "d = CHR ''8''" "s = CHR 0xE2 # CHR 0x80 # CHR 0xA8 # t"
    | t where "d = CHR ''9''" "s = CHR 0xE2 # CHR 0x80 # CHR 0xA9 # t"
proof -
  have s: "s = take 3 s @ drop 3 s" by simp
  consider "d = CHR ''8''" "take 3 s = [CHR 0xE2, CHR 0x80, CHR 0xA8]"
    | "d = CHR ''9''" "take 3 s = [CHR 0xE2, CHR 0x80, CHR 0xA9]"
    using assms unfolding line_separator_def by (metis option.distinct(1) option.sel)
  then show ?thesis
  proof cases
    case 1
    from s have "s = CHR 0xE2 # CHR 0x80 # CHR 0xA8 # drop 3 s" unfolding 1(2) by simp
    with 1(1) that(1) show ?thesis by blast
  next
    case 2
    from s have "s = CHR 0xE2 # CHR 0x80 # CHR 0xA9 # drop 3 s" unfolding 2(2) by simp
    with 2(1) that(2) show ?thesis by blast
  qed
qed

lemma separator_len:
  "rune_len (CHR 0xE2 # CHR 0x80 # CHR 0xA8 # t) = 3" "rune_len (CHR 0xE2 # CHR 0x80 # CHR 0xA9 # t) = 3"
  by (simp_all add: rune_len_def continues_def second_ok_def Let_def)

lemma separator_hex: "hex4 (''2028'' @ t) = 0x2028" "hex4 (''2029'' @ t) = 0x2029"
proof -
  have "hex_val CHR ''0'' = 0" "hex_val CHR ''2'' = 2" "hex_val CHR ''8'' = 8" "hex_val CHR ''9'' = 9"
    by code_simp+
  then show "hex4 (''2028'' @ t) = 0x2028" "hex4 (''2029'' @ t) = 0x2029" by (simp_all add: hex4_def)
qed

lemma unquote_u:
  assumes "\<not> surrogate (hex4 q)"
  shows "unquote (CHR 0x5C # CHR ''u'' # q) = utf8_encode (hex4 q) @ unquote (drop 4 q)"
  using assms by (subst unquote.simps) (simp add: Let_def)

lemma unquote_separator:
  "unquote (CHR 0x5C # CHR ''u'' # ''2028'' @ t) = [CHR 0xE2, CHR 0x80, CHR 0xA8] @ unquote t"
  "unquote (CHR 0x5C # CHR ''u'' # ''2029'' @ t) = [CHR 0xE2, CHR 0x80, CHR 0xA9] @ unquote t"
proof -
  have enc: "utf8_encode 0x2028 = [CHR 0xE2, CHR 0x80, CHR 0xA8]" "utf8_encode 0x2029 = [CHR 0xE2, CHR 0x80, CHR 0xA9]"
    by (simp_all add: utf8_encode_def char_of_eq_iff)
  have sur: "\<not> surrogate (hex4 (''2028'' @ t))" "\<not> surrogate (hex4 (''2029'' @ t))"
    by (simp_all only: separator_hex) (simp_all add: surrogate_def)
  show "unquote (CHR 0x5C # CHR ''u'' # ''2028'' @ t) = [CHR 0xE2, CHR 0x80, CHR 0xA8] @ unquote t"
    unfolding unquote_u [OF sur(1)] separator_hex enc by simp
  show "unquote (CHR 0x5C # CHR ''u'' # ''2029'' @ t) = [CHR 0xE2, CHR 0x80, CHR 0xA9] @ unquote t"
    unfolding unquote_u [OF sur(2)] separator_hex enc by simp
qed

lemma unquote_rune:
  assumes "rune_len s \<noteq> 0" "rune_len s \<noteq> 1"
  shows "unquote (take (rune_len s) s @ t) = take (rune_len s) s @ unquote t"
proof -
  let ?k = "rune_len s"
  from assms obtain c r where s: "s = c # r" by (cases s) auto
  with assms rune_len_high have "0x80 \<le> byte c" by blast
  then have c: "c \<noteq> CHR 0x5C" by auto
  have len: "length (take ?k s) = ?k" using rune_len_le by simp
  from assms s have cons: "take ?k s @ t = c # (take (?k - 1) r @ t)" by (simp add: take_Cons')
  have split: "take ?k (take ?k s @ t) = take ?k s" "drop ?k (take ?k s @ t) = t" using len by simp_all
  show ?thesis
    using rune_len_append [of s ?k t] assms c split unfolding cons
    by (subst unquote.simps) simp
qed

lemma escape_one: "rune_len (c # r) = 1 \<Longrightarrow> escape (c # r) = escape_ascii c @ escape r"
  by (subst escape.simps) simp

lemma escape_sep:
  "rune_len s = 3 \<Longrightarrow> line_separator s = Some d \<Longrightarrow> escape s = CHR 0x5C # ''u202'' @ [d] @ escape (drop 3 s)"
  by (subst escape.simps) (auto split: list.split)

lemma escape_rune:
  "rune_len s \<noteq> 0 \<Longrightarrow> rune_len s \<noteq> 1 \<Longrightarrow> line_separator s = None \<Longrightarrow>
     escape s = take (rune_len s) s @ escape (drop (rune_len s) s)"
  by (subst escape.simps) (auto split: list.split)

lemma escape_bad: "rune_len (c # r) = 0 \<Longrightarrow> escape (c # r) = CHR 0x5C # ''ufffd'' @ escape r"
  by (subst escape.simps) simp

lemma unquote_escape: "valid_utf8 s \<Longrightarrow> unquote (escape s) = s"
proof (induction s rule: length_induct)
  case (1 s)
  show ?case
  proof (cases s)
    case Nil
    then show ?thesis by (simp add: escape.simps unquote.simps)
  next
    case (Cons c r)
    let ?k = "rune_len s"
    from 1(2) Cons have k: "?k \<noteq> 0" "valid_utf8 (drop ?k s)"
      using valid_utf8.simps [of s] by (auto split: if_splits)
    with 1(1) Cons have IH: "unquote (escape (drop ?k s)) = drop ?k s"
      by (metis diff_less length_drop length_greater_0_conv list.distinct(1) neq0_conv)
    show ?thesis
    proof (cases "?k = 1")
      case True
      with Cons rune_len_ascii have c: "byte c < 0x80" by blast
      from True Cons have "rune_len (c # r) = 1" by simp
      from escape_one [OF this] unquote_ascii [OF c, of "escape r"] True IH Cons show ?thesis by simp
    next
      case False
      show ?thesis
      proof (cases "line_separator s")
        case None
        from escape_rune [OF k(1) False None] unquote_rune [OF k(1) False] IH show ?thesis by simp
      next
        case (Some d)
        then show ?thesis
        proof (cases rule: line_separator_some)
          case (1 t)
          then have "?k = 3" "drop 3 s = t" by (simp_all add: separator_len)
          with escape_sep [OF _ Some] unquote_separator(1) [of "escape t"] IH 1 show ?thesis by simp
        next
          case (2 t)
          then have "?k = 3" "drop 3 s = t" by (simp_all add: separator_len)
          with escape_sep [OF _ Some] unquote_separator(2) [of "escape t"] IH 2 show ?thesis by simp
        qed
      qed
    qed
  qed
qed

section \<open>Scanning what is printed\<close>

definition scans :: "string \<Rightarrow> bool" where
  "scans t \<longleftrightarrow> (\<forall>key raw K. foldl step (InString key raw, K) t = (InString key (raw @ t), K))"

lemma scans_Nil: "scans []"
  by (simp add: scans_def)

lemma scans_append: "scans s \<Longrightarrow> scans t \<Longrightarrow> scans (s @ t)"
  by (simp add: scans_def)

definition plain_char :: "char \<Rightarrow> bool" where
  "plain_char c \<longleftrightarrow> c \<noteq> CHR 0x22 \<and> c \<noteq> CHR 0x5C \<and> \<not> byte c < 0x20"

lemma scans_plain: "list_all plain_char t \<Longrightarrow> scans t"
proof (induction t)
  case (Cons c t)
  then have "scans t" by simp
  moreover have "step (InString key raw, K) c = (InString key (raw @ [c]), K)" for key raw K
    using Cons.prems by (simp add: step_def plain_char_def)
  ultimately show ?case by (simp add: scans_def)
qed (simp add: scans_Nil)

lemma scans_escape: "c \<in> set (''bfnrt/'' @ [CHR 0x5C, CHR 0x22]) \<Longrightarrow> scans [CHR 0x5C, c]"
  unfolding scans_def by (auto simp: step_def Let_def)

lemma scans_hex:
  assumes "is_hex a" "is_hex b" "is_hex c" "is_hex d"
  shows "scans [CHR 0x5C, CHR ''u'', a, b, c, d]"
  using assms by (simp add: scans_def step_def)

lemma scans_ascii: "byte c < 0x80 \<Longrightarrow> scans (escape_ascii c)"
proof -
  assume c: "byte c < 0x80"
  have z: "is_hex CHR ''0''" by code_simp
  have "byte c div 16 < 16" "byte c mod 16 < 16" using c by simp_all
  then have h: "is_hex (hex_digit (byte c div 16))" "is_hex (hex_digit (byte c mod 16))"
    by (simp_all only: hex_digit_facts)
  show ?thesis
    using scans_hex [OF z z h] scans_escape scans_plain [of "[c]"]
    by (auto simp: escape_ascii_def plain_char_def)
qed

lemma rune_plain:
  assumes "rune_len s \<noteq> 0" "rune_len s \<noteq> 1"
  shows "list_all plain_char (take (rune_len s) s)"
proof -
  have high: "plain_char c" if "0x80 \<le> byte c" for c using that by (auto simp: plain_char_def)
  have cont: "list_all plain_char (take n r)" if "continues n r" for n r
    using that high by (auto simp: continues_def list_all_iff)
  from assms obtain c r where s: "s = c # r" by (cases s) auto
  with rune_len_high assms have "plain_char c" by (intro high) blast
  moreover have "continues (rune_len s - 1) r"
    using assms unfolding s by (auto simp: rune_len_def Let_def split: if_splits)
  ultimately show ?thesis using assms cont unfolding s by (simp add: take_Cons')
qed

lemma scans_word: "scans (CHR 0x5C # ''ufffd'')" "scans (CHR 0x5C # ''u2028'')" "scans (CHR 0x5C # ''u2029'')"
proof -
  have "is_hex CHR ''f''" "is_hex CHR ''d''" "is_hex CHR ''0''" "is_hex CHR ''2''" "is_hex CHR ''8''" "is_hex CHR ''9''"
    by code_simp+
  then show "scans (CHR 0x5C # ''ufffd'')" "scans (CHR 0x5C # ''u2028'')" "scans (CHR 0x5C # ''u2029'')"
    by (simp_all add: scans_hex)
qed

lemma scans_escaped: "scans (escape s)"
proof (induction s rule: length_induct)
  case (1 s)
  show ?case
  proof (cases s)
    case (Cons c r)
    let ?k = "rune_len s"
    from 1 Cons have r: "scans (escape r)" by simp
    have d: "?k \<noteq> 0 \<Longrightarrow> scans (escape (drop ?k s))" using 1 Cons by simp
    consider "?k = 0" | "?k = 1" | "?k \<noteq> 0" "?k \<noteq> 1" by blast
    then show ?thesis
    proof cases
      case 1
      with escape_bad Cons have "escape s = (CHR 0x5C # ''ufffd'') @ escape r" by simp
      with scans_append [OF scans_word(1) r] show ?thesis by simp
    next
      case 2
      with Cons rune_len_ascii have "byte c < 0x80" by blast
      from scans_append [OF scans_ascii [OF this] r] escape_one [of c r] 2 Cons show ?thesis by simp
    next
      case 3
      show ?thesis
      proof (cases "line_separator s")
        case None
        with escape_rune [OF 3 None] scans_append [OF scans_plain [OF rune_plain [OF 3]] d [OF 3(1)]]
        show ?thesis by simp
      next
        case (Some x)
        then have k: "?k = 3" and x: "x = CHR ''8'' \<or> x = CHR ''9''"
          by (auto elim!: line_separator_some simp: separator_len)
        from x scans_word have "scans (CHR 0x5C # ''u202'' @ [x])" by auto
        from scans_append [OF this d [OF 3(1)]] escape_sep [OF k Some] k show ?thesis by simp
      qed
    qed
  qed (simp add: escape.simps scans_Nil)
qed

lemma scan_quote:
  "foldl step (InString key [], K) (escape s @ [CHR 0x22]) = end_string key (escape s) K"
  using scans_escaped [of s] by (simp add: scans_def) (simp add: step_def)

section \<open>Trees read back\<close>

fun num_from :: "num_state \<Rightarrow> string \<Rightarrow> num_state option" where
  "num_from n [] = Some n"
| "num_from n (c # r) = (case num_next n c of None \<Rightarrow> None | Some m \<Rightarrow> num_from m r)"

definition num_start :: "char \<Rightarrow> num_state option" where
  "num_start c = (if c = CHR ''-'' then Some NNeg else if c = CHR ''0'' then Some NZero
     else if is_digit c then Some NDigits else None)"

text \<open>The texts that are numbers.\<close>

definition number :: "string \<Rightarrow> bool" where
  "number t = (case t of [] \<Rightarrow> False | c # r \<Rightarrow> (case num_start c of None \<Rightarrow> False
     | Some n \<Rightarrow> (case num_from n r of None \<Rightarrow> False | Some m \<Rightarrow> num_done m)))"

text \<open>A tree with numbers and well-formed strings, nested at most so deep.\<close>

fun json_ok :: "nat \<Rightarrow> json \<Rightarrow> bool" where
  "json_ok d (JNum t) = number t"
| "json_ok d (JStr s) = valid_utf8 s"
| "json_ok d (JArr vs) = (0 < d \<and> list_all (json_ok (d - 1)) vs)"
| "json_ok d (JObj kvs) = (0 < d \<and> list_all (\<lambda>(k, v). valid_utf8 k \<and> json_ok (d - 1) v) kvs)"
| "json_ok d v = True"

text \<open>A number is only delivered with the byte after it.\<close>

definition ends :: "scanner \<Rightarrow> json \<Rightarrow> container list \<Rightarrow> bool" where
  "ends s v K \<longleftrightarrow> s = deliver v K \<or> (\<exists>n t. v = JNum t \<and> num_done n \<and> s = (InNum n t, K))"

lemma scan_num_from:
  "num_from n r = Some m \<Longrightarrow> foldl step (InNum n t, K) r = (InNum m (t @ r), K)"
  by (induction r arbitrary: n t) (auto simp: step_def split: option.splits)

lemma num_start_head:
  assumes "num_start c = Some n"
  shows "\<not> is_space c" "c \<noteq> CHR '']''" "c \<noteq> CHR ''{''" "c \<noteq> CHR ''[''" "c \<noteq> CHR 0x22"
proof -
  have no: "\<not> is_digit CHR ''{''" "\<not> is_digit CHR ''[''" "\<not> is_digit CHR 0x22" "\<not> is_digit CHR '' ''"
    "\<not> is_digit CHR 0x09" "\<not> is_digit CHR 0x0D" "\<not> is_digit CHR 0x0A" "\<not> is_digit CHR '']''"
    by code_simp+
  consider "c = CHR ''-''" | "c = CHR ''0''" | "is_digit c"
    using assms by (auto simp: num_start_def split: if_splits)
  then show "\<not> is_space c" "c \<noteq> CHR '']''" "c \<noteq> CHR ''{''" "c \<noteq> CHR ''[''" "c \<noteq> CHR 0x22"
    using no unfolding is_space_def by (cases, simp_all, blast+)
qed

lemma scan_number:
  assumes "number t" shows "\<exists>n. num_done n \<and> foldl step (Begin, K) t = (InNum n t, K)"
proof -
  from assms obtain c r n m where t: "t = c # r" "num_start c = Some n" "num_from n r = Some m" "num_done m"
    by (auto simp: number_def split: list.splits option.splits)
  from num_start_head [OF t(2)] have "step (Begin, K) c = (InNum n [c], K)"
    using t(2) by (auto simp: step_def begin_value_def num_start_def split: if_splits)
  with scan_num_from [OF t(3), of "[c]" K] t(1, 4) show ?thesis by auto
qed

lemma num_next_delimiter:
  "c \<in> {CHR '','', CHR '']'', CHR ''}'', CHR '' ''} \<Longrightarrow> num_next n c = None"
proof -
  assume "c \<in> {CHR '','', CHR '']'', CHR ''}'', CHR '' ''}"
  moreover have "\<not> is_digit CHR '',''" "\<not> is_digit CHR '']''" "\<not> is_digit CHR ''}''" "\<not> is_digit CHR '' ''"
    by code_simp+
  ultimately have "\<not> is_digit c" "\<not> is_exp c" "c \<noteq> CHR ''0''" "c \<noteq> CHR ''.''" "c \<noteq> CHR ''+''" "c \<noteq> CHR ''-''"
    by (auto simp: is_exp_def)
  then show ?thesis by (cases n) (simp_all add: num_next_def)
qed

text \<open>The byte after a value closes it.\<close>

lemma ends_step:
  assumes "ends s v (f # K)" "c \<in> {CHR '','', CHR '']'', CHR ''}''}"
  shows "step s c = close c (snd (deliver v (f # K)))"
proof -
  obtain K' where d: "deliver v (f # K) = (EndVal, K')" by (cases f) (simp_all add: deliver_def)
  have c: "\<not> is_space c" using assms(2) by (auto simp: is_space_def)
  from assms(1) consider "s = deliver v (f # K)" | n t where "v = JNum t" "num_done n" "s = (InNum n t, f # K)"
    unfolding ends_def by blast
  then show ?thesis
  proof cases
    case 1
    with c d show ?thesis by (simp add: step_def after_value_def)
  next
    case 2
    have "num_next n c = None" by (rule num_next_delimiter) (use assms(2) in auto)
    with 2 c d show ?thesis by (simp add: step_def after_value_def Let_def)
  qed
qed

lemma ends_top:
  assumes "ends s v []" shows "fst (step s CHR '' '') = Done v"
  using assms num_next_delimiter [of "CHR '' ''"]
  by (auto simp: ends_def step_def deliver_def is_space_def Let_def)

lemma print_head:
  assumes "json_ok d v" obtains c r where "print_json v = c # r" "\<not> is_space c" "c \<noteq> CHR '']''"
proof -
  have "\<exists>c r. print_json v = c # r \<and> \<not> is_space c \<and> c \<noteq> CHR '']''"
  proof (cases v)
    case (JNum t)
    with assms obtain c r n where "t = c # r" "num_start c = Some n"
      by (auto simp: number_def split: list.splits option.splits)
    with JNum num_start_head show ?thesis by simp
  qed (auto simp: quote_def is_space_def)
  with that show ?thesis by blast
qed


lemma begin_same: "\<not> is_space c \<Longrightarrow> c \<noteq> CHR '']'' \<Longrightarrow> step (BeginOrClose, K) c = step (Begin, K) c"
  by (simp add: step_def)

lemma begin_first:
  assumes "json_ok d v" shows "foldl step (BeginOrClose, K) (print_json v @ t) = foldl step (Begin, K) (print_json v @ t)"
proof -
  obtain c r where "print_json v = c # r" "\<not> is_space c" "c \<noteq> CHR '']''" by (rule print_head [OF assms])
  then show ?thesis by (simp add: begin_same)
qed

text \<open>A container's parts, given that each of them scans.\<close>

definition scans_value :: "json \<Rightarrow> nat \<Rightarrow> bool" where
  "scans_value v d \<longleftrightarrow>
     (\<forall>K. length K + d \<le> 10000 \<longrightarrow> ends (foldl step (Begin, K) (print_json v)) v K)"

lemma scan_then_close:
  assumes "scans_value v d" "length (f # K) + d \<le> 10000" "c \<in> {CHR '','', CHR '']'', CHR ''}''}"
  shows "foldl step (Begin, f # K) (print_json v @ c # t) = foldl step (close c (snd (deliver v (f # K)))) t"
proof -
  from assms(1, 2) have "ends (foldl step (Begin, f # K) (print_json v)) v (f # K)"
    unfolding scans_value_def by blast
  from ends_step [OF this assms(3)] show ?thesis by simp
qed

lemma scan_elements:
  assumes "vs \<noteq> []" "\<forall>v \<in> set vs. scans_value v d" "Suc (length K) + d \<le> 10000"
  shows "foldl step (Begin, InArr acc # K) (join_with '','' (map print_json vs) @ '']'') = deliver (JArr (acc @ vs)) K"
  using assms(1, 2)
proof (induction vs arbitrary: acc)
  case (Cons v vs)
  then have v: "scans_value v d" by simp
  note sc = scan_then_close [OF v, of "InArr acc" K]
  show ?case
  proof (cases "vs = []")
    case True
    with sc [of "CHR '']''" "[]"] assms(3) show ?thesis by (simp add: deliver_def [of v])
  next
    case False
    with sc [of "CHR '',''" "join_with '','' (map print_json vs) @ '']''"] assms(3) Cons.IH [OF False, of "acc @ [v]"] Cons.prems
    show ?thesis by (simp add: join_with_cons deliver_def [of v])
  qed
qed simp

abbreviation print_entry :: "string \<times> json \<Rightarrow> string" where
  "print_entry \<equiv> \<lambda>(k, v). quote k @ '':'' @ print_json v"

lemma scan_key:
  assumes "valid_utf8 k" "m = Key \<or> m = KeyOrClose"
  shows "foldl step (m, InObj acc k0 # K) (quote k @ CHR '':'' # t) = foldl step (Begin, InObj acc k # K) t"
proof -
  have "step (m, InObj acc k0 # K) CHR 0x22 = (InString True [], InObj acc k0 # K)"
    using assms(2) by (auto simp: step_def is_space_def)
  moreover have "step (Colon, InObj acc k # K) CHR '':'' = (Begin, InObj acc k # K)"
    by (simp add: step_def is_space_def)
  ultimately show ?thesis
    using scan_quote [of True "InObj acc k0 # K" k] assms(1)
    by (simp add: quote_def end_string_def unquote_escape)
qed

lemma scan_entries:
  assumes "kvs \<noteq> []" "\<forall>(k, v) \<in> set kvs. valid_utf8 k \<and> scans_value v d" "Suc (length K) + d \<le> 10000"
    and "m = Key \<or> m = KeyOrClose"
  shows "foldl step (m, InObj acc k0 # K) (join_with '','' (map print_entry kvs) @ ''}'') =
    deliver (JObj (acc @ kvs)) K"
  using assms(1, 2, 4)
proof (induction kvs arbitrary: acc k0 m)
  case (Cons kv kvs)
  obtain k v where kv: "kv = (k, v)" by fastforce
  with Cons.prems have k: "valid_utf8 k" and v: "scans_value v d" by auto
  note key = scan_key [OF k Cons.prems(3), of acc k0 K]
  note sc = scan_then_close [OF v, of "InObj acc k" K]
  show ?case
  proof (cases "kvs = []")
    case True
    with sc [of "CHR ''}''" "[]"] key [of "print_json v @ ''}''"] assms(3) kv
    show ?thesis by (simp add: deliver_def [of v])
  next
    case False
    have "\<forall>(k, v) \<in> set kvs. valid_utf8 k \<and> scans_value v d" using Cons.prems(2) by simp
    from Cons.IH [OF False this, of Key "acc @ [(k, v)]" k]
      sc [of "CHR '',''" "join_with '','' (map print_entry kvs) @ ''}''"] assms(3)
      key [of "print_json v @ CHR '','' # join_with '','' (map print_entry kvs) @ ''}''"] False kv
    show ?thesis by (simp add: join_with_cons deliver_def [of v])
  qed
qed simp


lemma push_ok: "length K + d \<le> 10000 \<Longrightarrow> 0 < d \<Longrightarrow> push f m K = (m, f # K)"
  by (simp add: push_def)

lemma begin_open:
  "step (Begin, K) CHR ''['' = push (InArr []) BeginOrClose K"
  "step (Begin, K) CHR ''{'' = push (InObj [] []) KeyOrClose K"
  "step (Begin, K) CHR 0x22 = (InString False [], K)"
  by (simp_all add: step_def begin_value_def is_space_def)

lemma close_empty:
  "step (BeginOrClose, InArr [] # K) CHR '']'' = deliver (JArr []) K"
  "step (KeyOrClose, InObj [] k # K) CHR ''}'' = deliver (JObj []) K"
  by (simp_all add: step_def is_space_def)

lemma scans_words:
  "scans_value JNull d" "scans_value (JBool b) d"
proof -
  have no: "\<not> is_digit CHR ''n''" "\<not> is_digit CHR ''t''" "\<not> is_digit CHR ''f''" by code_simp+
  show "scans_value JNull d"
    by (simp add: scans_value_def ends_def step_def begin_value_def is_space_def no)
  show "scans_value (JBool b) d"
    by (cases b) (simp_all add: scans_value_def ends_def step_def begin_value_def is_space_def no)
qed

lemma json_scans: "json_ok d v \<Longrightarrow> scans_value v d"
proof (induction v arbitrary: d)
  case (JNum t)
  then have t: "number t" by simp
  show ?case unfolding scans_value_def
  proof (intro allI impI)
    fix K
    from scan_number [OF t] obtain n where "num_done n" "foldl step (Begin, K) t = (InNum n t, K)" by blast
    then show "ends (foldl step (Begin, K) (print_json (JNum t))) (JNum t) K" by (simp add: ends_def)
  qed
next
  case (JStr s)
  with scan_quote [of False _ s] show ?case
    by (simp add: scans_value_def ends_def quote_def begin_open end_string_def unquote_escape)
next
  case (JArr vs)
  then have d: "0 < d" and vs: "\<forall>v \<in> set vs. json_ok (d - 1) v" by (simp_all add: list_all_iff)
  with JArr.IH have sv: "\<forall>v \<in> set vs. scans_value v (d - 1)" by blast
  show ?case unfolding scans_value_def
  proof (intro allI impI)
    fix K :: "container list" assume K: "length K + d \<le> 10000"
    note opened = begin_open(1) [of K, unfolded push_ok [OF K d]]
    have "foldl step (Begin, K) (print_json (JArr vs)) = deliver (JArr vs) K"
    proof (cases vs)
      case Nil
      with opened show ?thesis by (simp add: close_empty)
    next
      case (Cons v ws)
      have "foldl step (BeginOrClose, InArr [] # K) (join_with '','' (map print_json vs) @ '']'') =
          foldl step (Begin, InArr [] # K) (join_with '','' (map print_json vs) @ '']'')"
        using begin_first [of "d - 1" v "InArr [] # K" "[]"] vs Cons
        by (cases "ws = []") (simp_all add: join_with_cons)
      with scan_elements [of vs "d - 1" K "[]"] sv K d Cons opened show ?thesis by simp
    qed
    then show "ends (foldl step (Begin, K) (print_json (JArr vs))) (JArr vs) K" by (simp add: ends_def)
  qed
next
  case (JObj kvs)
  then have d: "0 < d" and ok: "\<forall>(k, v) \<in> set kvs. valid_utf8 k \<and> json_ok (d - 1) v"
    by (auto simp: list_all_iff)
  with JObj.IH have sv: "\<forall>(k, v) \<in> set kvs. valid_utf8 k \<and> scans_value v (d - 1)" by fastforce
  show ?case unfolding scans_value_def
  proof (intro allI impI)
    fix K :: "container list" assume K: "length K + d \<le> 10000"
    note opened = begin_open(2) [of K, unfolded push_ok [OF K d]]
    have "foldl step (Begin, K) (print_json (JObj kvs)) = deliver (JObj kvs) K"
    proof (cases "kvs = []")
      case True
      with opened show ?thesis by (simp add: close_empty)
    next
      case False
      with scan_entries [of kvs "d - 1" K KeyOrClose "[]" "[]"] sv K d opened show ?thesis by simp
    qed
    then show "ends (foldl step (Begin, K) (print_json (JObj kvs))) (JObj kvs) K" by (simp add: ends_def)
  qed
qed (simp_all only: scans_words)

text \<open>A printed tree reads back.\<close>

theorem parse_print: "json_ok 10000 v \<Longrightarrow> parse_json (print_json v) = Some v"
  using json_scans [of 10000 v] by (simp add: parse_json_def scans_value_def ends_top)

lemma json_ok_mono: "json_ok d v \<Longrightarrow> d \<le> e \<Longrightarrow> json_ok e v"
proof (induction v arbitrary: d e)
  case (JArr vs)
  then show ?case by (auto simp: list_all_iff intro: JArr.IH [of _ "d - 1"])
next
  case (JObj kvs)
  have "json_ok (e - 1) v" if "(k, v) \<in> set kvs" for k v
    using JObj.IH [of "(k, v)" v "d - 1" "e - 1"] JObj.prems that by (auto simp: list_all_iff)
  with JObj.prems show ?case by (auto simp: list_all_iff)
qed simp_all


section \<open>Numbers in trees\<close>

text \<open>
  A finite \<open>float64\<close>: the shortest digits, with an exponent below \<open>1e-6\<close> and from \<open>1e21\<close> on, which has
  two digits at least unless it is negative and has one. NaN and infinities have no text.
\<close>

definition json_e :: "string \<Rightarrow> int \<Rightarrow> string" where
  "json_e ds e = (if -9 \<le> e \<and> e < 0
     then take 1 ds @ (if drop 1 ds = [] then [] else CHR ''.'' # drop 1 ds) @ ''e-'' @ format_nat \<bar>e\<bar>
     else layout_e ds e)"

definition json_finite :: "bool \<Rightarrow> int \<Rightarrow> int \<Rightarrow> string" where
  "json_finite s m e = with_sign s
     (if m = 0 then ''0''
      else let x = Fin False m e; n = m * pow2 e; d = pow2 (- e);
               (q, de) = shortest_from 17 1 x n d (dec_exp n d)
           in if x < lit 1 1000000 \<or> lit (10^21) 1 \<le> x then json_e (format_nat q) (de - 1)
              else layout_f (format_nat q) de)"

text \<open>The value, or the text of the library's error.\<close>

definition json_float :: "float64 \<Rightarrow> string + json" where
  "json_float x = (case x of Fin s m e \<Rightarrow> Inr (JNum (json_finite s m e))
     | _ \<Rightarrow> Inl (''json: unsupported value: '' @ format_v x))"

definition json_int :: "int \<Rightarrow> json" where
  "json_int i = JNum (format_int i)"

section \<open>Structs and maps\<close>

text \<open>The fields of a struct in their order; \<open>None\<close> is a field left out for \<open>omitempty\<close>. The first error ends.\<close>

fun marshal_fields :: "(string \<times> (string + json) option) list \<Rightarrow> string + (string \<times> json) list" where
  "marshal_fields [] = Inr []"
| "marshal_fields ((k, None) # fs) = marshal_fields fs"
| "marshal_fields ((k, Some (Inl e)) # fs) = Inl e"
| "marshal_fields ((k, Some (Inr v)) # fs) = (case marshal_fields fs of Inl e \<Rightarrow> Inl e | Inr kvs \<Rightarrow> Inr ((k, v) # kvs))"

definition marshal_struct :: "(string \<times> (string + json) option) list \<Rightarrow> string + json" where
  "marshal_struct fs = (case marshal_fields fs of Inl e \<Rightarrow> Inl e | Inr kvs \<Rightarrow> Inr (JObj kvs))"

text \<open>A map: its keys in order.\<close>

definition sorted_entries :: "(string, 'a) gomap \<Rightarrow> (string \<times> 'a) list" where
  "sorted_entries m = map (\<lambda>k. (k, the (mget m k))) (sort (map fst m))"

definition marshal_map :: "('a \<Rightarrow> string + json) \<Rightarrow> (string, 'a) gomap \<Rightarrow> string + json" where
  "marshal_map f m = marshal_struct (map (\<lambda>(k, v). (k, Some (f v))) (sorted_entries m))"

text \<open>The tag of a field with \<open>omitempty\<close>: left out when it is nil, or the empty string.\<close>

definition opt_float :: "float64 option \<Rightarrow> (string + json) option" where
  "opt_float x = map_option json_float x"

definition opt_string :: "string option \<Rightarrow> (string + json) option" where
  "opt_string x = map_option (Inr \<circ> JStr) x"

definition nonempty_string :: "string \<Rightarrow> (string + json) option" where
  "nonempty_string s = (if s = [] then None else Some (Inr (JStr s)))"

text \<open>\<open>json.Marshal\<close>.\<close>

definition marshal_text :: "string + json \<Rightarrow> string + string" where
  "marshal_text r = (case r of Inl e \<Rightarrow> Inl e | Inr v \<Rightarrow> Inr (print_json v))"

text \<open>The fields that are not left out.\<close>

definition kept_fields :: "(string \<times> (string + json) option) list \<Rightarrow> (string \<times> json) list" where
  "kept_fields fs = concat (map (\<lambda>(k, f). case f of Some (Inr v) \<Rightarrow> [(k, v)] | _ \<Rightarrow> []) fs)"

lemma kept_simps [simp]:
  "kept_fields [] = []" "kept_fields ((k, None) # fs) = kept_fields fs"
  "kept_fields ((k, Some (Inr v)) # fs) = (k, v) # kept_fields fs"
  by (simp_all add: kept_fields_def)

lemma marshal_fields_ok:
  "\<forall>(k, f) \<in> set fs. \<forall>e. f \<noteq> Some (Inl e) \<Longrightarrow> marshal_fields fs = Inr (kept_fields fs)"
  by (induction fs rule: marshal_fields.induct) auto

lemma marshal_fields_error:
  "(k, Some (Inl e)) \<in> set fs \<Longrightarrow> \<exists>k' e'. (k', Some (Inl e')) \<in> set fs \<and> marshal_fields fs = Inl e'"
  by (induction fs rule: marshal_fields.induct) (fastforce split: sum.split)+

lemma set_sorted_entries:
  assumes wf: "wf_map m" shows "set (sorted_entries m) = set m"
proof -
  have "(k, the (mget m k)) \<in> set m" if k: "k \<in> mkeys m" for k
  proof -
    from k obtain v where v: "mget m k = Some v" by (metis mget_None_iff not_Some_eq)
    then have "(k, v) \<in> set m" using wf_map_mget [OF wf] by blast
    with v show ?thesis by simp
  qed
  moreover have "v = the (mget m k) \<and> k \<in> mkeys m" if "(k, v) \<in> set m" for k v
    using that wf_map_mget [OF wf, of k v] by force
  ultimately show ?thesis by (force simp: sorted_entries_def)
qed

section \<open>Texts of numbers are numbers\<close>

lemma num_stays: "is_digit c \<Longrightarrow> n = NDigits \<or> n = NFrac \<or> n = NExpDigits \<Longrightarrow> num_next n c = Some n"
  by (auto simp: num_next_def)

lemma num_digits:
  "all_digits ds \<Longrightarrow> n = NDigits \<or> n = NFrac \<or> n = NExpDigits \<Longrightarrow> num_from n (ds @ s) = num_from n s"
  by (induction ds) (simp_all add: num_stays is_digit_def)

lemma not_digits: "\<not> is_digit CHR ''.''" "\<not> is_digit CHR ''e''" "\<not> is_digit CHR ''-''" "is_digit CHR ''0''"
  by code_simp+

lemma num_after_point:
  assumes "all_digits fp" "n = NZero \<or> n = NDigits"
  shows "num_from n ((if fp = [] then [] else CHR ''.'' # fp) @ s) = num_from (if fp = [] then n else NFrac) s"
proof (cases fp)
  case (Cons c r)
  with assms have c: "is_digit c" "all_digits r" by (simp_all add: is_digit_def)
  have "num_next n CHR ''.'' = Some NDot" using assms(2) not_digits by (auto simp: num_next_def)
  moreover have "num_next NDot c = Some NFrac" using c by (simp add: num_next_def)
  ultimately show ?thesis using Cons num_digits [OF c(2), of NFrac s] by simp
qed simp

text \<open>A whole part is \<open>0\<close>, or does not start with it.\<close>

definition whole :: "string \<Rightarrow> bool" where
  "whole ip \<longleftrightarrow> ip = ''0'' \<or> (\<exists>c r. ip = c # r \<and> is_digit c \<and> c \<noteq> CHR ''0'' \<and> all_digits r)"

lemma number_sign: "number t \<Longrightarrow> (\<exists>c r. t = c # r \<and> is_digit c) \<Longrightarrow> number (with_sign s t)"
proof -
  assume n: "number t" and "\<exists>c r. t = c # r \<and> is_digit c"
  then obtain c r where t: "t = c # r" "is_digit c" by blast
  have "c \<noteq> CHR ''-''" using t(2) by (auto simp: is_digit_def digit_val_def digit_table_def)
  then have "num_start c = num_next NNeg c" using t(2) by (simp add: num_start_def num_next_def)
  with n t show ?thesis
    by (cases s) (auto simp: with_sign_def number_def num_start_def split: option.splits)
qed

lemma number_pointed:
  assumes "whole ip" "all_digits fp" "n = (if fp = [] then (if ip = ''0'' then NZero else NDigits) else NFrac)"
    and "num_from n s = Some m" "num_done m"
  shows "number (pointed ip fp @ s)" "\<exists>c r. pointed ip fp @ s = c # r \<and> is_digit c"
proof -
  note z = not_digits(4)
  from assms(1) consider "ip = ''0''" | c r where "ip = c # r" "is_digit c" "c \<noteq> CHR ''0''" "all_digits r" "ip \<noteq> ''0''"
    unfolding whole_def by fastforce
  then show "number (pointed ip fp @ s)"
  proof cases
    case 1
    with assms num_after_point [OF assms(2), of NZero s] show ?thesis
      by (cases "fp = []") (simp_all add: number_def num_start_def pointed_def)
  next
    case 2
    then have "c \<noteq> CHR ''-''" by (auto simp: is_digit_def digit_val_def digit_table_def)
    with 2 assms num_after_point [OF assms(2), of NDigits s]
      num_digits [OF 2(4), of NDigits "(if fp = [] then [] else CHR ''.'' # fp) @ s"]
    show ?thesis by (cases "fp = []") (simp_all add: number_def num_start_def pointed_def)
  qed
  from assms(1) z show "\<exists>c r. pointed ip fp @ s = c # r \<and> is_digit c"
    by (auto simp: whole_def pointed_def)
qed


lemma whole_format: "whole (format_nat n)"
proof (cases "0 < n")
  case True
  with format_nat_head [OF True] all_digits_format [of n] show ?thesis
    by (fastforce simp: whole_def is_digit_def)
next
  case False
  then show ?thesis by (simp add: whole_def format_nat_def)
qed

lemma number_plain:
  assumes "whole ip" "all_digits fp" shows "number (pointed ip fp)" "\<exists>c r. pointed ip fp = c # r \<and> is_digit c"
proof -
  let ?n = "if fp = [] then (if ip = ''0'' then NZero else NDigits) else NFrac"
  have n: "num_from ?n [] = Some ?n" "num_done ?n" by (simp_all add: num_done_def)
  from number_pointed [OF assms refl n] show "number (pointed ip fp)" "\<exists>c r. pointed ip fp = c # r \<and> is_digit c"
    by simp_all
qed

lemma number_int: "number (format_int i)"
proof -
  have e: "pointed ip [] = ip" for ip by (simp add: pointed_def)
  note p = number_plain [OF whole_format, where fp = "[]", unfolded e, OF all_digits_simps(1)]
  from number_sign [OF p, where s = "i < 0"] show ?thesis
    by (cases "i < 0") (simp_all add: format_int_def with_sign_def)
qed

lemma number_exponent:
  assumes "all_digits es" "es \<noteq> []" "n \<in> {NZero, NDigits, NFrac}"
  shows "num_from n (''e'' @ (if neg then ''-'' else ''+'') @ es) = Some NExpDigits"
proof -
  from assms obtain c r where es: "es = c # r" "is_digit c" "all_digits r" by (cases es) (simp_all add: is_digit_def)
  have "num_next n CHR ''e'' = Some NExp" using assms(3) not_digits by (auto simp: num_next_def is_exp_def)
  with es num_digits [OF es(3), of NExpDigits "[]"] show ?thesis by (simp add: num_next_def)
qed

text \<open>Both layouts, of digits that do not start with a zero.\<close>

lemma number_layout_f:
  assumes "0 < q" shows "number (layout_f (format_nat q) de)" "\<exists>c r. layout_f (format_nat q) de = c # r \<and> is_digit c"
proof -
  let ?ds = "format_nat q"
  have d: "all_digits ?ds" by (rule all_digits_format)
  have zeros: "all_digits (replicate k CHR ''0'')" for k using not_digits(4) by (induction k) (simp_all add: is_digit_def)
  from format_nat_head [OF assms] obtain c r where ds: "?ds = c # r" "is_digit c" "c \<noteq> CHR ''0''"
    by (auto simp: is_digit_def)
  have r: "all_digits r" using d ds by simp
  have "\<exists>ip fp. layout_f ?ds de = pointed ip fp @ [] \<and> whole ip \<and> all_digits fp"
  proof -
    consider "de \<le> 0" | "0 < de" "int (length ?ds) \<le> de" | "0 < de" "de < int (length ?ds)" by linarith
    then show ?thesis
    proof cases
      case 1
      then show ?thesis using d zeros ds
        by (intro exI [of _ "''0''"] exI [of _ "replicate (nat (- de)) CHR ''0'' @ ?ds"])
           (simp add: layout_f_def pointed_def whole_def)
    next
      case 2
      then show ?thesis using ds r zeros
        by (intro exI [of _ "?ds @ replicate (nat de - length ?ds) CHR ''0''"] exI [of _ "[]"])
           (simp add: layout_f_def pointed_def whole_def)
    next
      case 3
      then obtain k where k: "nat de = Suc k" by (cases "nat de") simp_all
      have "all_digits (take k r)" "all_digits (drop k r)"
        using append_take_drop_id [of k r] r by (metis all_digits_simps(3))+
      then have "whole (take (nat de) ?ds)" "all_digits (drop (nat de) ?ds)" using ds k by (simp_all add: whole_def)
      moreover have "layout_f ?ds de = pointed (take (nat de) ?ds) (drop (nat de) ?ds) @ []"
        using 3 by (simp add: layout_f_def pointed_def)
      ultimately show ?thesis by blast
    qed
  qed
  then obtain ip fp where t: "layout_f ?ds de = pointed ip fp @ []" "whole ip" "all_digits fp" by blast
  show "number (layout_f ?ds de)" "\<exists>c r. layout_f ?ds de = c # r \<and> is_digit c"
    unfolding t(1) append_Nil2 by (rule number_plain [OF t(2, 3)])+
qed

lemma number_e:
  assumes "0 < q" "all_digits es" "es \<noteq> []"
    and t_eq: "t = take 1 (format_nat q) @ (if drop 1 (format_nat q) = [] then [] else CHR ''.'' # drop 1 (format_nat q)) @
    ''e'' @ (if neg then ''-'' else ''+'') @ es"
  shows "number t" "\<exists>c r. t = c # r \<and> is_digit c"
proof -
  from format_nat_head [OF assms(1)] all_digits_format [of q] obtain c r
    where ds: "format_nat q = c # r" "is_digit c" "c \<noteq> CHR ''0''" "all_digits r" by (auto simp: is_digit_def)
  have t: "t = pointed [c] r @ ''e'' @ (if neg then ''-'' else ''+'') @ es" using ds by (simp add: t_eq pointed_def)
  have w: "whole [c]" using ds by (simp add: whole_def)
  let ?n = "if r = [] then (if [c] = ''0'' then NZero else NDigits) else NFrac"
  have "num_from ?n (''e'' @ (if neg then ''-'' else ''+'') @ es) = Some NExpDigits"
    by (rule number_exponent [OF assms(2, 3)]) simp
  from number_pointed [OF w ds(4) refl this] show "number t" "\<exists>c r. t = c # r \<and> is_digit c"
    unfolding t by (simp_all add: num_done_def)
qed


lemma number_json_e:
  assumes "0 < q" shows "number (json_e (format_nat q) e)" "\<exists>c r. json_e (format_nat q) e = c # r \<and> is_digit c"
proof -
  have "all_digits (pad_left 2 (format_nat \<bar>e\<bar>))" "pad_left 2 (format_nat \<bar>e\<bar>) \<noteq> []"
    using pad_left_digits [OF format_nat_parse [of "\<bar>e\<bar>"]] format_nat_ne by simp_all
  note l = number_e [OF assms this, of _ "e < 0"]
  note s = number_e [OF assms all_digits_format format_nat_ne, of _ True "\<bar>e\<bar>"]
  show "number (json_e (format_nat q) e)" "\<exists>c r. json_e (format_nat q) e = c # r \<and> is_digit c"
    using s l by (auto simp: json_e_def layout_e_def)
qed

text \<open>A short negative exponent reads like a long one.\<close>

lemma parse_json_e:
  assumes "0 < q" "dec_to_float False q (de - int (length (format_nat q))) 0 = Fin False m e" "\<bar>de\<bar> < 1000"
  shows "ParseFloat (with_sign s (json_e (format_nat q) (de - 1))) = (Fin s m e, None)"
proof (cases "-9 \<le> de - 1 \<and> de - 1 < 0")
  case False
  then have "json_e (format_nat q) (de - 1) = layout_e (format_nat q) (de - 1)" unfolding json_e_def by (rule if_not_P)
  with parse_layouts(1) [OF assms, of s] show ?thesis by simp
next
  case True
  let ?ds = "format_nat q" and ?e = "de - 1"
  have p: "parse_digits (take 1 ?ds @ drop 1 ?ds) 0 = Some q" using assms(1) by (simp add: format_nat_parse)
  have es: "parse_digits (format_nat \<bar>?e\<bar>) 0 = Some \<bar>?e\<bar>" by (simp add: format_nat_parse)
  have t: "json_e ?ds ?e = pointed (take 1 ?ds) (drop 1 ?ds) @ ''e'' @ (if ?e < 0 then ''-'' else ''+'') @ format_nat \<bar>?e\<bar>"
    using True by (simp add: json_e_def pointed_def)
  have ne: "take 1 ?ds \<noteq> []" using format_nat_ne by simp
  have n: "number_text (json_e ?ds ?e)" unfolding t
    using digits_number [OF all_digits_format [of "\<bar>?e\<bar>"]] all_digits_format [of q] ne
    by (intro number_text_pointed) (simp_all add: number_char_def)
  have len: "int (length (drop 1 ?ds)) = int (length ?ds) - 1" using format_nat_ne [of q] by (cases ?ds) simp_all
  have eq: "?e - int (length (drop 1 ?ds)) = de - int (length ?ds)" unfolding len by simp
  from read_pointed_exp [OF p ne t n format_nat_ne es, of s, unfolded eq] assms(3)
  have "read_float (with_sign s (json_e ?ds ?e)) = Some (s, q, de - int (length ?ds), 0)" by simp
  from parse_decimal [OF this n assms(1, 1) refl assms(2)] show ?thesis .
qed

text \<open>A finite value has a text that is a number, and the number is the value.\<close>

lemma json_finite:
  assumes "canonical (Fin s m e)"
  shows "number (json_finite s m e)" "ParseFloat (json_finite s m e) = (Fin s m e, None)"
proof -
  have "number (json_finite s m e) \<and> ParseFloat (json_finite s m e) = (Fin s m e, None)"
  proof (cases "m = 0")
    case True
    have "ParseFloat ''-0'' = (Fin True 0 (-1074), None)" "ParseFloat ''0'' = (Fin False 0 (-1074), None)"
      "number ''0''" "number ''-0''" by code_simp+
    with True assms show ?thesis by (auto simp: json_finite_def with_sign_def canonical_def)
  next
    case False
    with assms have m: "canonical (Fin False m e)" "0 < m" by (auto simp: canonical_def)
    obtain q de where q: "shortest_from 17 1 (Fin False m e) (m * pow2 e) (pow2 (- e))
        (dec_exp (m * pow2 e) (pow2 (- e))) = (q, de)" by fastforce
    note d = shortest_digits [OF m q]
    have "json_finite s m e = with_sign s (json_e (format_nat q) (de - 1)) \<or>
        json_finite s m e = with_sign s (layout_f (format_nat q) de)"
      using False q by (simp add: json_finite_def Let_def)
    then show ?thesis
      using number_sign [OF number_json_e [OF d(1)]] number_sign [OF number_layout_f [OF d(1)]]
        parse_json_e [OF d] parse_layouts(2) [OF d] by auto
  qed
  then show "number (json_finite s m e)" "ParseFloat (json_finite s m e) = (Fin s m e, None)" by simp_all
qed

section \<open>Texts of numbers are ASCII\<close>

definition ascii :: "string \<Rightarrow> bool" where
  "ascii s \<longleftrightarrow> list_all (\<lambda>c. byte c < 0x80) s"

lemma ascii_simps [simp]:
  "ascii []" "ascii (c # s) \<longleftrightarrow> byte c < 0x80 \<and> ascii s" "ascii (s @ t) \<longleftrightarrow> ascii s \<and> ascii t"
  "byte c < 0x80 \<Longrightarrow> ascii (replicate n c)"
  by (auto simp: ascii_def list_all_iff)

lemma ascii_take: "ascii s \<Longrightarrow> ascii (take n s)" "ascii s \<Longrightarrow> ascii (drop n s)"
  by (auto simp: ascii_def list_all_iff dest: in_set_takeD in_set_dropD)

lemma ascii_utf8: "ascii s \<Longrightarrow> valid_utf8 s"
proof (induction s)
  case Nil
  then show ?case by (simp add: valid_utf8.simps [of "[]"])
next
  case (Cons c s)
  then show ?case using rune_len_1 [of c s] by (subst valid_utf8.simps) simp
qed

lemma ascii_format_nat: "ascii (format_nat n)"
proof -
  have "\<forall>c \<in> set ''0123456789''. byte c < 0x80" by simp
  with format_nat_digits [of n] show ?thesis unfolding ascii_def list_all_iff by blast
qed

lemma ascii_pad: "ascii s \<Longrightarrow> ascii (pad_left n s)"
  by (simp add: pad_left_def)

lemma ascii_format_v: "ascii (format_v x)"
proof -
  have e: "ascii (layout_e ds k)" if "ascii ds" for ds k
    using that by (simp add: layout_e_def ascii_take ascii_pad ascii_format_nat)
  have f: "ascii (layout_f ds k)" if "ascii ds" for ds k
    using that by (simp add: layout_f_def ascii_take)
  show ?thesis
    by (cases x) (simp_all add: format_v_def Let_def layout_def e f ascii_format_nat split: prod.split)
qed

lemmas format_v_utf8 = ascii_utf8 [OF ascii_format_v]

section \<open>Encoding structs and maps\<close>

lemma struct_ok:
  "\<forall>(k, f) \<in> set fs. \<forall>e. f \<noteq> Some (Inl e) \<Longrightarrow> marshal_struct fs = Inr (JObj (kept_fields fs))"
  by (simp add: marshal_struct_def marshal_fields_ok)

lemma map_ok:
  "\<forall>(k, x) \<in> set (sorted_entries m). f x = Inr (g x) \<Longrightarrow>
     marshal_map f m = Inr (JObj (map (\<lambda>(k, x). (k, g x)) (sorted_entries m)))"
proof -
  have "\<forall>(k, x) \<in> set kvs. f x = Inr (g x) \<Longrightarrow>
      marshal_fields (map (\<lambda>(k, v). (k, Some (f v))) kvs) = Inr (map (\<lambda>(k, x). (k, g x)) kvs)" for kvs
    by (induction kvs) auto
  then show "\<forall>(k, x) \<in> set (sorted_entries m). f x = Inr (g x) \<Longrightarrow> ?thesis"
    by (simp add: marshal_map_def marshal_struct_def)
qed

lemma map_error:
  assumes "wf_map m" "(k, x) \<in> set m" "f x = Inl e"
  shows "\<exists>(k, x) \<in> set m. \<exists>e. f x = Inl e \<and> marshal_map f m = Inl e"
proof -
  have "(k, Some (Inl e)) \<in> set (map (\<lambda>(k, v). (k, Some (f v))) (sorted_entries m))"
    using assms by (force simp: set_sorted_entries)
  from marshal_fields_error [OF this] obtain k' e' where e':
    "(k', Some (Inl e')) \<in> set (map (\<lambda>(k, v). (k, Some (f v))) (sorted_entries m))"
    "marshal_fields (map (\<lambda>(k, v). (k, Some (f v))) (sorted_entries m)) = Inl e'" by blast
  then obtain y where y: "(k', y) \<in> set m" "f y = Inl e'"
    using set_sorted_entries [OF assms(1)] by force
  have "marshal_map f m = Inl e'" by (simp add: marshal_map_def marshal_struct_def e'(2))
  with y show ?thesis by blast
qed

lemma sorted_entries_keys: "map fst (sorted_entries m) = sort (map fst m)"
  by (simp add: sorted_entries_def comp_def)

lemma json_float_finite: "canonical x \<Longrightarrow> \<exists>t. json_float x = Inr (JNum t) \<and> number t \<and> ParseFloat t = (x, None)"
  by (cases x) (use json_finite in \<open>auto simp: json_float_def canonical_def\<close>)

lemma opt_float_finite:
  "canonical x \<Longrightarrow> \<exists>t. opt_float (Some x) = Some (Inr (JNum t)) \<and> number t \<and> ParseFloat t = (x, None)"
  using json_float_finite by (auto simp: opt_float_def)

lemma json_float_error:
  "json_float x = Inl e \<Longrightarrow> e \<in> {''json: unsupported value: NaN'', ''json: unsupported value: +Inf'',
     ''json: unsupported value: -Inf''}"
  by (cases x) (auto simp: json_float_def format_v_def)

lemma kept_field: "(k, v) \<in> set (kept_fields fs) \<Longrightarrow> (k, Some (Inr v)) \<in> set fs"
  by (induction fs) (auto simp: kept_fields_def split: option.splits sum.splits)

end
