(* ===== verification/Exporter_Http.thy ===== *)
theory Exporter_Http
  imports Exporter Go_Json
begin

text \<open>
  What the exporter tells the outside, to the last digit. The prices travel as decimal texts: the cloud
  prints them, the emitter reads them back for its gauges (\<open>pkg/cost-exporter/store/prometheus/prom_emitter.go\<close>)
  and the handlers of \<open>pkg/cost-exporter/server.go\<close> put them in JSON. The JSON is that of the structs of
  \<open>pkg/cloud/provider.go\<close>, with the names and the \<open>omitempty\<close> of their tags.
\<close>

section \<open>The JSON of costs and prices\<close>

abbreviation text_field :: "string \<Rightarrow> (string + json) option" where
  "text_field s \<equiv> Some (Inr (JStr s))"

definition price_fields :: "BaseInstancePrice \<Rightarrow> (string \<times> (string + json) option) list" where
  "price_fields p = [(''discountedHourlyCost'', text_field (DiscountedCost p)),
     (''hourlyCost'', text_field (Cost p)), (''cpu'', text_field (PCpu p)),
     (''cpuHourlyCost'', text_field (CpuHourlyCost p)), (''ram'', text_field (Ram p)),
     (''ramBytes'', text_field (RamBytes p)), (''ramGBHourlyCost'', text_field (RamGBHourlyCost p)),
     (''usesDefaultPrice'', Some (Inr (JBool (UsesDefaultPrice p)))),
     (''defaultCpuPrice'', text_field (DefaultCpuPrice p)),
     (''defaultRamPrice'', text_field (DefaultRamPrice p)), (''usageType'', text_field (UsageType p)),
     (''instanceType'', nonempty_string (BaseInstancePrice.InstanceType p)),
     (''region'', nonempty_string (PRegion p)), (''providerID'', nonempty_string (BaseInstancePrice.ProviderID p))]"

definition price_json :: "BaseInstancePrice \<Rightarrow> string + json" where
  "price_json p = marshal_struct (price_fields p)"

definition item_fields :: "PriceItem \<Rightarrow> (string \<times> (string + json) option) list" where
  "item_fields i = [(''unitPrice'', opt_float (UnitPrice i)),
     (''chargeUnit'', opt_string (ChargeUnit i)), (''originalPrice'', opt_float (OriginalPrice i)),
     (''discountPrice'', opt_float (PriceItem.DiscountPrice i)), (''discount'', opt_float (PDiscount i)),
     (''unitPriceDiscount'', opt_float (UnitPriceDiscount i)),
     (''unitPriceSecondStep'', opt_float (UnitPriceSecondStep i)),
     (''unitPriceDiscountSecondStep'', opt_float (UnitPriceDiscountSecondStep i)),
     (''unitPriceThirdStep'', opt_float (UnitPriceThirdStep i)),
     (''unitPriceDiscountThirdStep'', opt_float (UnitPriceDiscountThirdStep i)),
     (''originalPriceThreeYear'', opt_float (OriginalPriceThreeYear i)),
     (''discountPriceThreeYear'', opt_float (DiscountPriceThreeYear i)),
     (''discountThreeYear'', opt_float (DiscountThreeYear i)),
     (''originalPriceFiveYear'', opt_float (OriginalPriceFiveYear i)),
     (''discountPriceFiveYear'', opt_float (DiscountPriceFiveYear i)),
     (''discountFiveYear'', opt_float (DiscountFiveYear i)),
     (''originalPriceOneYear'', opt_float (OriginalPriceOneYear i)),
     (''discountPriceOneYear'', opt_float (DiscountPriceOneYear i)),
     (''discountOneYear'', opt_float (DiscountOneYear i))]"

definition item_json :: "PriceItem \<Rightarrow> string + json" where
  "item_json i = marshal_struct (item_fields i)"

definition pricing_fields :: "Price \<Rightarrow> (string \<times> (string + json) option) list" where
  "pricing_fields p = [(''instanceType'', text_field (PriceInstanceType p)),
     (''chargeType'', text_field (PriceChargeType p)), (''memory'', text_field (PriceMemory p)),
     (''vcpu'', text_field (VCpu p)), (''cvmPrice'', Some (item_json (CvmPrice p)))]"

definition pricing_json :: "Price \<Rightarrow> string + json" where
  "pricing_json p = marshal_struct (pricing_fields p)"

text \<open>The two handlers over a cloud; the text of an error of the cloud is a parameter.\<close>

definition nodes_cost :: "(cloud_failure model_error \<Rightarrow> string) \<Rightarrow> cloud_model \<Rightarrow> response" where
  "nodes_cost err = NodesCostHandler err (\<lambda>costs. marshal_text (marshal_map price_json costs))"

definition nodes_pricing :: "(cloud_failure model_error \<Rightarrow> string) \<Rightarrow> cloud_model \<Rightarrow> response" where
  "nodes_pricing err = NodesPriceHandler err (\<lambda>prices. marshal_text (marshal_map pricing_json prices))"

section \<open>The gauges are the prices\<close>

lemma parse_or_format: "canonical x \<Longrightarrow> parse_or d (format_v x) = x"
  by (cases x) (simp_all add: parse_or_def finite_or_def parse_format_v proper_def canonical_def)

lemma finite_or_canonical: "canonical x \<Longrightarrow> finite_or d x = x"
  by (cases x) (simp_all add: finite_or_def canonical_def)

text \<open>A capacity is an \<open>int64\<close>, so its number of bytes or of gigabytes is finite.\<close>

lemma over_GB: "canonical x \<Longrightarrow> canonical (x / GB)"
  by (simp add: GB_value div_finite)

definition int64_capacity :: "'q quantity_ops \<Rightarrow> 'q node \<Rightarrow> bool" where
  "int64_capacity ops n \<longleftrightarrow> (\<forall>r \<in> {''cpu'', ''memory''}. \<bar>QValue ops (res ops (NodeCapacity n) r)\<bar> \<le> 2^63)"

lemma config_costs:
  assumes "canonical (CpuHourlyPrice cfg)" "canonical (RamGBHourlyPrice cfg)" "int64_capacity ops n"
  shows "cpu_cost cfg (config_price ops cfg rg n) = CpuHourlyPrice cfg"
    "ram_cost cfg (config_price ops cfg rg n) = RamGBHourlyPrice cfg"
    "total_cost cfg (config_price ops cfg rg n) = capacity_value ops n ''cpu'' * CpuHourlyPrice cfg +
       RamGBHourlyPrice cfg * (capacity_value ops n ''memory'' / GB)"
proof -
  from assms(3) have "canonical (capacity_value ops n ''cpu'')" "canonical (capacity_value ops n ''memory'' / GB)"
    by (simp_all add: int64_capacity_def capacity_value_def int_finite over_GB)
  with assms show "cpu_cost cfg (config_price ops cfg rg n) = CpuHourlyPrice cfg"
    "ram_cost cfg (config_price ops cfg rg n) = RamGBHourlyPrice cfg"
    "total_cost cfg (config_price ops cfg rg n) = capacity_value ops n ''cpu'' * CpuHourlyPrice cfg +
       RamGBHourlyPrice cfg * (capacity_value ops n ''memory'' / GB)"
    by (simp_all add: total_cost_def cpu_cost_def ram_cost_def config_price_def Let_def parse_or_format)
qed

context costed_cloud begin

text \<open>All three gauges of a node that has a price.\<close>

lemma node_shown:
  assumes "emitter_reach e" "distinct (map NodeName nodes)" "CloudNodesCost (model nodes) = Inr costs"
    and comma: "\<forall>n \<in> set nodes. \<forall>p. priced n p \<longrightarrow> no_comma (NodeName n, p)"
    and n: "n \<in> set nodes" "priced n p"
  shows "mget (CpuGauge (emit_round config costs e)) (node_labels (NodeName n) p) = Some (cpu_cost config p)"
    "mget (RamGauge (emit_round config costs e)) (node_labels (NodeName n) p) = Some (ram_cost config p)"
    "mget (TotalGauge (emit_round config costs e)) (node_labels (NodeName n) p) = Some (total_cost config p)"
proof -
  note wf = wf_costs [OF assms(3)] and iff = costs_iff [OF assms(2, 3)]
  have "no_comma np" if "np \<in> set costs" for np
  proof (cases np)
    case (Pair name q)
    with that have "mget costs name = Some q" using wf_map_mget [OF wf] by simp
    with iff comma Pair show ?thesis by auto
  qed
  then have c: "\<forall>np \<in> set costs. no_comma np" by blast
  have "mget costs (NodeName n) = Some p" using iff n by blast
  then have np: "(NodeName n, p) \<in> set costs" using wf_map_mget [OF wf] by blast
  have v: "map_of (map (\<lambda>np. (labels_of np, v (snd np))) costs) (node_labels (NodeName n) p) = Some (v p)" for v
  proof (rule map_of_is_SomeI)
    show "distinct (map fst (map (\<lambda>np. (labels_of np, v (snd np))) costs))"
      using labels_distinct [OF wf] by (simp add: comp_def)
    show "(node_labels (NodeName n) p, v p) \<in> set (map (\<lambda>np. (labels_of np, v (snd np))) costs)"
      using np by (auto simp: labels_of_def intro!: image_eqI [where x = "(NodeName n, p)"])
  qed
  note g = round_gauges [OF emitter_reach_inv [OF assms(1)] wf c, of config]
  show "mget (CpuGauge (emit_round config costs e)) (node_labels (NodeName n) p) = Some (cpu_cost config p)"
    "mget (RamGauge (emit_round config costs e)) (node_labels (NodeName n) p) = Some (ram_cost config p)"
    "mget (TotalGauge (emit_round config costs e)) (node_labels (NodeName n) p) = Some (total_cost config p)"
    by (simp_all only: g v)
qed

end

text \<open>The labels of a node under the default cloud.\<close>

definition default_labels :: "CustomPricing \<Rightarrow> 'q node \<Rightarrow> string list" where
  "default_labels cfg n =
     [NodeName n, NodeName n, fst (GetInstanceType (NodeLabels n)), CRegion cfg, NodeProviderID n]"

lemma default_labels: "node_labels (NodeName n) (config_price ops cfg (CRegion cfg) n) = default_labels cfg n"
  by (simp add: default_labels_def node_labels_def config_price_def Let_def)

text \<open>
  C3. The configured prices reach the gauges unchanged. Every price goes from a float64 to a text and back,
  and nothing is lost on the way: after a turn over the default cloud the gauges of every node show
  the configured price of a core and of a gigabyte, bit by bit, and the total that these prices and the node's
  capacity give. This is for finite prices, capacities that are int64, and labels without a comma.
\<close>

theorem gauges_exact:
  assumes "emitter_reach e" "distinct (map NodeName nodes)" "n \<in> set nodes"
    and "\<forall>m \<in> set nodes. \<forall>l \<in> set (default_labels cfg m). CHR '','' \<notin> set l"
    and "canonical (CpuHourlyPrice cfg)" "canonical (RamGBHourlyPrice cfg)" "int64_capacity ops n"
  shows "\<exists>e'. export_turn (default_cloud ops (Some cfg) nodes pods) e = (Select, e') \<and>
    mget (CpuGauge e') (default_labels cfg n) = Some (CpuHourlyPrice cfg) \<and>
    mget (RamGauge e') (default_labels cfg n) = Some (RamGBHourlyPrice cfg) \<and>
    mget (TotalGauge e') (default_labels cfg n) = Some (capacity_value ops n ''cpu'' * CpuHourlyPrice cfg +
      RamGBHourlyPrice cfg * (capacity_value ops n ''memory'' / GB))"
proof -
  obtain costs where "default_GetNodesCost ops (Some cfg) nodes = Inr costs" using default_nodes_cost by blast
  then have c: "CloudNodesCost (default_cloud ops (Some cfg) nodes pods) = Inr costs" by (simp add: default_cloud_def)
  have comma: "\<forall>n \<in> set nodes. \<forall>p. p = config_price ops cfg (CRegion cfg) n \<longrightarrow> no_comma (NodeName n, p)"
    using assms(4) by (simp add: no_comma_def default_labels)
  from default_exported.turn_select [OF c, of e]
    default_exported.node_shown [OF assms(1, 2) c comma assms(3) refl, unfolded default_labels]
  show ?thesis by (simp add: config_costs [OF assms(5, 6, 7)])
qed

text \<open>The node of the emitter's example.\<close>

lemma exported_capacity: "int64_capacity nat_ops exported_node"
  by (simp add: int64_capacity_def exported_node_def example_node_def) code_simp

theorem gauges_exact_witness:
  "\<exists>e'. export_turn (default_cloud nat_ops (Some exported_cfg) [exported_node] []) NewCostMetricEmitter = (Select, e') \<and>
    mget (CpuGauge e') shown_labels = Some (CpuHourlyPrice exported_cfg)"
proof -
  have l: "default_labels exported_cfg exported_node = shown_labels"
    by (simp flip: default_labels [where ops = nat_ops]) (simp add: exported_facts shown_labels)
  have "distinct (map NodeName [exported_node])" "exported_node \<in> set [exported_node]"
    "\<forall>m \<in> set [exported_node]. \<forall>l \<in> set (default_labels exported_cfg m). CHR '','' \<notin> set l"
    by (simp_all add: l shown_labels_def)
  moreover have "canonical (CpuHourlyPrice exported_cfg)" "canonical (RamGBHourlyPrice exported_cfg)" by code_simp+
  ultimately show ?thesis
    using gauges_exact [OF emitter_reach.new, where ops = nat_ops and pods = "[]"] exported_capacity l by fastforce
qed

section \<open>What the handlers answer\<close>

text \<open>The value of a price, and the texts in it.\<close>

definition price_tree :: "BaseInstancePrice \<Rightarrow> json" where
  "price_tree p = JObj (kept_fields (price_fields p))"

definition price_texts :: "BaseInstancePrice \<Rightarrow> string list" where
  "price_texts p = [DiscountedCost p, Cost p, PCpu p, CpuHourlyCost p, Ram p, RamBytes p, RamGBHourlyCost p,
     DefaultCpuPrice p, DefaultRamPrice p, UsageType p, BaseInstancePrice.InstanceType p, PRegion p,
     BaseInstancePrice.ProviderID p]"

lemma price_json_ok: "price_json p = Inr (price_tree p)"
  unfolding price_json_def price_tree_def
  by (rule struct_ok) (simp add: price_fields_def nonempty_string_def)

lemma price_tree_ok: "\<forall>t \<in> set (price_texts p). valid_utf8 t \<Longrightarrow> json_ok (Suc d) (price_tree p)"
  by (simp add: price_tree_def price_fields_def nonempty_string_def price_texts_def ascii_utf8)

lemma cost_body:
  assumes "CloudNodesCost m = Inr costs" "wf_map costs"
    and "\<forall>(k, p) \<in> set costs. valid_utf8 k \<and> (\<forall>t \<in> set (price_texts p). valid_utf8 t)"
  shows "StatusCode (nodes_cost err m) = 200 \<and> parse_json (ResponseBody (nodes_cost err m)) =
    Some (JObj (map (\<lambda>(k, p). (k, price_tree p)) (sorted_entries costs)))"
proof -
  let ?v = "JObj (map (\<lambda>(k, p). (k, price_tree p)) (sorted_entries costs))"
  have "marshal_map price_json costs = Inr ?v"
    by (rule map_ok) (simp add: price_json_ok)
  then have r: "nodes_cost err m = \<lparr>StatusCode = 200, ResponseBody = print_json ?v\<rparr>"
    by (simp add: nodes_cost_def NodesCostHandler_def answer_json_def model_GetNodesCost_def passed_def
        assms(1) marshal_text_def)
  have "json_ok (Suc 1) (price_tree p)" if "(k, p) \<in> set costs" for k p
    using assms(3) that by (intro price_tree_ok) blast
  with assms(3) have "json_ok 10000 ?v"
    by (intro json_ok_mono [where d = "3" and e = 10000])
      (auto simp: list_all_iff set_sorted_entries [OF assms(2)] numeral_2_eq_2)
  from parse_print [OF this] show ?thesis by (simp only: r response.select_convs simp_thms)
qed

text \<open>A field of an object holds a text that reads as a number.\<close>

definition reads :: "json \<Rightarrow> string \<Rightarrow> float64 \<Rightarrow> bool" where
  "reads v k x = (case v of JObj kvs \<Rightarrow> (case map_of kvs k of
      Some (JStr s) \<Rightarrow> ParseFloat s = (x, None) | _ \<Rightarrow> False) | _ \<Rightarrow> False)"

lemma config_price_reads:
  assumes "proper (CpuHourlyPrice cfg)" "proper (RamGBHourlyPrice cfg)"
  shows "reads (price_tree (config_price ops cfg rg n)) ''cpuHourlyCost'' (CpuHourlyPrice cfg)"
    "reads (price_tree (config_price ops cfg rg n)) ''ramGBHourlyCost'' (RamGBHourlyPrice cfg)"
    "reads (price_tree (config_price ops cfg rg n)) ''cpu'' (capacity_value ops n ''cpu'')"
    "reads (price_tree (config_price ops cfg rg n)) ''ramBytes'' (capacity_value ops n ''memory'')"
    "reads (price_tree (config_price ops cfg rg n)) ''hourlyCost''
       (CpuHourlyPrice cfg * capacity_value ops n ''cpu'' +
        RamGBHourlyPrice cfg * capacity_value ops n ''memory'' / GB)"
proof -
  have "proper GB" by (simp add: GB_def int_proper)
  with assms show "reads (price_tree (config_price ops cfg rg n)) ''cpuHourlyCost'' (CpuHourlyPrice cfg)"
    "reads (price_tree (config_price ops cfg rg n)) ''ramGBHourlyCost'' (RamGBHourlyPrice cfg)"
    "reads (price_tree (config_price ops cfg rg n)) ''cpu'' (capacity_value ops n ''cpu'')"
    "reads (price_tree (config_price ops cfg rg n)) ''ramBytes'' (capacity_value ops n ''memory'')"
    "reads (price_tree (config_price ops cfg rg n)) ''hourlyCost''
       (CpuHourlyPrice cfg * capacity_value ops n ''cpu'' +
        RamGBHourlyPrice cfg * capacity_value ops n ''memory'' / GB)"
    by (simp_all add: reads_def price_tree_def price_fields_def config_price_def Let_def capacity_value_def
        parse_format_v proper_intros)
qed

lemma default_costs:
  assumes "distinct (map NodeName nodes)" "default_GetNodesCost ops (Some cfg) nodes = Inr costs"
  shows "wf_map costs" "(k, p) \<in> set costs \<longleftrightarrow>
      (\<exists>n \<in> set nodes. NodeName n = k \<and> p = config_price ops cfg (CRegion cfg) n)"
    "sort (map fst costs) = sort (map NodeName nodes)"
proof -
  have c: "CloudNodesCost (default_cloud ops (Some cfg) nodes pods) = Inr costs" for pods
    using assms(2) by (simp add: default_cloud_def)
  show wf: "wf_map costs" by (rule default_exported.wf_costs [OF c])
  show mem: "(k, p) \<in> set costs \<longleftrightarrow>
      (\<exists>n \<in> set nodes. NodeName n = k \<and> p = config_price ops cfg (CRegion cfg) n)" for k p
    using default_exported.costs_iff [OF assms(1) c, of k p] wf_map_mget [OF wf, of k p] by simp
  have "set (map fst costs) = set (map NodeName nodes)" using mem by force
  with wf assms(1) show "sort (map fst costs) = sort (map NodeName nodes)"
    by (intro sorted_distinct_set_unique) (simp_all add: wf_map_def)
qed

lemma config_price_texts:
  assumes "valid_utf8 (NodeProviderID n)" "valid_utf8 rg" "valid_utf8 (fst (GetInstanceType (NodeLabels n)))"
  shows "\<forall>t \<in> set (price_texts (config_price ops cfg rg n)). valid_utf8 t"
  using assms by (simp add: price_texts_def config_price_def Let_def empty_price_def format_v_utf8 ascii_utf8)

text \<open>
  C4. What /nodes/cost says. The handler answers 200 with a JSON object that has the nodes' names for keys, each
  once and in order. The object of a node says, as texts that read back without loss, the configured
  prices, the node's capacity, and the cost that they come to. This is over the default cloud, for distinct
  names; when the model gives an error the handler answers 500 with the text of the error.
\<close>

theorem nodes_cost_served:
  assumes "distinct (map NodeName nodes)" "proper (CpuHourlyPrice cfg)" "proper (RamGBHourlyPrice cfg)"
    and "valid_utf8 (CRegion cfg)"
    and "\<forall>n \<in> set nodes. valid_utf8 (NodeName n) \<and> valid_utf8 (NodeProviderID n) \<and>
      valid_utf8 (fst (GetInstanceType (NodeLabels n)))"
  shows "(\<exists>kvs. StatusCode (nodes_cost err (default_cloud ops (Some cfg) nodes pods)) = 200 \<and>
      parse_json (ResponseBody (nodes_cost err (default_cloud ops (Some cfg) nodes pods))) = Some (JObj kvs) \<and>
      map fst kvs = sort (map NodeName nodes) \<and>
      (\<forall>n \<in> set nodes. \<exists>v. map_of kvs (NodeName n) = Some v \<and>
        reads v ''cpuHourlyCost'' (CpuHourlyPrice cfg) \<and> reads v ''ramGBHourlyCost'' (RamGBHourlyPrice cfg) \<and>
        reads v ''cpu'' (capacity_value ops n ''cpu'') \<and> reads v ''ramBytes'' (capacity_value ops n ''memory'') \<and>
        reads v ''hourlyCost'' (CpuHourlyPrice cfg * capacity_value ops n ''cpu'' +
          RamGBHourlyPrice cfg * capacity_value ops n ''memory'' / GB))) \<and>
    (CloudNodesCost m = Inl x \<longrightarrow> nodes_cost err m = \<lparr>StatusCode = 500, ResponseBody = err (ProviderError x)\<rparr>)"
proof -
  let ?m = "default_cloud ops (Some cfg) nodes pods"
  obtain costs where d: "default_GetNodesCost ops (Some cfg) nodes = Inr costs" using default_nodes_cost by blast
  note wf = default_costs(1) [OF assms(1) d] and mem = default_costs(2) [OF assms(1) d]
  define kvs where "kvs = map (\<lambda>(k, p). (k, price_tree p)) (sorted_entries costs)"
  have c: "CloudNodesCost ?m = Inr costs" using d by (simp add: default_cloud_def)
  have "\<forall>(k, p) \<in> set costs. valid_utf8 k \<and> (\<forall>t \<in> set (price_texts p). valid_utf8 t)"
  proof clarify
    fix k p assume "(k, p) \<in> set costs"
    then obtain n where n: "n \<in> set nodes" "NodeName n = k" "p = config_price ops cfg (CRegion cfg) n"
      using mem by blast
    from assms(5) n(1) have "valid_utf8 (NodeName n)" "valid_utf8 (NodeProviderID n)"
      "valid_utf8 (fst (GetInstanceType (NodeLabels n)))" by blast+
    with config_price_texts [OF this(2) assms(4) this(3)] n(2, 3)
    show "valid_utf8 k \<and> (\<forall>t \<in> set (price_texts p). valid_utf8 t)" by blast
  qed
  from cost_body [OF c wf this, of err] have body: "StatusCode (nodes_cost err ?m) = 200"
    "parse_json (ResponseBody (nodes_cost err ?m)) = Some (JObj kvs)" by (simp_all add: kvs_def)
  have "map fst kvs = map fst (sorted_entries costs)" by (simp add: kvs_def comp_def split_def)
  then have keys: "map fst kvs = sort (map NodeName nodes)"
    by (simp add: sorted_entries_keys default_costs(3) [OF assms(1) d])
  have "map_of kvs (NodeName n) = Some (price_tree (config_price ops cfg (CRegion cfg) n))"
    if "n \<in> set nodes" for n
  proof (rule map_of_is_SomeI)
    show "distinct (map fst kvs)" using assms(1) by (simp add: keys)
    have "(NodeName n, config_price ops cfg (CRegion cfg) n) \<in> set costs" using that mem by blast
    then show "(NodeName n, price_tree (config_price ops cfg (CRegion cfg) n)) \<in> set kvs"
      by (force simp: kvs_def set_sorted_entries [OF wf])
  qed
  with body keys config_price_reads [OF assms(2, 3)] show ?thesis
    by (auto simp: nodes_cost_def NodesCostHandler_def answer_json_def model_GetNodesCost_def passed_def)
qed

theorem nodes_cost_served_witness:
  "\<exists>kvs v. parse_json (ResponseBody (nodes_cost (\<lambda>e. []) (default_cloud nat_ops (Some exported_cfg)
      [exported_node] []))) = Some (JObj kvs) \<and> map_of kvs ''n'' = Some v \<and>
    reads v ''cpuHourlyCost'' (CpuHourlyPrice exported_cfg)"
proof -
  have "distinct (map NodeName [exported_node])" by simp
  moreover have "canonical (CpuHourlyPrice exported_cfg)" "canonical (RamGBHourlyPrice exported_cfg)" by code_simp+
  then have "proper (CpuHourlyPrice exported_cfg)" "proper (RamGBHourlyPrice exported_cfg)"
    by (simp_all add: proper_def)
  moreover have "ascii (CRegion exported_cfg)" by (simp add: Qcloud_Price.example_pricing_def)
  then have "valid_utf8 (CRegion exported_cfg)" by (rule ascii_utf8)
  moreover have "\<forall>n \<in> set [exported_node]. valid_utf8 (NodeName n) \<and> valid_utf8 (NodeProviderID n) \<and>
      valid_utf8 (fst (GetInstanceType (NodeLabels n)))"
    by (simp add: exported_facts ascii_utf8)
  ultimately show ?thesis
    using nodes_cost_served [where nodes = "[exported_node]" and cfg = exported_cfg and ops = nat_ops and pods = "[]"
      and err = "\<lambda>e. []" and m = "default_cloud nat_ops None [] []"] by (fastforce simp: exported_facts)
qed

section \<open>The price list\<close>

definition item_floats :: "PriceItem \<Rightarrow> float64 option list" where
  "item_floats i = [UnitPrice i, OriginalPrice i, PriceItem.DiscountPrice i, PDiscount i, UnitPriceDiscount i,
     UnitPriceSecondStep i, UnitPriceDiscountSecondStep i, UnitPriceThirdStep i, UnitPriceDiscountThirdStep i,
     OriginalPriceThreeYear i, DiscountPriceThreeYear i, DiscountThreeYear i, OriginalPriceFiveYear i,
     DiscountPriceFiveYear i, DiscountFiveYear i, OriginalPriceOneYear i, DiscountPriceOneYear i, DiscountOneYear i]"

definition item_finite :: "PriceItem \<Rightarrow> bool" where
  "item_finite i \<longleftrightarrow> (\<forall>x. Some x \<in> set (item_floats i) \<longrightarrow> canonical x)"

definition item_tree :: "PriceItem \<Rightarrow> json" where
  "item_tree i = JObj (kept_fields (item_fields i))"

definition pricing_tree :: "Price \<Rightarrow> json" where
  "pricing_tree p = JObj [(''instanceType'', JStr (PriceInstanceType p)), (''chargeType'', JStr (PriceChargeType p)),
     (''memory'', JStr (PriceMemory p)), (''vcpu'', JStr (VCpu p)), (''cvmPrice'', item_tree (CvmPrice p))]"

definition pricing_utf8 :: "Price \<Rightarrow> bool" where
  "pricing_utf8 p \<longleftrightarrow> valid_utf8 (PriceInstanceType p) \<and> valid_utf8 (PriceChargeType p) \<and>
     valid_utf8 (PriceMemory p) \<and> valid_utf8 (VCpu p) \<and>
     (\<forall>u. ChargeUnit (CvmPrice p) = Some u \<longrightarrow> valid_utf8 u)"

text \<open>Every field of an item is one of its numbers or its unit.\<close>

lemma item_field_cases:
  assumes "(k, f) \<in> set (item_fields i)"
  obtains x where "x \<in> set (item_floats i)" "f = opt_float x" "ascii k" | "f = opt_string (ChargeUnit i)" "ascii k"
proof -
  have "\<forall>(k, f) \<in> set (item_fields i). ascii k \<and>
      (f \<in> opt_float ` set (item_floats i) \<or> f = opt_string (ChargeUnit i))"
    by (simp add: item_fields_def item_floats_def)
  with assms that show ?thesis by blast
qed

lemma item_json_finite:
  assumes "item_finite i" shows "item_json i = Inr (item_tree i)"
  unfolding item_json_def item_tree_def
proof (rule struct_ok, clarify)
  fix k e assume "(k, Some (Inl e)) \<in> set (item_fields i)"
  then show False
  proof (cases rule: item_field_cases)
    case (1 x)
    show ?thesis
    proof (cases x)
      case None
      with 1 show ?thesis by (simp add: opt_float_def)
    next
      case (Some y)
      with 1 assms have "canonical y" by (simp add: item_finite_def)
      from opt_float_finite [OF this] 1 Some show ?thesis by auto
    qed
  qed (cases "ChargeUnit i"; simp add: opt_string_def)
qed

lemma item_tree_ok:
  assumes "item_finite i" "\<forall>u. ChargeUnit i = Some u \<longrightarrow> valid_utf8 u"
  shows "json_ok (Suc d) (item_tree i)"
proof -
  have "valid_utf8 k \<and> json_ok d v" if "(k, v) \<in> set (kept_fields (item_fields i))" for k v
  proof (cases rule: item_field_cases [OF kept_field [OF that]])
    case (1 x)
    show ?thesis
    proof (cases x)
      case None
      with 1 show ?thesis by (simp add: opt_float_def)
    next
      case (Some y)
      with 1 assms have "canonical y" by (simp add: item_finite_def)
      from opt_float_finite [OF this] 1 Some show ?thesis by (auto simp: ascii_utf8)
    qed
  next
    case 2
    with assms(2) show ?thesis by (cases "ChargeUnit i") (auto simp: opt_string_def ascii_utf8)
  qed
  then show ?thesis by (auto simp: item_tree_def list_all_iff)
qed

lemma item_json_infinite:
  assumes "\<not> item_finite i" "\<forall>x. Some x \<in> set (item_floats i) \<longrightarrow> proper x"
  shows "\<exists>e. item_json i = Inl e \<and> e \<in> {''json: unsupported value: NaN'', ''json: unsupported value: +Inf'',
     ''json: unsupported value: -Inf''}"
proof -
  obtain x where x: "Some x \<in> set (item_floats i)" "\<not> canonical x" using assms(1) by (auto simp: item_finite_def)
  with assms(2) have "proper x" by blast
  with x(2) obtain e where e: "json_float x = Inl e" by (auto simp: proper_def json_float_def)
  have "opt_float ` set (item_floats i) \<subseteq> snd ` set (item_fields i)"
    by (simp add: item_fields_def item_floats_def)
  with x(1) have "opt_float (Some x) \<in> snd ` set (item_fields i)" by blast
  with e obtain k where "(k, Some (Inl e)) \<in> set (item_fields i)" by (auto simp: opt_float_def)
  from marshal_fields_error [OF this] obtain k' e' where e':
    "(k', Some (Inl e')) \<in> set (item_fields i)" "marshal_fields (item_fields i) = Inl e'" by blast
  from e'(1) have "\<exists>y. json_float y = Inl e'"
  proof (cases rule: item_field_cases)
    case (1 y)
    from 1(2) show ?thesis by (cases y) (auto simp: opt_float_def)
  qed (cases "ChargeUnit i"; simp add: opt_string_def)
  with e'(2) json_float_error show ?thesis by (auto simp: item_json_def marshal_struct_def)
qed

lemma pricing_loop_wf: "pricing_loop ps acc = Inr prices \<Longrightarrow> wf_map acc \<Longrightarrow> wf_map prices"
  by (induction ps arbitrary: acc) (auto split: sum.splits)

lemma pricing_json_finite: "item_finite (CvmPrice p) \<Longrightarrow> pricing_json p = Inr (pricing_tree p)"
  by (simp add: pricing_json_def pricing_fields_def pricing_tree_def item_json_finite marshal_struct_def)

lemma pricing_json_error: "pricing_json p = Inl e \<Longrightarrow> item_json (CvmPrice p) = Inl e"
  by (cases "item_json (CvmPrice p)") (simp_all add: pricing_json_def pricing_fields_def marshal_struct_def)

lemma pricing_tree_ok:
  "pricing_utf8 p \<Longrightarrow> item_finite (CvmPrice p) \<Longrightarrow> json_ok (Suc (Suc d)) (pricing_tree p)"
  by (simp add: pricing_tree_def pricing_utf8_def item_tree_ok ascii_utf8)

lemma nodes_pricing_answer:
  "CloudNodesPricing m = Inr prices \<Longrightarrow> nodes_pricing err m = (case marshal_map pricing_json prices of
     Inl e \<Rightarrow> \<lparr>StatusCode = 500, ResponseBody = e\<rparr> | Inr v \<Rightarrow> \<lparr>StatusCode = 200, ResponseBody = print_json v\<rparr>)"
  by (simp add: nodes_pricing_def NodesPriceHandler_def answer_json_def model_GetNodesPricing_def passed_def
      marshal_text_def split: sum.split)

text \<open>
  C5. What /nodes/pricing says. Over Tencent's cloud the handler answers with the JSON of every price
  of the cache, in the order of the keys and with every number as it is, as long as all are finite. A single one
  that is NaN or infinite takes the whole answer: it is a 500 then, with the text of the library's error.
\<close>

theorem nodes_pricing_served:
  assumes "GetNodesPricing tc = Inr prices" "\<forall>(k, p) \<in> set prices. valid_utf8 k \<and> pricing_utf8 p"
    and "\<forall>(k, p) \<in> set prices. \<forall>x. Some x \<in> set (item_floats (CvmPrice p)) \<longrightarrow> proper x"
  shows "if \<forall>(k, p) \<in> set prices. item_finite (CvmPrice p)
    then StatusCode (nodes_pricing err (tencent_cloud ops tc nodes pods)) = 200 \<and>
      parse_json (ResponseBody (nodes_pricing err (tencent_cloud ops tc nodes pods))) =
        Some (JObj (map (\<lambda>(k, p). (k, pricing_tree p)) (sorted_entries prices)))
    else StatusCode (nodes_pricing err (tencent_cloud ops tc nodes pods)) = 500 \<and>
      ResponseBody (nodes_pricing err (tencent_cloud ops tc nodes pods)) \<in> {''json: unsupported value: NaN'',
        ''json: unsupported value: +Inf'', ''json: unsupported value: -Inf''}"
proof -
  let ?m = "tencent_cloud ops tc nodes pods"
  have wf: "wf_map prices" using assms(1) pricing_loop_wf by (fastforce simp: GetNodesPricing_def)
  note sorted = set_sorted_entries [OF wf]
  have "CloudNodesPricing ?m = Inr prices" using assms(1) by (simp add: tencent_cloud_def)
  note answer = nodes_pricing_answer [OF this]
  show ?thesis
  proof (cases "\<forall>(k, p) \<in> set prices. item_finite (CvmPrice p)")
    case True
    let ?v = "JObj (map (\<lambda>(k, p). (k, pricing_tree p)) (sorted_entries prices))"
    have j: "marshal_map pricing_json prices = Inr ?v"
      using True by (intro map_ok) (auto simp: sorted pricing_json_finite)
    have "json_ok (Suc (Suc 1)) (pricing_tree p)" if "(k, p) \<in> set prices" for k p
      using assms(2) True that by (intro pricing_tree_ok) blast+
    with assms(2) have "json_ok 10000 ?v"
      by (intro json_ok_mono [where d = "4" and e = 10000])
        (auto simp: list_all_iff sorted eval_nat_numeral)
    from parse_print [OF this] answer [of err] show ?thesis
      unfolding if_P [OF True] by (simp only: j sum.case response.select_convs simp_thms)
  next
    case False
    then obtain k p where p: "(k, p) \<in> set prices" "\<not> item_finite (CvmPrice p)" by blast
    with assms(3) obtain e where "item_json (CvmPrice p) = Inl e" using item_json_infinite by blast
    then have "pricing_json p = Inl e" by (simp add: pricing_json_def pricing_fields_def marshal_struct_def)
    from map_error [where f = pricing_json, OF wf p(1) this] obtain k' p' e' where e':
      "(k', p') \<in> set prices" "pricing_json p' = Inl e'" "marshal_map pricing_json prices = Inl e'" by blast
    note ej = pricing_json_error [OF e'(2)]
    then have "\<not> item_finite (CvmPrice p')" using item_json_finite by fastforce
    with assms(3) e'(1) item_json_infinite obtain e'' where "item_json (CvmPrice p') = Inl e''"
      "e'' \<in> {''json: unsupported value: NaN'', ''json: unsupported value: +Inf'',
        ''json: unsupported value: -Inf''}" by blast
    with ej have "e' \<in> {''json: unsupported value: NaN'', ''json: unsupported value: +Inf'',
        ''json: unsupported value: -Inf''}" by simp
    with answer [of err] e'(3) show ?thesis
      unfolding if_not_P [OF False] by (simp only: sum.case response.select_convs simp_thms)
  qed
qed

text \<open>A cache of one instance, at a price that is a number and at one that is not.\<close>

definition listed_cloud :: "float64 \<Rightarrow> TencentCloud" where
  "listed_cloud u = \<lparr>standardPricing = [],
     instances = [(''ins'', \<lparr>Instance = Some \<lparr>InstanceId = Some ''ins'', InstanceChargeType = Some ''SPOTPAID'',
       InstanceType = Some ''t'', PlacementZone = None, CPU = Some 2, Memory = Some 4\<rparr>,
       InstancePrice = Some (example_price\<lparr>UnitPrice := Some u\<rparr>)\<rparr>)], customPricing = None\<rparr>"

definition listed_price :: "float64 \<Rightarrow> Price" where
  "listed_price u = \<lparr>PriceInstanceType = ''t'', PriceChargeType = ''SPOTPAID'', VCpu = format_int 2,
     PriceMemory = format_int 4, CvmPrice = example_price\<lparr>UnitPrice := Some u\<rparr>\<rparr>"

lemma listed: "GetNodesPricing (listed_cloud u) = Inr [(''ins'', listed_price u)]"
  by (simp add: GetNodesPricing_def listed_cloud_def instance_pricing_def listed_price_def example_price_def)

lemma listed_utf8: "pricing_utf8 (listed_price u)"
proof -
  have "ascii (format_int 2)" "ascii (format_int 4)" by (simp_all add: format_int_def ascii_format_nat)
  then show ?thesis by (simp add: pricing_utf8_def listed_price_def example_price_def ascii_utf8)
qed

lemma listed_floats: "Some x \<in> set (item_floats (CvmPrice (listed_price u))) \<longleftrightarrow> x = u"
  by (auto simp: item_floats_def listed_price_def example_price_def)

theorem nodes_pricing_served_witness:
  "StatusCode (nodes_pricing (\<lambda>e. []) (tencent_cloud nat_ops (listed_cloud (lit 5 2)) [] [])) = 200 \<and>
   StatusCode (nodes_pricing (\<lambda>e. []) (tencent_cloud nat_ops (listed_cloud NaN) [] [])) = 500"
proof -
  have utf8: "\<forall>(k, p) \<in> set [(''ins'', listed_price u)]. valid_utf8 k \<and> pricing_utf8 p" for u
    by (simp add: listed_utf8 ascii_utf8)
  have proper: "\<forall>(k, p) \<in> set [(''ins'', listed_price u)]. \<forall>x. Some x \<in> set (item_floats (CvmPrice p)) \<longrightarrow> proper x"
    if "proper u" for u using that by (simp add: listed_floats)
  have c: "canonical (lit 5 2)" by code_simp
  then have "proper (lit 5 2)" "proper NaN" by (simp_all add: proper_def)
  note served = nodes_pricing_served [OF listed utf8 proper [OF this(1)]]
    nodes_pricing_served [OF listed utf8 proper [OF this(2)]]
  have "item_finite (CvmPrice (listed_price (lit 5 2)))" "\<not> item_finite (CvmPrice (listed_price NaN))"
    using c by (simp_all add: item_finite_def listed_floats canonical_def)
  then show ?thesis
    using served(1) [where err = "\<lambda>e. []" and ops = nat_ops and nodes = "[]" and pods = "[]"]
      served(2) [where err = "\<lambda>e. []" and ops = nat_ops and nodes = "[]" and pods = "[]"] by simp
qed

end
