(* ===== verification/QMonitor.thy ===== *)
theory QMonitor
  imports Qcloud_SDK Metric_Query Time_Series
begin

text \<open>
  Tencent's cloud monitor as a data source: the client of \<open>pkg/cloudsdk/qcloud/qmonitor/qmonitor.go\<close> and
  the provider of \<open>pkg/datasource-providers/qcloudmonitor/qcloudmonitor.go\<close>. The SDK's call is a
  parameter that takes the service's state to the next; times are formatted by the parameter
  \<open>rfc3339\<close>. The operator for equality is another package's constant. Debug output, the request
  metrics and the rate limiter are left out. A nil dereference is \<open>None\<close>.
\<close>

section \<open>The client\<close>

record MidQueryCondition =
  CondKey :: string
  Operator :: string
  CondValue :: "string list"

record GetDataParam =
  Module :: string
  ParamNamespace :: string
  MetricNames :: "string list"
  Conditions :: "MidQueryCondition list"
  Period :: int
  StartTime :: string
  EndTime :: string
  GroupBys :: "string list"

record Dimension =
  DimName :: string
  DimValue :: string

record Point =
  PointTimestamp :: "int option"
  PointValue :: "float64 option"

record MetricDataPoint =
  Dimensions :: "Dimension list"
  Values :: "Point list"

record MetricDatum =
  DatumName :: string
  Points :: "MetricDataPoint list"

record GetDataResult =
  ResultPeriod :: int
  ResultStart :: string
  ResultEnd :: string
  ResultData :: "MetricDatum list"

text \<open>The SDK's own structures, where every field may be missing.\<close>

record sdk_dimension =
  SdkDimName :: "string option"
  SdkDimValue :: "string option"

record sdk_point =
  SdkDimensions :: "sdk_dimension list"
  SdkValues :: "Point list"

record sdk_metric_data =
  SdkMetricName :: "string option"
  SdkPoints :: "sdk_point list"

record sdk_response =
  SdkPeriod :: "int option"
  SdkStart :: "string option"
  SdkEnd :: "string option"
  SdkData :: "sdk_metric_data list option"

text \<open>A response of the SDK may be empty.\<close>

record 'w monitor_client =
  MonClientError :: "sdk_error option"
  StatisticData :: "GetDataParam \<Rightarrow> 'w \<Rightarrow> (sdk_error + sdk_response option) \<times> 'w"
  MonRetryCnt :: int
  MonRand :: "int \<Rightarrow> int"

definition AppendCondition :: "string \<Rightarrow> string \<Rightarrow> string list \<Rightarrow> GetDataParam \<Rightarrow> GetDataParam" where
  "AppendCondition key op value p =
     p\<lparr>Conditions := Conditions p @ [\<lparr>CondKey = key, Operator = op, CondValue = value\<rparr>]\<rparr>"

text \<open>The group labels are appended to the list of the metric names, after that has been set.\<close>

definition Convert2SDKRequest :: "GetDataParam \<Rightarrow> GetDataParam" where
  "Convert2SDKRequest p = p\<lparr>GroupBys := []\<rparr>"

definition ConvertSDKMetricData :: "sdk_metric_data list \<Rightarrow> MetricDatum list" where
  "ConvertSDKMetricData datas = map (\<lambda>d.
     \<lparr>DatumName = (case SdkMetricName d of None \<Rightarrow> [] | Some n \<Rightarrow> n),
      Points = map (\<lambda>p. \<lparr>Dimensions = map (\<lambda>x.
          \<lparr>DimName = (case SdkDimName x of None \<Rightarrow> [] | Some n \<Rightarrow> n),
           DimValue = (case SdkDimValue x of None \<Rightarrow> [] | Some v \<Rightarrow> v)\<rparr>) (SdkDimensions p),
          Values = SdkValues p\<rparr>) (SdkPoints d)\<rparr>) datas"

definition result_of :: "GetDataParam \<Rightarrow> sdk_response option \<Rightarrow> GetDataResult" where
  "result_of p resp = (case resp of
     None \<Rightarrow> \<lparr>ResultPeriod = Period p, ResultStart = StartTime p, ResultEnd = EndTime p, ResultData = []\<rparr>
   | Some r \<Rightarrow> \<lparr>ResultPeriod = (case SdkPeriod r of None \<Rightarrow> 0 | Some x \<Rightarrow> x),
       ResultStart = (case SdkStart r of None \<Rightarrow> [] | Some x \<Rightarrow> x),
       ResultEnd = (case SdkEnd r of None \<Rightarrow> [] | Some x \<Rightarrow> x),
       ResultData = (case SdkData r of None \<Rightarrow> [] | Some d \<Rightarrow> ConvertSDKMetricData d)\<rparr>)"

text \<open>The call with the retries of \<open>cvm.go\<close>, of which this client has a copy.\<close>

definition DescribeStatisticDataWithRetry ::
    "'w monitor_client \<Rightarrow> GetDataParam \<Rightarrow> 'w \<Rightarrow> (sdk_error + sdk_response option) \<times> 'w" where
  "DescribeStatisticDataWithRetry c p w =
     (case ExponentialRetryCall (MonRand c) (MonRetryCnt c) (StatisticData c p) w of
        (r, slept, w') \<Rightarrow> (r, w'))"

definition DescribeStatisticData ::
    "'w monitor_client \<Rightarrow> GetDataParam \<Rightarrow> 'w \<Rightarrow> (sdk_error + GetDataResult) \<times> 'w" where
  "DescribeStatisticData c p w = (case MonClientError c of
     Some e \<Rightarrow> (Inl e, w)
   | None \<Rightarrow>
       (case DescribeStatisticDataWithRetry c (Convert2SDKRequest p) w of
          (Inl e, w') \<Rightarrow> (Inl e, w')
        | (Inr resp, w') \<Rightarrow> (Inr (result_of p resp), w')))"

section \<open>Conditions\<close>

definition equals :: "string \<Rightarrow> string \<Rightarrow> string \<times> string list" where
  "equals key value = (key, [value])"

definition equals_if :: "string \<Rightarrow> string \<Rightarrow> (string \<times> string list) list" where
  "equals_if key value = (if value \<noteq> [] then [equals key value] else [])"

definition MakeWorkloadMetricConditions ::
    "string \<Rightarrow> string \<Rightarrow> string \<Rightarrow> string \<Rightarrow> (string \<times> string list) list" where
  "MakeWorkloadMetricConditions clusterid ns name kind =
     [equals ''tke_cluster_instance_id'' clusterid, equals ''namespace'' ns, equals ''workload_name'' name] @
     equals_if ''workload_kind'' kind"

definition MakePodMetricConditions ::
    "string \<Rightarrow> string \<Rightarrow> string \<Rightarrow> string \<Rightarrow> string \<Rightarrow> (string \<times> string list) list" where
  "MakePodMetricConditions clusterid ns podname workloadname nodename =
     [equals ''namespace'' ns, equals ''pod_name'' podname, equals ''tke_cluster_instance_id'' clusterid] @
     equals_if ''workload_name'' workloadname @ equals_if ''node'' nodename"

definition MakeContainerMetricConditions ::
    "string \<Rightarrow> string \<Rightarrow> string \<Rightarrow> string \<Rightarrow> string \<Rightarrow> (string \<times> string list) list" where
  "MakeContainerMetricConditions clusterid ns workloadname containername containerid =
     [equals ''namespace'' ns, equals ''workload_name'' workloadname,
      equals ''tke_cluster_instance_id'' clusterid, equals ''container_name'' containername] @
     equals_if ''container_id'' containerid"

datatype monitor_error = MetricIsNull | UnsupportedType metric_type | UnknownType metric_type |
  SelectorIsNull | RequireClusterId | MustInclude "string list" | UnsupportedName string |
  MonitorFailed sdk_error

definition has_all :: "string list \<Rightarrow> (string \<times> string list) list \<Rightarrow> bool" where
  "has_all labels conds \<longleftrightarrow> list_all (\<lambda>l. l \<in> set (map fst conds)) labels"

definition checkQueryPodCondition :: "(string \<times> string list) list \<Rightarrow> monitor_error option" where
  "checkQueryPodCondition conds =
     (if ''node'' \<notin> set (map fst conds) \<and> ''workload_name'' \<notin> set (map fst conds)
      then Some (MustInclude [''node'', ''workload_name''])
      else if \<not> has_all [''pod_name'', ''tke_cluster_instance_id''] conds
      then Some (MustInclude [''pod_name'', ''tke_cluster_instance_id''])
      else None)"

definition checkQueryContainerCondition :: "(string \<times> string list) list \<Rightarrow> monitor_error option" where
  "checkQueryContainerCondition conds =
     (if \<not> has_all [''container_name'', ''tke_cluster_instance_id'', ''workload_name''] conds
      then Some (MustInclude [''container_name'', ''tke_cluster_instance_id'', ''workload_name''])
      else None)"

definition checkQueryWorkloadCondition :: "(string \<times> string list) list \<Rightarrow> monitor_error option" where
  "checkQueryWorkloadCondition conds =
     (if \<not> has_all [''namespace'', ''tke_cluster_instance_id'', ''workload_name''] conds
      then Some (MustInclude [''namespace'', ''tke_cluster_instance_id'', ''workload_name''])
      else None)"

section \<open>Data\<close>

text \<open>The metrics whose values are multiplied; the fifth is the CPU usage of a workload.\<close>

definition memory_metrics :: "string list" where
  "memory_metrics = [''K8sPodMemNoCacheBytes'', ''K8sPodMemUsageBytes'', ''K8sContainerMemNoCacheBytes'',
     ''K8sContainerMemUsageBytes'', ''K8sWorkloadCpuCoreUsed'']"

fun Points2Samples :: "string \<Rightarrow> Point list \<Rightarrow> sample list" where
  "Points2Samples metric [] = []"
| "Points2Samples metric (p # ps) = (case (PointTimestamp p, PointValue p) of
     (Some t, Some v) \<Rightarrow>
       \<lparr>Timestamp = int64 t,
        SValue = (if metric \<in> set memory_metrics then v * float_of_int 1024 else v)\<rparr> # Points2Samples metric ps
   | _ \<Rightarrow> Points2Samples metric ps)"

definition ConvertLabels :: "Dimension list \<Rightarrow> (string \<times> string) list" where
  "ConvertLabels dims = map (\<lambda>d. (DimName d, DimValue d)) dims"

definition MonitorData2CommonTimeSeries :: "string \<Rightarrow> GetDataResult \<Rightarrow> time_series list" where
  "MonitorData2CommonTimeSeries metric result = (case ResultData result of
     [] \<Rightarrow> []
   | d # ds \<Rightarrow> map (\<lambda>p. \<lparr>Labels = ConvertLabels (Dimensions p), Samples = Points2Samples metric (Values p)\<rparr>)
       (Points d))"

section \<open>Queries\<close>

text \<open>\<open>uint64(step.Seconds())\<close>, the step in nanoseconds.\<close>

definition period_of :: "int \<Rightarrow> int" where
  "period_of step = uint64 (trunc_int64 (float_of_int (go_div step 1000000000) +
     float_of_int (go_mod step 1000000000) / float_of_int 1000000000))"

definition monitor_request ::
    "(int \<Rightarrow> string) \<Rightarrow> string \<Rightarrow> string \<Rightarrow> (string \<times> string list) list \<Rightarrow> int \<Rightarrow> int \<Rightarrow> int \<Rightarrow>
     GetDataParam" where
  "monitor_request rfc3339 equal metricName conds start en step =
     fold (\<lambda>(key, value). AppendCondition key equal value) conds
       \<lparr>Module = ''monitor'', ParamNamespace = ''QCE/TKE'', MetricNames = [metricName], Conditions = [],
        Period = period_of step, StartTime = rfc3339 start, EndTime = rfc3339 en, GroupBys = []\<rparr>"

definition getMonitorData ::
    "'w monitor_client \<Rightarrow> (int \<Rightarrow> string) \<Rightarrow> string \<Rightarrow> string \<Rightarrow> (string \<times> string list) list \<Rightarrow> int \<Rightarrow> int \<Rightarrow>
     int \<Rightarrow> 'w \<Rightarrow> (monitor_error + time_series list) \<times> 'w" where
  "getMonitorData c rfc3339 equal metricName conds start en step w =
     (case DescribeStatisticData c (monitor_request rfc3339 equal metricName conds start en step) w of
        (Inl e, w') \<Rightarrow> (Inl (MonitorFailed e), w')
      | (Inr r, w') \<Rightarrow> (Inr (MonitorData2CommonTimeSeries metricName r), w'))"

definition workload_names :: "(string, string) gomap" where
  "workload_names = [(''cpu'', ''K8sWorkloadCpuCoreUsed''), (''memory'', ''K8sWorkloadMemUsageBytes''),
     (''cpu_request'', ''K8sWorkloadCpuRequests''), (''cpu_limit'', ''K8sWorkloadCpuLimits''),
     (''mem_request'', ''K8sWorkloadMemRequests''), (''mem_limit'', ''K8sWorkloadMemLimits''),
     (''replicas'', ''K8sWorkloadPodTotal'')]"

definition container_names :: "(string, string) gomap" where
  "container_names = [(''cpu'', ''K8sContainerCpuCoreUsed''), (''memory'', ''K8sContainerMemUsageBytes''),
     (''cpu_request'', ''K8sContainerCpuCoreRequest''), (''cpu_limit'', ''K8sContainerCpuCoreLimit''),
     (''mem_request'', ''K8sContainerMemRequest''), (''mem_limit'', ''K8sContainerMemLimit'')]"

definition pod_names :: "(string, string) gomap" where
  "pod_names = [(''cpu'', ''K8sPodCpuCoreUsed''), (''memory'', ''K8sPodMemUsageBytes'')]"

text \<open>What the three kinds of metrics share: the cluster, the conditions and their check, the name.\<close>

definition monitored ::
    "('s, 'r) selector_ops \<Rightarrow> (string \<Rightarrow> (string \<times> string list) list) \<Rightarrow>
     ((string \<times> string list) list \<Rightarrow> monitor_error option) \<Rightarrow> (string, string) gomap \<Rightarrow>
     (string \<Rightarrow> (string \<times> string list) list \<Rightarrow> 'w \<Rightarrow> (monitor_error + time_series list) \<times> 'w) \<Rightarrow>
     's option \<Rightarrow> string \<Rightarrow> 'w \<Rightarrow> (monitor_error + time_series list) \<times> 'w" where
  "monitored ops conditions check names get selector name w = (case selector of
     None \<Rightarrow> (Inl SelectorIsNull, w)
   | Some s \<Rightarrow> (case SelExactMatch ops s ''cluster_id'' of
       None \<Rightarrow> (Inl RequireClusterId, w)
     | Some cid \<Rightarrow> (case check (conditions cid) of
         Some e \<Rightarrow> (Inl e, w)
       | None \<Rightarrow> (case mget names (to_lower name) of
           None \<Rightarrow> (Inl (UnsupportedName name), w)
         | Some api \<Rightarrow> get api (conditions cid) w))))"

type_synonym 'w monitor_get =
  "string \<Rightarrow> (string \<times> string list) list \<Rightarrow> 'w \<Rightarrow> (monitor_error + time_series list) \<times> 'w"

definition workloadMetric ::
    "('s, 'r) selector_ops \<Rightarrow> 'w monitor_get \<Rightarrow> 's metric \<Rightarrow> 'w \<Rightarrow>
     ((monitor_error + time_series list) \<times> 'w) option" where
  "workloadMetric ops get m w = map_option (\<lambda>x.
     monitored ops (\<lambda>cid. MakeWorkloadMetricConditions cid (WNamespace x) (WName x) (WKind x))
       checkQueryWorkloadCondition workload_names get (WSelector x) (MetricName m) w) (Workload m)"

definition containerMetric ::
    "('s, 'r) selector_ops \<Rightarrow> 'w monitor_get \<Rightarrow> 's metric \<Rightarrow> 'w \<Rightarrow>
     ((monitor_error + time_series list) \<times> 'w) option" where
  "containerMetric ops get m w = map_option (\<lambda>x.
     monitored ops (\<lambda>cid. MakeContainerMetricConditions cid (CNamespace x) (CWorkloadName x) (CContainerName x) [])
       checkQueryContainerCondition container_names get (CSelector x) (MetricName m) w) (Container m)"

definition podMetric ::
    "('s, 'r) selector_ops \<Rightarrow> 'w monitor_get \<Rightarrow> 's metric \<Rightarrow> 'w \<Rightarrow>
     ((monitor_error + time_series list) \<times> 'w) option" where
  "podMetric ops get m w = map_option (\<lambda>x.
     monitored ops (\<lambda>cid. MakePodMetricConditions cid (PNamespace x) (PName x) [] [])
       checkQueryPodCondition pod_names get (PSelector x) (MetricName m) w) (Pod m)"

definition monitor_query ::
    "('s, 'r) selector_ops \<Rightarrow> 'w monitor_get \<Rightarrow> 's metric option \<Rightarrow> 'w \<Rightarrow>
     ((monitor_error + time_series list) \<times> 'w) option" where
  "monitor_query ops get metric w = (case metric of
     None \<Rightarrow> Some (Inl MetricIsNull, w)
   | Some m \<Rightarrow> (case Type m of
       PodMetricType \<Rightarrow> podMetric ops get m w
     | WorkloadMetricType \<Rightarrow> workloadMetric ops get m w
     | ContainerMetricType \<Rightarrow> containerMetric ops get m w
     | NodeMetricType \<Rightarrow> Some (Inl (UnsupportedType (Type m)), w)
     | PromQLMetricType \<Rightarrow> Some (Inl (UnsupportedType (Type m)), w)
     | OtherMetricType t \<Rightarrow> Some (Inl (UnknownType (Type m)), w)))"

text \<open>The builder of this source never fails; one that is not registered is nil, and its call panics.\<close>

definition qm_QueryTimeSeries ::
    "('s, 'r) selector_ops \<Rightarrow> 's factories \<Rightarrow> 'w monitor_client \<Rightarrow> (int \<Rightarrow> string) \<Rightarrow> string \<Rightarrow> 's metric \<Rightarrow>
     int \<Rightarrow> int \<Rightarrow> int \<Rightarrow> 'w \<Rightarrow> ((monitor_error + metric_error + time_series list) \<times> 'w) option" where
  "qm_QueryTimeSeries ops fs c rfc3339 equal m start en step w =
     (case Builder fs m QCloudMonitorMetricSource of
        None \<Rightarrow> None
      | Some build \<Rightarrow> (case build True of
          Inl e \<Rightarrow> Some (Inr (Inl e), w)
        | Inr q \<Rightarrow> map_option (\<lambda>(r, w'). (case r of Inl e \<Rightarrow> Inl e | Inr tss \<Rightarrow> Inr (Inr tss), w'))
            (monitor_query ops (\<lambda>api conds. getMonitorData c rfc3339 equal api conds start en step)
              (QCloudMonitor q) w)))"

text \<open>The latest: the last full minute up to now, by the minute.\<close>

definition qm_QueryLatestTimeSeries ::
    "('s, 'r) selector_ops \<Rightarrow> 's factories \<Rightarrow> 'w monitor_client \<Rightarrow> (int \<Rightarrow> string) \<Rightarrow> string \<Rightarrow> 's metric \<Rightarrow>
     int \<Rightarrow> 'w \<Rightarrow> ((monitor_error + metric_error + time_series list) \<times> 'w) option" where
  "qm_QueryLatestTimeSeries ops fs c rfc3339 equal m now w =
     (let minute = 60000000000; start = now - minute
      in qm_QueryTimeSeries ops fs c rfc3339 equal m (start - start mod minute) now minute w)"

section \<open>What the monitor answers\<close>

text \<open>
  No metric of a pod is ever answered by the monitor, and none is asked for: the conditions it is queried
  with have neither the node nor the workload, of which the check requires one.
\<close>

theorem pod_metrics_never_answered:
  assumes "Type m = PodMetricType" "Pod m = Some x"
  shows "\<exists>e. monitor_query ops get (Some m) w = Some (Inl e, w)"
proof -
  have "checkQueryPodCondition (MakePodMetricConditions cid ns name [] []) =
      Some (MustInclude [''node'', ''workload_name''])" for cid ns name
    by (simp add: checkQueryPodCondition_def MakePodMetricConditions_def equals_def equals_if_def)
  then show ?thesis
    using assms by (simp add: monitor_query_def podMetric_def monitored_def split: option.split)
qed

definition complete_point :: "Point \<Rightarrow> bool" where
  "complete_point p \<longleftrightarrow> PointTimestamp p \<noteq> None \<and> PointValue p \<noteq> None"

lemma Points2Samples_eq:
  "Points2Samples metric ps = map (\<lambda>p. \<lparr>Timestamp = int64 (the (PointTimestamp p)),
     SValue = (if metric \<in> set memory_metrics then the (PointValue p) * float_of_int 1024
               else the (PointValue p))\<rparr>) (filter complete_point ps)"
  by (induction ps) (auto simp: complete_point_def split: option.split)

lemma workload_units:
  "mget workload_names name = Some api \<Longrightarrow> api \<in> set memory_metrics \<longleftrightarrow> name = ''cpu''"
  by (auto simp: workload_names_def memory_metrics_def split: if_splits)

text \<open>
  C20. The series of a workload, when the service answers: one for each point of the first metric, with the
  values that have a time. The values of the CPU usage are multiplied by 1024, those of the
  memory usage and of everything else are not.
\<close>

theorem workload_series_units:
  assumes "Workload m = Some x" "WSelector x = Some s" "SelExactMatch ops s ''cluster_id'' = Some cid"
    and "mget workload_names (to_lower (MetricName m)) = Some api"
    and "DescribeStatisticData c (monitor_request rfc3339 equal api
      (MakeWorkloadMetricConditions cid (WNamespace x) (WName x) (WKind x)) start en step) w = (Inr r, w')"
  shows "workloadMetric ops (\<lambda>api conds. getMonitorData c rfc3339 equal api conds start en step) m w =
    Some (Inr (map (\<lambda>p. \<lparr>Labels = ConvertLabels (Dimensions p),
        Samples = map (\<lambda>v. \<lparr>Timestamp = int64 (the (PointTimestamp v)),
            SValue = (if to_lower (MetricName m) = ''cpu'' then the (PointValue v) * float_of_int 1024
                      else the (PointValue v))\<rparr>) (filter complete_point (Values p))\<rparr>)
        (case ResultData r of [] \<Rightarrow> [] | d # ds \<Rightarrow> Points d)), w')"
proof -
  have "checkQueryWorkloadCondition (MakeWorkloadMetricConditions cid (WNamespace x) (WName x) (WKind x)) = None"
    by (simp add: checkQueryWorkloadCondition_def MakeWorkloadMetricConditions_def has_all_def equals_def)
  then show ?thesis
    using assms workload_units [OF assms(4)]
    by (simp add: workloadMetric_def monitored_def getMonitorData_def MonitorData2CommonTimeSeries_def
        Points2Samples_eq split: list.split)
qed

text \<open>A service that answers every query with one value.\<close>

definition example_monitor :: "nat monitor_client" where
  "example_monitor = \<lparr>MonClientError = None, StatisticData = (\<lambda>p w. (Inr (Some
     \<lparr>SdkPeriod = None, SdkStart = None, SdkEnd = None, SdkData = Some [\<lparr>SdkMetricName = None,
        SdkPoints = [\<lparr>SdkDimensions = [], SdkValues = [\<lparr>PointTimestamp = Some 60, PointValue = Some 1\<rparr>]\<rparr>]\<rparr>]\<rparr>),
     w + 1)), MonRetryCnt = 3, MonRand = (\<lambda>i. 4)\<rparr>"

definition monitored_metric :: "string \<Rightarrow> (string \<times> string) list metric" where
  "monitored_metric name = WorkloadMetricNamer list_ops ''cls-1'' example_target name None"

definition pod_metric :: "(string \<times> string) list metric" where
  "pod_metric = (empty_metric PodMetricType ''cpu'')\<lparr>Pod := Some \<lparr>PNamespace = ''default'', PName = ''web-0'',
     PSelector = Some [(''cluster_id'', ''cls-1'')]\<rparr>\<rparr>"

theorem pod_metrics_never_answered_witness:
  "\<exists>e. monitor_query list_ops (\<lambda>api conds. getMonitorData example_monitor (\<lambda>t. []) ''='' api conds 0 60 60)
     (Some pod_metric) 0 = Some (Inl e, 0)"
proof -
  have "Type pod_metric = PodMetricType" "Pod pod_metric = Some (the (Pod pod_metric))"
    by (simp_all add: pod_metric_def empty_metric_def)
  then show ?thesis by (rule pod_metrics_never_answered)
qed

definition monitored_result :: GetDataResult where
  "monitored_result = \<lparr>ResultPeriod = 0, ResultStart = [], ResultEnd = [], ResultData = [\<lparr>DatumName = [],
     Points = [\<lparr>Dimensions = [], Values = [\<lparr>PointTimestamp = Some 60, PointValue = Some 1\<rparr>]\<rparr>]\<rparr>]\<rparr>"

lemma example_monitor_answers: "DescribeStatisticData example_monitor p w = (Inr monitored_result, w + 1)"
  by (simp add: DescribeStatisticData_def DescribeStatisticDataWithRetry_def example_monitor_def ExponentialRetryCall_def result_of_def
      ConvertSDKMetricData_def monitored_result_def)

theorem workload_series_units_witness:
  "workloadMetric list_ops (\<lambda>api conds. getMonitorData example_monitor (\<lambda>t. []) ''='' api conds 0 60 60)
     (monitored_metric ''cpu'') 0 =
   Some (Inr [\<lparr>Labels = [], Samples = [\<lparr>Timestamp = 60, SValue = 1 * float_of_int 1024\<rparr>]\<rparr>], 1)"
proof -
  let ?x = "the (Workload (monitored_metric ''cpu''))"
  have x: "Workload (monitored_metric ''cpu'') = Some ?x" "WSelector ?x = Some [(''cluster_id'', ''cls-1'')]"
    by (simp_all add: monitored_metric_def WorkloadMetricNamer_def workload_metric_def empty_metric_def
        add_set_def put_nonempty_def list_ops_def)
  have id: "SelExactMatch list_ops [(''cluster_id'', ''cls-1'')] ''cluster_id'' = Some ''cls-1''"
    by (simp add: list_ops_def)
  have name: "to_lower (MetricName (monitored_metric ''cpu'')) = ''cpu''" by code_simp
  then have api: "mget workload_names (to_lower (MetricName (monitored_metric ''cpu''))) =
      Some ''K8sWorkloadCpuCoreUsed''"
    by (simp add: workload_names_def)
  have "int64 60 = 60" by (simp add: int64_def)
  then show ?thesis
    using workload_series_units [OF x id api example_monitor_answers, of "\<lambda>t. []" "''=''" 0 60 60 0]
    by (simp add: name monitored_result_def complete_point_def ConvertLabels_def)
qed

end
