(* ===== verification/Monitor_Client.thy ===== *)
theory Monitor_Client
  imports QMonitor Sdk_Client
begin

text \<open>
  The client of Tencent's cloud monitor in \<open>pkg/cloudsdk/qcloud/qmonitor/qmonitor.go\<close>: its state, the
  SDK client it keeps, the four remote calls with their retries, and the building of requests. \<open>QMonitor\<close> has
  the call that the data source makes, with the SDK client as a parameter; here it is the one that the state
  keeps, and the two are shown to agree. The SDK's calls are parameters that are given the SDK
  client, which tells whose credentials sign the request. Debug output and the request metrics are
  left out, and so is the rate limiter, which only waits.
\<close>

section \<open>The state of the client\<close>

record QCloudMonitorClient =
  MonConfig :: QCloudClientConfig
  MonClient :: "made_client option"

definition NewQCloudMonitorClient :: "QCloudClientConfig \<Rightarrow> QCloudMonitorClient" where
  "NewQCloudMonitorClient cfg = \<lparr>MonConfig = cfg, MonClient = None\<rparr>"

definition getQMonitorDomain :: "QCloudMonitorClient \<Rightarrow> string" where
  "getQMonitorDomain s = sdk_domain ''monitor'' (MonConfig s)"

definition monitor_getClient ::
    "(made_client \<Rightarrow> 'e option) \<Rightarrow> QCloudMonitorClient \<Rightarrow> ('e + made_client) \<times> QCloudMonitorClient" where
  "monitor_getClient new s = (case getClient new ''monitor'' (MonConfig s) (MonClient s) of
     (r, cl) \<Rightarrow> (r, s\<lparr>MonClient := cl\<rparr>))"

definition monitor_UpdateCredential :: "CustomCredential \<Rightarrow> QCloudMonitorClient \<Rightarrow> QCloudMonitorClient" where
  "monitor_UpdateCredential cred s = s\<lparr>MonConfig := (MonConfig s)\<lparr>Credential := cred\<rparr>\<rparr>"

definition monitor_UpdateCred :: "CustomCredential \<Rightarrow> QCloudMonitorClient \<Rightarrow> QCloudMonitorClient" where
  "monitor_UpdateCred cred s = s\<lparr>MonConfig := (MonConfig s)\<lparr>Credential := cred\<rparr>\<rparr>"

definition monitor_UpdateCustomCredential ::
    "string \<Rightarrow> string \<Rightarrow> QCloudMonitorClient \<Rightarrow> QCloudMonitorClient" where
  "monitor_UpdateCustomCredential i k s = s\<lparr>MonConfig := (MonConfig s)
     \<lparr>Credential := fst (UpdateQCloudCustomCredential i k (Credential (MonConfig s)))\<rparr>\<rparr>"

definition monitor_EnableDebug :: "QCloudMonitorClient \<Rightarrow> bool \<times> QCloudMonitorClient" where
  "monitor_EnableDebug s =
     (let cfg = (MonConfig s)\<lparr>ConfigDebug := True\<rparr> in (ConfigDebug cfg, s\<lparr>MonConfig := cfg\<rparr>))"

definition DebugModeNoLock :: "QCloudMonitorClient \<Rightarrow> bool" where
  "DebugModeNoLock s = ConfigDebug (MonConfig s)"

section \<open>The remote calls\<close>

text \<open>The numbers drawn for the pauses, and the SDK's calls, each by an SDK client.\<close>

record ('bq, 'bs, 'gq, 'gs, 'pq, 'ps, 'w) monitor_api =
  ApiRand :: "int \<Rightarrow> int"
  DescribeBaseMetrics :: "made_client \<Rightarrow> 'bq \<Rightarrow> 'w \<Rightarrow> (sdk_error + 'bs) \<times> 'w"
  ApiGetMonitorData :: "made_client \<Rightarrow> 'gq \<Rightarrow> 'w \<Rightarrow> (sdk_error + 'gs) \<times> 'w"
  ApiPutMonitorData :: "made_client \<Rightarrow> 'pq \<Rightarrow> 'w \<Rightarrow> (sdk_error + 'ps) \<times> 'w"
  ApiStatisticData :: "made_client \<Rightarrow> GetDataParam \<Rightarrow> 'w \<Rightarrow> (sdk_error + sdk_response option) \<times> 'w"

definition monitor_retry ::
    "(int \<Rightarrow> int) \<Rightarrow> QCloudMonitorClient \<Rightarrow> ('w \<Rightarrow> (sdk_error + 'r) \<times> 'w) \<Rightarrow> 'w \<Rightarrow> (sdk_error + 'r) \<times> 'w" where
  "monitor_retry pick s f w = (case ExponentialRetryCall pick (QCloudClientConfig.DefaultRetryCnt (MonConfig s)) f w of
     (r, slept, w') \<Rightarrow> (r, w'))"

definition DescribeBaseMetricsWithRetry ::
    "('bq, 'bs, 'gq, 'gs, 'pq, 'ps, 'w) monitor_api \<Rightarrow> QCloudMonitorClient \<Rightarrow> made_client \<Rightarrow> 'bq \<Rightarrow> 'w \<Rightarrow>
     (sdk_error + 'bs) \<times> 'w" where
  "DescribeBaseMetricsWithRetry api s cli req w = monitor_retry (ApiRand api) s (DescribeBaseMetrics api cli req) w"

definition GetMonitorDataWithRetry ::
    "('bq, 'bs, 'gq, 'gs, 'pq, 'ps, 'w) monitor_api \<Rightarrow> QCloudMonitorClient \<Rightarrow> made_client \<Rightarrow> 'gq \<Rightarrow> 'w \<Rightarrow>
     (sdk_error + 'gs) \<times> 'w" where
  "GetMonitorDataWithRetry api s cli req w = monitor_retry (ApiRand api) s (ApiGetMonitorData api cli req) w"

definition PutMonitorDataWithRetry ::
    "('bq, 'bs, 'gq, 'gs, 'pq, 'ps, 'w) monitor_api \<Rightarrow> QCloudMonitorClient \<Rightarrow> made_client \<Rightarrow> 'pq \<Rightarrow> 'w \<Rightarrow>
     (sdk_error + 'ps) \<times> 'w" where
  "PutMonitorDataWithRetry api s cli req w = monitor_retry (ApiRand api) s (ApiPutMonitorData api cli req) w"

definition GetMonitorData ::
    "(made_client \<Rightarrow> sdk_error option) \<Rightarrow> ('bq, 'bs, 'gq, 'gs, 'pq, 'ps, 'w) monitor_api \<Rightarrow>
     QCloudMonitorClient \<Rightarrow> 'gq \<Rightarrow> 'w \<Rightarrow> (sdk_error + 'gs) \<times> QCloudMonitorClient \<times> 'w" where
  "GetMonitorData new api s req w = (case monitor_getClient new s of
     (Inl e, s') \<Rightarrow> (Inl e, s', w)
   | (Inr cli, s') \<Rightarrow> (case GetMonitorDataWithRetry api s' cli req w of (r, w') \<Rightarrow> (r, s', w')))"

definition PutMonitorData ::
    "(made_client \<Rightarrow> sdk_error option) \<Rightarrow> ('bq, 'bs, 'gq, 'gs, 'pq, 'ps, 'w) monitor_api \<Rightarrow>
     QCloudMonitorClient \<Rightarrow> 'pq \<Rightarrow> 'w \<Rightarrow> (sdk_error + 'ps) \<times> QCloudMonitorClient \<times> 'w" where
  "PutMonitorData new api s req w = (case monitor_getClient new s of
     (Inl e, s') \<Rightarrow> (Inl e, s', w)
   | (Inr cli, s') \<Rightarrow> (case PutMonitorDataWithRetry api s' cli req w of (r, w') \<Rightarrow> (r, s', w')))"

definition monitor_DescribeStatisticData ::
    "(made_client \<Rightarrow> sdk_error option) \<Rightarrow> ('bq, 'bs, 'gq, 'gs, 'pq, 'ps, 'w) monitor_api \<Rightarrow>
     QCloudMonitorClient \<Rightarrow> GetDataParam \<Rightarrow> 'w \<Rightarrow> (sdk_error + GetDataResult) \<times> QCloudMonitorClient \<times> 'w" where
  "monitor_DescribeStatisticData new api s p w = (case monitor_getClient new s of
     (Inl e, s') \<Rightarrow> (Inl e, s', w)
   | (Inr cli, s') \<Rightarrow>
       (case monitor_retry (ApiRand api) s' (ApiStatisticData api cli (Convert2SDKRequest p)) w of
          (Inl e, w') \<Rightarrow> (Inl e, s', w')
        | (Inr resp, w') \<Rightarrow> (Inr (result_of p resp), s', w')))"

section \<open>Requests and points\<close>

record PutDataParam =
  PutMetrics :: "MetricDatum list"
  AnnounceIp :: string
  AnnounceTimestamp :: int
  AnnounceInstance :: string

record QueryConditions =
  QConditions :: "MidQueryCondition list"

record DescDimensionValueReq =
  DModule :: string
  DNamespace :: string
  ViewName :: string
  DimensionKey :: string
  DConditions :: "MidQueryCondition list"
  DStartTime :: int
  DEndTime :: int
  QueryRegion :: string

definition Dimensions2Map :: "MetricDataPoint \<Rightarrow> (string, string) gomap" where
  "Dimensions2Map p = foldl (\<lambda>m d. mput (DimName d) (DimValue d) m) [] (Dimensions p)"

definition Dimensions2List :: "MetricDataPoint \<Rightarrow> Dimension list" where
  "Dimensions2List p = Dimensions p"

definition SetTimeRange ::
    "(int \<Rightarrow> string) \<Rightarrow> int \<Rightarrow> int \<Rightarrow> int \<Rightarrow> GetDataParam \<Rightarrow> GetDataParam" where
  "SetTimeRange rfc3339 startTime endTime period p = p
     \<lparr>StartTime := rfc3339 startTime, EndTime := rfc3339 endTime, Period := period_of period\<rparr>"

definition NewQueryConditions :: QueryConditions where
  "NewQueryConditions = \<lparr>QConditions = []\<rparr>"

definition qc_AppendCondition :: "string \<Rightarrow> string \<Rightarrow> string list \<Rightarrow> QueryConditions \<Rightarrow> QueryConditions" where
  "qc_AppendCondition key op value qc =
     qc\<lparr>QConditions := QConditions qc @ [\<lparr>CondKey = key, Operator = op, CondValue = value\<rparr>]\<rparr>"

text \<open>The SDK's conditions, which point to the strings of these.\<close>

definition ToMidQueryConditions :: "QueryConditions \<Rightarrow> MidQueryCondition list" where
  "ToMidQueryConditions qc = map (\<lambda>c. \<lparr>CondKey = CondKey c, Operator = Operator c,
     CondValue = map (\<lambda>v. v) (CondValue c)\<rparr>) (QConditions qc)"

definition ddv_AppendCondition ::
    "string \<Rightarrow> string \<Rightarrow> string list \<Rightarrow> DescDimensionValueReq \<Rightarrow> DescDimensionValueReq" where
  "ddv_AppendCondition key op value r =
     r\<lparr>DConditions := DConditions r @ [\<lparr>CondKey = key, Operator = op, CondValue = value\<rparr>]\<rparr>"

section \<open>The state of the client\<close>

lemmas monitor_defs = monitor_UpdateCredential_def monitor_UpdateCred_def
  monitor_UpdateCustomCredential_def monitor_EnableDebug_def Let_def

lemma monitor_getClient_eq:
  "monitor_getClient new s = (case MonClient s of
     Some m \<Rightarrow> (Inr m, s)
   | None \<Rightarrow> (let m = make_client ''monitor'' (ConfigRegion (MonConfig s)) (MonConfig s)
       in case new m of Some e \<Rightarrow> (Inl e, s) | None \<Rightarrow> (Inr m, s\<lparr>MonClient := Some m\<rparr>)))"
  by (cases s) (auto simp: monitor_getClient_def getClient_def Let_def split: option.split)

text \<open>What can happen to a client, whichever of its calls come in which order.\<close>

inductive monitor_step ::
    "(made_client \<Rightarrow> 'e option) \<Rightarrow> QCloudMonitorClient \<Rightarrow> QCloudMonitorClient \<Rightarrow> bool" for new where
  call: "monitor_step new s (snd (monitor_getClient new s))"
| credential: "monitor_step new s (monitor_UpdateCredential cred s)"
| cred: "monitor_step new s (monitor_UpdateCred cred s)"
| custom: "monitor_step new s (monitor_UpdateCustomCredential i k s)"
| debug: "monitor_step new s (snd (monitor_EnableDebug s))"

lemma monitor_step_keeps:
  assumes "monitor_step new s t"
  shows "(MonClient s = Some m \<longrightarrow> MonClient t = Some m) \<and>
    QCloudClientConfig.DefaultRetryCnt (MonConfig t) = QCloudClientConfig.DefaultRetryCnt (MonConfig s)"
  using assms
  by (cases rule: monitor_step.cases) (auto simp: monitor_defs monitor_getClient_eq split: option.splits)

lemma monitor_steps_keep:
  assumes "(monitor_step new)\<^sup>*\<^sup>* s t"
  shows "(MonClient s = Some m \<longrightarrow> MonClient t = Some m) \<and>
    QCloudClientConfig.DefaultRetryCnt (MonConfig t) = QCloudClientConfig.DefaultRetryCnt (MonConfig s)"
  using assms by (induction rule: rtranclp_induct) (auto dest: monitor_step_keeps)

text \<open>
  The remote call that the data source makes is the one of \<open>QMonitor\<close>, by the SDK client of the
  state and with the configured number of retries; the state keeps that client.
\<close>

theorem monitor_call_refines:
  "monitor_DescribeStatisticData new api s p w =
     (case monitor_getClient new s of (r, s') \<Rightarrow>
        case DescribeStatisticData \<lparr>MonClientError = (case r of Inl e \<Rightarrow> Some e | Inr cli \<Rightarrow> None),
            StatisticData = (case r of Inl e \<Rightarrow> (\<lambda>p w. (Inl e, w)) | Inr cli \<Rightarrow> ApiStatisticData api cli),
            MonRetryCnt = QCloudClientConfig.DefaultRetryCnt (MonConfig s), MonRand = ApiRand api\<rparr> p w of
          (x, w') \<Rightarrow> (x, s', w'))"
proof -
  have "QCloudClientConfig.DefaultRetryCnt (MonConfig (snd (monitor_getClient new s))) =
      QCloudClientConfig.DefaultRetryCnt (MonConfig s)"
    by (simp add: monitor_getClient_eq Let_def split: option.split)
  then show ?thesis
    by (cases "monitor_getClient new s"; cases "fst (monitor_getClient new s)")
       (simp_all add: monitor_DescribeStatisticData_def DescribeStatisticData_def
         DescribeStatisticDataWithRetry_def monitor_retry_def split: sum.split prod.split)
qed

text \<open>
  A call signs with the credentials of the first call: it is tried by the SDK client that the
  first one made, whatever has been updated since, and answers what the first of its attempts that does
  not fail answers, of at most one more than the configured retries.
\<close>

theorem monitor_calls_go_stale:
  assumes "(monitor_step new)\<^sup>*\<^sup>* s t" "MonClient s = Some m"
  shows "(fst (GetMonitorData new api t req w) = Inr r \<longleftrightarrow>
      (\<exists>k \<le> nat (QCloudClientConfig.DefaultRetryCnt (MonConfig s)).
         attempt (ApiGetMonitorData api m req) k w = Inr r \<and>
         (\<forall>j < k. isl (attempt (ApiGetMonitorData api m req) j w)))) \<and>
    fst (snd (GetMonitorData new api t req w)) = t"
proof -
  from monitor_steps_keep [OF assms(1), of m] assms(2)
  have t: "MonClient t = Some m" "QCloudClientConfig.DefaultRetryCnt (MonConfig t) =
      QCloudClientConfig.DefaultRetryCnt (MonConfig s)" by simp_all
  then have get: "monitor_getClient new t = (Inr m, t)" by (simp add: monitor_getClient_eq)
  let ?f = "ApiGetMonitorData api m req"
  obtain x slept w' where x: "ExponentialRetryCall (ApiRand api)
      (QCloudClientConfig.DefaultRetryCnt (MonConfig s)) ?f w = (x, slept, w')"
    by (metis prod_cases3)
  have "GetMonitorData new api t req w = (x, t, w')"
    by (simp add: GetMonitorData_def GetMonitorDataWithRetry_def monitor_retry_def get t(2) x)
  with ExponentialRetryCall_first_success [of "ApiRand api"
      "QCloudClientConfig.DefaultRetryCnt (MonConfig s)" ?f w r]
  show ?thesis by (simp add: x)
qed

text \<open>A client made before its secret changes: the later call still goes through the first one.\<close>

definition example_api :: "(unit, unit, unit, string, unit, unit, unit) monitor_api" where
  "example_api = \<lparr>ApiRand = (\<lambda>i. 4), DescribeBaseMetrics = (\<lambda>m q w. (Inr (), w)),
     ApiGetMonitorData = (\<lambda>m q w. (Inr (CredSecretKey (MadeCred m)), w)),
     ApiPutMonitorData = (\<lambda>m q w. (Inr (), w)), ApiStatisticData = (\<lambda>m q w. (Inr None, w))\<rparr>"

definition example_monitor_state :: QCloudMonitorClient where
  "example_monitor_state = snd (monitor_getClient (\<lambda>m. None :: sdk_error option)
     (NewQCloudMonitorClient example_client_config))"

theorem monitor_calls_go_stale_witness:
  "fst (GetMonitorData (\<lambda>m. None) example_api
     (monitor_UpdateCustomCredential ''id'' ''new'' example_monitor_state) () ()) = Inr ''old''"
proof -
  let ?s = example_monitor_state
  let ?m = "make_client ''monitor'' ''ap-guangzhou'' example_client_config"
  have s: "MonClient ?s = Some ?m"
    by (simp add: example_monitor_state_def monitor_getClient_eq NewQCloudMonitorClient_def Let_def)
       (simp add: example_client_config_def)
  have "CredSecretKey (MadeCred ?m) = ''old''"
    by (simp add: make_client_def example_client_config_def GetQCloudCredential_def NewQCloudCredential_def)
  then have "attempt (ApiGetMonitorData example_api ?m ()) 0 () = Inr ''old''"
    by (simp add: example_api_def)
  then have ex: "\<exists>k \<le> nat (QCloudClientConfig.DefaultRetryCnt (MonConfig ?s)).
      attempt (ApiGetMonitorData example_api ?m ()) k () = Inr ''old'' \<and>
      (\<forall>j < k. isl (attempt (ApiGetMonitorData example_api ?m ()) j ()))" by (intro exI [of _ 0]) simp
  have "(monitor_step (\<lambda>m. None :: sdk_error option))\<^sup>*\<^sup>* ?s (monitor_UpdateCustomCredential ''id'' ''new'' ?s)"
    by (rule r_into_rtranclp) (rule monitor_step.custom)
  from monitor_calls_go_stale [OF this s, of example_api "()" "()" "''old''"] ex show ?thesis by blast
qed

section \<open>Requests and points\<close>

text \<open>The map of the dimensions has each name once, with the value of its last dimension.\<close>

lemma Dimensions2Map_last:
  "mget (Dimensions2Map p) n = map_option DimValue (find (\<lambda>d. DimName d = n) (rev (Dimensions2List p)))"
proof -
  have "mget (foldl (\<lambda>m d. mput (DimName d) (DimValue d) m) [] ds) n =
      map_option DimValue (find (\<lambda>d. DimName d = n) (rev ds))" for ds
    by (induction ds rule: rev_induct) (simp_all add: mget_put)
  then show ?thesis by (simp add: Dimensions2Map_def Dimensions2List_def)
qed

text \<open>
  What reaches the service of a request that is built step by step: the times and the period set last, every
  condition in the order in which it was appended, and no group.
\<close>

lemma built_request:
  "Convert2SDKRequest (AppendCondition key op value (SetTimeRange rfc3339 st en d p)) =
     p\<lparr>Conditions := Conditions p @ [\<lparr>CondKey = key, Operator = op, CondValue = value\<rparr>],
       Period := period_of d, StartTime := rfc3339 st, EndTime := rfc3339 en, GroupBys := []\<rparr>"
  by (simp add: Convert2SDKRequest_def AppendCondition_def SetTimeRange_def)

lemma ToMidQueryConditions_all: "ToMidQueryConditions qc = QConditions qc"
  by (auto simp: ToMidQueryConditions_def intro!: map_idI)

section \<open>The data source's provider\<close>

text \<open>
  \<open>NewProvider\<close> of \<open>pkg/datasource-providers/qcloudmonitor/qcloudmonitor.go\<close>. Its configuration has the fields of the
  cloud's; the step is in nanoseconds.
\<close>

type_synonym QCloudMonitorConfig = CloudConfig

record qcloudmonitor =
  cmClient :: QCloudMonitorClient
  qmStep :: int

definition DefaultStep :: int where
  "DefaultStep = 60000000000"

definition qm_NewProvider :: "QCloudMonitorConfig \<Rightarrow> qcloudmonitor" where
  "qm_NewProvider cfg = \<lparr>cmClient = NewQCloudMonitorClient
     \<lparr>ConfigDebug = Debug cfg, ConfigLimit = DefaultLimit cfg, ConfigLanguage = DefaultLanguage cfg,
      ConfigTimeout = int64 (DefaultTimeoutSeconds cfg * 1000000000), ConfigRegion = ProfileRegion cfg,
      ConfigDomainSuffix = DomainSuffix cfg, ConfigScheme = Scheme cfg, DefaultRetryCnt = 3,
      Credential = NewQCloudCredential (SecretId cfg) (SecretKey cfg)\<rparr>, qmStep = DefaultStep\<rparr>"

definition qm_Name :: string where
  "qm_Name = ''qcloudmonitor''"

definition qm_EnableDebug :: "qcloudmonitor \<Rightarrow> qcloudmonitor" where
  "qm_EnableDebug qm = qm\<lparr>cmClient := snd (monitor_EnableDebug (cmClient qm))\<rparr>"

text \<open>
  The first call of a new provider makes a client with the secrets, the region and the host of its
  configuration, unlike the cloud's without a search for the region; every later one goes through it.
\<close>

theorem provider_client:
  assumes "fst (monitor_getClient new (cmClient (qm_NewProvider cfg))) = Inr m"
  shows "MadeCred m = \<lparr>CredSecretId = SecretId cfg, CredSecretKey = SecretKey cfg, CredToken = []\<rparr> \<and>
    MadeRegion m = ProfileRegion cfg \<and> MadeEndpoint m = ''monitor.'' @ DomainSuffix cfg \<and> MadeScheme m = Scheme cfg \<and>
    ((monitor_step new)\<^sup>*\<^sup>* (snd (monitor_getClient new (cmClient (qm_NewProvider cfg)))) t \<longrightarrow>
       monitor_getClient new t = (Inr m, t))"
proof -
  let ?s = "cmClient (qm_NewProvider cfg)"
  from assms have m: "m = make_client ''monitor'' (ProfileRegion cfg) (MonConfig ?s)"
    "MonClient (snd (monitor_getClient new ?s)) = Some m"
    by (auto simp: monitor_getClient_eq qm_NewProvider_def NewQCloudMonitorClient_def Let_def split: option.splits)
  have "monitor_getClient new t = (Inr m, t)" if "(monitor_step new)\<^sup>*\<^sup>* (snd (monitor_getClient new ?s)) t"
    using monitor_steps_keep [OF that, of m] m(2) by (simp add: monitor_getClient_eq)
  then show ?thesis
    by (simp add: m(1) make_client_def sdk_domain_def qm_NewProvider_def NewQCloudMonitorClient_def
        GetQCloudCredential_def NewQCloudCredential_def)
qed

theorem provider_client_witness:
  "\<exists>m. fst (monitor_getClient (\<lambda>m. None :: sdk_error option) (cmClient (qm_NewProvider plain_file))) = Inr m \<and>
     MadeEndpoint m = ''monitor.'' @ DomainSuffix plain_file"
proof -
  let ?s = "cmClient (qm_NewProvider plain_file)"
  obtain m where m: "fst (monitor_getClient (\<lambda>m. None :: sdk_error option) ?s) = Inr m"
    by (simp add: monitor_getClient_eq qm_NewProvider_def NewQCloudMonitorClient_def Let_def)
  from provider_client [OF m] m show ?thesis by blast
qed

end
