(* ===== verification/Metric_Server.thy ===== *)
theory Metric_Server
  imports Prom_Provider
begin

text \<open>
  The metrics server as a data source: the client of
  \<open>pkg/datasource-providers/metricserver/rest_metric_client.go\<close> and the provider of \<open>metricserver.go\<close>.
  The three metrics APIs of Kubernetes are parameters, functions of what they are asked for. A time is
  in nanoseconds since 1970. A nil dereference is \<open>None\<close>.
\<close>

section \<open>What the metrics APIs answer\<close>

record 'q container_metrics =
  MetricsContainer :: string
  ContainerUsage :: "(string, 'q) gomap"

record 'q pod_metrics =
  PodTimestamp :: int
  PodWindow :: int
  PodContainers :: "'q container_metrics list"

record 'q node_metrics =
  NodeTimestamp :: int
  NodeWindow :: int
  NodeUsage :: "(string, 'q) gomap"

text \<open>A value of the custom or the external API; the code reads its time only.\<close>

record 'v api_value =
  ApiTimestamp :: int
  ApiValue :: 'v

text \<open>
  The resource API lists the pods of a namespace that a selector's string matches, or gets one pod or
  one node. The custom API is given the namespace, the selector of the objects, the metric's name and
  the selector of the metric; the external API the namespace, the name and the selector.
\<close>

record ('q, 's, 'v, 'u, 'e) metrics_apis =
  ListPodMetrics :: "string \<Rightarrow> string \<Rightarrow> 'e + 'q pod_metrics list"
  GetPodMetrics :: "string \<Rightarrow> string \<Rightarrow> 'e + 'q pod_metrics"
  GetNodeMetrics :: "string \<Rightarrow> 'e + 'q node_metrics"
  GetForObjects :: "string \<Rightarrow> 's option \<Rightarrow> string \<Rightarrow> 's option \<Rightarrow> 'e + 'v api_value list"
  ListExternal :: "string \<Rightarrow> string \<Rightarrow> 's option \<Rightarrow> 'e + 'u api_value list"

datatype 'e server_error = NilMetric | NilInfo metric_type | Unsupported metric_type |
  UnknownMetric string | UnknownMetricType metric_type | FetchFailed 'e | NoMetrics

section \<open>Values\<close>

record ResourceMetric =
  RMTimestamp :: int
  RMWindow :: int
  RMValue :: float64
  RMLabels :: "(string \<times> string) list"

text \<open>\<open>float64(total) / 1000.\<close> of an \<open>int64\<close>.\<close>

definition milli_float :: "int \<Rightarrow> float64" where
  "milli_float t = float_of_int t / float_of_int 1000"

definition add_usage ::
    "'q quantity_ops \<Rightarrow> string \<Rightarrow> (string, 'q) gomap \<Rightarrow> int \<Rightarrow> int" where
  "add_usage ops resource usage t = (case mget usage resource of
     None \<Rightarrow> t
   | Some q \<Rightarrow> int64 (t + QMilliValue ops q))"

text \<open>The body of the inner loop: the total goes on from one pod to the next.\<close>

definition container_step ::
    "'q quantity_ops \<Rightarrow> string \<Rightarrow> string \<Rightarrow> 'q pod_metrics \<Rightarrow> 'q container_metrics \<Rightarrow>
     ResourceMetric list \<times> int \<Rightarrow> ResourceMetric list \<times> int" where
  "container_step ops resource container p c = (\<lambda>(out, sum0).
     if MetricsContainer c \<noteq> container then (out, sum0)
     else let t = add_usage ops resource (ContainerUsage c) sum0
          in (out @ [\<lparr>RMTimestamp = PodTimestamp p, RMWindow = PodWindow p, RMValue = milli_float t,
                RMLabels = []\<rparr>], t))"

text \<open>The zero time is the start of the first year.\<close>

definition zero_time :: int where
  "zero_time = - 62135596800 * 1000000000"

fun last_pod_time :: "'q pod_metrics list \<Rightarrow> int" where
  "last_pod_time [] = zero_time"
| "last_pod_time (p # ps) = PodTimestamp (last (p # ps))"

definition getContainerMetrics ::
    "'q quantity_ops \<Rightarrow> string \<Rightarrow> 'q pod_metrics list \<Rightarrow> string \<Rightarrow> ResourceMetric list \<times> int" where
  "getContainerMetrics ops resource pods container =
     (fst (fold (\<lambda>p. fold (container_step ops resource container p) (PodContainers p)) pods ([], 0)),
      last_pod_time pods)"

definition pod_total :: "'q quantity_ops \<Rightarrow> string \<Rightarrow> 'q pod_metrics \<Rightarrow> int \<Rightarrow> int" where
  "pod_total ops resource p = fold (\<lambda>c. add_usage ops resource (ContainerUsage c)) (PodContainers p)"

definition getPodMetrics ::
    "'q quantity_ops \<Rightarrow> string \<Rightarrow> 'q pod_metrics \<Rightarrow> ResourceMetric list \<times> int" where
  "getPodMetrics ops resource p =
     ([\<lparr>RMTimestamp = PodTimestamp p, RMWindow = PodWindow p,
        RMValue = milli_float (pod_total ops resource p 0), RMLabels = []\<rparr>], PodTimestamp p)"

definition getWorkloadMetrics ::
    "'q quantity_ops \<Rightarrow> string \<Rightarrow> 'q pod_metrics list \<Rightarrow> ResourceMetric list \<times> int" where
  "getWorkloadMetrics ops resource pods =
     (let t = fold (pod_total ops resource) pods 0;
          window = (case pods of [] \<Rightarrow> 0 | p # ps \<Rightarrow> PodWindow (last pods))
      in ([\<lparr>RMTimestamp = last_pod_time pods, RMWindow = window, RMValue = milli_float t,
            RMLabels = []\<rparr>], last_pod_time pods))"

definition getNodeMetrics ::
    "'q quantity_ops \<Rightarrow> string \<Rightarrow> 'q node_metrics \<Rightarrow> ResourceMetric list \<times> int" where
  "getNodeMetrics ops resource n =
     ([\<lparr>RMTimestamp = NodeTimestamp n, RMWindow = NodeWindow n,
        RMValue = milli_float (add_usage ops resource (NodeUsage n) 0), RMLabels = []\<rparr>], NodeTimestamp n)"

section \<open>The resource metrics client\<close>

type_synonym 'e resource_answer = "'e server_error + (ResourceMetric list \<times> int)"

text \<open>A list that is refused, empty, or made into values.\<close>

definition listed ::
    "'e + 'a list \<Rightarrow> ('a list \<Rightarrow> 'b) \<Rightarrow> 'e server_error + 'b" where
  "listed got f = (case got of
     Inl e \<Rightarrow> Inl (FetchFailed e)
   | Inr xs \<Rightarrow> if xs = [] then Inl NoMetrics else Inr (f xs))"

definition fetched :: "'e + 'a \<Rightarrow> ('a \<Rightarrow> 'b) \<Rightarrow> 'e server_error + 'b" where
  "fetched got f = (case got of
     Inl e \<Rightarrow> Inl (FetchFailed e)
   | Inr x \<Rightarrow> Inr (f x))"

definition ms_workloadMetric ::
    "('s, 'r) selector_ops \<Rightarrow> 'q quantity_ops \<Rightarrow> ('q, 's, 'v, 'u, 'e) metrics_apis \<Rightarrow> 's metric \<Rightarrow>
     'e resource_answer" where
  "ms_workloadMetric sops ops c m = (case Workload m of
     None \<Rightarrow> Inl (NilInfo WorkloadMetricType)
   | Some w \<Rightarrow> listed (ListPodMetrics c (WNamespace w) (selector_string sops (WSelector w)))
       (getWorkloadMetrics ops (MetricName m)))"

definition ms_containerMetric ::
    "('s, 'r) selector_ops \<Rightarrow> 'q quantity_ops \<Rightarrow> ('q, 's, 'v, 'u, 'e) metrics_apis \<Rightarrow> 's metric \<Rightarrow>
     'e resource_answer" where
  "ms_containerMetric sops ops c m = (case Container m of
     None \<Rightarrow> Inl (NilInfo ContainerMetricType)
   | Some x \<Rightarrow> listed (ListPodMetrics c (CNamespace x) (selector_string sops (CSelector x)))
       (\<lambda>pods. getContainerMetrics ops (MetricName m) pods (CContainerName x)))"

definition ms_podMetric ::
    "'q quantity_ops \<Rightarrow> ('q, 's, 'v, 'u, 'e) metrics_apis \<Rightarrow> 's metric \<Rightarrow> 'e resource_answer" where
  "ms_podMetric ops c m = (case Pod m of
     None \<Rightarrow> Inl (NilInfo PodMetricType)
   | Some p \<Rightarrow> fetched (GetPodMetrics c (PNamespace p) (PName p)) (getPodMetrics ops (MetricName m)))"

definition ms_nodeMetric ::
    "'q quantity_ops \<Rightarrow> ('q, 's, 'v, 'u, 'e) metrics_apis \<Rightarrow> 's metric \<Rightarrow> 'e resource_answer" where
  "ms_nodeMetric ops c m = (case Node m of
     None \<Rightarrow> Inl (NilInfo NodeMetricType)
   | Some n \<Rightarrow> fetched (GetNodeMetrics c (NName n)) (getNodeMetrics ops (MetricName m)))"

definition GetResourceMetric ::
    "('s, 'r) selector_ops \<Rightarrow> 'q quantity_ops \<Rightarrow> ('q, 's, 'v, 'u, 'e) metrics_apis \<Rightarrow> 's metric \<Rightarrow>
     'e resource_answer" where
  "GetResourceMetric sops ops c m = (case Type m of
     PodMetricType \<Rightarrow> ms_podMetric ops c m
   | WorkloadMetricType \<Rightarrow> ms_workloadMetric sops ops c m
   | ContainerMetricType \<Rightarrow> ms_containerMetric sops ops c m
   | NodeMetricType \<Rightarrow> ms_nodeMetric ops c m
   | PromQLMetricType \<Rightarrow> Inl (Unsupported PromQLMetricType)
   | OtherMetricType t \<Rightarrow> Inl (UnknownMetric (MetricName m)))"

text \<open>Each series has one sample, at the time of the answer in whole seconds.\<close>

definition convertResourceMetric2TimeSeries :: "ResourceMetric list \<Rightarrow> int \<Rightarrow> time_series list" where
  "convertResourceMetric2TimeSeries info timestamp = map (\<lambda>v.
     \<lparr>Labels = RMLabels v, Samples = [\<lparr>Timestamp = timestamp div 1000000000, SValue = RMValue v\<rparr>]\<rparr>) info"

definition GetMetricValue ::
    "('s, 'r) selector_ops \<Rightarrow> 'q quantity_ops \<Rightarrow> ('q, 's, 'v, 'u, 'e) metrics_apis \<Rightarrow> 's metric option \<Rightarrow>
     'e server_error + time_series list" where
  "GetMetricValue sops ops c metric = (case metric of
     None \<Rightarrow> Inl NilMetric
   | Some m \<Rightarrow>
       if Type m \<in> {PodMetricType, WorkloadMetricType, ContainerMetricType, NodeMetricType}
       then (case GetResourceMetric sops ops c m of
           Inl e \<Rightarrow> Inl e
         | Inr (resource, timestamp) \<Rightarrow> Inr (convertResourceMetric2TimeSeries resource timestamp))
       else if Type m = PromQLMetricType then Inl (Unsupported (Type m))
       else Inl (UnknownMetricType (Type m)))"

section \<open>The custom and the external metrics clients\<close>

definition GetObjectMetric ::
    "('q, 's, 'v, 'u, 'e) metrics_apis \<Rightarrow> 's metric \<Rightarrow> ('e server_error + 'v api_value \<times> int) option" where
  "GetObjectMetric c m =
     (if Type m \<noteq> PromQLMetricType then Some (Inl (Unsupported (Type m)))
      else map_option (\<lambda>p. listed (GetForObjects c (QNamespace p) (QSelector p) (MetricName m) (QSelector p))
        (\<lambda>vs. (hd vs, ApiTimestamp (hd vs)))) (Prom m))"

definition GetExternalMetric ::
    "('q, 's, 'v, 'u, 'e) metrics_apis \<Rightarrow> 's metric \<Rightarrow> ('e server_error + 'u api_value \<times> int) option" where
  "GetExternalMetric c m =
     (if Type m \<noteq> PromQLMetricType then Some (Inl (Unsupported (Type m)))
      else map_option (\<lambda>p. listed (ListExternal c (QNamespace p) (MetricName m) (QSelector p))
        (\<lambda>vs. (hd vs, ApiTimestamp (hd vs)))) (Prom m))"

section \<open>The provider\<close>

definition ms_QueryLatestTimeSeries ::
    "('s, 'r) selector_ops \<Rightarrow> 'q quantity_ops \<Rightarrow> 's factories \<Rightarrow> ('q, 's, 'v, 'u, 'e) metrics_apis \<Rightarrow>
     's metric \<Rightarrow> (metric_error + ('e server_error + time_series list)) option" where
  "ms_QueryLatestTimeSeries sops ops fs c m = (case Builder fs m MetricServerMetricSource of
     None \<Rightarrow> None
   | Some build \<Rightarrow> (case build False of
       Inl e \<Rightarrow> Some (Inl e)
     | Inr q \<Rightarrow> Some (Inr (GetMetricValue sops ops c (MetricServer q)))))"

section \<open>What the values are\<close>

text \<open>The usage of one container, zero when it reports none, and of the containers of some pods.\<close>

definition usage_of :: "'q quantity_ops \<Rightarrow> string \<Rightarrow> 'q container_metrics \<Rightarrow> int" where
  "usage_of ops resource c = (case mget (ContainerUsage c) resource of None \<Rightarrow> 0 | Some q \<Rightarrow> QMilliValue ops q)"

definition usages :: "'q quantity_ops \<Rightarrow> string \<Rightarrow> ('q container_metrics \<Rightarrow> bool) \<Rightarrow> 'q pod_metrics list \<Rightarrow>
    int list" where
  "usages ops resource P pods = map (usage_of ops resource) (filter P (concat (map PodContainers pods)))"

definition one_value :: "int \<Rightarrow> int \<Rightarrow> time_series" where
  "one_value ns milli = \<lparr>Labels = [],
     Samples = [\<lparr>Timestamp = ns div 1000000000, SValue = milli_float (int64 milli)\<rparr>]\<rparr>"

lemma int64_add: "int64 (int64 a + b) = int64 (a + b)"
proof -
  have "int64 a + b + 2^63 = (a + 2^63) mod 2^64 + b" by (simp add: int64_def)
  then show ?thesis unfolding int64_def [of "int64 a + b"] int64_def [of "a + b"]
    by (simp only: mod_add_left_eq) (simp add: algebra_simps)
qed

lemma int64_zero [simp]: "int64 0 = 0"
  by (simp add: int64_def)

lemma add_usage_int64: "add_usage ops resource (ContainerUsage c) (int64 t) = int64 (t + usage_of ops resource c)"
  by (simp add: add_usage_def usage_of_def int64_add split: option.split)

lemma pod_total_int64:
  "pod_total ops resource p (int64 t) = int64 (t + sum_list (usages ops resource (\<lambda>c. True) [p]))"
proof -
  have "fold (\<lambda>c. add_usage ops resource (ContainerUsage c)) cs (int64 t) =
      int64 (t + sum_list (map (usage_of ops resource) cs))" for cs t
    by (induction cs arbitrary: t) (simp_all add: add_usage_int64 add.assoc)
  then show ?thesis by (simp add: pod_total_def usages_def)
qed

lemma usages_Cons: "usages ops resource P (p # ps) = usages ops resource P [p] @ usages ops resource P ps"
  by (simp add: usages_def)

lemma workload_total_int64:
  "fold (pod_total ops resource) pods (int64 t) = int64 (t + sum_list (usages ops resource (\<lambda>c. True) pods))"
proof (induction pods arbitrary: t)
  case (Cons p ps)
  then show ?case by (simp add: pod_total_int64 usages_Cons [of _ _ _ p ps] add.assoc)
qed (simp add: usages_def)

text \<open>The labels and values that the container loop appends.\<close>

fun running :: "int \<Rightarrow> int list \<Rightarrow> float64 list" where
  "running t [] = []"
| "running t (u # us) = milli_float (int64 (t + u)) # running (t + u) us"

lemma running_append: "running t (us @ vs) = running t us @ running (t + sum_list us) vs"
  by (induction us arbitrary: t) (simp_all add: add.assoc)

lemma running_take:
  "running t us = map (\<lambda>k. milli_float (int64 (t + sum_list (take (Suc k) us)))) [0..<length us]"
proof (induction us arbitrary: t)
  case (Cons u us)
  then show ?case
    by (simp add: upt_conv_Cons map_Suc_upt [symmetric] comp_def add.assoc del: upt_Suc)
qed simp

abbreviation values_of :: "ResourceMetric list \<Rightarrow> ((string \<times> string) list \<times> float64) list" where
  "values_of rs \<equiv> map (\<lambda>r. (RMLabels r, RMValue r)) rs"

lemma container_step_simps:
  "MetricsContainer c = name \<Longrightarrow> container_step ops resource name p c (out, int64 t) =
     (out @ [\<lparr>RMTimestamp = PodTimestamp p, RMWindow = PodWindow p,
        RMValue = milli_float (int64 (t + usage_of ops resource c)), RMLabels = []\<rparr>],
      int64 (t + usage_of ops resource c))"
  "MetricsContainer c \<noteq> name \<Longrightarrow> container_step ops resource name p c (out, t) = (out, t)"
  by (simp_all add: container_step_def add_usage_int64 Let_def)

lemma container_inner:
  assumes "fold (container_step ops resource name p) cs (out, int64 t) = (out', total')"
  defines "us \<equiv> map (usage_of ops resource) (filter (\<lambda>c. MetricsContainer c = name) cs)"
  shows "values_of out' = values_of out @ map (Pair []) (running t us) \<and> total' = int64 (t + sum_list us)"
  using assms(1) unfolding us_def
proof (induction cs arbitrary: out t)
  case (Cons c cs)
  show ?case
  proof (cases "MetricsContainer c = name")
    case True
    then have "fold (container_step ops resource name p) cs (out @ [\<lparr>RMTimestamp = PodTimestamp p, RMWindow = PodWindow p,
        RMValue = milli_float (int64 (t + usage_of ops resource c)), RMLabels = []\<rparr>],
        int64 (t + usage_of ops resource c)) = (out', total')"
      using Cons.prems by (simp add: container_step_simps)
    from Cons.IH [OF this] True show ?thesis by (simp add: add.assoc)
  next
    case False
    then have "fold (container_step ops resource name p) cs (out, int64 t) = (out', total')"
      using Cons.prems by (simp add: container_step_simps)
    from Cons.IH [OF this] False show ?thesis by simp
  qed
qed simp

lemma container_outer:
  assumes "fold (\<lambda>p. fold (container_step ops resource name p) (PodContainers p)) pods (out, int64 t) = (out', total')"
  shows "values_of out' = values_of out @
    map (Pair []) (running t (usages ops resource (\<lambda>c. MetricsContainer c = name) pods))"
  using assms
proof (induction pods arbitrary: out t)
  case (Cons p ps)
  obtain out1 total1 where inner:
    "fold (container_step ops resource name p) (PodContainers p) (out, int64 t) = (out1, total1)" by fastforce
  note one = container_inner [OF inner]
  with Cons.prems inner have "fold (\<lambda>p. fold (container_step ops resource name p) (PodContainers p)) ps
      (out1, int64 (t + sum_list (usages ops resource (\<lambda>c. MetricsContainer c = name) [p]))) = (out', total')"
    by (simp add: usages_def)
  from Cons.IH [OF this] one show ?case
    by (simp add: usages_Cons [of _ _ _ p ps] running_append) (simp add: usages_def)
qed (simp add: usages_def)

lemma convert_values:
  "convertResourceMetric2TimeSeries rs ns = map (\<lambda>(ls, v).
     \<lparr>Labels = ls, Samples = [\<lparr>Timestamp = ns div 1000000000, SValue = v\<rparr>]\<rparr>) (values_of rs)"
  by (simp add: convertResourceMetric2TimeSeries_def)

lemma registered_ms: "Builder (registered ops) m MetricServerMetricSource = Some (MetricServer_BuildQuery m)"
  by (simp add: registered_def Builder_def GetBuilderFactory_def RegisterBuilderFactory_def)

lemma ms_latest:
  "ms_QueryLatestTimeSeries sops ops (registered sops) c m = Some (Inr (GetMetricValue sops ops c (Some m)))"
  by (simp add: ms_QueryLatestTimeSeries_def registered_ms MetricServer_BuildQuery_def)

text \<open>
  The latest value of a workload, a pod or a node, when the metrics server answers: one series with one sample, whose
  value is the sum of what every container of the pods uses, as a 64-bit number of thousandths, at the
  time of the last pod.
\<close>

theorem latest_totals:
  "(Type m = WorkloadMetricType \<and> Workload m = Some w \<and>
      ListPodMetrics c (WNamespace w) (selector_string sops (WSelector w)) = Inr pods \<and> pods \<noteq> [] \<longrightarrow>
    ms_QueryLatestTimeSeries sops ops (registered sops) c m = Some (Inr (Inr
      [one_value (PodTimestamp (last pods)) (sum_list (usages ops (MetricName m) (\<lambda>c. True) pods))]))) \<and>
   (Type m = NodeMetricType \<and> Metric_Query.Node m = Some n \<and> GetNodeMetrics c (NName n) = Inr node \<longrightarrow>
    ms_QueryLatestTimeSeries sops ops (registered sops) c m = Some (Inr (Inr
      [one_value (NodeTimestamp node) (case mget (NodeUsage node) (MetricName m) of
         None \<Rightarrow> 0 | Some q \<Rightarrow> QMilliValue ops q)]))) \<and>
   (Type m = PodMetricType \<and> Metric_Query.Pod m = Some p \<and>
      GetPodMetrics c (PNamespace p) (PName p) = Inr pod \<longrightarrow>
    ms_QueryLatestTimeSeries sops ops (registered sops) c m = Some (Inr (Inr
      [one_value (PodTimestamp pod) (sum_list (usages ops (MetricName m) (\<lambda>c. True) [pod]))])))"
proof -
  have "last_pod_time ps = PodTimestamp (last ps)" if "ps \<noteq> []" for ps :: "'c pod_metrics list"
    using that by (cases ps) simp_all
  moreover note workload_total_int64 [of ops "MetricName m" pods 0] pod_total_int64 [of ops "MetricName m" pod 0]
  ultimately show ?thesis
    by (simp add: ms_latest GetMetricValue_def GetResourceMetric_def ms_workloadMetric_def ms_podMetric_def
        listed_def fetched_def getWorkloadMetrics_def getPodMetrics_def Let_def
        convertResourceMetric2TimeSeries_def one_value_def ms_nodeMetric_def getNodeMetrics_def add_usage_def
        split: option.split)
qed

text \<open>
  The latest values of a container, when the metrics server answers: one series for each container of
  the name, in the order of the pods. The value of the k-th is the sum of the first k of them, not its
  own usage.
\<close>

theorem container_values_accumulate:
  fixes ops :: "'q quantity_ops"
  assumes "Type m = ContainerMetricType" "Metric_Query.Container m = Some x"
    and "ListPodMetrics c (CNamespace x) (selector_string sops (CSelector x)) = Inr pods" "pods \<noteq> []"
  defines "us \<equiv> usages ops (MetricName m) (\<lambda>c. MetricsContainer c = CContainerName x) pods"
  shows "ms_QueryLatestTimeSeries sops ops (registered sops) c m = Some (Inr (Inr
    (map (\<lambda>k. one_value (PodTimestamp (last pods)) (sum_list (take (Suc k) us))) [0..<length us])))"
proof -
  let ?loop = "fold (\<lambda>p. fold (container_step ops (MetricName m) (CContainerName x) p) (PodContainers p)) pods ([], 0)"
  obtain out t where loop: "?loop = (out, t)" by fastforce
  have "last_pod_time pods = PodTimestamp (last pods)" using assms(4) by (cases pods) simp_all
  then have got: "getContainerMetrics ops (MetricName m) pods (CContainerName x) = (out, PodTimestamp (last pods))"
    by (simp add: getContainerMetrics_def loop)
  have "values_of out = map (Pair []) (running 0 us)"
    using container_outer [of ops "MetricName m" "CContainerName x" pods "[]" 0] loop
    by (simp add: us_def)
  then have "convertResourceMetric2TimeSeries out (PodTimestamp (last pods)) =
      map (\<lambda>k. one_value (PodTimestamp (last pods)) (sum_list (take (Suc k) us))) [0..<length us]"
    by (simp only: convert_values) (simp add: running_take one_value_def)
  with got assms(1-4) show ?thesis
    by (simp add: ms_latest GetMetricValue_def GetResourceMetric_def ms_containerMetric_def listed_def)
qed

section \<open>Examples\<close>

text \<open>Two pods with a container of the name, and a sidecar in the first.\<close>

definition two_pods :: "nat pod_metrics list" where
  "two_pods =
     [\<lparr>PodTimestamp = 1000000000, PodWindow = 0, PodContainers =
        [\<lparr>MetricsContainer = ''app'', ContainerUsage = [(''cpu'', 2)]\<rparr>,
         \<lparr>MetricsContainer = ''sidecar'', ContainerUsage = [(''cpu'', 1)]\<rparr>]\<rparr>,
      \<lparr>PodTimestamp = 2000000000, PodWindow = 0, PodContainers =
        [\<lparr>MetricsContainer = ''app'', ContainerUsage = [(''cpu'', 3)]\<rparr>]\<rparr>]"

definition example_apis ::
    "(nat, (string \<times> string) list, unit, unit, string) metrics_apis" where
  "example_apis = \<lparr>ListPodMetrics = (\<lambda>ns sel. Inr two_pods), GetPodMetrics = (\<lambda>ns name. Inr (hd two_pods)),
     GetNodeMetrics = (\<lambda>name. Inl ''not found''), GetForObjects = (\<lambda>ns sel name msel. Inr []),
     ListExternal = (\<lambda>ns name sel. Inr [])\<rparr>"

definition app_metric :: "(string \<times> string) list metric" where
  "app_metric = ResourceToContainerMetricNamer list_ops ''cls-1'' ''default'' ''web'' ''app'' ''cpu''"

lemma two_pods_simps: "two_pods \<noteq> []" "last two_pods = two_pods ! 1"
  by (simp_all add: two_pods_def)

theorem container_values_accumulate_witness:
  "ms_QueryLatestTimeSeries list_ops nat_ops (registered list_ops) example_apis app_metric = Some (Inr (Inr
     [one_value 2000000000 2000, one_value 2000000000 5000]))"
proof -
  let ?x = "the (Metric_Query.Container app_metric)"
  have m: "Type app_metric = ContainerMetricType" "Metric_Query.Container app_metric = Some ?x"
    "ListPodMetrics example_apis (CNamespace ?x) (selector_string list_ops (CSelector ?x)) = Inr two_pods"
    by (simp_all add: app_metric_def ResourceToContainerMetricNamer_def container_metric_def empty_metric_def
        example_apis_def)
  have us: "usages nat_ops (MetricName app_metric) (\<lambda>c. MetricsContainer c = CContainerName ?x) two_pods = [2000, 3000]"
    by (simp add: app_metric_def ResourceToContainerMetricNamer_def container_metric_def empty_metric_def
        usages_def usage_of_def two_pods_def nat_ops_def)
  show ?thesis
    using container_values_accumulate [OF m two_pods_simps(1), of nat_ops]
    by (simp only: us) (simp add: upt_rec two_pods_def)
qed

theorem latest_totals_witness:
  "ms_QueryLatestTimeSeries list_ops nat_ops (registered list_ops) example_apis
     (WorkloadMetricNamer list_ops ''cls-1'' example_target ''cpu'' None) =
   Some (Inr (Inr [one_value 2000000000 6000]))"
proof -
  let ?m = "WorkloadMetricNamer list_ops ''cls-1'' example_target ''cpu'' None"
  let ?w = "the (Workload ?m)"
  have m: "Type ?m = WorkloadMetricType \<and> Workload ?m = Some ?w \<and>
      ListPodMetrics example_apis (WNamespace ?w) (selector_string list_ops (WSelector ?w)) = Inr two_pods \<and>
      two_pods \<noteq> []"
    by (simp add: WorkloadMetricNamer_def workload_metric_def empty_metric_def example_apis_def two_pods_simps)
  have us: "usages nat_ops (MetricName ?m) (\<lambda>c. True) two_pods = [2000, 1000, 3000]"
    by (simp add: WorkloadMetricNamer_def workload_metric_def empty_metric_def usages_def usage_of_def
        two_pods_def nat_ops_def)
  show ?thesis
    using latest_totals [THEN conjunct1, THEN mp, OF m, of nat_ops]
    by (simp only: us) (simp add: two_pods_def)
qed

end
