(* ===== verification/Tke_Sdk.thy ===== *)
theory Tke_Sdk
  imports Sdk_Client Qcloud_Spec Go_Json
begin

text \<open>
  The container service's part of Tencent's SDK in the version that the program uses, under
  \<open>staging/src/github.com/tencentcloud/tencentcloud-sdk-go/tencentcloud/tke/v20180525\<close>: its requests and
  responses with their JSON (\<open>models.go\<close>) and the two calls (\<open>client.go\<close>). The common part of the SDK, which is not in the
  repository, is a parameter: \<open>Send\<close> signs a request, sends it and fills the response. The embedded
  \<open>BaseRequest\<close> and \<open>BaseResponse\<close> have no exported field, so they have no part in the JSON.
  What a failed decoding leaves half filled is not shown.
\<close>

section \<open>Decoding into typed fields\<close>

text \<open>The kind of a value where another was expected, with its text for a number of the wrong form.\<close>

datatype json_error = SyntaxError | TypeError string | UnknownKeys string

definition json_kind :: "json \<Rightarrow> string" where
  "json_kind v = (case v of JNull \<Rightarrow> ''null'' | JBool b \<Rightarrow> ''bool'' | JNum t \<Rightarrow> ''number''
     | JStr s \<Rightarrow> ''string'' | JArr vs \<Rightarrow> ''array'' | JObj kvs \<Rightarrow> ''object'')"

definition decode_string :: "json \<Rightarrow> json_error + string" where
  "decode_string v = (case v of JStr s \<Rightarrow> Inr s | _ \<Rightarrow> Inl (TypeError (json_kind v)))"

definition decode_number :: "(string \<Rightarrow> 'a \<times> num_error option) \<Rightarrow> json \<Rightarrow> json_error + 'a" where
  "decode_number parse v = (case v of
     JNum t \<Rightarrow> (case parse t of (x, None) \<Rightarrow> Inr x | (x, Some e) \<Rightarrow> Inl (TypeError (''number '' @ t)))
   | _ \<Rightarrow> Inl (TypeError (json_kind v)))"

text \<open>\<open>strconv.ParseUint(s, 10, 64)\<close>.\<close>

definition ParseUint :: "string \<Rightarrow> int \<times> num_error option" where
  "ParseUint s = (if s = [] then (0, Some ErrSyntax)
     else case parse_digits s 0 of
            None \<Rightarrow> (0, Some ErrSyntax)
          | Some n \<Rightarrow> if 2^64 \<le> n then (2^64 - 1, Some ErrRange) else (n, None))"

text \<open>A pointer, which \<open>null\<close> makes nil, and a list of pointers.\<close>

definition decode_pointer :: "(json \<Rightarrow> json_error + 'a) \<Rightarrow> json \<Rightarrow> json_error + 'a option" where
  "decode_pointer f v = (case v of JNull \<Rightarrow> Inr None
     | _ \<Rightarrow> (case f v of Inl e \<Rightarrow> Inl e | Inr x \<Rightarrow> Inr (Some x)))"

fun decode_all :: "(json \<Rightarrow> json_error + 'a) \<Rightarrow> json list \<Rightarrow> json_error + 'a list" where
  "decode_all f [] = Inr []"
| "decode_all f (v # vs) = (case f v of Inl e \<Rightarrow> Inl e
     | Inr x \<Rightarrow> (case decode_all f vs of Inl e \<Rightarrow> Inl e | Inr xs \<Rightarrow> Inr (x # xs)))"

definition decode_slice :: "(json \<Rightarrow> json_error + 'a) \<Rightarrow> json \<Rightarrow> json_error + 'a list" where
  "decode_slice f v = (case v of JNull \<Rightarrow> Inr [] | JArr vs \<Rightarrow> decode_all f vs
     | _ \<Rightarrow> Inl (TypeError (json_kind v)))"

text \<open>
  The field that a key names: the one of that name, else the first whose name differs in the case of its letters only,
  where \<open>s\<close> and \<open>k\<close> also match the long s and the Kelvin sign.
\<close>

fun fold_eq :: "string \<Rightarrow> string \<Rightarrow> bool" where
  "fold_eq [] t = (t = [])"
| "fold_eq (c # s) t = (case t of [] \<Rightarrow> False | d # r \<Rightarrow>
     if byte d < 0x80 then lower_char c = lower_char d \<and> fold_eq s r
     else (lower_char c = CHR ''s'' \<and> take 2 t = utf8_encode 0x17F \<and> fold_eq s (drop 2 t)) \<or>
          (lower_char c = CHR ''k'' \<and> take 3 t = utf8_encode 0x212A \<and> fold_eq s (drop 3 t)))"

type_synonym 'r setters = "(string \<times> (json \<Rightarrow> 'r \<Rightarrow> json_error + 'r)) list"

definition find_field :: "'r setters \<Rightarrow> string \<Rightarrow> (json \<Rightarrow> 'r \<Rightarrow> json_error + 'r) option" where
  "find_field tab k = (case map_of tab k of Some f \<Rightarrow> Some f
     | None \<Rightarrow> map_option snd (find (\<lambda>(n, f). fold_eq n k) tab))"

fun store_fields :: "'r setters \<Rightarrow> (string \<times> json) list \<Rightarrow> 'r \<Rightarrow> json_error + 'r" where
  "store_fields tab [] r = Inr r"
| "store_fields tab ((k, v) # kvs) r = (case find_field tab k of
     None \<Rightarrow> store_fields tab kvs r
   | Some f \<Rightarrow> (case f v r of Inl e \<Rightarrow> Inl e | Inr r' \<Rightarrow> store_fields tab kvs r'))"

text \<open>A struct from an object; \<open>null\<close> changes nothing.\<close>

definition store_struct :: "'r setters \<Rightarrow> json \<Rightarrow> 'r \<Rightarrow> json_error + 'r" where
  "store_struct tab v r = (case v of JNull \<Rightarrow> Inr r | JObj kvs \<Rightarrow> store_fields tab kvs r
     | _ \<Rightarrow> Inl (TypeError (json_kind v)))"

definition set_field :: "(json \<Rightarrow> json_error + 'a) \<Rightarrow> ('a \<Rightarrow> 'r \<Rightarrow> 'r) \<Rightarrow> json \<Rightarrow> 'r \<Rightarrow> json_error + 'r" where
  "set_field f put v r = (case f v of Inl e \<Rightarrow> Inl e | Inr x \<Rightarrow> Inr (put x r))"

text \<open>The first number in a value that is no \<open>float64\<close>, which a decoding without a type refuses.\<close>

fun bad_number :: "json \<Rightarrow> string option" where
  "bad_number (JNum t) = (if snd (ParseFloat t) = None then None else Some t)"
| "bad_number (JArr vs) = (case filter (\<lambda>b. b \<noteq> None) (map bad_number vs) of [] \<Rightarrow> None | b # bs \<Rightarrow> b)"
| "bad_number (JObj kvs) = (case filter (\<lambda>b. b \<noteq> None) (map (\<lambda>(k, v). bad_number v) kvs) of [] \<Rightarrow> None | b # bs \<Rightarrow> b)"
| "bad_number v = None"

text \<open>
  \<open>FromJsonString\<close> of a request: a first decoding into a map without types, from which the known keys are deleted; a key
  that is left is an error. Then the decoding into the fields.
\<close>

definition request_from_json :: "string \<Rightarrow> 'r setters \<Rightarrow> string \<Rightarrow> 'r \<Rightarrow> json_error + 'r" where
  "request_from_json name tab s r = (case parse_json s of
     None \<Rightarrow> Inl SyntaxError
   | Some v \<Rightarrow> (case v of
       JNull \<Rightarrow> Inr r
     | JObj kvs \<Rightarrow> (case bad_number v of
         Some t \<Rightarrow> Inl (TypeError (''number '' @ t))
       | None \<Rightarrow> if list_all (\<lambda>(k, x). k \<in> set (map fst tab)) kvs then store_struct tab v r
                 else Inl (UnknownKeys (name @ '' has unknown keys!'')))
     | _ \<Rightarrow> Inl (TypeError (json_kind v))))"

definition response_from_json :: "'r setters \<Rightarrow> string \<Rightarrow> 'r \<Rightarrow> json_error + 'r" where
  "response_from_json tab s r = (case parse_json s of None \<Rightarrow> Inl SyntaxError | Some v \<Rightarrow> store_struct tab v r)"

text \<open>\<open>ToJsonString\<close> ignores an error of the encoding, and the text is empty then.\<close>

definition to_json_string :: "string + json \<Rightarrow> string" where
  "to_json_string r = (case marshal_text r of Inl e \<Rightarrow> [] | Inr t \<Rightarrow> t)"

definition opt_int :: "int option \<Rightarrow> (string + json) option" where
  "opt_int x = map_option (Inr \<circ> json_int) x"

section \<open>The requests\<close>

record sdk_price_request =
  PriceCpu :: "float64 option"
  PriceMem :: "float64 option"
  PriceTimeSpan :: "int option"
  PriceGoodsNum :: "int option"
  PriceZone :: "string option"
  PriceType :: "string option"
  PriceGpu :: "float64 option"
  PricePodType :: "string option"

definition NewGetPriceRequest :: sdk_price_request where
  "NewGetPriceRequest = \<lparr>PriceCpu = None, PriceMem = None, PriceTimeSpan = None, PriceGoodsNum = None,
     PriceZone = None, PriceType = None, PriceGpu = None, PricePodType = None\<rparr>"

definition price_request_fields :: "sdk_price_request \<Rightarrow> (string \<times> (string + json) option) list" where
  "price_request_fields r = [(''Cpu'', opt_float (PriceCpu r)), (''Mem'', opt_float (PriceMem r)),
     (''TimeSpan'', opt_int (PriceTimeSpan r)), (''GoodsNum'', opt_int (PriceGoodsNum r)),
     (''Zone'', opt_string (PriceZone r)), (''Type'', opt_string (PriceType r)),
     (''Gpu'', opt_float (PriceGpu r)), (''PodType'', opt_string (PricePodType r))]"

definition price_request_setters :: "sdk_price_request setters" where
  "price_request_setters =
     [(''Cpu'', set_field (decode_pointer (decode_number ParseFloat)) (\<lambda>x. PriceCpu_update (\<lambda>_. x))),
      (''Mem'', set_field (decode_pointer (decode_number ParseFloat)) (\<lambda>x. PriceMem_update (\<lambda>_. x))),
      (''TimeSpan'', set_field (decode_pointer (decode_number ParseUint)) (\<lambda>x. PriceTimeSpan_update (\<lambda>_. x))),
      (''GoodsNum'', set_field (decode_pointer (decode_number ParseUint)) (\<lambda>x. PriceGoodsNum_update (\<lambda>_. x))),
      (''Zone'', set_field (decode_pointer decode_string) (\<lambda>x. PriceZone_update (\<lambda>_. x))),
      (''Type'', set_field (decode_pointer decode_string) (\<lambda>x. PriceType_update (\<lambda>_. x))),
      (''Gpu'', set_field (decode_pointer (decode_number ParseFloat)) (\<lambda>x. PriceGpu_update (\<lambda>_. x))),
      (''PodType'', set_field (decode_pointer decode_string) (\<lambda>x. PricePodType_update (\<lambda>_. x)))]"

definition price_request_ToJsonString :: "sdk_price_request \<Rightarrow> string" where
  "price_request_ToJsonString r = to_json_string (marshal_struct (price_request_fields r))"

definition price_request_FromJsonString :: "string \<Rightarrow> sdk_price_request \<Rightarrow> json_error + sdk_price_request" where
  "price_request_FromJsonString = request_from_json ''GetPriceRequest'' price_request_setters"

record sdk_spec_request =
  SpecType :: "string option"
  SpecRequirements :: "string option list"

definition NewGetPodSpecificationRequest :: sdk_spec_request where
  "NewGetPodSpecificationRequest = \<lparr>SpecType = None, SpecRequirements = []\<rparr>"

definition string_pointer :: "string option \<Rightarrow> json" where
  "string_pointer x = (case x of None \<Rightarrow> JNull | Some s \<Rightarrow> JStr s)"

definition spec_request_fields :: "sdk_spec_request \<Rightarrow> (string \<times> (string + json) option) list" where
  "spec_request_fields r = [(''Type'', opt_string (SpecType r)),
     (''ResourceRequirements'', if SpecRequirements r = [] then None
        else Some (Inr (JArr (map string_pointer (SpecRequirements r)))))]"

definition spec_request_setters :: "sdk_spec_request setters" where
  "spec_request_setters =
     [(''Type'', set_field (decode_pointer decode_string) (\<lambda>x. SpecType_update (\<lambda>_. x))),
      (''ResourceRequirements'',
         set_field (decode_slice (decode_pointer decode_string)) (\<lambda>x. SpecRequirements_update (\<lambda>_. x)))]"

definition spec_request_ToJsonString :: "sdk_spec_request \<Rightarrow> string" where
  "spec_request_ToJsonString r = to_json_string (marshal_struct (spec_request_fields r))"

definition spec_request_FromJsonString :: "string \<Rightarrow> sdk_spec_request \<Rightarrow> json_error + sdk_spec_request" where
  "spec_request_FromJsonString = request_from_json ''GetPodSpecificationRequest'' spec_request_setters"

section \<open>The responses\<close>

text \<open>The fields are those of the struct under \<open>Response\<close>, which may be nil.\<close>

record sdk_price_answer =
  AnswerCost :: "int option"
  AnswerTotalCost :: "int option"
  AnswerRequestId :: "string option"

definition empty_price_answer :: sdk_price_answer where
  "empty_price_answer = \<lparr>AnswerCost = None, AnswerTotalCost = None, AnswerRequestId = None\<rparr>"

definition NewGetPriceResponse :: "sdk_price_answer option" where
  "NewGetPriceResponse = None"

definition price_answer_fields :: "sdk_price_answer \<Rightarrow> (string \<times> (string + json) option) list" where
  "price_answer_fields a = [(''Cost'', opt_int (AnswerCost a)), (''TotalCost'', opt_int (AnswerTotalCost a)),
     (''RequestId'', opt_string (AnswerRequestId a))]"

definition price_answer_setters :: "sdk_price_answer setters" where
  "price_answer_setters =
     [(''Cost'', set_field (decode_pointer (decode_number ParseUint)) (\<lambda>x. AnswerCost_update (\<lambda>_. x))),
      (''TotalCost'', set_field (decode_pointer (decode_number ParseUint)) (\<lambda>x. AnswerTotalCost_update (\<lambda>_. x))),
      (''RequestId'', set_field (decode_pointer decode_string) (\<lambda>x. AnswerRequestId_update (\<lambda>_. x)))]"

text \<open>The struct under \<open>Response\<close>: filled where it is, made when it is nil, nil again for \<open>null\<close>.\<close>

definition response_setters :: "'r setters \<Rightarrow> 'r \<Rightarrow> 'r option setters" where
  "response_setters tab fresh = [(''Response'', \<lambda>v r. case v of JNull \<Rightarrow> Inr None
     | _ \<Rightarrow> (case store_struct tab v (case r of None \<Rightarrow> fresh | Some x \<Rightarrow> x) of
         Inl e \<Rightarrow> Inl e | Inr x \<Rightarrow> Inr (Some x)))]"

definition response_fields ::
    "('r \<Rightarrow> (string \<times> (string + json) option) list) \<Rightarrow> 'r option \<Rightarrow> (string \<times> (string + json) option) list" where
  "response_fields members r = [(''Response'', Some (case r of None \<Rightarrow> Inr JNull
     | Some a \<Rightarrow> marshal_struct (members a)))]"

definition price_response_ToJsonString :: "sdk_price_answer option \<Rightarrow> string" where
  "price_response_ToJsonString r = to_json_string (marshal_struct (response_fields price_answer_fields r))"

definition price_response_FromJsonString ::
    "string \<Rightarrow> sdk_price_answer option \<Rightarrow> json_error + sdk_price_answer option" where
  "price_response_FromJsonString = response_from_json (response_setters price_answer_setters empty_price_answer)"

record sdk_spec_answer =
  AnswerCpu :: "string option"
  AnswerMemory :: "string option"
  AnswerGpu :: "int option"
  AnswerSpecId :: "string option"

definition empty_spec_answer :: sdk_spec_answer where
  "empty_spec_answer = \<lparr>AnswerCpu = None, AnswerMemory = None, AnswerGpu = None, AnswerSpecId = None\<rparr>"

definition NewGetPodSpecificationResponse :: "sdk_spec_answer option" where
  "NewGetPodSpecificationResponse = None"

definition spec_answer_fields :: "sdk_spec_answer \<Rightarrow> (string \<times> (string + json) option) list" where
  "spec_answer_fields a = [(''Cpu'', opt_string (AnswerCpu a)), (''Memory'', opt_string (AnswerMemory a)),
     (''Gpu'', opt_int (AnswerGpu a)), (''RequestId'', opt_string (AnswerSpecId a))]"

definition spec_answer_setters :: "sdk_spec_answer setters" where
  "spec_answer_setters =
     [(''Cpu'', set_field (decode_pointer decode_string) (\<lambda>x. AnswerCpu_update (\<lambda>_. x))),
      (''Memory'', set_field (decode_pointer decode_string) (\<lambda>x. AnswerMemory_update (\<lambda>_. x))),
      (''Gpu'', set_field (decode_pointer (decode_number ParseInt)) (\<lambda>x. AnswerGpu_update (\<lambda>_. x))),
      (''RequestId'', set_field (decode_pointer decode_string) (\<lambda>x. AnswerSpecId_update (\<lambda>_. x)))]"

definition spec_response_ToJsonString :: "sdk_spec_answer option \<Rightarrow> string" where
  "spec_response_ToJsonString r = to_json_string (marshal_struct (response_fields spec_answer_fields r))"

definition spec_response_FromJsonString ::
    "string \<Rightarrow> sdk_spec_answer option \<Rightarrow> json_error + sdk_spec_answer option" where
  "spec_response_FromJsonString = response_from_json (response_setters spec_answer_setters empty_spec_answer)"

section \<open>The calls\<close>

text \<open>
  \<open>NewClient\<close> never gives an error. A call with a nil request is one with a new request, and a call without
  credentials does not come to \<open>Send\<close>, which takes the credentials, the action and the request, fills the
  response it is given and says whether there was an error.
\<close>

definition NewClient_error :: "made_client \<Rightarrow> 'e option" where
  "NewClient_error m = None"

datatype sdk_action = ApiInfo string string string

type_synonym ('c, 'q, 'r, 'w) send = "'c \<Rightarrow> sdk_action \<Rightarrow> 'q \<Rightarrow> 'r \<Rightarrow> 'w \<Rightarrow> ('r \<times> sdk_error option) \<times> 'w"

definition call_action ::
    "string \<Rightarrow> 'q \<Rightarrow> 'r \<Rightarrow> ('c, 'q, 'r, 'w) send \<Rightarrow> 'c option \<Rightarrow> 'q option \<Rightarrow> 'w \<Rightarrow>
     ('r option \<times> sdk_error option) \<times> 'w" where
  "call_action action new_request new_response Send cred request w =
     (let req = (case request of None \<Rightarrow> new_request | Some r \<Rightarrow> r)
      in case cred of
           None \<Rightarrow> ((None, Some (SdkError (action @ '' require credential''))), w)
         | Some c \<Rightarrow> (case Send c (ApiInfo ''tke'' ''2018-05-25'' action) req new_response w of
             ((resp, err), w') \<Rightarrow> ((Some resp, err), w')))"

definition sdk_GetPrice ::
    "('c, sdk_price_request, sdk_price_answer option, 'w) send \<Rightarrow> 'c option \<Rightarrow> sdk_price_request option \<Rightarrow> 'w \<Rightarrow>
     (sdk_price_answer option option \<times> sdk_error option) \<times> 'w" where
  "sdk_GetPrice = call_action ''GetPrice'' NewGetPriceRequest NewGetPriceResponse"

definition sdk_GetPodSpecification ::
    "('c, sdk_spec_request, sdk_spec_answer option, 'w) send \<Rightarrow> 'c option \<Rightarrow> sdk_spec_request option \<Rightarrow> 'w \<Rightarrow>
     (sdk_spec_answer option option \<times> sdk_error option) \<times> 'w" where
  "sdk_GetPodSpecification =
     call_action ''GetPodSpecification'' NewGetPodSpecificationRequest NewGetPodSpecificationResponse"

section \<open>The SDK under the program's client\<close>

text \<open>What the retries see of an answer: a response that comes with an error is dropped.\<close>

definition retried :: "('r option \<times> sdk_error option) \<times> 'w \<Rightarrow> (sdk_error + 'r option) \<times> 'w" where
  "retried a = (case a of ((r, Some e), w) \<Rightarrow> (Inl e, w) | ((r, None), w) \<Rightarrow> (Inr r, w))"

text \<open>The program's request in the SDK's struct: the four numbers are always set.\<close>

definition price_request :: "GetPriceRequest \<Rightarrow> sdk_price_request" where
  "price_request r = \<lparr>PriceCpu = Some (ReqCpu r), PriceMem = Some (ReqMem r), PriceTimeSpan = Some (ReqTimeSpan r),
     PriceGoodsNum = Some (ReqGoodsNum r), PriceZone = ReqZone r, PriceType = ReqType r, PriceGpu = None,
     PricePodType = ReqPodType r\<rparr>"

definition price_answer :: "sdk_price_answer option option \<Rightarrow> GetPriceResponse option" where
  "price_answer r = (case r of Some (Some a) \<Rightarrow> Some \<lparr>ResCost = AnswerCost a, ResTotalCost = AnswerTotalCost a\<rparr>
     | _ \<Rightarrow> None)"

definition spec_request :: "string \<times> string list \<Rightarrow> sdk_spec_request" where
  "spec_request tr = \<lparr>SpecType = Some (fst tr), SpecRequirements = map Some (snd tr)\<rparr>"

definition spec_answer :: "sdk_spec_answer option option \<Rightarrow> string option \<times> string option" where
  "spec_answer r = (case r of Some (Some a) \<Rightarrow> (AnswerCpu a, AnswerMemory a) | _ \<Rightarrow> (None, None))"

text \<open>The client of \<open>tke.go\<close> over the SDK, with the credentials of the client that was made.\<close>

definition sdk_tke ::
    "('c, sdk_price_request, sdk_price_answer option, 'w) send \<Rightarrow>
     ('c, sdk_spec_request, sdk_spec_answer option, 'w) send \<Rightarrow> 'c option \<Rightarrow>
     ('q, 'w) tke_client \<Rightarrow> ('q, 'w) tke_client" where
  "sdk_tke send_price send_spec cred c = c\<lparr>TKEClientError := None,
     GetPrice := (\<lambda>req w. case retried (sdk_GetPrice send_price cred (Some (price_request req)) w) of
       (r, w') \<Rightarrow> (map_sum (\<lambda>e. e) price_answer r, w')),
     GetPodSpecification := (\<lambda>req w. case retried
         (sdk_GetPodSpecification send_spec cred (Some (spec_request req)) w) of
       (r, w') \<Rightarrow> (map_sum (\<lambda>e. e) spec_answer r, w'))\<rparr>"

section \<open>What is written reads back\<close>

lemma decode_pointer_Some: "v \<noteq> JNull \<Longrightarrow> f v = Inr x \<Longrightarrow> decode_pointer f v = Inr (Some x)"
  by (cases v) (simp_all add: decode_pointer_def)

text \<open>One field of a struct that is decoded into a fresh one.\<close>

lemma store_string:
  assumes "find_field tab k = Some (set_field (decode_pointer decode_string) put)" "put None r = r"
  shows "store_fields tab (kept_fields ((k, opt_string x) # fs)) r = store_fields tab (kept_fields fs) (put x r)"
  using assms by (cases x) (simp_all add: opt_string_def set_field_def decode_pointer_Some decode_string_def)

lemma ParseUint_format:
  assumes "0 \<le> n" "n < 2^64" shows "ParseUint (format_int n) = (n, None)"
  using assms format_nat_parse [of n] format_nat_ne [of n] by (simp add: ParseUint_def format_int_def)

lemma store_int:
  assumes "find_field tab k = Some (set_field (decode_pointer (decode_number parse)) put)" "put None r = r"
    and "\<And>i. x = Some i \<Longrightarrow> parse (format_int i) = (i, None)"
  shows "store_fields tab (kept_fields ((k, opt_int x) # fs)) r = store_fields tab (kept_fields fs) (put x r)"
  using assms by (cases x) (simp_all add: opt_int_def json_int_def set_field_def decode_pointer_Some decode_number_def)

lemma store_float:
  assumes "find_field tab k = Some (set_field (decode_pointer (decode_number ParseFloat)) put)" "put None r = r"
    and "\<And>y. x = Some y \<Longrightarrow> canonical y"
  shows "store_fields tab (kept_fields ((k, opt_float x) # fs)) r = store_fields tab (kept_fields fs) (put x r)"
proof (cases x)
  case None
  with assms show ?thesis by (simp add: opt_float_def)
next
  case (Some y)
  with assms(3) opt_float_finite [of y] obtain t where "opt_float x = Some (Inr (JNum t))" "ParseFloat t = (y, None)"
    by auto
  with Some assms(1) show ?thesis by (simp add: set_field_def decode_pointer_Some decode_number_def)
qed

lemma store_strings:
  assumes "find_field tab k = Some (set_field (decode_slice (decode_pointer decode_string)) put)" "put [] r = r"
  shows "store_fields tab (kept_fields ((k, if xs = [] then None
      else Some (Inr (JArr (map string_pointer xs)))) # fs)) r = store_fields tab (kept_fields fs) (put xs r)"
proof -
  have "decode_all (decode_pointer decode_string) (map string_pointer ys) = Inr ys" for ys
    by (induction ys) (simp_all add: string_pointer_def decode_pointer_def decode_string_def split: option.split)
  with assms show ?thesis by (simp add: set_field_def decode_slice_def)
qed

definition is_uint64 :: "int option \<Rightarrow> bool" where
  "is_uint64 x \<longleftrightarrow> (\<forall>n. x = Some n \<longrightarrow> 0 \<le> n \<and> n < 2^64)"

definition finite_float :: "float64 option \<Rightarrow> bool" where
  "finite_float x \<longleftrightarrow> (\<forall>y. x = Some y \<longrightarrow> canonical y)"

definition utf8_text :: "string option \<Rightarrow> bool" where
  "utf8_text x \<longleftrightarrow> (\<forall>s. x = Some s \<longrightarrow> valid_utf8 s)"

definition price_request_ok :: "sdk_price_request \<Rightarrow> bool" where
  "price_request_ok r \<longleftrightarrow> finite_float (PriceCpu r) \<and> finite_float (PriceMem r) \<and> finite_float (PriceGpu r) \<and>
     is_uint64 (PriceTimeSpan r) \<and> is_uint64 (PriceGoodsNum r) \<and> utf8_text (PriceZone r) \<and>
     utf8_text (PriceType r) \<and> utf8_text (PricePodType r)"

lemma price_request_stored:
  assumes "price_request_ok r"
  shows "store_fields price_request_setters (kept_fields (price_request_fields r)) NewGetPriceRequest = Inr r"
proof -
  note ok = assms [unfolded price_request_ok_def finite_float_def is_uint64_def]
  note tab = price_request_setters_def find_field_def
  note steps = store_float [where put = "\<lambda>x. PriceCpu_update (\<lambda>_. x)"] store_float [where put = "\<lambda>x. PriceMem_update (\<lambda>_. x)"]
    store_float [where put = "\<lambda>x. PriceGpu_update (\<lambda>_. x)"] store_string [where put = "\<lambda>x. PriceZone_update (\<lambda>_. x)"]
    store_string [where put = "\<lambda>x. PriceType_update (\<lambda>_. x)"] store_string [where put = "\<lambda>x. PricePodType_update (\<lambda>_. x)"]
    store_int [where parse = ParseUint and put = "\<lambda>x. PriceTimeSpan_update (\<lambda>_. x)"]
    store_int [where parse = ParseUint and put = "\<lambda>x. PriceGoodsNum_update (\<lambda>_. x)"]
  show ?thesis using ok
    by (simp add: price_request_fields_def NewGetPriceRequest_def steps tab ParseUint_format)
qed

lemma digits_between: "0 < q \<Longrightarrow> q < 10 ^ Suc k \<Longrightarrow> \<exists>j \<le> k. (10::int) ^ j \<le> q \<and> q < 10 ^ Suc j"
proof (induction k)
  case (Suc k)
  then show ?case by (cases "q < 10 ^ Suc k") (auto intro: le_SucI)
qed simp

text \<open>An integer is a \<open>float64\<close> too, so no decoding refuses it.\<close>

lemma int_reads: "\<bar>i\<bar> < 2^64 \<Longrightarrow> snd (ParseFloat (format_int i)) = None"
proof (cases "i = 0")
  case True
  have "snd (ParseFloat (format_int 0)) = None" by code_simp
  with True show "snd (ParseFloat (format_int i)) = None" by simp
next
  case False
  assume i: "\<bar>i\<bar> < 2^64"
  let ?q = "\<bar>i\<bar>"
  have q: "0 < ?q" using False by simp
  have "canonical (float_of_int ?q)" using i by (intro int_finite) simp
  then obtain m e where f: "float_of_int ?q = Fin False m e"
    using q by (auto simp: float_of_int_def rnd_def Let_def canonical_def split: float64.splits prod.splits if_splits)
  have d: "dec_to_float False ?q 0 0 = Fin False m e"
    using f q by (simp add: dec_to_float_def float_of_int_def pow2_eq pow10_def)
  have "?q < 10 ^ Suc 19" using i by simp
  from digits_between [OF q this] obtain j where j: "j \<le> 19" "10 ^ j \<le> ?q" "?q < 10 ^ Suc j" by blast
  have "length (format_nat ?q) = Suc j" by (rule format_nat_length [OF j(2, 3)])
  with j(1) have "length (format_nat ?q) < 1000" by simp
  then have l: "\<bar>int (length (format_nat ?q))\<bar> < 1000" by simp
  have "ParseFloat (with_sign (i < 0) (layout_f (format_nat ?q) (int (length (format_nat ?q))))) = (Fin (i < 0) m e, None)"
    using d by (intro parse_layouts(2) q l) simp
  moreover have "layout_f (format_nat ?q) (int (length (format_nat ?q))) = format_nat ?q"
    using format_nat_ne [of ?q] by (simp add: layout_f_def)
  moreover have "with_sign (i < 0) (format_nat ?q) = format_int i"
    by (simp add: with_sign_def format_int_def)
  ultimately show "snd (ParseFloat (format_int i)) = None" by simp
qed

text \<open>The fields of a struct are written: none is refused, each is well formed, and none has a bad number.\<close>

definition field_ok :: "nat \<Rightarrow> string \<times> (string + json) option \<Rightarrow> bool" where
  "field_ok d kf = (case kf of (k, f) \<Rightarrow> (case f of None \<Rightarrow> True | Some (Inl e) \<Rightarrow> False
     | Some (Inr v) \<Rightarrow> valid_utf8 k \<and> json_ok d v \<and> bad_number v = None))"

lemma field_ok_simps:
  "ascii k \<Longrightarrow> utf8_text x \<Longrightarrow> field_ok d (k, opt_string x)"
  "ascii k \<Longrightarrow> finite_float y \<Longrightarrow> field_ok d (k, opt_float y)"
  "ascii k \<Longrightarrow> \<forall>i. n = Some i \<longrightarrow> \<bar>i\<bar> < 2^64 \<Longrightarrow> field_ok d (k, opt_int n)"
proof -
  show "ascii k \<Longrightarrow> utf8_text x \<Longrightarrow> field_ok d (k, opt_string x)"
    by (cases x) (simp_all add: field_ok_def opt_string_def utf8_text_def ascii_utf8)
  show "ascii k \<Longrightarrow> finite_float y \<Longrightarrow> field_ok d (k, opt_float y)"
  proof (cases y)
    case (Some z)
    assume "ascii k" "finite_float y"
    with Some opt_float_finite [of z] obtain t where "opt_float y = Some (Inr (JNum t))" "number t"
      "ParseFloat t = (z, None)" by (auto simp: finite_float_def)
    with \<open>ascii k\<close> show ?thesis by (simp add: field_ok_def ascii_utf8)
  qed (simp add: field_ok_def opt_float_def)
  show "ascii k \<Longrightarrow> \<forall>i. n = Some i \<longrightarrow> \<bar>i\<bar> < 2^64 \<Longrightarrow> field_ok d (k, opt_int n)"
    by (cases n) (simp_all add: field_ok_def opt_int_def json_int_def ascii_utf8 number_int int_reads)
qed

lemma filter_None: "\<forall>x \<in> set xs. f x = None \<Longrightarrow> filter (\<lambda>b. b \<noteq> None) (map f xs) = []"
  by (induction xs) auto

lemma object_no_bad: "\<forall>(k, v) \<in> set kvs. bad_number v = None \<Longrightarrow> bad_number (JObj kvs) = None"
  using filter_None [of kvs "\<lambda>(k, v). bad_number v"] by (simp add: split_def)

lemma array_no_bad: "\<forall>v \<in> set vs. bad_number v = None \<Longrightarrow> bad_number (JArr vs) = None"
  using filter_None [of vs bad_number] by simp

lemma struct_written:
  assumes "\<forall>kf \<in> set fs. field_ok d kf"
  shows "marshal_struct fs = Inr (JObj (kept_fields fs))" "json_ok (Suc d) (JObj (kept_fields fs))"
    "bad_number (JObj (kept_fields fs)) = None"
proof -
  show "marshal_struct fs = Inr (JObj (kept_fields fs))"
    by (rule struct_ok) (use assms in \<open>fastforce simp: field_ok_def\<close>)
  have ok: "valid_utf8 k \<and> json_ok d v \<and> bad_number v = None" if "(k, v) \<in> set (kept_fields fs)" for k v
    using assms kept_field [OF that] by (fastforce simp: field_ok_def)
  then show "json_ok (Suc d) (JObj (kept_fields fs))" by (auto simp: list_all_iff)
  from ok show "bad_number (JObj (kept_fields fs)) = None" by (intro object_no_bad) blast
qed

lemma kept_keys: "set (map fst (kept_fields fs)) \<subseteq> set (map fst fs)"
  using kept_field by force

lemma to_json_written:
  assumes "\<forall>kf \<in> set fs. field_ok d kf" "d < 10000"
  shows "parse_json (to_json_string (marshal_struct fs)) = Some (JObj (kept_fields fs))"
proof -
  have "json_ok 10000 (JObj (kept_fields fs))"
    using assms(2) by (intro json_ok_mono [OF struct_written(2) [OF assms(1)]]) simp
  then show ?thesis by (simp only: to_json_string_def marshal_text_def struct_written(1) [OF assms(1)] sum.case parse_print)
qed

lemma request_reads:
  assumes "\<forall>kf \<in> set fs. field_ok d kf" "d < 10000" "map fst fs = map fst tab"
  shows "request_from_json name tab (to_json_string (marshal_struct fs)) r = store_fields tab (kept_fields fs) r"
proof -
  have "list_all (\<lambda>(k, x). k \<in> set (map fst tab)) (kept_fields fs)"
    using kept_keys [of fs] assms(3) by (force simp: list_all_iff)
  then show ?thesis
    by (simp only: request_from_json_def to_json_written [OF assms(1, 2)] option.case json.case
        struct_written(3) [OF assms(1)] if_True store_struct_def)
qed

lemma response_reads:
  assumes "\<forall>kf \<in> set fs. field_ok d kf" "d < 10000"
  shows "response_from_json tab (to_json_string (marshal_struct fs)) r = store_fields tab (kept_fields fs) r"
  by (simp only: response_from_json_def to_json_written [OF assms] option.case json.case store_struct_def)

definition spec_request_ok :: "sdk_spec_request \<Rightarrow> bool" where
  "spec_request_ok r \<longleftrightarrow> utf8_text (SpecType r) \<and> (\<forall>x \<in> set (SpecRequirements r). utf8_text x)"

definition price_answer_ok :: "sdk_price_answer \<Rightarrow> bool" where
  "price_answer_ok a \<longleftrightarrow> is_uint64 (AnswerCost a) \<and> is_uint64 (AnswerTotalCost a) \<and> utf8_text (AnswerRequestId a)"

definition spec_answer_ok :: "sdk_spec_answer \<Rightarrow> bool" where
  "spec_answer_ok a \<longleftrightarrow> utf8_text (AnswerCpu a) \<and> utf8_text (AnswerMemory a) \<and> utf8_text (AnswerSpecId a) \<and>
     (\<forall>n. AnswerGpu a = Some n \<longrightarrow> - (2^63) \<le> n \<and> n < 2^63)"

lemma field_ok_uint: "ascii k \<Longrightarrow> is_uint64 x \<Longrightarrow> field_ok d (k, opt_int x)"
  by (rule field_ok_simps) (auto simp: is_uint64_def)

lemma price_request_written:
  assumes "price_request_ok r" shows "\<forall>kf \<in> set (price_request_fields r). field_ok 0 kf"
  using assms by (simp add: price_request_fields_def price_request_ok_def field_ok_simps field_ok_uint)

lemma spec_request_written:
  assumes "spec_request_ok r" shows "\<forall>kf \<in> set (spec_request_fields r). field_ok 1 kf"
proof -
  have x: "json_ok 0 (string_pointer x) \<and> bad_number (string_pointer x) = None" if "x \<in> set (SpecRequirements r)" for x
    using assms that by (cases x) (auto simp: spec_request_ok_def string_pointer_def utf8_text_def)
  then have a: "bad_number (JArr (map string_pointer (SpecRequirements r))) = None" by (intro array_no_bad) simp
  have "field_ok 1 (''ResourceRequirements'', Some (Inr (JArr (map string_pointer (SpecRequirements r)))))"
    unfolding field_ok_def using x by (simp add: a list_all_iff ascii_utf8 del: bad_number.simps)
  moreover have "field_ok 1 (''ResourceRequirements'', None)" by (simp add: field_ok_def)
  moreover have "field_ok 1 (''Type'', opt_string (SpecType r))"
    using assms by (intro field_ok_simps) (simp_all add: spec_request_ok_def)
  ultimately show ?thesis by (simp add: spec_request_fields_def)
qed

lemma price_answer_written:
  assumes "price_answer_ok a" shows "\<forall>kf \<in> set (price_answer_fields a). field_ok 0 kf"
  using assms by (simp add: price_answer_fields_def price_answer_ok_def field_ok_simps field_ok_uint)

lemma spec_answer_written:
  assumes "spec_answer_ok a" shows "\<forall>kf \<in> set (spec_answer_fields a). field_ok 0 kf"
  using assms by (simp add: spec_answer_fields_def spec_answer_ok_def field_ok_simps) (fastforce intro: field_ok_simps)

lemma spec_request_stored:
  "store_fields spec_request_setters (kept_fields (spec_request_fields r)) NewGetPodSpecificationRequest = Inr r"
  by (simp add: spec_request_fields_def NewGetPodSpecificationRequest_def spec_request_setters_def find_field_def
      store_string [where put = "\<lambda>x. SpecType_update (\<lambda>_. x)"]
      store_strings [where put = "\<lambda>x. SpecRequirements_update (\<lambda>_. x)"])

lemma price_answer_stored:
  assumes "price_answer_ok a"
  shows "store_fields price_answer_setters (kept_fields (price_answer_fields a)) empty_price_answer = Inr a"
  using assms [unfolded price_answer_ok_def is_uint64_def]
  by (simp add: price_answer_fields_def empty_price_answer_def price_answer_setters_def find_field_def ParseUint_format
      store_int [where parse = ParseUint and put = "\<lambda>x. AnswerCost_update (\<lambda>_. x)"]
      store_int [where parse = ParseUint and put = "\<lambda>x. AnswerTotalCost_update (\<lambda>_. x)"]
      store_string [where put = "\<lambda>x. AnswerRequestId_update (\<lambda>_. x)"])

lemma spec_answer_stored:
  assumes "spec_answer_ok a"
  shows "store_fields spec_answer_setters (kept_fields (spec_answer_fields a)) empty_spec_answer = Inr a"
  using assms [unfolded spec_answer_ok_def]
  by (simp add: spec_answer_fields_def empty_spec_answer_def spec_answer_setters_def find_field_def ParseInt_format
      store_string [where put = "\<lambda>x. AnswerCpu_update (\<lambda>_. x)"]
      store_string [where put = "\<lambda>x. AnswerMemory_update (\<lambda>_. x)"]
      store_int [where parse = ParseInt and put = "\<lambda>x. AnswerGpu_update (\<lambda>_. x)"]
      store_string [where put = "\<lambda>x. AnswerSpecId_update (\<lambda>_. x)"])

lemma response_reads_back:
  assumes "\<And>a. r = Some a \<Longrightarrow> \<forall>kf \<in> set (members a). field_ok 0 kf"
    and "\<And>a. r = Some a \<Longrightarrow> store_fields tab (kept_fields (members a)) fresh = Inr a"
  shows "response_from_json (response_setters tab fresh)
    (to_json_string (marshal_struct (response_fields members r))) None = Inr r"
proof (cases r)
  case None
  then have "\<forall>kf \<in> set (response_fields members r). field_ok 1 kf"
    by (simp add: response_fields_def field_ok_def ascii_utf8)
  from response_reads [OF this, where tab = "response_setters tab fresh" and r = None] None show ?thesis
    by (simp add: response_fields_def response_setters_def find_field_def)
next
  case (Some a)
  note w = struct_written [OF assms(1) [OF Some]]
  have "\<forall>kf \<in> set (response_fields members r). field_ok 1 kf"
    using w(2, 3) by (simp add: response_fields_def field_ok_def Some w(1) ascii_utf8 del: bad_number.simps)
  from response_reads [OF this, where tab = "response_setters tab fresh" and r = None] Some w(1) assms(2) show ?thesis
    by (simp add: response_fields_def response_setters_def find_field_def store_struct_def)
qed

lemma price_request_keys: "map fst (price_request_fields r) = map fst price_request_setters"
  by (simp add: price_request_fields_def price_request_setters_def)

lemma spec_request_keys: "map fst (spec_request_fields r) = map fst spec_request_setters"
  by (simp add: spec_request_fields_def spec_request_setters_def)

lemma parse_nothing: "parse_json [] = None"
  by code_simp

text \<open>
  C21. What the SDK writes it reads back. The JSON of a request, read into a new one, gives the same request, and the JSON
  of a response gives the same response, whatever fields are nil: numbers come back bit by bit, texts byte by byte, and a
  response without an answer stays without one. This is for finite numbers, integers of their width and texts in UTF-8.
  A request for a price whose CPU is NaN or infinite has the empty text for its JSON, which reads as nothing.
\<close>

theorem sdk_json_roundtrip:
  assumes "price_request_ok r" "spec_request_ok q" "\<forall>x. a = Some x \<longrightarrow> price_answer_ok x"
    "\<forall>x. b = Some x \<longrightarrow> spec_answer_ok x"
  shows "price_request_FromJsonString (price_request_ToJsonString r) NewGetPriceRequest = Inr r \<and>
    spec_request_FromJsonString (spec_request_ToJsonString q) NewGetPodSpecificationRequest = Inr q \<and>
    price_response_FromJsonString (price_response_ToJsonString a) NewGetPriceResponse = Inr a \<and>
    spec_response_FromJsonString (spec_response_ToJsonString b) NewGetPodSpecificationResponse = Inr b \<and>
    (x \<in> {NaN, Inf s} \<longrightarrow> price_request_ToJsonString (r\<lparr>PriceCpu := Some x\<rparr>) = [] \<and>
       price_request_FromJsonString [] NewGetPriceRequest = Inl SyntaxError)"
proof (intro conjI impI)
  show "price_request_FromJsonString (price_request_ToJsonString r) NewGetPriceRequest = Inr r"
    unfolding price_request_FromJsonString_def price_request_ToJsonString_def
    by (simp add: request_reads [OF price_request_written [OF assms(1)] _ price_request_keys] price_request_stored [OF assms(1)])
  show "spec_request_FromJsonString (spec_request_ToJsonString q) NewGetPodSpecificationRequest = Inr q"
    unfolding spec_request_FromJsonString_def spec_request_ToJsonString_def
    by (simp add: request_reads [OF spec_request_written [OF assms(2)] _ spec_request_keys] spec_request_stored)
  show "price_response_FromJsonString (price_response_ToJsonString a) NewGetPriceResponse = Inr a"
    unfolding price_response_FromJsonString_def price_response_ToJsonString_def NewGetPriceResponse_def
    using assms(3) price_answer_written price_answer_stored by (intro response_reads_back) simp_all
  show "spec_response_FromJsonString (spec_response_ToJsonString b) NewGetPodSpecificationResponse = Inr b"
    unfolding spec_response_FromJsonString_def spec_response_ToJsonString_def NewGetPodSpecificationResponse_def
    using assms(4) spec_answer_written spec_answer_stored by (intro response_reads_back) simp_all
  show "price_request_FromJsonString [] NewGetPriceRequest = Inl SyntaxError"
    by (simp add: price_request_FromJsonString_def request_from_json_def parse_nothing)
  assume "x \<in> {NaN, Inf s}"
  then show "price_request_ToJsonString (r\<lparr>PriceCpu := Some x\<rparr>) = []"
    by (auto simp: price_request_ToJsonString_def price_request_fields_def to_json_string_def marshal_struct_def
        marshal_text_def opt_float_def json_float_def)
qed

text \<open>A request for a quarter of a core, one with a missing element, an answer, and a response without one.\<close>

definition quarter_request :: sdk_price_request where
  "quarter_request = NewGetPriceRequest\<lparr>PriceCpu := Some (lit 25 100), PriceTimeSpan := Some 3600, PriceType := Some ''intel''\<rparr>"

theorem sdk_json_roundtrip_witness:
  "price_request_FromJsonString (price_request_ToJsonString quarter_request) NewGetPriceRequest = Inr quarter_request \<and>
   spec_request_FromJsonString (spec_request_ToJsonString \<lparr>SpecType = None, SpecRequirements = [Some ''{}'', None]\<rparr>)
     NewGetPodSpecificationRequest = Inr \<lparr>SpecType = None, SpecRequirements = [Some ''{}'', None]\<rparr> \<and>
   price_response_FromJsonString (price_response_ToJsonString (Some (empty_price_answer\<lparr>AnswerCost := Some 7\<rparr>)))
     NewGetPriceResponse = Inr (Some (empty_price_answer\<lparr>AnswerCost := Some 7\<rparr>)) \<and>
   price_request_ToJsonString (quarter_request\<lparr>PriceCpu := Some NaN\<rparr>) = []"
proof -
  have c: "canonical (lit 25 100)" by code_simp
  then have r: "price_request_ok quarter_request"
    by (simp add: price_request_ok_def quarter_request_def NewGetPriceRequest_def finite_float_def is_uint64_def
        utf8_text_def ascii_utf8)
  have q: "spec_request_ok \<lparr>SpecType = None, SpecRequirements = [Some ''{}'', None]\<rparr>"
    by (simp add: spec_request_ok_def utf8_text_def ascii_utf8)
  have a: "\<forall>x. Some (empty_price_answer\<lparr>AnswerCost := Some 7\<rparr>) = Some x \<longrightarrow> price_answer_ok x"
    by (simp add: price_answer_ok_def empty_price_answer_def is_uint64_def utf8_text_def)
  show ?thesis using sdk_json_roundtrip [OF r q a, where b = None and x = NaN and s = True] by simp
qed

section \<open>Calls that succeed and calls that do not\<close>

lemma retry_loop_stuck:
  assumes "f w = (Inl e, w)"
  shows "\<exists>slept'. retry_loop pick n i cnt f e slept w = (Inl (RetryFailed cnt e), slept', w)"
  using assms by (induction n arbitrary: i slept) (simp_all add: Let_def)

lemma with_retry_stuck: "f w = (Inl e, w) \<Longrightarrow> tke_with_retry c f w = (Inl (RetryFailed (TKERetryCnt c) e), w)"
  using retry_loop_stuck [of f w e "TKERand c" "nat (TKERetryCnt c)" 1 "TKERetryCnt c" "[]"]
  by (auto simp: tke_with_retry_def ExponentialRetryCall_def)

lemma with_retry_first: "f w = (Inr r, w') \<Longrightarrow> tke_with_retry c f w = (Inr r, w')"
  by (simp add: tke_with_retry_def ExponentialRetryCall_def)

text \<open>The request that the program makes for a pod can always be written and read.\<close>

lemma pod_request_ok:
  assumes "\<bar>QMilliValue ops (Cpu spec)\<bar> \<le> 2^63" "\<bar>QValue ops (Mem spec)\<bar> \<le> 2^63"
    and "is_uint64 (Some (TimeSpan spec))" "is_uint64 (Some (GoodsNum spec))"
    and "valid_utf8 (MachineArch spec)" "valid_utf8 (PodChargeType spec)" "valid_utf8 (Zone spec)"
  shows "price_request_ok (price_request (CloudPodSpec2EKSPriceRequest ops spec))"
proof -
  have "float_of_int 1000 = Fin False 8796093022208000 (-43)" by code_simp
  with assms show ?thesis
    by (simp add: price_request_ok_def price_request_def CloudPodSpec2EKSPriceRequest_def finite_float_def utf8_text_def
        when_set_def GB_value div_finite int_finite)
qed

lemma first_send:
  assumes "Send cr (ApiInfo ''tke'' ''2018-05-25'' action) q n w = ((a, None), w')"
  shows "retried (call_action action q0 n Send (Some cr) (Some q) w) = (Inr (Some a), w')"
  using assms by (simp add: call_action_def retried_def)

lemma no_credentials:
  "retried (call_action action q0 n Send None q w) = (Inl (SdkError (action @ '' require credential'')), w)"
  by (simp add: call_action_def retried_def)

lemma failing_send:
  assumes "Send cr (ApiInfo ''tke'' ''2018-05-25'' action) q n w = ((a, Some e), w')"
  shows "retried (call_action action q0 n Send (Some cr) (Some q) w) = (Inl e, w')"
  using assms by (simp add: call_action_def retried_def)

text \<open>
  The calls for the price and the specification of a serverless pod. The SDK's client is always made. Without credentials nothing is ever
  sent, and the call fails after all its retries. The first answer without an error ends it, whether it has
  a price or none; an answer that comes with an error counts as the error. A specification without its
  \<open>Response\<close> is a nil pointer.
\<close>

theorem sdk_calls:
  shows "(\<exists>m. fst (tke_getClient NewClient_error s) = Inr m) \<and>
    GetEKSPodPrice (sdk_tke sp ss None c) req w =
      (Inl (RetryFailed (TKERetryCnt c) (SdkError ''GetPrice require credential'')), w) \<and>
    Pod2EKSSpecConverter (sdk_tke sp ss None c) pod w =
      (Inl (SdkFailed (RetryFailed (TKERetryCnt c) (SdkError ''GetPodSpecification require credential''))), w) \<and>
    (sp cr (ApiInfo ''tke'' ''2018-05-25'' ''GetPrice'') (price_request req) None w = ((a, None), w1) \<longrightarrow>
      GetEKSPodPrice (sdk_tke sp ss (Some cr) c) req w = (Inr (price_answer (Some a)), w1)) \<and>
    (sp cr (ApiInfo ''tke'' ''2018-05-25'' ''GetPrice'') (price_request req) None w = ((a, Some e), w) \<longrightarrow>
      GetEKSPodPrice (sdk_tke sp ss (Some cr) c) req w = (Inl (RetryFailed (TKERetryCnt c) e), w)) \<and>
    (ss cr (ApiInfo ''tke'' ''2018-05-25'' ''GetPodSpecification'')
        (spec_request (machine_type pod, requirements c (PodContainers pod))) None w = ((None, None), w1) \<longrightarrow>
      Pod2EKSSpecConverter (sdk_tke sp ss (Some cr) c) pod w = (Inl NilPointer, w1))"
proof (intro conjI impI)
  have r: "requirements (sdk_tke sp ss cred c) xs = requirements c xs" for cred xs
    by (induction xs) (simp_all add: sdk_tke_def split: option.split)
  note defs = GetEKSPodPrice_def Pod2EKSSpecConverter_def sdk_GetPrice_def sdk_GetPodSpecification_def
    NewGetPriceResponse_def NewGetPodSpecificationResponse_def
  have sel: "TKEClientError (sdk_tke sp ss cred c) = None" "TKERetryCnt (sdk_tke sp ss cred c) = TKERetryCnt c"
    "GetPrice (sdk_tke sp ss cred c) = (\<lambda>req w. case retried (sdk_GetPrice sp cred (Some (price_request req)) w) of
       (r, w') \<Rightarrow> (map_sum (\<lambda>e. e) price_answer r, w'))"
    "GetPodSpecification (sdk_tke sp ss cred c) = (\<lambda>req w. case retried
         (sdk_GetPodSpecification ss cred (Some (spec_request req)) w) of
       (r, w') \<Rightarrow> (map_sum (\<lambda>e. e) spec_answer r, w'))" for cred
    by (simp_all add: sdk_tke_def)
  show "\<exists>m. fst (tke_getClient NewClient_error s) = Inr m"
    by (cases "TkeClient s") (simp_all add: tke_getClient_def getClient_def NewClient_error_def Let_def)
  show "GetEKSPodPrice (sdk_tke sp ss None c) req w =
      (Inl (RetryFailed (TKERetryCnt c) (SdkError ''GetPrice require credential'')), w)"
    by (simp add: defs sel no_credentials with_retry_stuck [where e = "SdkError ''GetPrice require credential''"])
  show "Pod2EKSSpecConverter (sdk_tke sp ss None c) pod w =
      (Inl (SdkFailed (RetryFailed (TKERetryCnt c) (SdkError ''GetPodSpecification require credential''))), w)"
    by (simp add: defs sel no_credentials with_retry_stuck [where e = "SdkError ''GetPodSpecification require credential''"])
  show "GetEKSPodPrice (sdk_tke sp ss (Some cr) c) req w = (Inr (price_answer (Some a)), w1)"
    if "sp cr (ApiInfo ''tke'' ''2018-05-25'' ''GetPrice'') (price_request req) None w = ((a, None), w1)"
    using first_send [where Send = sp, OF that] by (simp add: defs sel with_retry_first)
  show "GetEKSPodPrice (sdk_tke sp ss (Some cr) c) req w = (Inl (RetryFailed (TKERetryCnt c) e), w)"
    if "sp cr (ApiInfo ''tke'' ''2018-05-25'' ''GetPrice'') (price_request req) None w = ((a, Some e), w)"
    using failing_send [where Send = sp, OF that] by (simp add: defs sel with_retry_stuck)
  show "Pod2EKSSpecConverter (sdk_tke sp ss (Some cr) c) pod w = (Inl NilPointer, w1)"
    if "ss cr (ApiInfo ''tke'' ''2018-05-25'' ''GetPodSpecification'')
        (spec_request (machine_type pod, requirements c (PodContainers pod))) None w = ((None, None), w1)"
    using first_send [where Send = ss, OF that] by (simp add: defs sel with_retry_first r spec_answer_def)
qed

text \<open>A service that answers with a nil price, and the request for a core and two gigabytes.\<close>

definition core_request :: GetPriceRequest where
  "core_request = \<lparr>ReqCpu = 1, ReqMem = lit 2 1, ReqTimeSpan = 3600, ReqGoodsNum = 1, ReqType = Some ''intel'',
     ReqPodType = None, ReqZone = None\<rparr>"

abbreviation no_spec :: "(unit, sdk_spec_request, sdk_spec_answer option, nat) send" where
  "no_spec \<equiv> (\<lambda>u i q r w. ((None, None), w))"

abbreviation no_price :: "(unit, sdk_price_request, sdk_price_answer option, nat) send" where
  "no_price \<equiv> (\<lambda>u i q r w. ((Some empty_price_answer, None), w + 1))"

theorem sdk_calls_witness:
  "GetEKSPodPrice (sdk_tke no_price no_spec (Some ()) example_tke) core_request 0 =
   (Inr (price_answer (Some (Some empty_price_answer))), 1)"
  using sdk_calls [where sp = no_price and ss = no_spec and cr = "()" and a = "Some empty_price_answer" and w = 0
    and ?w1.0 = 1 and c = example_tke and req = core_request and s = "new_clients example_client_config" and
    pod = pending_pod, THEN conjunct2, THEN conjunct2, THEN conjunct2, THEN conjunct1] by simp

end
