(* ===== verification/Tke_Client.thy ===== *)
theory Tke_Client
  imports Tke_Sdk
begin

text \<open>
  The client of the container service in \<open>pkg/cloudsdk/qcloud/tke/tke.go\<close>: its state, the SDK client it makes on
  its first call and keeps, and the two remote calls with their retries. \<open>Qcloud_Spec\<close> has what is made of
  their answers, over a client that is a parameter; here it is shown to be this one over \<open>Tke_Sdk\<close>.
  Debug output, the request metrics and the rate limiter, which only waits, are left out.
\<close>

section \<open>The state\<close>

record TKEClient =
  TkeConfig :: QCloudClientConfig
  TkeMade :: "made_client option"

definition NewTKEClient :: "QCloudClientConfig \<Rightarrow> TKEClient" where
  "NewTKEClient cfg = \<lparr>TkeConfig = cfg, TkeMade = None\<rparr>"

definition getTKEDomain :: "TKEClient \<Rightarrow> string" where
  "getTKEDomain s = ''tke.'' @ ConfigDomainSuffix (TkeConfig s)"

definition state_getClient ::
    "(made_client \<Rightarrow> 'e option) \<Rightarrow> TKEClient \<Rightarrow> ('e + made_client) \<times> TKEClient" where
  "state_getClient new s =
     (let cfg = TkeConfig s; cred = GetQCloudCredential (Credential cfg)
      in case TkeMade s of
           Some m \<Rightarrow> (Inr m, s)
         | None \<Rightarrow>
             (let m = \<lparr>MadeCred = cred, MadeRegion = ConfigRegion cfg, MadeLanguage = ConfigLanguage cfg,
                    MadeDebug = ConfigDebug cfg, MadeEndpoint = getTKEDomain s, MadeScheme = ConfigScheme cfg\<rparr>
              in case new m of Some e \<Rightarrow> (Inl e, s) | None \<Rightarrow> (Inr m, s\<lparr>TkeMade := Some m\<rparr>)))"

definition tke_UpdateCredential :: "CustomCredential \<Rightarrow> TKEClient \<Rightarrow> TKEClient" where
  "tke_UpdateCredential cred s = s\<lparr>TkeConfig := (TkeConfig s)\<lparr>Credential := cred\<rparr>\<rparr>"

definition tke_UpdateCred :: "CustomCredential \<Rightarrow> TKEClient \<Rightarrow> TKEClient" where
  "tke_UpdateCred cred s = s\<lparr>TkeConfig := (TkeConfig s)\<lparr>Credential := cred\<rparr>\<rparr>"

definition tke_UpdateCustomCredential :: "string \<Rightarrow> string \<Rightarrow> TKEClient \<Rightarrow> TKEClient" where
  "tke_UpdateCustomCredential i k s = s\<lparr>TkeConfig := (TkeConfig s)
     \<lparr>Credential := fst (UpdateQCloudCustomCredential i k (Credential (TkeConfig s)))\<rparr>\<rparr>"

definition tke_EnableDebug :: "TKEClient \<Rightarrow> bool \<times> TKEClient" where
  "tke_EnableDebug s =
     (let cfg = (TkeConfig s)\<lparr>ConfigDebug := True\<rparr> in (ConfigDebug cfg, s\<lparr>TkeConfig := cfg\<rparr>))"

section \<open>The calls\<close>

definition state_retry ::
    "(int \<Rightarrow> int) \<Rightarrow> TKEClient \<Rightarrow> ('w \<Rightarrow> (sdk_error + 'r) \<times> 'w) \<Rightarrow> 'w \<Rightarrow> (sdk_error + 'r) \<times> 'w" where
  "state_retry pick s f w =
     (case ExponentialRetryCall pick (QCloudClientConfig.DefaultRetryCnt (TkeConfig s)) f w of
        (r, slept, w') \<Rightarrow> (r, w'))"

definition getEKSPodPriceWithRetry ::
    "(int \<Rightarrow> int) \<Rightarrow> (credential, sdk_price_request, sdk_price_answer option, 'w) send \<Rightarrow> TKEClient \<Rightarrow>
     made_client \<Rightarrow> sdk_price_request \<Rightarrow> 'w \<Rightarrow> (sdk_error + sdk_price_answer option option) \<times> 'w" where
  "getEKSPodPriceWithRetry pick Send s cli req w =
     state_retry pick s (\<lambda>w. retried (sdk_GetPrice Send (Some (MadeCred cli)) (Some req) w)) w"

definition getPodSpecificationWithRetry ::
    "(int \<Rightarrow> int) \<Rightarrow> (credential, sdk_spec_request, sdk_spec_answer option, 'w) send \<Rightarrow> TKEClient \<Rightarrow>
     made_client \<Rightarrow> sdk_spec_request \<Rightarrow> 'w \<Rightarrow> (sdk_error + sdk_spec_answer option option) \<times> 'w" where
  "getPodSpecificationWithRetry pick Send s cli req w =
     state_retry pick s (\<lambda>w. retried (sdk_GetPodSpecification Send (Some (MadeCred cli)) (Some req) w)) w"

definition state_GetEKSPodPrice ::
    "(made_client \<Rightarrow> sdk_error option) \<Rightarrow> (int \<Rightarrow> int) \<Rightarrow>
     (credential, sdk_price_request, sdk_price_answer option, 'w) send \<Rightarrow> TKEClient \<Rightarrow> sdk_price_request \<Rightarrow> 'w \<Rightarrow>
     (sdk_error + sdk_price_answer option option) \<times> TKEClient \<times> 'w" where
  "state_GetEKSPodPrice new pick Send s req w = (case state_getClient new s of
     (Inl e, s') \<Rightarrow> (Inl e, s', w)
   | (Inr cli, s') \<Rightarrow> (case getEKSPodPriceWithRetry pick Send s' cli req w of (r, w') \<Rightarrow> (r, s', w')))"

definition state_GetPodSpecification ::
    "(made_client \<Rightarrow> sdk_error option) \<Rightarrow> (int \<Rightarrow> int) \<Rightarrow>
     (credential, sdk_spec_request, sdk_spec_answer option, 'w) send \<Rightarrow> TKEClient \<Rightarrow> sdk_spec_request \<Rightarrow> 'w \<Rightarrow>
     (sdk_error + sdk_spec_answer option option) \<times> TKEClient \<times> 'w" where
  "state_GetPodSpecification new pick Send s req w = (case state_getClient new s of
     (Inl e, s') \<Rightarrow> (Inl e, s', w)
   | (Inr cli, s') \<Rightarrow> (case getPodSpecificationWithRetry pick Send s' cli req w of (r, w') \<Rightarrow> (r, s', w')))"

section \<open>The client under the prices and specifications\<close>

text \<open>The client of \<open>Qcloud_Spec\<close> that this one is, once it has its SDK client.\<close>

definition tke_over ::
    "(int \<Rightarrow> int) \<Rightarrow> (credential, sdk_price_request, sdk_price_answer option, 'w) send \<Rightarrow>
     (credential, sdk_spec_request, sdk_spec_answer option, 'w) send \<Rightarrow> ('q, 'w) tke_client \<Rightarrow>
     QCloudClientConfig \<Rightarrow> made_client \<Rightarrow> ('q, 'w) tke_client" where
  "tke_over pick sp ss c cfg m = (sdk_tke sp ss (Some (MadeCred m)) c)
     \<lparr>TKERetryCnt := QCloudClientConfig.DefaultRetryCnt cfg, TKERand := pick\<rparr>"

text \<open>Retrying does not look at what an answer has in it.\<close>

lemma retry_loop_map:
  "retry_loop pick n i cnt (\<lambda>w. case f w of (r, w') \<Rightarrow> (map_sum (\<lambda>e. e) g r, w')) e slept w =
     (case retry_loop pick n i cnt f e slept w of (r, sl, w') \<Rightarrow> (map_sum (\<lambda>e. e) g r, sl, w'))"
  by (induction n arbitrary: i e slept w) (simp_all add: Let_def split: prod.split sum.split)

lemma ExponentialRetryCall_map:
  "ExponentialRetryCall pick cnt (\<lambda>w. case f w of (r, w') \<Rightarrow> (map_sum (\<lambda>e. e) g r, w')) w =
     (case ExponentialRetryCall pick cnt f w of (r, sl, w') \<Rightarrow> (map_sum (\<lambda>e. e) g r, sl, w'))"
  by (simp add: ExponentialRetryCall_def retry_loop_map split: prod.split sum.split)

lemma GetEKSPodPrice_over:
  "GetEKSPodPrice (tke_over pick sp ss c (TkeConfig s) m) req w =
     (case getEKSPodPriceWithRetry pick sp s m (price_request req) w of
        (r, w') \<Rightarrow> (map_sum (\<lambda>e. e) price_answer r, w'))"
  by (simp add: GetEKSPodPrice_def tke_over_def sdk_tke_def tke_with_retry_def getEKSPodPriceWithRetry_def
      state_retry_def ExponentialRetryCall_map split: prod.split)

lemma GetPodSpecification_over:
  "tke_with_retry (tke_over pick sp ss c (TkeConfig s) m)
     (GetPodSpecification (tke_over pick sp ss c (TkeConfig s) m) tr) w =
   (case getPodSpecificationWithRetry pick ss s m (spec_request tr) w of
      (r, w') \<Rightarrow> (map_sum (\<lambda>e. e) spec_answer r, w'))"
  by (simp add: tke_over_def sdk_tke_def tke_with_retry_def getPodSpecificationWithRetry_def
      state_retry_def ExponentialRetryCall_map split: prod.split)

inductive tke_step :: "(made_client \<Rightarrow> 'e option) \<Rightarrow> TKEClient \<Rightarrow> TKEClient \<Rightarrow> bool" for new where
  call: "tke_step new s (snd (state_getClient new s))"
| credential: "tke_step new s (tke_UpdateCredential cred s)"
| cred: "tke_step new s (tke_UpdateCred cred s)"
| custom: "tke_step new s (tke_UpdateCustomCredential i k s)"
| debug: "tke_step new s (snd (tke_EnableDebug s))"

lemmas tke_defs = tke_UpdateCredential_def tke_UpdateCred_def tke_UpdateCustomCredential_def
  tke_EnableDebug_def state_getClient_def Let_def

lemma tke_steps_keep:
  assumes "(tke_step new)\<^sup>*\<^sup>* s t"
  shows "(TkeMade s = Some m \<longrightarrow> TkeMade t = Some m) \<and>
    QCloudClientConfig.DefaultRetryCnt (TkeConfig t) = QCloudClientConfig.DefaultRetryCnt (TkeConfig s)"
  using assms
proof (induction rule: rtranclp_induct)
  case (step t u)
  from step.hyps(2) have "(TkeMade t = Some m \<longrightarrow> TkeMade u = Some m) \<and>
      QCloudClientConfig.DefaultRetryCnt (TkeConfig u) = QCloudClientConfig.DefaultRetryCnt (TkeConfig t)"
    by (cases rule: tke_step.cases) (auto simp: tke_defs split: option.splits)
  with step.IH show ?case by auto
qed simp

text \<open>
  Once a client has called, all its later prices and specifications are those of one fixed client: that of
  \<open>Qcloud_Spec\<close> over the SDK with the credentials of the first call, whatever has been updated between, and
  with the configured number of retries. The state of the client does not change any more.
\<close>

theorem tke_calls_fixed:
  assumes "(tke_step new)\<^sup>*\<^sup>* s t" "TkeMade s = Some m"
  shows "let c' = tke_over pick sp ss c (TkeConfig s) m in
    (case state_GetEKSPodPrice new pick sp t (price_request req) w of
      (r, t', w') \<Rightarrow> t' = t \<and> GetEKSPodPrice c' req w = (map_sum (\<lambda>e. e) price_answer r, w')) \<and>
    (case state_GetPodSpecification new pick ss t (spec_request tr) w of
      (r, t', w') \<Rightarrow> t' = t \<and>
        tke_with_retry c' (GetPodSpecification c' tr) w = (map_sum (\<lambda>e. e) spec_answer r, w'))"
proof -
  from tke_steps_keep [OF assms(1), of m] assms(2)
  have t: "TkeMade t = Some m" "QCloudClientConfig.DefaultRetryCnt (TkeConfig s) =
      QCloudClientConfig.DefaultRetryCnt (TkeConfig t)" by simp_all
  then have get: "state_getClient new t = (Inr m, t)" by (simp add: state_getClient_def Let_def)
  from t(2) have c: "tke_over pick sp ss c (TkeConfig s) m = tke_over pick sp ss c (TkeConfig t) m"
    by (simp add: tke_over_def)
  show ?thesis
    unfolding Let_def c GetEKSPodPrice_over GetPodSpecification_over
    by (simp add: state_GetEKSPodPrice_def state_GetPodSpecification_def get split: prod.split)
qed

text \<open>A service that answers with the key a request is signed with; the key has been changed after the first call.\<close>

definition signed_price :: "(credential, sdk_price_request, sdk_price_answer option, nat) send" where
  "signed_price = (\<lambda>cr a q r w.
     ((Some (empty_price_answer\<lparr>AnswerCost := Some (int (length (CredSecretKey cr)))\<rparr>), None), w + 1))"

definition signed_spec :: "(credential, sdk_spec_request, sdk_spec_answer option, nat) send" where
  "signed_spec = (\<lambda>cr a q r w. ((None, None), w))"

definition called_state :: TKEClient where
  "called_state = snd (state_getClient (\<lambda>m. None :: sdk_error option) (NewTKEClient example_client_config))"

theorem tke_calls_fixed_witness:
  "map_sum (\<lambda>e. e) price_answer (fst (state_GetEKSPodPrice (\<lambda>m. None) (\<lambda>i. 4) signed_price
     (tke_UpdateCustomCredential ''id'' ''renewed'' called_state) (price_request core_request) 0)) =
   Inr (Some \<lparr>ResCost = Some (int (length ''old'')), ResTotalCost = None\<rparr>)"
proof -
  let ?m = "make_client ''tke'' ''ap-guangzhou'' example_client_config"
  let ?c = "tke_over (\<lambda>i. 4) signed_price signed_spec example_tke (TkeConfig called_state) ?m"
  let ?t = "tke_UpdateCustomCredential ''id'' ''renewed'' called_state"
  have s: "TkeMade called_state = Some ?m" "TkeConfig called_state = example_client_config"
    by (simp_all add: called_state_def state_getClient_def NewTKEClient_def Let_def make_client_def sdk_domain_def
        getTKEDomain_def) (simp add: example_client_config_def)
  have "CredSecretKey (MadeCred ?m) = ''old''"
    by (simp add: make_client_def example_client_config_def GetQCloudCredential_def NewQCloudCredential_def)
  then have price: "GetEKSPodPrice ?c core_request 0 = (Inr (Some \<lparr>ResCost = Some 3, ResTotalCost = None\<rparr>), 1)"
    by (simp add: GetEKSPodPrice_over getEKSPodPriceWithRetry_def state_retry_def ExponentialRetryCall_def
        sdk_GetPrice_def call_action_def retried_def signed_price_def price_answer_def empty_price_answer_def)
  have "(tke_step (\<lambda>m. None :: sdk_error option))\<^sup>*\<^sup>* called_state ?t"
    by (rule r_into_rtranclp) (rule tke_step.custom)
  from tke_calls_fixed [OF this s(1), where pick = "\<lambda>i. 4" and sp = signed_price and ss = signed_spec and
      c = example_tke and req = core_request and w = 0, unfolded Let_def, THEN conjunct1] price
  show ?thesis by (simp split: prod.splits)
qed

end
