(* ===== verification/Kube_Util.thy ===== *)
theory Kube_Util
  imports Prelude "HOL-Library.Word"
begin

unbundle bit_operations_syntax

text \<open>
  What stands between the program and the Kubernetes libraries: the clients, the leader election's
  configuration and the recorders of events (\<open>pkg/util/client.go\<close>), the base of the HTTP server
  (\<open>pkg/util/handler.go\<close>), and the cluster cache (\<open>pkg/cache/cache.go\<close>). The libraries' constructors are parameters that
  tell what they return.
\<close>

section \<open>Clients\<close>

record 'f client_connection =
  Kubeconfig :: string
  AcceptContentTypes :: string
  ContentType :: string
  QPS :: 'f
  Burst :: int

text \<open>The rate is a \<open>float32\<close> that is only passed on.\<close>

text \<open>The fields of the library's configuration that the program sets, and the rest of it as it was read.\<close>

record ('f, 'x) rest_config =
  DisableCompression :: bool
  RestAcceptContentTypes :: string
  RestContentType :: string
  RestQPS :: 'f
  RestBurst :: int
  RestOther :: 'x

record ('f, 'x, 'e, 'k) client_env =
  ClientConfigFile :: "string \<Rightarrow> 'e + ('f, 'x) rest_config"
  InClusterConfig :: "'e + ('f, 'x) rest_config"
  NewForConfig :: "('f, 'x) rest_config \<Rightarrow> 'e + 'k"
  AddUserAgent :: "('f, 'x) rest_config \<Rightarrow> string \<Rightarrow> ('f, 'x) rest_config"

definition NewK8sConfig :: "('f, 'x, 'e, 'k) client_env \<Rightarrow> 'f client_connection \<Rightarrow> 'e + ('f, 'x) rest_config" where
  "NewK8sConfig env c =
     (case (if Kubeconfig c \<noteq> [] then ClientConfigFile env (Kubeconfig c) else InClusterConfig env) of
        Inl e \<Rightarrow> Inl e
      | Inr k \<Rightarrow> Inr (k\<lparr>DisableCompression := True, RestAcceptContentTypes := AcceptContentTypes c,
          RestContentType := ContentType c, RestQPS := QPS c, RestBurst := Burst c\<rparr>))"

text \<open>
  A client by name, or the default client when it can not be made. The configuration is read again for each, in the
  environment of that time.
\<close>

definition CreateK8sClient ::
    "('f, 'x, 'e, 'k) client_env \<Rightarrow> 'f client_connection \<Rightarrow> 'e + (('f, 'x, 'e, 'k) client_env \<Rightarrow> string \<Rightarrow> 'k)" where
  "CreateK8sClient env c = (case NewK8sConfig env c of
     Inl e \<Rightarrow> Inl e
   | Inr cfg \<Rightarrow> (case NewForConfig env cfg of
       Inl e \<Rightarrow> Inl e
     | Inr d \<Rightarrow> Inr (\<lambda>later name. case NewK8sConfig later c of
         Inl e \<Rightarrow> d
       | Inr cfg \<Rightarrow> (case NewForConfig later (AddUserAgent later cfg name) of
           Inl e \<Rightarrow> d
         | Inr k \<Rightarrow> k))))"

section \<open>Leader election\<close>

record leader_election =
  LeaderElect :: bool
  LeaseDuration :: int
  RenewDeadline :: int
  RetryPeriod :: int
  ResourceLock :: string
  ResourceName :: string
  ResourceNamespace :: string

record 'l elector_config =
  Lock :: 'l
  ElectorLease :: int
  ElectorRenew :: int
  ElectorRetry :: int
  WatchDog :: int
  ElectorName :: string

datatype 'e elect_error = NoHostname 'e | NoLock 'e

text \<open>The lock is made for its kind, namespace, name and the identity of this process.\<close>

definition CreateLeaderElectionConfig ::
    "('e + string) \<Rightarrow> string \<Rightarrow> (string \<Rightarrow> string \<Rightarrow> string \<Rightarrow> string \<Rightarrow> 'e + 'l) \<Rightarrow> string \<Rightarrow>
     leader_election \<Rightarrow> 'e elect_error + 'l elector_config option" where
  "CreateLeaderElectionConfig hostname uuid new_lock name le =
     (if \<not> LeaderElect le then Inr None
      else case hostname of
        Inl e \<Rightarrow> Inl (NoHostname e)
      | Inr host \<Rightarrow>
          (case new_lock (ResourceLock le) (ResourceNamespace le) (ResourceName le) (host @ ''_'' @ uuid) of
             Inl e \<Rightarrow> Inl (NoLock e)
           | Inr rl \<Rightarrow> Inr (Some \<lparr>Lock = rl, ElectorLease = LeaseDuration le, ElectorRenew = RenewDeadline le,
               ElectorRetry = RetryPeriod le, WatchDog = 20 * 10^9, ElectorName = name\<rparr>)))"

section \<open>Recorders of events\<close>

text \<open>
  The adaptor hands its arguments on as one argument that is a list, not one by one.
\<close>

datatype 'a event_arg = Arg 'a | ArgList "'a list"

definition adaptor_Eventf ::
    "('o \<Rightarrow> 'o option \<Rightarrow> string \<Rightarrow> string \<Rightarrow> string \<Rightarrow> string \<Rightarrow> 'a event_arg list \<Rightarrow> 'w) \<Rightarrow>
     'o \<Rightarrow> string \<Rightarrow> string \<Rightarrow> string \<Rightarrow> 'a list \<Rightarrow> 'w" where
  "adaptor_Eventf record_event obj eventType reason message args =
     record_event obj None eventType reason ''LeaderElection'' message [ArgList args]"

text \<open>\<open>fnv.New32\<close>, on 32 bits: the bytes in order, each multiplied in and then added bit by bit.\<close>

definition fnv32 :: "string \<Rightarrow> 32 word" where
  "fnv32 s = foldl (\<lambda>h c. (h * 16777619) XOR of_nat (of_char c)) 2166136261 s"

datatype 'r event_outcome = IndexPanic | DividePanic | NotReported | RecordedBy 'r

definition NewEventRecorderSet :: "string \<Rightarrow> int \<Rightarrow> (string \<Rightarrow> 'r) \<Rightarrow> 'r list option" where
  "NewEventRecorderSet name num creator =
     (if num < 0 then None else Some (replicate (nat num) (creator name)))"

text \<open>
  \<open>Eventf\<close> takes the first recorder before it asks if there is one. The reference is the object's unique identifier, or an
  error; the number of recorders is converted to 32 bits.
\<close>

definition EventRecorderSet_Eventf :: "'r list \<Rightarrow> 'e + string \<Rightarrow> 'r event_outcome" where
  "EventRecorderSet_Eventf recorders reference =
     (if recorders = [] then IndexPanic
      else case reference of
        Inl e \<Rightarrow> NotReported
      | Inr uid \<Rightarrow> (let n = (of_nat (length recorders) :: 32 word)
          in if n = 0 then DividePanic
             else RecordedBy (recorders ! unat (fnv32 uid mod n))))"

section \<open>The base of the HTTP server\<close>

datatype base_route = Healthz nat | Configz | Metrics | Profiling | DebugFlags string

text \<open>The library's groups of handlers in the order they are installed, and whether blocking is profiled.\<close>

definition NewBaseHandler :: "bool \<Rightarrow> bool \<Rightarrow> nat \<Rightarrow> base_route list \<times> bool" where
  "NewBaseHandler profiling contention checks =
     ([Healthz checks, Configz, Metrics] @ (if profiling then [Profiling, DebugFlags ''v''] else []),
      profiling \<and> contention)"

text \<open>The library's filters, each given the handler it wraps.\<close>

record ('h, 'n, 'z) filters =
  WithAuthorization :: "'h \<Rightarrow> 'z option \<Rightarrow> 'h"
  WithAuthentication :: "'h \<Rightarrow> 'n option \<Rightarrow> 'h"
  WithRequestInfo :: "'h \<Rightarrow> 'h"
  WithCacheControl :: "'h \<Rightarrow> 'h"
  WithPanicRecovery :: "'h \<Rightarrow> 'h"

definition BuildHandlerChain :: "('h, 'n, 'z) filters \<Rightarrow> 'h \<Rightarrow> 'n option \<Rightarrow> 'z option \<Rightarrow> 'h" where
  "BuildHandlerChain f handler authn authz =
     (let handler = WithAuthorization f handler authz;
          handler = WithAuthentication f handler authn;
          handler = WithRequestInfo f handler;
          handler = WithCacheControl f handler
      in WithPanicRecovery f handler)"

section \<open>The cluster cache\<close>

text \<open>
  A lister gives what its informer has of the cluster at the time, \<open>'w\<close>, and maybe an error. The cache has none until it
  is synchronised, so a list asked for before is a nil dereference, \<open>None\<close>; after it, an error is logged and
  the list is handed out all the same.
\<close>

type_synonym ('w, 'e, 'a) lister = "'w \<Rightarrow> 'a list \<times> 'e option"

record ('w, 'e, 'p, 'n, 'd, 's, 't, 'h) informers =
  Pods :: "('w, 'e, 'p) lister"
  NodesOf :: "('w, 'e, 'n) lister"
  Deployments :: "('w, 'e, 'd) lister"
  DaemonSets :: "('w, 'e, 's) lister"
  StatefulSets :: "('w, 'e, 't) lister"
  HPAs :: "('w, 'e, 'h) lister"

record ('w, 'e, 'p, 'n, 'd, 's, 't, 'h) cluster_cache =
  sharedInformer :: "('w, 'e, 'p, 'n, 'd, 's, 't, 'h) informers"
  podLister :: "('w, 'e, 'p) lister option"
  nodeLister :: "('w, 'e, 'n) lister option"
  deploymentLister :: "('w, 'e, 'd) lister option"
  daemonsetLister :: "('w, 'e, 's) lister option"
  stsLister :: "('w, 'e, 't) lister option"
  hpaLister :: "('w, 'e, 'h) lister option"

definition NewCache ::
    "('w, 'e, 'p, 'n, 'd, 's, 't, 'h) informers \<Rightarrow> ('w, 'e, 'p, 'n, 'd, 's, 't, 'h) cluster_cache" where
  "NewCache f = \<lparr>sharedInformer = f, podLister = None, nodeLister = None, deploymentLister = None,
     daemonsetLister = None, stsLister = None, hpaLister = None\<rparr>"

definition WaitForCacheSync ::
    "('w, 'e, 'p, 'n, 'd, 's, 't, 'h) cluster_cache \<Rightarrow> ('w, 'e, 'p, 'n, 'd, 's, 't, 'h) cluster_cache" where
  "WaitForCacheSync c = (let f = sharedInformer c in
     c\<lparr>podLister := Some (Pods f), nodeLister := Some (NodesOf f), deploymentLister := Some (Deployments f),
       daemonsetLister := Some (DaemonSets f), stsLister := Some (StatefulSets f), hpaLister := Some (HPAs f)\<rparr>)"

definition handed_out :: "('w, 'e, 'a) lister option \<Rightarrow> 'w \<Rightarrow> 'a list option" where
  "handed_out l w = (case l of None \<Rightarrow> None | Some f \<Rightarrow> (case f w of (xs, e) \<Rightarrow> Some xs))"

definition GetPods :: "('w, 'e, 'p, 'n, 'd, 's, 't, 'h) cluster_cache \<Rightarrow> 'w \<Rightarrow> 'p list option" where
  "GetPods c w = handed_out (podLister c) w"

definition GetNodes :: "('w, 'e, 'p, 'n, 'd, 's, 't, 'h) cluster_cache \<Rightarrow> 'w \<Rightarrow> 'n list option" where
  "GetNodes c w = handed_out (nodeLister c) w"

definition GetDeployments :: "('w, 'e, 'p, 'n, 'd, 's, 't, 'h) cluster_cache \<Rightarrow> 'w \<Rightarrow> 'd list option" where
  "GetDeployments c w = handed_out (deploymentLister c) w"

definition GetDaemonSets :: "('w, 'e, 'p, 'n, 'd, 's, 't, 'h) cluster_cache \<Rightarrow> 'w \<Rightarrow> 's list option" where
  "GetDaemonSets c w = handed_out (daemonsetLister c) w"

definition GetStatefulSets :: "('w, 'e, 'p, 'n, 'd, 's, 't, 'h) cluster_cache \<Rightarrow> 'w \<Rightarrow> 't list option" where
  "GetStatefulSets c w = handed_out (stsLister c) w"

definition GetAllHPAs :: "('w, 'e, 'p, 'n, 'd, 's, 't, 'h) cluster_cache \<Rightarrow> 'w \<Rightarrow> 'h list option" where
  "GetAllHPAs c w = handed_out (hpaLister c) w"

section \<open>What the libraries are asked\<close>

text \<open>A creator always gives a client, the default one at worst, and the latter comes from the configuration that was read first.\<close>

lemma creator_total:
  assumes "CreateK8sClient env c = Inr creator"
  shows "\<exists>cfg d. NewK8sConfig env c = Inr cfg \<and> NewForConfig env cfg = Inr d \<and>
    (creator later name = d \<or> (\<exists>cfg'. NewK8sConfig later c = Inr cfg' \<and>
      NewForConfig later (AddUserAgent later cfg' name) = Inr (creator later name)))"
  using assms by (auto simp: CreateK8sClient_def split: sum.splits)

text \<open>
  Where an event goes. With a recorder or more, up to the width of the conversion, an event of an object that has an
  identifier goes to one of them, the same for the same object; without any it panics, in spite of the guard
  that asks for one, and with exactly \<open>2^32\<close> it divides by zero.
\<close>

theorem recorder_chosen:
  assumes "0 < length recorders" "length recorders < 2^32"
  shows "\<exists>i < length recorders. i = unat (fnv32 uid) mod length recorders \<and>
    EventRecorderSet_Eventf recorders (Inr uid) = RecordedBy (recorders ! i) \<and>
    EventRecorderSet_Eventf recorders (Inl e) = NotReported \<and>
    EventRecorderSet_Eventf ([] :: 'a list) reference = IndexPanic"
proof -
  have n: "unat (of_nat (length recorders) :: 32 word) = length recorders"
    using assms(2) by (simp add: unsigned_of_nat take_bit_nat_eq_self)
  with assms(1) have "(of_nat (length recorders) :: 32 word) \<noteq> 0" by (metis less_irrefl unat_0)
  moreover have "unat (fnv32 uid mod of_nat (length recorders)) = unat (fnv32 uid) mod length recorders"
    by (simp only: unat_mod_distrib n)
  ultimately show ?thesis using assms(1) by (auto simp: EventRecorderSet_Eventf_def Let_def)
qed

lemma fnv32_a: "fnv32 ''a'' = 0x050C5D7E"
  by code_simp

theorem recorder_chosen_witness:
  "EventRecorderSet_Eventf [''r0'', ''r1'', ''r2''] (Inr ''a'' :: unit + string) = RecordedBy ''r2''"
  using recorder_chosen [where recorders = "[''r0'', ''r1'', ''r2'']" and uid = "''a''" and e = "()" and
    reference = "Inl () :: unit + string"] by (auto simp: fnv32_a)

text \<open>The filters of the server go around the handler; the last one put on sees a request first.\<close>

lemma chain_without_auth:
  assumes "\<And>h. WithAuthorization f h None = h" "\<And>h. WithAuthentication f h None = h"
  shows "BuildHandlerChain f h None None = WithPanicRecovery f (WithCacheControl f (WithRequestInfo f h))"
  using assms by (simp add: BuildHandlerChain_def)

text \<open>
  The contract of a list that is synchronised before it is read: the cache's field, its getter, and what the informers have.
\<close>

locale synced_list =
  fixes get :: "('w, 'e, 'p, 'n, 'd, 's, 't, 'h) cluster_cache \<Rightarrow> 'w \<Rightarrow> 'a list option"
    and source :: "('w, 'e, 'p, 'n, 'd, 's, 't, 'h) informers \<Rightarrow> ('w, 'e, 'a) lister"
  assumes unsynced: "get (NewCache f) w = None"
    and synced: "get (WaitForCacheSync c) w = Some (fst (source (sharedInformer c) w))"
begin

lemma follows: "get (WaitForCacheSync (NewCache f)) w = Some xs \<longleftrightarrow> fst (source f w) = xs"
  by (simp add: synced) (simp add: NewCache_def)

lemma error_dropped: "source f w = (xs, Some e) \<Longrightarrow> get (WaitForCacheSync (NewCache f)) w = Some xs"
  by (simp add: follows)

end

lemmas cache_defs = NewCache_def WaitForCacheSync_def handed_out_def Let_def

interpretation pods: synced_list GetPods Pods
  by unfold_locales (simp_all add: GetPods_def cache_defs split_def)

interpretation nodes: synced_list GetNodes NodesOf
  by unfold_locales (simp_all add: GetNodes_def cache_defs split_def)

interpretation deployments: synced_list GetDeployments Deployments
  by unfold_locales (simp_all add: GetDeployments_def cache_defs split_def)

interpretation daemonsets: synced_list GetDaemonSets DaemonSets
  by unfold_locales (simp_all add: GetDaemonSets_def cache_defs split_def)

interpretation statefulsets: synced_list GetStatefulSets StatefulSets
  by unfold_locales (simp_all add: GetStatefulSets_def cache_defs split_def)

interpretation hpas: synced_list GetAllHPAs HPAs
  by unfold_locales (simp_all add: GetAllHPAs_def cache_defs split_def)

text \<open>
  What the cache hands out: nothing but a panic before it is synchronised, afterwards at each time what the informers have
  then, also when the lister says that it failed.
\<close>

theorem cache_lists:
  "GetPods (NewCache f) w = None \<and> GetNodes (NewCache f) w = None \<and>
   GetPods (WaitForCacheSync (NewCache f)) w = Some (fst (Pods f w)) \<and>
   GetNodes (WaitForCacheSync (NewCache f)) w = Some (fst (NodesOf f w)) \<and>
   GetDeployments (WaitForCacheSync (NewCache f)) w = Some (fst (Deployments f w)) \<and>
   GetDaemonSets (WaitForCacheSync (NewCache f)) w = Some (fst (DaemonSets f w)) \<and>
   GetStatefulSets (WaitForCacheSync (NewCache f)) w = Some (fst (StatefulSets f w)) \<and>
   GetAllHPAs (WaitForCacheSync (NewCache f)) w = Some (fst (HPAs f w))"
  by (simp add: pods.unsynced nodes.unsynced pods.follows nodes.follows deployments.follows daemonsets.follows
      statefulsets.follows hpas.follows)

end
