(* ===== verification/Serving.thy ===== *)
theory Serving
  imports Kube_Util
begin

text \<open>
  The exporter's process from its start to its exit: the two goroutines of \<open>Serve\<close> in \<open>pkg/cost-exporter/server.go\<close>, and
  around them the election of a leader at the end of \<open>Run\<close> in \<open>cmd/fadvisor/app/fadvisor.go\<close>. A step is what one goroutine does between two
  operations on a channel or calls of the library that wait. The library's \<open>Shutdown\<close> makes \<open>Serve\<close>
  return, also when it comes first, and returns when it is done or its 30 seconds are over.
\<close>

section \<open>The two goroutines of the server\<close>

datatype stopper = WaitsForStop | ShuttingDown | StoppedClosed

datatype listener = NotListening | Listening | Accepting | ServeReturned | ListenerEnded |
  ListenerPanics | ListenFails

record serving =
  StopClosed :: bool
  Stopper :: stopper
  Listener :: listener

definition Serve_start :: serving where
  "Serve_start = \<lparr>StopClosed = False, Stopper = WaitsForStop, Listener = NotListening\<rparr>"

text \<open>A panic and a failure to listen end the process. The flag says whether the network may fail.\<close>

definition goes_on :: "serving \<Rightarrow> bool" where
  "goes_on s \<longleftrightarrow> Listener s \<notin> {ListenerPanics, ListenFails}"

inductive serve_step :: "bool \<Rightarrow> serving \<Rightarrow> serving \<Rightarrow> bool" for faults where
  wakes: "goes_on s \<Longrightarrow> StopClosed s \<Longrightarrow> Stopper s = WaitsForStop \<Longrightarrow>
    serve_step faults s (s\<lparr>Stopper := ShuttingDown\<rparr>)"
| shut_down: "goes_on s \<Longrightarrow> Stopper s = ShuttingDown \<Longrightarrow> serve_step faults s (s\<lparr>Stopper := StoppedClosed\<rparr>)"
| listens: "goes_on s \<Longrightarrow> Listener s = NotListening \<Longrightarrow> serve_step faults s (s\<lparr>Listener := Listening\<rparr>)"
| listen_fails: "goes_on s \<Longrightarrow> faults \<Longrightarrow> Listener s = NotListening \<Longrightarrow>
    serve_step faults s (s\<lparr>Listener := ListenFails\<rparr>)"
| accepts: "goes_on s \<Longrightarrow> Listener s = Listening \<Longrightarrow> Stopper s = WaitsForStop \<Longrightarrow>
    serve_step faults s (s\<lparr>Listener := Accepting\<rparr>)"
| closed: "goes_on s \<Longrightarrow> Listener s \<in> {Listening, Accepting} \<Longrightarrow> Stopper s \<noteq> WaitsForStop \<Longrightarrow>
    serve_step faults s (s\<lparr>Listener := ServeReturned\<rparr>)"
| accept_fails: "goes_on s \<Longrightarrow> faults \<Longrightarrow> Listener s = Accepting \<Longrightarrow>
    serve_step faults s (s\<lparr>Listener := ServeReturned\<rparr>)"
| ends: "goes_on s \<Longrightarrow> Listener s = ServeReturned \<Longrightarrow> StopClosed s \<Longrightarrow>
    serve_step faults s (s\<lparr>Listener := ListenerEnded\<rparr>)"
| panics: "goes_on s \<Longrightarrow> Listener s = ServeReturned \<Longrightarrow> \<not> StopClosed s \<Longrightarrow>
    serve_step faults s (s\<lparr>Listener := ListenerPanics\<rparr>)"

inductive_cases serve_stepE: "serve_step faults s t"

text \<open>The steps of the server and the closing of the stop channel.\<close>

inductive serve_reach :: "bool \<Rightarrow> serving \<Rightarrow> bool" for faults where
  start: "serve_reach faults Serve_start"
| stop: "serve_reach faults s \<Longrightarrow> goes_on s \<Longrightarrow> serve_reach faults (s\<lparr>StopClosed := True\<rparr>)"
| step: "serve_reach faults s \<Longrightarrow> serve_step faults s t \<Longrightarrow> serve_reach faults t"

definition serve_inv :: "bool \<Rightarrow> serving \<Rightarrow> bool" where
  "serve_inv faults s \<longleftrightarrow> (Stopper s \<noteq> WaitsForStop \<longrightarrow> StopClosed s) \<and> (Listener s = ListenerEnded \<longrightarrow> StopClosed s) \<and>
     (Listener s = ListenerPanics \<longrightarrow> faults \<and> \<not> StopClosed s) \<and> (Listener s = ListenFails \<longrightarrow> faults) \<and>
     (Listener s = ServeReturned \<longrightarrow> faults \<or> StopClosed s)"

lemma serve_inv_step: "serve_step faults s t \<Longrightarrow> serve_inv faults s \<Longrightarrow> serve_inv faults t"
  by (erule serve_stepE) (auto simp: serve_inv_def goes_on_def)

lemma serve_inv_start: "serve_inv faults Serve_start"
  by (simp add: serve_inv_def Serve_start_def)

lemma serve_inv_stop: "serve_inv faults s \<Longrightarrow> goes_on s \<Longrightarrow> serve_inv faults (s\<lparr>StopClosed := True\<rparr>)"
  by (auto simp: serve_inv_def goes_on_def)

lemma serve_reach_inv: "serve_reach faults s \<Longrightarrow> serve_inv faults s"
  by (induction rule: serve_reach.induct) (auto intro: serve_inv_start serve_inv_stop serve_inv_step)

text \<open>How many steps are left at most.\<close>

fun stopper_rank :: "stopper \<Rightarrow> nat" where
  "stopper_rank WaitsForStop = 2" | "stopper_rank ShuttingDown = 1" | "stopper_rank StoppedClosed = 0"

fun listener_rank :: "listener \<Rightarrow> nat" where
  "listener_rank NotListening = 4" | "listener_rank Listening = 3" | "listener_rank Accepting = 2"
| "listener_rank ServeReturned = 1" | "listener_rank l = 0"

definition serve_rank :: "serving \<Rightarrow> nat" where
  "serve_rank s = stopper_rank (Stopper s) + listener_rank (Listener s)"

lemma serve_step_rank: "serve_step faults s t \<Longrightarrow> serve_rank t < serve_rank s \<and> StopClosed t = StopClosed s"
  by (erule serve_stepE) (auto simp: serve_rank_def)

lemma serve_steps_rank: "(serve_step faults ^^ n) s t \<Longrightarrow> serve_rank t + n \<le> serve_rank s \<and> StopClosed t = StopClosed s"
proof (induction n arbitrary: t)
  case (Suc n)
  then obtain u where "(serve_step faults ^^ n) s u" "serve_step faults u t" by auto
  with Suc.IH serve_step_rank show ?case by fastforce
qed simp

lemma serve_stuck:
  assumes "StopClosed s" "goes_on s" "\<forall>t. \<not> serve_step faults s t"
  shows "Stopper s = StoppedClosed \<and> Listener s = ListenerEnded"
proof -
  have st: "Stopper s = StoppedClosed" using assms serve_step.wakes serve_step.shut_down by (cases "Stopper s") blast+
  then have "Listener s \<notin> {Listening, Accepting}" using assms(2, 3) serve_step.closed by fastforce
  moreover have "Listener s \<noteq> NotListening" using assms(2, 3) serve_step.listens by blast
  moreover have "Listener s \<noteq> ServeReturned" using assms serve_step.ends by blast
  ultimately have "Listener s = ListenerEnded" using assms(2) by (cases "Listener s") (simp_all add: goes_on_def)
  with st show ?thesis by blast
qed

lemma steps_reach: "(serve_step faults ^^ n) s t \<Longrightarrow> serve_reach faults s \<Longrightarrow> serve_reach faults t"
  by (induction n arbitrary: t) (auto intro: serve_reach.step)

text \<open>
  C28. A stop that is asked for is graceful. In every interleaving of the two goroutines, the server panics only when the
  network fails it before the stop, and never once the stop channel is closed; when the network does not
  fail there is no panic and no exit. After the channel is closed at most six steps are left when the network does not fail from then on, and such a run that
  has no step left has shut down, returned from the library and told its caller.
\<close>

theorem stop_is_graceful:
  assumes "serve_reach faults s"
  shows "(Listener s = ListenerPanics \<longrightarrow> faults \<and> \<not> StopClosed s) \<and> (\<not> faults \<longrightarrow> goes_on s) \<and>
    (Stopper s = StoppedClosed \<longrightarrow> StopClosed s) \<and>
    (StopClosed s \<and> goes_on s \<longrightarrow>
      (\<forall>n t. (serve_step False ^^ n) s t \<longrightarrow> n \<le> 6 \<and> goes_on t \<and>
        ((\<forall>u. \<not> serve_step False t u) \<longrightarrow> Stopper t = StoppedClosed \<and> Listener t = ListenerEnded)))"
proof -
  have inv: "serve_inv faults s" by (rule serve_reach_inv [OF assms])
  have "n \<le> 6 \<and> goes_on t \<and> ((\<forall>u. \<not> serve_step False t u) \<longrightarrow> Stopper t = StoppedClosed \<and> Listener t = ListenerEnded)"
    if s: "StopClosed s" "goes_on s" and t: "(serve_step False ^^ n) s t" for n t
  proof -
    have "serve_rank s \<le> 6" by (cases "Stopper s"; cases "Listener s") (simp_all add: serve_rank_def)
    with serve_steps_rank [OF t] s(1) have n: "n \<le> 6" "StopClosed t" by auto
    have "serve_inv False s" using inv s by (auto simp: serve_inv_def goes_on_def)
    moreover have "serve_inv False u" if "(serve_step False ^^ k) s u" "serve_inv False s" for k u
      using that by (induction k arbitrary: u) (auto intro: serve_inv_step)
    ultimately have "serve_inv False t" using t by blast
    then have r: "goes_on t" by (auto simp: serve_inv_def goes_on_def)
    with n serve_stuck [OF n(2) r] show ?thesis by blast
  qed
  moreover have "(Listener s = ListenerPanics \<longrightarrow> faults \<and> \<not> StopClosed s) \<and> (\<not> faults \<longrightarrow> goes_on s) \<and>
      (Stopper s = StoppedClosed \<longrightarrow> StopClosed s)"
    using inv by (auto simp: serve_inv_def goes_on_def)
  ultimately show ?thesis by blast
qed

text \<open>A server that is stopped before it has done anything.\<close>

definition stopped_early :: serving where
  "stopped_early = Serve_start\<lparr>StopClosed := True\<rparr>"

theorem stop_is_graceful_witness:
  "\<exists>t. serve_step False stopped_early t \<and> goes_on t \<and> Stopper t = ShuttingDown"
proof -
  have r: "goes_on Serve_start" by (simp add: goes_on_def Serve_start_def)
  have reach: "serve_reach False stopped_early"
    unfolding stopped_early_def by (rule serve_reach.stop [OF serve_reach.start r])
  have st: "StopClosed stopped_early" "goes_on stopped_early" "Stopper stopped_early = WaitsForStop"
    using r by (simp_all add: stopped_early_def goes_on_def Serve_start_def)
  define t where "t = stopped_early\<lparr>Stopper := ShuttingDown\<rparr>"
  have step: "serve_step False stopped_early t" unfolding t_def by (rule serve_step.wakes [OF st(2, 1, 3)])
  then have "(serve_step False ^^ 1) stopped_early t" by (simp only: relpowp_1)
  with stop_is_graceful [OF reach] st have "goes_on t" by blast
  with step show ?thesis by (auto simp: t_def)
qed

section \<open>The process\<close>

text \<open>
  The election's goroutine waits for the lease, then leads, until it loses the lease or the context ends. The server runs once the process
  leads, or at once where there is no election. \<open>Exited\<close> is the status: 255 for an error of \<open>Run\<close> and for a server that can not
  listen, 2 for a panic.
\<close>

datatype role = Electing | Leads | Alone

record process =
  Role :: role
  Cancelled :: bool
  Server :: "serving option"
  Exited :: "int option"

definition Run_process :: "bool \<Rightarrow> process" where
  "Run_process elect = (if elect then \<lparr>Role = Electing, Cancelled = False, Server = None, Exited = None\<rparr>
     else \<lparr>Role = Alone, Cancelled = False, Server = Some Serve_start, Exited = None\<rparr>)"

text \<open>The end of the context closes the stop channel, except in a process that a panic is taking down.\<close>

definition close_stop :: "serving \<Rightarrow> serving" where
  "close_stop s = (if goes_on s then s\<lparr>StopClosed := True\<rparr> else s)"

inductive process_step :: "bool \<Rightarrow> process \<Rightarrow> process \<Rightarrow> bool" for faults where
  cancelled: "Exited p = None \<Longrightarrow> process_step faults p
     (p\<lparr>Cancelled := True, Server := map_option close_stop (Server p)\<rparr>)"
| elected: "Exited p = None \<Longrightarrow> Role p = Electing \<Longrightarrow> \<not> Cancelled p \<Longrightarrow>
     process_step faults p (p\<lparr>Role := Leads, Server := Some Serve_start\<rparr>)"
| serves: "Exited p = None \<Longrightarrow> Server p = Some s \<Longrightarrow> serve_step faults s t \<Longrightarrow>
     process_step faults p (p\<lparr>Server := Some t\<rparr>)"
| cannot_listen: "Exited p = None \<Longrightarrow> Server p = Some s \<Longrightarrow> Listener s = ListenFails \<Longrightarrow>
     process_step faults p (p\<lparr>Exited := Some 255\<rparr>)"
| crashes: "Exited p = None \<Longrightarrow> Server p = Some s \<Longrightarrow> Listener s = ListenerPanics \<Longrightarrow>
     process_step faults p (p\<lparr>Exited := Some 2\<rparr>)"
| gives_up: "Exited p = None \<Longrightarrow> Role p = Electing \<Longrightarrow> Cancelled p \<Longrightarrow>
     process_step faults p (p\<lparr>Exited := Some 255\<rparr>)"
| lost_lease: "Exited p = None \<Longrightarrow> Role p = Leads \<Longrightarrow>
     process_step faults p (p\<lparr>Exited := Some 255\<rparr>)"
| returns: "Exited p = None \<Longrightarrow> Role p = Alone \<Longrightarrow> Server p = Some s \<Longrightarrow> Stopper s = StoppedClosed \<Longrightarrow>
     process_step faults p (p\<lparr>Exited := Some 0\<rparr>)"

inductive_cases process_stepE: "process_step faults p q"

abbreviation process_reach :: "bool \<Rightarrow> bool \<Rightarrow> process \<Rightarrow> bool" where
  "process_reach elect faults p \<equiv> (process_step faults)\<^sup>*\<^sup>* (Run_process elect) p"

definition process_inv :: "bool \<Rightarrow> bool \<Rightarrow> process \<Rightarrow> bool" where
  "process_inv elect faults p \<longleftrightarrow> (if elect then Role p \<noteq> Alone \<and> Exited p \<noteq> Some 0 else Role p = Alone) \<and>
     (Role p = Electing \<longrightarrow> Server p = None) \<and>
     (case Server p of None \<Rightarrow> Role p = Electing | Some s \<Rightarrow> serve_inv faults s \<and> (StopClosed s \<longrightarrow> Cancelled p) \<and>
        (Exited p = Some 0 \<longrightarrow> Stopper s = StoppedClosed)) \<and>
     (Exited p = Some 2 \<longrightarrow> faults) \<and> (\<not> elect \<and> Exited p = Some 255 \<longrightarrow> faults) \<and>
     Exited p \<in> {None, Some 0, Some 2, Some 255}"

lemma close_stop_inv: "serve_inv faults s \<Longrightarrow> serve_inv faults (close_stop s)"
  by (simp add: close_stop_def serve_inv_stop)

lemma close_stop_simps: "Stopper (close_stop s) = Stopper s" by (simp add: close_stop_def)

lemma process_inv_step:
  assumes "process_step faults p q" "process_inv elect faults p" shows "process_inv elect faults q"
  using assms
proof (cases rule: process_step.cases)
  case cancelled
  with assms(2) show ?thesis
    by (cases "Server p") (auto simp: process_inv_def close_stop_inv close_stop_simps split: if_splits)
next
  case elected
  with assms(2) show ?thesis
    by (auto simp: process_inv_def serve_inv_def Serve_start_def split: if_splits)
next
  case (serves s t)
  with assms(2) have "serve_inv faults t" "StopClosed t \<longrightarrow> Cancelled p"
    using serve_inv_step serve_step_rank by (fastforce simp: process_inv_def)+
  with serves assms(2) show ?thesis by (auto simp: process_inv_def split: if_splits)
qed (auto simp: process_inv_def serve_inv_def split: if_splits option.splits)

lemma process_reach_inv: "process_reach elect faults p \<Longrightarrow> process_inv elect faults p"
proof (induction rule: rtranclp_induct)
  case base
  show ?case by (simp add: process_inv_def Run_process_def serve_inv_start) (simp add: Serve_start_def)
next
  case (step p q)
  then show ?case using process_inv_step by blast
qed

text \<open>A process with election that leads and serves, is told to stop, and is gone with its server as it was.\<close>

definition serving_now :: serving where
  "serving_now = \<lparr>StopClosed = False, Stopper = WaitsForStop, Listener = Accepting\<rparr>"

lemma leader_cut_off:
  "process_reach True False \<lparr>Role = Leads, Cancelled = True, Server = Some (close_stop serving_now), Exited = Some 255\<rparr>"
proof -
  let ?p = "\<lambda>s. \<lparr>Role = Leads, Cancelled = False, Server = Some s, Exited = None\<rparr>"
  let ?l = "\<lparr>StopClosed = False, Stopper = WaitsForStop, Listener = Listening\<rparr>"
  have 1: "process_step False (Run_process True) (?p Serve_start)"
    using process_step.elected [where p = "Run_process True" and faults = False] by (simp add: Run_process_def)
  have "serve_step False Serve_start ?l"
    using serve_step.listens [where s = Serve_start and faults = False] by (simp add: Serve_start_def goes_on_def)
  then have 2: "process_step False (?p Serve_start) (?p ?l)"
    using process_step.serves [where p = "?p Serve_start" and faults = False] by simp
  have "serve_step False ?l serving_now"
    using serve_step.accepts [where s = ?l and faults = False] by (simp add: goes_on_def serving_now_def)
  then have 3: "process_step False (?p ?l) (?p serving_now)"
    using process_step.serves [where p = "?p ?l" and faults = False] by simp
  let ?c = "\<lparr>Role = Leads, Cancelled = True, Server = Some (close_stop serving_now), Exited = None\<rparr>"
  have 4: "process_step False (?p serving_now) ?c"
    using process_step.cancelled [where p = "?p serving_now" and faults = False] by simp
  have 5: "process_step False ?c (?c\<lparr>Exited := Some 255\<rparr>)"
    using process_step.lost_lease [where p = ?c and faults = False] by simp
  from 1 2 3 4 5 have "process_reach True False (?c\<lparr>Exited := Some 255\<rparr>)"
    by (meson rtranclp.rtrancl_into_rtrancl rtranclp.rtrancl_refl)
  then show ?thesis by simp
qed

text \<open>
  C29. How the exporter ends. Without an election it exits with 0, only after the context has ended and the server has been shut down,
  unless the network fails. With the election, which is the default, it never exits with 0: an ordinary end of the context is an
  error with the status 255 as well, and it does not wait for the server, which may be in the middle of its
  requests.
\<close>

theorem exporter_ends:
  assumes "process_reach elect faults p"
  shows "(elect \<longrightarrow> Exited p \<noteq> Some 0) \<and>
    (Exited p = Some 0 \<longrightarrow> Cancelled p \<and> (\<exists>s. Server p = Some s \<and> Stopper s = StoppedClosed)) \<and>
    (\<not> elect \<and> \<not> faults \<longrightarrow> Exited p \<in> {None, Some 0}) \<and>
    (\<exists>q s. process_reach True False q \<and> Cancelled q \<and> Exited q = Some 255 \<and> Server q = Some s \<and>
       Stopper s = WaitsForStop \<and> Listener s = Accepting)"
proof (intro conjI impI)
  have inv: "process_inv elect faults p" by (rule process_reach_inv [OF assms])
  show "Exited p \<noteq> Some 0" if elect using inv that by (simp add: process_inv_def)
  show "Exited p \<in> {None, Some 0}" if "\<not> elect \<and> \<not> faults" using inv that by (auto simp: process_inv_def)
  assume e: "Exited p = Some 0"
  with inv have "Role p = Alone" by (auto simp: process_inv_def split: if_splits)
  with inv obtain s where s: "Server p = Some s" by (cases "Server p") (auto simp: process_inv_def)
  with inv e have st: "serve_inv faults s" "StopClosed s \<longrightarrow> Cancelled p" "Stopper s = StoppedClosed"
    by (auto simp: process_inv_def)
  then show "Cancelled p" by (simp add: serve_inv_def)
  from s st(3) show "\<exists>s. Server p = Some s \<and> Stopper s = StoppedClosed" by blast
next
  let ?q = "\<lparr>Role = Leads, Cancelled = True, Server = Some (close_stop serving_now), Exited = Some 255\<rparr>"
  have "Stopper (close_stop serving_now) = WaitsForStop" "Listener (close_stop serving_now) = Accepting"
    by (simp_all add: close_stop_def serving_now_def goes_on_def)
  with leader_cut_off show "\<exists>q s. process_reach True False q \<and> Cancelled q \<and> Exited q = Some 255 \<and> Server q = Some s \<and>
       Stopper s = WaitsForStop \<and> Listener s = Accepting"
    by (intro exI [of _ ?q] exI [of _ "close_stop serving_now"]) simp
qed

theorem exporter_ends_witness:
  "Exited (Run_process False) \<in> {None, Some 0} \<and> Exited (Run_process True) \<noteq> Some 0"
  using exporter_ends [where elect = False and faults = False and p = "Run_process False"]
    exporter_ends [where elect = True and faults = False and p = "Run_process True"] by simp

end
