(* ===== verification/Datasource_Proxy.thy ===== *)
theory Datasource_Proxy
  imports Registry Time_Series
begin

text \<open>
  \<open>pkg/datasource\<close>: the two proxies over named data sources (\<open>proxy.go\<close>) and the credentials that
  are put on a request (\<open>config.go\<close>). A provider is its query function: \<open>'q\<close> is what a query is
  asked with (the metric namer, and for a history query the range and the step). A nil Go map
  is \<open>None\<close>.
\<close>

type_synonym ('q, 'e) provider = "'q \<Rightarrow> 'e + time_series list"

type_synonym ('q, 'e) proxy = "(string, ('q, 'e) provider) gomap option"

definition proxy_map :: "('q, 'e) proxy \<Rightarrow> (string, ('q, 'e) provider) gomap" where
  "proxy_map p = (case p of None \<Rightarrow> [] | Some m \<Rightarrow> m)"

definition getSortedProviders :: "('q, 'e) proxy \<Rightarrow> ('q, 'e) provider list" where
  "getSortedProviders p =
     (let names = sort (map fst (proxy_map p)) in map (\<lambda>n. the (mget (proxy_map p) n)) names)"

definition QueryLatestTimeSeries :: "('q, 'e) proxy \<Rightarrow> 'q \<Rightarrow> 'e list + time_series list" where
  "QueryLatestTimeSeries p q = try_each (\<lambda>provider. provider q) [] (getSortedProviders p)"

text \<open>Assigning to an entry of a nil map panics: \<open>None\<close>.\<close>

definition RegisterRealTimeProvider ::
    "string \<Rightarrow> ('q, 'e) provider \<Rightarrow> ('q, 'e) proxy \<Rightarrow> ('q, 'e) proxy option" where
  "RegisterRealTimeProvider name prov p =
     (case p of None \<Rightarrow> None | Some m \<Rightarrow> Some (Some (mput name prov m)))"

definition DeleteRealTimeProvider :: "string \<Rightarrow> ('q, 'e) proxy \<Rightarrow> ('q, 'e) proxy" where
  "DeleteRealTimeProvider name p = map_option (mdel name) p"

definition getSortedHistoryProviders :: "('q, 'e) proxy \<Rightarrow> ('q, 'e) provider list" where
  "getSortedHistoryProviders p =
     (let names = sort (map fst (proxy_map p)) in map (\<lambda>n. the (mget (proxy_map p) n)) names)"

definition QueryTimeSeries :: "('q, 'e) proxy \<Rightarrow> 'q \<Rightarrow> 'e list + time_series list" where
  "QueryTimeSeries p q = try_each (\<lambda>provider. provider q) [] (getSortedHistoryProviders p)"

definition RegisterHistoryProvider ::
    "string \<Rightarrow> ('q, 'e) provider \<Rightarrow> ('q, 'e) proxy \<Rightarrow> ('q, 'e) proxy option" where
  "RegisterHistoryProvider name prov p =
     (let m = (case p of None \<Rightarrow> [] | Some m \<Rightarrow> m) in Some (Some (mput name prov m)))"

definition DeleteHistoryProvider :: "string \<Rightarrow> ('q, 'e) proxy \<Rightarrow> ('q, 'e) proxy" where
  "DeleteHistoryProvider name p = map_option (mdel name) p"

section \<open>The proxies are registries\<close>

definition wf_proxy :: "('q, 'e) proxy \<Rightarrow> bool" where
  "wf_proxy p \<longleftrightarrow> wf_map (proxy_map p)"

definition proxy_get :: "('q, 'e) proxy \<Rightarrow> string \<Rightarrow> ('q, 'e) provider option" where
  "proxy_get p n = mget (proxy_map p) n"

lemmas proxy_defs = wf_proxy_def proxy_get_def proxy_map_def RegisterRealTimeProvider_def
  DeleteRealTimeProvider_def RegisterHistoryProvider_def DeleteHistoryProvider_def Let_def

interpretation realtime: deletable_registry wf_proxy proxy_get RegisterRealTimeProvider
  DeleteRealTimeProvider
  by unfold_locales (auto simp: proxy_defs split: option.splits)

interpretation history: deletable_registry wf_proxy proxy_get RegisterHistoryProvider
  DeleteHistoryProvider
  by unfold_locales (auto simp: proxy_defs wf_map_def split: option.splits intro: distinct_update distinct_delete)

section \<open>Which provider answers\<close>

lemma same_getSortedProviders: "getSortedHistoryProviders = getSortedProviders"
  by (simp add: fun_eq_iff getSortedHistoryProviders_def getSortedProviders_def)

lemma sorted_names_eq:
  assumes "wf_proxy p" "wf_proxy p'" "proxy_get p = proxy_get p'"
  shows "sort (map fst (proxy_map p)) = sort (map fst (proxy_map p'))"
proof -
  have "set (map fst (proxy_map p)) = set (map fst (proxy_map p'))"
    using assms(3) unfolding proxy_get_def fun_eq_iff
    by (metis (no_types, lifting) list.set_map map_of_eq_None_iff subset_antisym subset_eq)
  moreover have "distinct (map fst (proxy_map p))" "distinct (map fst (proxy_map p'))"
    using assms(1, 2) by (simp_all add: wf_proxy_def wf_map_def)
  ultimately show ?thesis
    by (intro sorted_distinct_set_unique) simp_all
qed

lemma getSortedProviders_cong:
  "wf_proxy p \<Longrightarrow> wf_proxy p' \<Longrightarrow> proxy_get p = proxy_get p' \<Longrightarrow>
     getSortedProviders p = getSortedProviders p'"
  using sorted_names_eq [of p p'] by (simp add: getSortedProviders_def proxy_get_def Let_def fun_eq_iff)

lemma sorted_prefix_less:
  assumes "sorted ns" "distinct ns" "ns = as @ n # bs"
  shows "set as = {x \<in> set ns. x < n}"
  using assms by (auto simp: sorted_append order.strict_iff_order)

lemma first_success_in_name_order:
  assumes "wf_proxy p"
  shows "try_each (\<lambda>provider. provider q) [] (getSortedProviders p) = Inr r \<longleftrightarrow>
    (\<exists>n prov. proxy_get p n = Some prov \<and> prov q = Inr r \<and>
       (\<forall>m prov'. proxy_get p m = Some prov' \<and> m < n \<longrightarrow> isl (prov' q)))"
    (is "?l \<longleftrightarrow> ?r")
proof -
  define ns where "ns = sort (map fst (proxy_map p))"
  define g where "g = (\<lambda>n. the (mget (proxy_map p) n))"
  have ns: "sorted ns" "distinct ns" "\<And>n. n \<in> set ns \<longleftrightarrow> proxy_get p n \<noteq> None"
    using assms by (auto simp: ns_def wf_proxy_def wf_map_def proxy_get_def map_of_eq_None_iff)
  have ps: "getSortedProviders p = map g ns"
    by (simp add: getSortedProviders_def ns_def g_def)
  have g: "proxy_get p n = Some prov \<longleftrightarrow> n \<in> set ns \<and> g n = prov" for n prov
    using ns(3) [of n] by (auto simp: g_def proxy_get_def)
  have fails: "fails (\<lambda>provider. provider q) x \<longleftrightarrow> isl (x q)" for x
    by (simp add: fails_def split: sum.split)
  have "?l \<longleftrightarrow> (\<exists>as n bs. ns = as @ n # bs \<and> g n q = Inr r \<and> (\<forall>m \<in> set as. isl (g m q)))"
    unfolding ps try_each_map_Inr_iff fails by simp
  also have "\<dots> \<longleftrightarrow> (\<exists>n \<in> set ns. g n q = Inr r \<and> (\<forall>m \<in> set ns. m < n \<longrightarrow> isl (g m q)))"
  proof
    assume "\<exists>as n bs. ns = as @ n # bs \<and> g n q = Inr r \<and> (\<forall>m \<in> set as. isl (g m q))"
    then obtain as n bs where s: "ns = as @ n # bs" and n: "g n q = Inr r" "\<forall>m \<in> set as. isl (g m q)"
      by blast
    have "n \<in> set ns" by (simp add: s)
    moreover have "\<forall>m \<in> set ns. m < n \<longrightarrow> isl (g m q)"
      using n(2) sorted_prefix_less [OF ns(1, 2) s] by blast
    ultimately show "\<exists>n \<in> set ns. g n q = Inr r \<and> (\<forall>m \<in> set ns. m < n \<longrightarrow> isl (g m q))"
      using n(1) by blast
  next
    assume "\<exists>n \<in> set ns. g n q = Inr r \<and> (\<forall>m \<in> set ns. m < n \<longrightarrow> isl (g m q))"
    then obtain n where n: "n \<in> set ns" "g n q = Inr r" "\<forall>m \<in> set ns. m < n \<longrightarrow> isl (g m q)"
      by blast
    from split_list [OF n(1)] obtain as bs where s: "ns = as @ n # bs" by blast
    with n(2, 3) sorted_prefix_less [OF ns(1, 2) s]
    show "\<exists>as n bs. ns = as @ n # bs \<and> g n q = Inr r \<and> (\<forall>m \<in> set as. isl (g m q))"
      by blast
  qed
  also have "\<dots> \<longleftrightarrow> ?r" by (auto simp: g)
  finally show ?thesis .
qed

text \<open>
  A proxy's history query returns what the provider with the smallest name returns among the
  providers that answer without an error, and fails exactly when every provider fails.
\<close>

theorem QueryTimeSeries_first:
  assumes "wf_proxy p"
  shows "QueryTimeSeries p q = Inr r \<longleftrightarrow>
    (\<exists>n prov. proxy_get p n = Some prov \<and> prov q = Inr r \<and>
       (\<forall>m prov'. proxy_get p m = Some prov' \<and> m < n \<longrightarrow> isl (prov' q)))"
  unfolding QueryTimeSeries_def same_getSortedProviders
  by (rule first_success_in_name_order [OF assms])

text \<open>
  Registering the same providers under distinct names in another order gives a proxy that
  answers every query alike, with the same errors.
\<close>

theorem registration_order_irrelevant:
  assumes "wf_proxy p" "distinct (map fst kvs)" "mset kvs = mset kvs'"
    and "put_all RegisterHistoryProvider kvs p = Some p1"
    and "put_all RegisterHistoryProvider kvs' p = Some p2"
  shows "QueryTimeSeries p1 q = QueryTimeSeries p2 q"
  using getSortedProviders_cong [OF history.put_all_inv [OF assms(1, 4)]
      history.put_all_inv [OF assms(1, 5)] history.put_all_order [OF assms(1, 4, 5, 2, 3)]]
  by (simp add: QueryTimeSeries_def same_getSortedProviders)

text \<open>
  Registering with a real-time proxy that was made from a nil map panics, where the history
  proxy makes the map first; on any other proxy both registrations put the provider.
\<close>

theorem register_nil_map:
  "RegisterRealTimeProvider n prov None = None \<and>
   (\<exists>p. RegisterHistoryProvider n prov None = Some p \<and> proxy_get p n = Some prov) \<and>
   RegisterRealTimeProvider n prov (Some m) = RegisterHistoryProvider n prov (Some m)"
  by (simp add: RegisterRealTimeProvider_def RegisterHistoryProvider_def proxy_get_def proxy_map_def)

definition example_proxy :: "(unit, string) proxy" where
  "example_proxy = Some [(''prom'', \<lambda>q. Inr [example_series [1] 0]), (''metricserver'', \<lambda>q. Inl ''down'')]"

theorem QueryTimeSeries_first_witness:
  "QueryTimeSeries example_proxy () = Inr [example_series [1] 0] \<and>
   (\<exists>n prov. proxy_get example_proxy n = Some prov \<and> prov () = Inr [example_series [1] 0] \<and>
      (\<forall>m prov'. proxy_get example_proxy m = Some prov' \<and> m < n \<longrightarrow> isl (prov' ())))"
proof -
  have "wf_proxy example_proxy" by (simp add: example_proxy_def proxy_defs wf_map_def)
  moreover have "QueryTimeSeries example_proxy () = Inr [example_series [1] 0]"
    by code_simp
  ultimately show ?thesis
    using QueryTimeSeries_first [of example_proxy "()" "[example_series [1] 0]"] by blast
qed

theorem registration_order_irrelevant_witness:
  "QueryTimeSeries (Some [(''b'', \<lambda>q. Inl ''x''), (''a'', \<lambda>q. Inl ''y'')]) () =
   QueryTimeSeries (Some [(''a'', \<lambda>q. Inl ''y''), (''b'', \<lambda>q. Inl ''x'')]) ()"
  by (rule registration_order_irrelevant
      [of "Some []" "[(''b'', \<lambda>q. Inl ''x''), (''a'', \<lambda>q. Inl ''y'')]"
          "[(''a'', \<lambda>q. Inl ''y''), (''b'', \<lambda>q. Inl ''x'')]"])
     (simp_all add: proxy_defs)

section \<open>Credentials\<close>

text \<open>
  \<open>ClientAuth.Apply\<close>. A request's headers are a list of name and value in the order they were
  added; \<open>Add\<close> appends, \<open>SetBasicAuth\<close> replaces every \<open>Authorization\<close> value. The base64 encoding
  of the user and password is the standard library's: \<open>b64\<close>.
\<close>

record client_auth =
  Username :: string
  BearerToken :: string
  Password :: string

type_synonym headers = "(string \<times> string) list"

definition header_add :: "string \<Rightarrow> string \<Rightarrow> headers \<Rightarrow> headers" where
  "header_add k v h = h @ [(k, v)]"

definition header_set :: "string \<Rightarrow> string \<Rightarrow> headers \<Rightarrow> headers" where
  "header_set k v h = filter (\<lambda>(k', v'). k' \<noteq> k) h @ [(k, v)]"

definition Apply :: "(string \<Rightarrow> string) \<Rightarrow> client_auth option \<Rightarrow> headers \<Rightarrow> headers" where
  "Apply b64 auth h = (case auth of
     None \<Rightarrow> h
   | Some a \<Rightarrow>
       (let h = (if BearerToken a \<noteq> [] then header_add ''Authorization'' (''Bearer '' @ BearerToken a) h else h)
        in if Username a \<noteq> []
           then header_set ''Authorization'' (''Basic '' @ b64 (Username a @ '':'' @ Password a)) h
           else h))"

text \<open>A user name wins over a bearer token: the basic credentials replace the header.\<close>

lemma Apply_basic:
  "Username a \<noteq> [] \<Longrightarrow> map_of (Apply b64 (Some a) h) ''Authorization'' =
     Some (''Basic '' @ b64 (Username a @ '':'' @ Password a))"
  by (auto simp: Apply_def header_set_def header_add_def Let_def map_of_append map_add_def
      dest: map_of_SomeD split: option.split)

end
