(* ===== verification/Prom_Limiter.thy ===== *)
theory Prom_Limiter
  imports Prelude
begin

text \<open>
  \<open>pkg/datasource-providers/prom/prom.go\<close>: the client that bounds the requests in flight with a
  mutex and a condition variable. Each critical section is one step. Between steps a request is
  \<open>running\<close> (inside \<open>client.Do\<close>), \<open>waiting\<close> on the condition, or \<open>woken\<close> by a \<open>Signal\<close> and not yet
  running; \<open>sync.Cond.Signal\<close> wakes one waiting goroutine if there is one.
\<close>

record limiter =
  maxInFlight :: int
  currentInFlight :: int
  running :: nat
  waiting :: nat
  woken :: nat

definition newPrometheusRateLimitClient :: "int \<Rightarrow> limiter" where
  "newPrometheusRateLimitClient mx =
     \<lparr>maxInFlight = mx, currentInFlight = 0, running = 0, waiting = 0, woken = 0\<rparr>"

text \<open>A request that arrives: it is counted first, and then runs or waits.\<close>

definition increaseInFightWait :: "limiter \<Rightarrow> limiter" where
  "increaseInFightWait s =
     (let s = s\<lparr>currentInFlight := currentInFlight s + 1\<rparr>
      in if maxInFlight s < currentInFlight s then s\<lparr>waiting := waiting s + 1\<rparr>
         else s\<lparr>running := running s + 1\<rparr>)"

text \<open>\<open>Wait\<close> returns: the code does not look at the count again.\<close>

definition wait_returns :: "limiter \<Rightarrow> limiter" where
  "wait_returns s = s\<lparr>woken := woken s - 1, running := running s + 1\<rparr>"

definition signal :: "limiter \<Rightarrow> limiter" where
  "signal s = (if 0 < waiting s then s\<lparr>waiting := waiting s - 1, woken := woken s + 1\<rparr> else s)"

definition decreaseInFlightSignal :: "limiter \<Rightarrow> limiter" where
  "decreaseInFlightSignal s =
     signal (s\<lparr>running := running s - 1, currentInFlight := currentInFlight s - 1\<rparr>)"

definition Runtime :: "limiter \<Rightarrow> int \<times> int" where
  "Runtime s = (maxInFlight s, currentInFlight s)"

text \<open>Steps of requests already counted, and all steps.\<close>

inductive progress :: "limiter \<Rightarrow> limiter \<Rightarrow> bool" where
  finish: "0 < running s \<Longrightarrow> progress s (decreaseInFlightSignal s)"
| resume: "0 < woken s \<Longrightarrow> progress s (wait_returns s)"

inductive lstep :: "limiter \<Rightarrow> limiter \<Rightarrow> bool" where
  arrive: "lstep s (increaseInFightWait s)"
| progress: "progress s t \<Longrightarrow> lstep s t"

inductive_cases progressE: "progress s t"
inductive_cases lstepE: "lstep s t"

lemmas limiter_defs = increaseInFightWait_def wait_returns_def signal_def
  decreaseInFlightSignal_def Let_def

definition reachable :: "int \<Rightarrow> limiter \<Rightarrow> bool" where
  "reachable mx s \<longleftrightarrow> lstep\<^sup>*\<^sup>* (newPrometheusRateLimitClient mx) s"

text \<open>
  The invariant: the counter counts every request, the requests that run or are about to run
  are at most the limit, and they are as many as the limit when any request waits.
\<close>

definition limiter_inv :: "limiter \<Rightarrow> bool" where
  "limiter_inv s \<longleftrightarrow>
     currentInFlight s = int (running s + waiting s + woken s) \<and>
     int (running s + woken s) \<le> max 0 (maxInFlight s) \<and>
     (0 < waiting s \<longrightarrow> int (running s + woken s) = max 0 (maxInFlight s))"

lemma limiter_inv_arrive: "limiter_inv s \<Longrightarrow> limiter_inv (increaseInFightWait s)"
  by (auto simp: limiter_inv_def limiter_defs)

lemma limiter_inv_progress: "progress s t \<Longrightarrow> limiter_inv s \<Longrightarrow> limiter_inv t"
  by (erule progressE) (auto simp: limiter_inv_def limiter_defs)

lemma progress_max: "progress s t \<Longrightarrow> maxInFlight t = maxInFlight s"
  by (erule progressE) (auto simp: limiter_defs)

lemma arrive_max: "maxInFlight (increaseInFightWait s) = maxInFlight s"
  by (simp add: limiter_defs)

lemma lstep_inv: "lstep s t \<Longrightarrow> limiter_inv s \<Longrightarrow> limiter_inv t \<and> maxInFlight t = maxInFlight s"
  by (erule lstepE) (auto simp: limiter_inv_arrive limiter_inv_progress progress_max arrive_max)

lemma reachable_inv: "reachable mx s \<Longrightarrow> limiter_inv s \<and> maxInFlight s = mx"
  unfolding reachable_def
  by (induction rule: rtranclp_induct)
     (auto dest: lstep_inv simp: limiter_inv_def newPrometheusRateLimitClient_def)

text \<open>Every step of a counted request brings it closer to the end.\<close>

definition work :: "limiter \<Rightarrow> nat" where
  "work s = 3 * waiting s + 2 * woken s + running s"

lemma progress_work: "progress s t \<Longrightarrow> work t < work s"
  by (erule progressE) (auto simp: work_def limiter_defs)

lemma drain:
  assumes "limiter_inv s" "0 < maxInFlight s"
  shows "\<exists>t. progress\<^sup>*\<^sup>* s t \<and> currentInFlight t = 0"
  using assms
proof (induction "work s" arbitrary: s rule: less_induct)
  case less
  show ?case
  proof (cases "0 < running s \<or> 0 < woken s")
    case True
    then obtain t where t: "progress s t" using progress.intros by blast
    with less limiter_inv_progress progress_work progress_max obtain u
      where "progress\<^sup>*\<^sup>* t u" "currentInFlight u = 0" by metis
    with t show ?thesis by (meson converse_rtranclp_into_rtranclp)
  next
    case False
    with less.prems have "currentInFlight s = 0" by (auto simp: limiter_inv_def)
    then show ?thesis by blast
  qed
qed

text \<open>
  C18. However requests arrive, finish and are woken, the limiter never has more requests inside
  the Prometheus client than its limit, and its counter is the number of requests it holds.
\<close>

theorem limiter_bound:
  assumes "reachable mx s"
  shows "int (running s) \<le> max 0 mx \<and>
    currentInFlight s = int (running s + waiting s + woken s)"
  using reachable_inv [OF assms] by (auto simp: limiter_inv_def)

text \<open>
  C22. No wakeup is lost: with a positive limit, once requests stop arriving the ones the limiter
  holds can all run to the end, and every schedule of their steps is finite.
\<close>

theorem limiter_drains:
  assumes "reachable mx s" "0 < mx"
  shows "(\<exists>t. progress\<^sup>*\<^sup>* s t \<and> currentInFlight t = 0) \<and>
    (progress s t \<longrightarrow> work t < work s) \<and>
    (\<not> (\<exists>t. progress s t) \<longrightarrow> currentInFlight s = 0)"
proof -
  note inv = reachable_inv [OF assms(1)]
  with drain assms(2) have "\<exists>t. progress\<^sup>*\<^sup>* s t \<and> currentInFlight t = 0" by simp
  moreover have "currentInFlight s = 0" if "\<not> (\<exists>t. progress s t)"
  proof -
    have "running s = 0" "woken s = 0" using that progress.intros [of s] by blast+
    with inv assms(2) show ?thesis by (auto simp: limiter_inv_def)
  qed
  ultimately show ?thesis using progress_work by blast
qed

text \<open>
  With a limit of zero or less no request ever runs, and each request that arrives waits
  for good: no step of a counted request is ever possible.
\<close>

theorem limiter_deadlock:
  assumes "reachable mx s" "mx \<le> 0"
  shows "running s = 0 \<and> waiting s = nat (currentInFlight s) \<and> \<not> (\<exists>t. progress s t)"
  using reachable_inv [OF assms(1)] assms(2) by (auto simp: limiter_inv_def elim!: progressE)

lemma reachable_arrive: "reachable mx s \<Longrightarrow> reachable mx (increaseInFightWait s)"
  unfolding reachable_def by (erule rtranclp.rtrancl_into_rtrancl) (rule lstep.arrive)

lemma reachable_new: "reachable mx (newPrometheusRateLimitClient mx)"
  by (simp add: reachable_def)

theorem limiter_bound_witness:
  "int (running (increaseInFightWait (increaseInFightWait (newPrometheusRateLimitClient 1)))) \<le> max 0 1"
  using limiter_bound [OF reachable_arrive [OF reachable_arrive [OF reachable_new]], of 1] by simp

theorem limiter_drains_witness:
  "\<exists>t. progress\<^sup>*\<^sup>* (increaseInFightWait (increaseInFightWait (newPrometheusRateLimitClient 1))) t \<and>
     currentInFlight t = 0"
  using limiter_drains [OF reachable_arrive [OF reachable_arrive [OF reachable_new]], of 1] by simp

theorem limiter_deadlock_witness:
  "waiting (increaseInFightWait (newPrometheusRateLimitClient 0)) =
     nat (currentInFlight (increaseInFightWait (newPrometheusRateLimitClient 0)))"
  using limiter_deadlock [OF reachable_arrive [OF reachable_new], of 0] by simp

end
