(* ===== verification/Prom_Client.thy ===== *)
theory Prom_Client
  imports Datasource_Proxy Prom_Limiter
begin

text \<open>
  The two Prometheus clients of \<open>pkg/datasource-providers/prom/prom.go\<close>: the request that their \<open>Do\<close>
  makes of the one it is given, with the parameters of Thanos and the credentials, and what it does
  to the limiter. Package \<open>url\<close>'s query strings are written out, as they are since Go 1.17. The
  client of the Prometheus library that sends the request is a parameter; debug output is left out.
\<close>

section \<open>Query strings\<close>

definition hex_digits :: string where
  "hex_digits = ''0123456789ABCDEF''"

definition hex_char :: "nat \<Rightarrow> char" where
  "hex_char n = hex_digits ! n"

definition unhex :: "char \<Rightarrow> nat option" where
  "unhex c = map_of (zip ''0123456789ABCDEFabcdef'' ([0..<16] @ [10..<16])) c"

definition unreserved :: "char \<Rightarrow> bool" where
  "unreserved c \<longleftrightarrow>
     c \<in> set ''ABCDEFGHIJKLMNOPQRSTUVWXYZabcdefghijklmnopqrstuvwxyz0123456789-_.~''"

definition escape_char :: "char \<Rightarrow> string" where
  "escape_char c =
     (if c = CHR '' '' then ''+''
      else if unreserved c then [c]
      else [CHR ''%'', hex_char (of_char c div 16), hex_char (of_char c mod 16)])"

definition QueryEscape :: "string \<Rightarrow> string" where
  "QueryEscape s = concat (map escape_char s)"

text \<open>A percent sign without two hexadecimal digits behind it is an error.\<close>

fun QueryUnescape :: "string \<Rightarrow> string option" where
  "QueryUnescape [] = Some []"
| "QueryUnescape (c # s) =
     (if c = CHR ''%'' then
        (case s of
           a # b # rest \<Rightarrow>
             (case (unhex a, unhex b) of
                (Some x, Some y) \<Rightarrow> map_option ((#) (char_of (16 * x + y))) (QueryUnescape rest)
              | _ \<Rightarrow> None)
         | _ \<Rightarrow> None)
      else map_option ((#) (if c = CHR ''+'' then CHR '' '' else c)) (QueryUnescape s))"

type_synonym url_values = "(string, string list) gomap"

definition values_set :: "string \<Rightarrow> string \<Rightarrow> url_values \<Rightarrow> url_values" where
  "values_set k v q = mput k [v] q"

text \<open>One part between ampersands; the flag tells whether any part was wrong.\<close>

definition parse_part :: "string \<Rightarrow> url_values \<times> bool \<Rightarrow> url_values \<times> bool" where
  "parse_part p acc = (case acc of (m, bad) \<Rightarrow>
     if CHR '';'' \<in> set p then (m, True)
     else if p = [] then (m, bad)
     else (case QueryUnescape (takeWhile (\<lambda>c. c \<noteq> CHR ''='') p) of
         None \<Rightarrow> (m, True)
       | Some k \<Rightarrow> (case QueryUnescape (drop 1 (dropWhile (\<lambda>c. c \<noteq> CHR ''='') p)) of
           None \<Rightarrow> (m, True)
         | Some v \<Rightarrow> (mput k (mget_default [] m k @ [v]) m, bad))))"

definition ParseQuery :: "string \<Rightarrow> url_values \<times> bool" where
  "ParseQuery s = fold parse_part (split_on CHR ''&'' s) ([], False)"

text \<open>The keys are sorted; a key without values writes nothing.\<close>

definition encoded_parts :: "url_values \<Rightarrow> (string \<times> string) list" where
  "encoded_parts q = concat (map (\<lambda>k. map (Pair k) (mget_default [] q k)) (sort (map fst q)))"

definition Encode :: "url_values \<Rightarrow> string" where
  "Encode q = join_with ''&'' (map (\<lambda>(k, v). QueryEscape k @ ''='' @ QueryEscape v) (encoded_parts q))"

section \<open>The request\<close>

datatype http_method = MethodGet | MethodPost | OtherMethod string

text \<open>A request: its URL up to the query and the query, and the body when \<open>GetBody\<close> can give it.\<close>

record 'e http_request =
  Method :: http_method
  BaseURL :: string
  RawQuery :: string
  GetBody :: "'e + string"
  Header :: headers

record ThanosConfig =
  Partial :: bool
  Dedup :: bool

text \<open>Writing to the nil map of parameters that a method other than GET and POST leaves panics.\<close>

datatype 'e client_error = BodyError 'e | BadQuery | NilMapWrite

definition thanos_params :: "ThanosConfig \<Rightarrow> url_values \<Rightarrow> url_values" where
  "thanos_params t q =
     (let q = if Partial t then values_set ''partial_response'' ''true'' q else q
      in if Dedup t then values_set ''dedup'' ''true'' q else q)"

text \<open>
  A GET request is given the new query, what could not be parsed of the old one being lost. A POST
  request is made anew for the same URL, which parses again, with the parameters as its body and one
  header.
\<close>

definition hack_thanos :: "ThanosConfig option \<Rightarrow> 'e http_request \<Rightarrow> 'e client_error + 'e http_request" where
  "hack_thanos thanos req = (case thanos of
     None \<Rightarrow> Inr req
   | Some t \<Rightarrow>
       if \<not> Dedup t \<and> \<not> Partial t then Inr req
       else (case Method req of
           MethodPost \<Rightarrow> (case GetBody req of
               Inl e \<Rightarrow> Inl (BodyError e)
             | Inr body \<Rightarrow> (case ParseQuery body of (q, bad) \<Rightarrow>
                 if bad then Inl BadQuery
                 else Inr \<lparr>Method = MethodPost, BaseURL = BaseURL req, RawQuery = RawQuery req,
                   GetBody = Inr (Encode (thanos_params t q)),
                   Header = header_set ''Content-Type'' ''application/x-www-form-urlencoded'' []\<rparr>))
         | MethodGet \<Rightarrow> Inr (req\<lparr>RawQuery := Encode (thanos_params t (fst (ParseQuery (RawQuery req))))\<rparr>)
         | OtherMethod m \<Rightarrow> Inl NilMapWrite))"

definition prepare ::
    "(string \<Rightarrow> string) \<Rightarrow> client_auth option \<Rightarrow> ThanosConfig option \<Rightarrow> 'e http_request \<Rightarrow>
     'e client_error + 'e http_request" where
  "prepare b64 auth thanos req = (case hack_thanos thanos req of
     Inl e \<Rightarrow> Inl e
   | Inr r \<Rightarrow> Inr (r\<lparr>Header := Apply b64 auth (Header r)\<rparr>))"

section \<open>The two clients\<close>

definition auth_Do ::
    "(string \<Rightarrow> string) \<Rightarrow> client_auth option \<Rightarrow> ThanosConfig option \<Rightarrow>
     ('e http_request \<Rightarrow> 'w \<Rightarrow> 'r \<times> 'w) \<Rightarrow> 'e http_request \<Rightarrow> 'w \<Rightarrow> ('e client_error + 'r) \<times> 'w" where
  "auth_Do b64 auth thanos send req w = (case prepare b64 auth thanos req of
     Inl e \<Rightarrow> (Inl e, w)
   | Inr r \<Rightarrow> (case send r w of (x, w') \<Rightarrow> (Inr x, w')))"

text \<open>
  What the limited client does in order. Between these steps, and while the first waits, other
  requests take theirs; \<open>Prom_Limiter\<close> has all the interleavings.
\<close>

datatype 'e client_step = IncreaseInFlight | Send "'e http_request" | DecreaseInFlight

definition limited_Do ::
    "(string \<Rightarrow> string) \<Rightarrow> client_auth option \<Rightarrow> ThanosConfig option \<Rightarrow> 'e http_request \<Rightarrow>
     'e client_error option \<times> 'e client_step list" where
  "limited_Do b64 auth thanos req = (case prepare b64 auth thanos req of
     Inl e \<Rightarrow> (Some e, [])
   | Inr r \<Rightarrow> (None, [IncreaseInFlight, Send r, DecreaseInFlight]))"

text \<open>Which client the configuration asks for: a limiter for the limited one, and the flags of Thanos.\<close>

record PromConfig =
  BRateLimit :: bool
  QueryConcurrency :: int
  ThanosPartial :: bool
  ThanosDedup :: bool

definition NewPrometheusClient :: "PromConfig \<Rightarrow> limiter option \<times> ThanosConfig option" where
  "NewPrometheusClient cfg =
     (if BRateLimit cfg then Some (newPrometheusRateLimitClient (QueryConcurrency cfg)) else None,
      Some \<lparr>Partial = ThanosPartial cfg, Dedup = ThanosDedup cfg\<rparr>)"

section \<open>Query strings can be read back\<close>

lemma hex_16: "n < 16 \<Longrightarrow> unhex (hex_char n) = Some n \<and> hex_char n \<in> set hex_digits"
proof -
  have "\<forall>n \<in> set [0..<16]. unhex (hex_char n) = Some n \<and> hex_char n \<in> set hex_digits" by code_simp
  then show "n < 16 \<Longrightarrow> unhex (hex_char n) = Some n \<and> hex_char n \<in> set hex_digits" by simp
qed

lemma byte_digits: "of_char c div 16 < (16::nat)" "of_char c mod 16 < (16::nat)"
proof -
  show "of_char c div 16 < (16::nat)" by (rule less_mult_imp_div_less) simp
qed simp

definition separators :: "char set" where
  "separators = {CHR ''&'', CHR ''='', CHR '';''}"

lemma plain_chars: "\<forall>c \<in> set hex_digits. c \<notin> separators" "\<not> unreserved CHR ''%''" "\<not> unreserved CHR ''+''"
  "\<forall>c \<in> separators. \<not> unreserved c" "CHR ''+'' \<notin> separators" "CHR ''%'' \<notin> separators"
  unfolding separators_def by code_simp+

lemma escape_char_ne: "escape_char c \<noteq> []"
  by (simp add: escape_char_def)

lemma escape_char_plain: "x \<in> set (escape_char c) \<Longrightarrow> x \<notin> separators"
  using hex_16 [OF byte_digits(1) [of c]] hex_16 [OF byte_digits(2) [of c]] plain_chars
  by (auto simp: escape_char_def split: if_splits)

lemma QueryEscape_plain: "x \<in> set (QueryEscape s) \<Longrightarrow> x \<notin> separators"
  using escape_char_plain by (auto simp: QueryEscape_def)

lemma unescape_char: "QueryUnescape (escape_char c @ s) = map_option ((#) c) (QueryUnescape s)"
proof (cases "c = CHR '' ''")
  case True
  then show ?thesis by (simp add: escape_char_def)
next
  case space: False
  show ?thesis
  proof (cases "unreserved c")
    case True
    with space plain_chars(2, 3) show ?thesis by (auto simp: escape_char_def)
  next
    case False
    with space show ?thesis
      by (simp add: escape_char_def hex_16 [OF byte_digits(1)] hex_16 [OF byte_digits(2)])
  qed
qed

lemma unescape_escape: "QueryUnescape (QueryEscape s) = Some s"
  by (induction s) (simp_all add: QueryEscape_def unescape_char)

text \<open>The part of one value is parsed to that value.\<close>

lemma parse_pair:
  "parse_part (QueryEscape k @ ''='' @ QueryEscape v) (m, bad) = (mput k (mget_default [] m k @ [v]) m, bad)"
proof -
  let ?k = "QueryEscape k" and ?v = "QueryEscape v"
  have no_eq: "\<forall>c \<in> set ?k. c \<noteq> CHR ''=''" using QueryEscape_plain [of _ k] by (auto simp: separators_def)
  have semi: "CHR '';'' \<notin> set (?k @ ''='' @ ?v)"
    using QueryEscape_plain [of "CHR '';''" k] QueryEscape_plain [of "CHR '';''" v] by (auto simp: separators_def)
  from no_eq have "takeWhile (\<lambda>c. c \<noteq> CHR ''='') (?k @ ''='' @ ?v) = ?k"
    "dropWhile (\<lambda>c. c \<noteq> CHR ''='') (?k @ ''='' @ ?v) = ''='' @ ?v"
    by (simp_all add: takeWhile_append dropWhile_append)
  with semi show ?thesis by (simp add: parse_part_def unescape_escape)
qed

lemma parse_pairs:
  "fold parse_part (map (\<lambda>(k, v). QueryEscape k @ ''='' @ QueryEscape v) ps) (m, bad) =
     (fold (\<lambda>(k, v) m. mput k (mget_default [] m k @ [v]) m) ps m, bad)"
proof (induction ps arbitrary: m)
  case (Cons p ps)
  obtain k v where p: "p = (k, v)" by fastforce
  show ?case using Cons.IH parse_pair [of k v m bad] by (simp add: p)
qed simp

lemma fold_pairs:
  "mget_default [] (fold (\<lambda>(k, v) m. mput k (mget_default [] m k @ [v]) m) ps m) k =
     mget_default [] m k @ map snd (filter (\<lambda>p. fst p = k) ps)"
  by (induction ps arbitrary: m) (auto simp: mget_default_def split: prod.split option.split)

lemma values_of_key:
  "distinct ks \<Longrightarrow> map snd (filter (\<lambda>p. fst p = k) (concat (map (\<lambda>k. map (Pair k) (f k)) ks))) =
     (if k \<in> set ks then f k else [])"
proof (induction ks)
  case (Cons j ks)
  have "map snd (filter (\<lambda>p. fst p = k) (map (Pair j) (f j))) = (if j = k then f j else [])"
    by (simp add: filter_map comp_def)
  with Cons show ?case by auto
qed simp

lemma parts_plain: "w \<in> set (map (\<lambda>(k, v). QueryEscape k @ ''='' @ QueryEscape v) ps) \<Longrightarrow> CHR ''&'' \<notin> set w"
  using QueryEscape_plain by (fastforce simp: separators_def)

lemma ParseQuery_parts:
  "ParseQuery (Encode q) =
     (fold (\<lambda>(k, v) m. mput k (mget_default [] m k @ [v]) m) (encoded_parts q) [], False)"
proof (cases "encoded_parts q = []")
  case True
  then show ?thesis by (simp add: ParseQuery_def Encode_def parse_part_def)
next
  case False
  let ?ws = "map (\<lambda>(k, v). QueryEscape k @ ''='' @ QueryEscape v) (encoded_parts q)"
  have "split_on CHR ''&'' (join_with [CHR ''&''] ?ws) = ?ws"
    by (rule split_join) (use False parts_plain in auto)
  then show ?thesis
    by (simp only: ParseQuery_def Encode_def parse_pairs)
qed

text \<open>
  What \<open>Encode\<close> writes, \<open>ParseQuery\<close> reads without an error, and every key has its values
  again in their order. A key with no values is as good as none.
\<close>

lemma query_roundtrip:
  assumes "wf_map q"
  shows "\<not> snd (ParseQuery (Encode q)) \<and> mget_default [] (fst (ParseQuery (Encode q))) k = mget_default [] q k"
proof -
  have "distinct (sort (map fst q))" using assms by (simp add: wf_map_def)
  from values_of_key [OF this, of k "mget_default [] q"]
  have "map snd (filter (\<lambda>p. fst p = k) (encoded_parts q)) = (if k \<in> mkeys q then mget_default [] q k else [])"
    by (simp add: encoded_parts_def)
  moreover have "k \<notin> mkeys q \<Longrightarrow> mget_default [] q k = []"
    by (simp add: mget_default_def mget_None_iff [symmetric])
  ultimately show ?thesis
    by (auto simp: ParseQuery_parts fold_pairs) (auto simp: mget_default_def)
qed

section \<open>What is sent\<close>

lemma parse_part_wf: "wf_map (fst acc) \<Longrightarrow> wf_map (fst (parse_part p acc))"
  by (auto simp: parse_part_def split: prod.split option.split)

lemma ParseQuery_wf: "wf_map (fst (ParseQuery s))"
proof -
  have "wf_map (fst acc) \<Longrightarrow> wf_map (fst (fold parse_part ps acc))" for ps acc
    by (induction ps arbitrary: acc) (simp_all add: parse_part_wf)
  then show ?thesis by (simp add: ParseQuery_def)
qed

lemma thanos_params_wf: "wf_map q \<Longrightarrow> wf_map (thanos_params t q)"
  by (simp add: thanos_params_def values_set_def Let_def)

lemma thanos_params_get:
  "mget_default [] (thanos_params t q) k =
     (if k = ''dedup'' \<and> Dedup t \<or> k = ''partial_response'' \<and> Partial t then [''true'']
      else mget_default [] q k)"
  by (auto simp: thanos_params_def values_set_def mget_default_def Let_def)

text \<open>Where a request has its parameters.\<close>

definition sent_params :: "'e http_request \<Rightarrow> string" where
  "sent_params r = (case Method r of
     MethodPost \<Rightarrow> (case GetBody r of Inl e \<Rightarrow> [] | Inr body \<Rightarrow> body)
   | MethodGet \<Rightarrow> RawQuery r
   | OtherMethod m \<Rightarrow> RawQuery r)"

definition thanos_on :: "ThanosConfig option \<Rightarrow> bool" where
  "thanos_on thanos \<longleftrightarrow> (case thanos of None \<Rightarrow> False | Some t \<Rightarrow> Dedup t \<or> Partial t)"

lemma hacked_params:
  assumes "hack_thanos (Some t) req = Inr r" "Dedup t \<or> Partial t"
  shows "Method r = Method req \<and> BaseURL r = BaseURL req \<and>
    sent_params r = Encode (thanos_params t (fst (ParseQuery (sent_params req))))"
proof (cases "Method req")
  case MethodGet
  with assms show ?thesis by (auto simp: hack_thanos_def sent_params_def split: if_splits)
next
  case MethodPost
  with assms show ?thesis
    by (auto simp: hack_thanos_def sent_params_def split: if_splits sum.splits prod.splits)
next
  case (OtherMethod m)
  with assms show ?thesis by (auto simp: hack_thanos_def split: if_splits)
qed

lemma hack_fails:
  "(\<exists>e. hack_thanos thanos req = Inl e) \<longleftrightarrow> thanos_on thanos \<and>
     (case Method req of MethodGet \<Rightarrow> False | OtherMethod m \<Rightarrow> True
      | MethodPost \<Rightarrow> isl (GetBody req) \<or> snd (ParseQuery (sent_params req)))"
proof (cases thanos)
  case None
  then show ?thesis by (simp add: hack_thanos_def thanos_on_def)
next
  case (Some t)
  then show ?thesis
    by (cases "Method req"; cases "GetBody req")
      (auto simp: hack_thanos_def thanos_on_def sent_params_def split: prod.split)
qed

text \<open>
  C23. What the server is asked for. A client gives the request up, and then asks the server nothing and takes
  no place in the limiter, exactly when Thanos is on and the method is neither GET nor POST, or it is
  POST and the body can not be had or parsed. Otherwise the request goes to the same URL with the same
  method; it is the one given but for its headers when Thanos is off; when Thanos is on, its parameters
  parse, the flags that are configured are true, and each other one has the values it had.
\<close>

theorem request_sent:
  shows "(fst (limited_Do b64 auth thanos req) \<noteq> None \<longleftrightarrow> thanos_on thanos \<and>
      (case Method req of MethodGet \<Rightarrow> False | OtherMethod m \<Rightarrow> True
       | MethodPost \<Rightarrow> isl (GetBody req) \<or> snd (ParseQuery (sent_params req)))) \<and>
    (fst (limited_Do b64 auth thanos req) \<noteq> None \<longrightarrow> snd (limited_Do b64 auth thanos req) = []) \<and>
    (fst (limited_Do b64 auth thanos req) = None \<longrightarrow>
      (\<exists>r. snd (limited_Do b64 auth thanos req) = [IncreaseInFlight, Send r, DecreaseInFlight] \<and>
        auth_Do b64 auth thanos send req w = (Inr (fst (send r w)), snd (send r w)) \<and>
        Method r = Method req \<and> BaseURL r = BaseURL req \<and>
        (\<not> thanos_on thanos \<longrightarrow> r = req\<lparr>Header := Apply b64 auth (Header req)\<rparr>) \<and>
        (thanos_on thanos \<longrightarrow> \<not> snd (ParseQuery (sent_params r)) \<and>
          (\<forall>k. mget_default [] (fst (ParseQuery (sent_params r))) k =
            (if k = ''dedup'' \<and> Dedup (the thanos) \<or> k = ''partial_response'' \<and> Partial (the thanos)
             then [''true''] else mget_default [] (fst (ParseQuery (sent_params req))) k)))))"
proof (cases "hack_thanos thanos req")
  case (Inl e)
  then have "\<exists>e. hack_thanos thanos req = Inl e" by blast
  with Inl show ?thesis unfolding hack_fails by (simp add: limited_Do_def prepare_def)
next
  case (Inr h)
  define r where "r = h\<lparr>Header := Apply b64 auth (Header h)\<rparr>"
  have prep: "prepare b64 auth thanos req = Inr r" using Inr by (simp add: prepare_def r_def)
  have "\<not> (\<exists>e. hack_thanos thanos req = Inl e)" using Inr by simp
  note no = this [unfolded hack_fails]
  have params: "sent_params r = sent_params h" by (cases "Method h") (simp_all add: sent_params_def r_def)
  show ?thesis
  proof (cases "thanos_on thanos")
    case False
    then have "h = req" using Inr by (auto simp: thanos_on_def hack_thanos_def split: option.splits)
    with False no prep show ?thesis by (simp add: limited_Do_def auth_Do_def r_def split: prod.split)
  next
    case True
    then obtain t where t: "thanos = Some t" "Dedup t \<or> Partial t"
      by (auto simp: thanos_on_def split: option.splits)
    from hacked_params [OF _ t(2)] Inr t(1)
    have h: "Method h = Method req" "BaseURL h = BaseURL req"
      "sent_params h = Encode (thanos_params t (fst (ParseQuery (sent_params req))))" by auto
    note again = query_roundtrip [OF thanos_params_wf [OF ParseQuery_wf], of t "sent_params req"]
    have r: "Method r = Method req" "BaseURL r = BaseURL req" by (simp_all add: r_def h)
    show ?thesis
      using True no prep r again
      by (simp add: limited_Do_def auth_Do_def params h(3) thanos_params_get t(1) split: prod.split)
  qed
qed

text \<open>A GET request with a query, deduplicated.\<close>

definition example_request :: "unit http_request" where
  "example_request = \<lparr>Method = MethodGet, BaseURL = ''http://thanos/api/v1/query'', RawQuery = ''query=up%7B%7D'',
     GetBody = Inl (), Header = []\<rparr>"

theorem request_sent_witness:
  "\<exists>r. snd (limited_Do (\<lambda>s. s) None (Some \<lparr>Partial = False, Dedup = True\<rparr>) example_request) =
      [IncreaseInFlight, Send r, DecreaseInFlight] \<and>
    mget_default [] (fst (ParseQuery (sent_params r))) ''query'' = [''up{}'']"
proof -
  have "mget_default [] (fst (ParseQuery (sent_params example_request))) ''query'' = [''up{}'']" by code_simp
  then show ?thesis
    using request_sent [of "\<lambda>s. s" None "Some \<lparr>Partial = False, Dedup = True\<rparr>" example_request
        "\<lambda>r w. (w, w)" "0::nat"]
    by (auto simp: thanos_on_def example_request_def)
qed

end
