(* ===== verification/Command.thy ===== *)
theory Command
  imports Serving Prom_Client Prom_Provider Collection
begin

text \<open>
  The command: its flags and options (\<open>cmd/fadvisor/app/options\<close>), and what \<open>Run\<close> and \<open>RunComparator\<close> of
  \<open>cmd/fadvisor/app/fadvisor.go\<close> do before the exporter serves and the comparator compares. The flag library's own parsing of
  a word into a value is left out: a flag is given its value, and one of the wrong kind stands for a word that can not be
  parsed. The flags that other libraries define for the process, such as those of the log, are a parameter: their names and
  the values they take. What the constructors of libraries and of the other components return is a parameter.
\<close>

section \<open>Options\<close>

abbreviation second :: int where "second \<equiv> 10^9"
abbreviation minute :: int where "minute \<equiv> 60 * second"
abbreviation hour :: int where "hour \<equiv> 60 * minute"

record cloud_options =
  ProviderName :: string
  CloudConfigFile :: string

text \<open>The configuration of the cloud monitor, \<open>'m\<close>, is read from the cloud's configuration file.\<close>

record 'm ComparatorOptions =
  Config :: comparator_config
  History :: history_config
  TimeSpanSeconds :: int
  AnalysisDiscount :: float64
  ClusterName :: string
  DataPath :: string
  DataSource :: string
  ComparatorPrice :: CustomPricing
  ComparatorCloud :: cloud_options
  PromAddress :: string
  PromUsername :: string
  PromPassword :: string
  PromBearerToken :: string
  PromTimeout :: int
  PromKeepAlive :: int
  PromInsecure :: bool
  PromMaxPoints :: int
  PromFederated :: bool
  PromClient :: PromConfig
  QMonitorConfig :: "'m option"

record ('f, 'm) Options =
  LeaderElection :: leader_election
  BindAddr :: string
  ClientConfig :: "'f client_connection"
  CloudOptions :: cloud_options
  EnableProfiling :: bool
  EnableContentionProfiling :: bool
  MaxIdleConnsPerClient :: int
  MetricUpdateInterval :: int
  CustomPrice :: CustomPricing
  ComparatorMode :: bool
  Comparator :: "'m ComparatorOptions"

definition no_pricing :: CustomPricing where
  "no_pricing = \<lparr>CRegion = [], CProvider = [], CDescription = [], CpuHourlyPrice = 0, RamGBHourlyPrice = 0\<rparr>"

definition NewComparatorOptions :: "'m ComparatorOptions" where
  "NewComparatorOptions = \<lparr>Config = \<lparr>ClusterId = [], OutputMode = [], EnableContainerCheckpoint = False,
       EnableWorkloadTimeSeries = False, EnableWorkloadCheckpoint = False\<rparr>,
     History = \<lparr>EndTime = [], HistoryLength = 0, HistoryStep = 0\<rparr>, TimeSpanSeconds = 0, AnalysisDiscount = 0,
     ClusterName = [], DataPath = [], DataSource = [], ComparatorPrice = no_pricing,
     ComparatorCloud = \<lparr>ProviderName = [], CloudConfigFile = []\<rparr>, PromAddress = [], PromUsername = [],
     PromPassword = [], PromBearerToken = [], PromTimeout = 0, PromKeepAlive = 0, PromInsecure = False,
     PromMaxPoints = 0, PromFederated = False,
     PromClient = \<lparr>BRateLimit = False, QueryConcurrency = 0, ThanosPartial = False, ThanosDedup = False\<rparr>,
     QMonitorConfig = None\<rparr>"

definition NewOptions :: "('f::zero, 'm) Options" where
  "NewOptions = \<lparr>LeaderElection = \<lparr>LeaderElect = False, LeaseDuration = 15 * second, RenewDeadline = 10 * second,
       RetryPeriod = 5 * second, ResourceLock = ''leases'', ResourceName = ''fadvisor'',
       ResourceNamespace = ''crane-system''\<rparr>, BindAddr = [],
     ClientConfig = \<lparr>Kubeconfig = [], AcceptContentTypes = [], ContentType = [], QPS = 0, Burst = 0\<rparr>,
     CloudOptions = \<lparr>ProviderName = [], CloudConfigFile = []\<rparr>, EnableProfiling = False,
     EnableContentionProfiling = False, MaxIdleConnsPerClient = 0, MetricUpdateInterval = 0,
     CustomPrice = no_pricing, ComparatorMode = False, Comparator = NewComparatorOptions\<rparr>"

section \<open>Flags\<close>

text \<open>The rate of requests is a single-precision number, which is only passed on.\<close>

datatype 'f flag_value = VString string | VBool bool | VInt int | VFloat float64 | VFloat32 'f | VDuration int

fun same_kind :: "'f flag_value \<Rightarrow> 'f flag_value \<Rightarrow> bool" where
  "same_kind (VString a) (VString b) = True"
| "same_kind (VBool a) (VBool b) = True"
| "same_kind (VInt a) (VInt b) = True"
| "same_kind (VFloat a) (VFloat b) = True"
| "same_kind (VFloat32 a) (VFloat32 b) = True"
| "same_kind (VDuration a) (VDuration b) = True"
| "same_kind a b = False"

text \<open>A flag: its name, its default, and what it does with a value of its kind.\<close>

type_synonym ('f, 'o) flag = "string \<times> 'f flag_value \<times> ('f flag_value \<Rightarrow> 'o \<Rightarrow> 'o)"

text \<open>A flag of a library: its name and whether it takes a value. The options do not see it.\<close>

type_synonym 'f lib_flag = "string \<times> ('f flag_value \<Rightarrow> bool)"

datatype ('f, 'o) flag_entry = OwnFlag "'f flag_value" "'f flag_value \<Rightarrow> 'o \<Rightarrow> 'o" | LibFlag "'f flag_value \<Rightarrow> bool"

type_synonym ('f, 'o) flag_set = "(string \<times> ('f, 'o) flag_entry) list"

definition string_var :: "((string \<Rightarrow> string) \<Rightarrow> 'o \<Rightarrow> 'o) \<Rightarrow> 'f flag_value \<Rightarrow> 'o \<Rightarrow> 'o" where
  "string_var upd v x = (case v of VString s \<Rightarrow> upd (\<lambda>_. s) x | _ \<Rightarrow> x)"

definition bool_var :: "((bool \<Rightarrow> bool) \<Rightarrow> 'o \<Rightarrow> 'o) \<Rightarrow> 'f flag_value \<Rightarrow> 'o \<Rightarrow> 'o" where
  "bool_var upd v x = (case v of VBool b \<Rightarrow> upd (\<lambda>_. b) x | _ \<Rightarrow> x)"

definition int_var :: "((int \<Rightarrow> int) \<Rightarrow> 'o \<Rightarrow> 'o) \<Rightarrow> 'f flag_value \<Rightarrow> 'o \<Rightarrow> 'o" where
  "int_var upd v x = (case v of VInt i \<Rightarrow> upd (\<lambda>_. i) x | _ \<Rightarrow> x)"

definition float_var :: "((float64 \<Rightarrow> float64) \<Rightarrow> 'o \<Rightarrow> 'o) \<Rightarrow> 'f flag_value \<Rightarrow> 'o \<Rightarrow> 'o" where
  "float_var upd v x = (case v of VFloat y \<Rightarrow> upd (\<lambda>_. y) x | _ \<Rightarrow> x)"

definition duration_var :: "((int \<Rightarrow> int) \<Rightarrow> 'o \<Rightarrow> 'o) \<Rightarrow> 'f flag_value \<Rightarrow> 'o \<Rightarrow> 'o" where
  "duration_var upd v x = (case v of VDuration d \<Rightarrow> upd (\<lambda>_. d) x | _ \<Rightarrow> x)"

definition float32_var :: "(('f \<Rightarrow> 'f) \<Rightarrow> 'o \<Rightarrow> 'o) \<Rightarrow> 'f flag_value \<Rightarrow> 'o \<Rightarrow> 'o" where
  "float32_var upd v x = (case v of VFloat32 y \<Rightarrow> upd (\<lambda>_. y) x | _ \<Rightarrow> x)"

lemmas var_defs = string_var_def bool_var_def int_var_def float_var_def float32_var_def duration_var_def

definition comparator_flags :: "('f, 'm ComparatorOptions) flag list" where
  "comparator_flags =
    [(''comparator-analyze-history-length'', VDuration (24 * hour),
       duration_var (\<lambda>f. History_update (HistoryLength_update f))),
     (''comparator-analyze-step'', VDuration (5 * minute),
       duration_var (\<lambda>f. History_update (HistoryStep_update f))),
     (''comparator-analyze-end'', VString [], string_var (\<lambda>f. History_update (EndTime_update f))),
     (''comparator-timespan-seconds'', VInt 3600, int_var TimeSpanSeconds_update),
     (''comparator-cluster-name'', VString ''default'', string_var ClusterName_update),
     (''comparator-cluster-id'', VString ''default'',
       string_var (\<lambda>f. Config_update (comparator_config.ClusterId_update f))),
     (''comparator-discount'', VFloat 1, float_var AnalysisDiscount_update),
     (''comparator-output-mode'', VString [], string_var (\<lambda>f. Config_update (OutputMode_update f))),
     (''comparator-enable-container-ts-checkpoint'', VBool False,
       bool_var (\<lambda>f. Config_update (EnableContainerCheckpoint_update f))),
     (''comparator-enable-workload-ts'', VBool False,
       bool_var (\<lambda>f. Config_update (EnableWorkloadTimeSeries_update f))),
     (''comparator-enable-workload-ts-checkpoint'', VBool False,
       bool_var (\<lambda>f. Config_update (EnableWorkloadCheckpoint_update f))),
     (''comparator-data-path'', VString ''.'', string_var DataPath_update),
     (''datasource'', VString ''prom'', string_var DataSource_update),
     (''prometheus-address'', VString [], string_var PromAddress_update),
     (''prometheus-auth-username'', VString [], string_var PromUsername_update),
     (''prometheus-auth-password'', VString [], string_var PromPassword_update),
     (''prometheus-auth-bearertoken'', VString [], string_var PromBearerToken_update),
     (''prometheus-query-concurrency'', VInt 10,
       int_var (\<lambda>f. PromClient_update (QueryConcurrency_update f))),
     (''prometheus-insecure-skip-verify'', VBool False, bool_var PromInsecure_update),
     (''prometheus-keepalive'', VDuration (60 * second), duration_var PromKeepAlive_update),
     (''prometheus-timeout'', VDuration (3 * minute), duration_var PromTimeout_update),
     (''prometheus-bratelimit'', VBool False, bool_var (\<lambda>f. PromClient_update (BRateLimit_update f))),
     (''prometheus-maxpoints'', VInt 11000, int_var PromMaxPoints_update),
     (''prometheus-federated-cluster-scope'', VBool False, bool_var PromFederated_update),
     (''prometheus-thanos-partial'', VBool False,
       bool_var (\<lambda>f. PromClient_update (ThanosPartial_update f))),
     (''prometheus-thanos-dedup'', VBool False,
       bool_var (\<lambda>f. PromClient_update (ThanosDedup_update f)))]"

text \<open>The flags over the options \<open>o1\<close> that they are added for, some of whose fields are defaults.\<close>

definition option_flags :: "('f, 'm) Options \<Rightarrow> ('f, ('f, 'm) Options) flag list" where
  "option_flags o1 =
    [(''bind-address'', VString '':8081'', string_var BindAddr_update),
     (''leader-elect'', VBool True, bool_var (\<lambda>f. LeaderElection_update (LeaderElect_update f))),
     (''lease-duration'', VDuration (15 * second),
       duration_var (\<lambda>f. LeaderElection_update (LeaseDuration_update f))),
     (''lease-retry-period'', VDuration (2 * second),
       duration_var (\<lambda>f. LeaderElection_update (RetryPeriod_update f))),
     (''lease-renew-period'', VDuration (10 * second),
       duration_var (\<lambda>f. LeaderElection_update (RenewDeadline_update f))),
     (''leader-elect-resource-lock'', VString (ResourceLock (LeaderElection o1)),
       string_var (\<lambda>f. LeaderElection_update (ResourceLock_update f))),
     (''leader-elect-resource-name'', VString (ResourceName (LeaderElection o1)),
       string_var (\<lambda>f. LeaderElection_update (ResourceName_update f))),
     (''leader-elect-resource-namespace'', VString (ResourceNamespace (LeaderElection o1)),
       string_var (\<lambda>f. LeaderElection_update (ResourceNamespace_update f))),
     (''provider'', VString ''default'', string_var (\<lambda>f. CloudOptions_update (ProviderName_update f))),
     (''cloudConfigFile'', VString [],
       string_var (\<lambda>f. CloudOptions_update (CloudConfigFile_update f))),
     (''kubeconfig'', VString (Kubeconfig (ClientConfig o1)),
       string_var (\<lambda>f. ClientConfig_update (Kubeconfig_update f))),
     (''kube-api-content-type'', VString (ContentType (ClientConfig o1)),
       string_var (\<lambda>f. ClientConfig_update (ContentType_update f))),
     (''kube-api-qps'', VFloat32 (QPS (ClientConfig o1)),
       float32_var (\<lambda>f. ClientConfig_update (QPS_update f))),
     (''kube-api-burst'', VInt (Burst (ClientConfig o1)),
       int_var (\<lambda>f. ClientConfig_update (Burst_update f))),
     (''kube-client-max-idle-conns'', VInt (MaxIdleConnsPerClient o1), int_var MaxIdleConnsPerClient_update),
     (''profiling'', VBool True, bool_var EnableProfiling_update),
     (''contention-profiling'', VBool True, bool_var EnableContentionProfiling_update),
     (''metric-update-interval'', VDuration (5 * minute), duration_var MetricUpdateInterval_update),
     (''custom-price-desc'', VString ''default pricing'',
       string_var (\<lambda>f. CustomPrice_update (CDescription_update f))),
     (''custom-price-provider'', VString ''default'',
       string_var (\<lambda>f. CustomPrice_update (CProvider_update f))),
     (''custom-price-cpu'', VFloat (lit 31611 1000000),
       float_var (\<lambda>f. CustomPrice_update (CpuHourlyPrice_update f))),
     (''custom-price-ram'', VFloat (lit 4237 1000000),
       float_var (\<lambda>f. CustomPrice_update (RamGBHourlyPrice_update f))),
     (''comparator-mode'', VBool False, bool_var ComparatorMode_update)] @
    map (\<lambda>(name, d, put). (name, d, \<lambda>v. Comparator_update (put v))) comparator_flags"

text \<open>Adding a flag sets its default; a name that is already taken panics.\<close>

fun add_flags :: "('f, 'o) flag list \<Rightarrow> ('f, 'o) flag_set \<times> 'o \<Rightarrow> (('f, 'o) flag_set \<times> 'o) option" where
  "add_flags [] st = Some st"
| "add_flags ((name, d, put) # fl) (fs, x) =
     (if name \<in> fst ` set fs then None else add_flags fl (fs @ [(name, OwnFlag d put)], put d x))"

definition AddFlags ::
    "('f, ('f, 'm) Options) flag_set \<Rightarrow> ('f, 'm) Options \<Rightarrow> (('f, ('f, 'm) Options) flag_set \<times> ('f, 'm) Options) option" where
  "AddFlags fs x = add_flags (option_flags x) (fs, x)"

text \<open>\<open>AddGoFlagSet\<close> and \<open>AddFlagSet\<close> pass over the names that are taken.\<close>

fun AddFlagSet :: "'f lib_flag list \<Rightarrow> ('f, 'o) flag_set \<Rightarrow> ('f, 'o) flag_set" where
  "AddFlagSet [] fs = fs"
| "AddFlagSet ((name, ok) # libs) fs =
     AddFlagSet libs (if name \<in> fst ` set fs then fs else fs @ [(name, LibFlag ok)])"

text \<open>The values that a command line gives, in its order.\<close>

datatype flag_error = UnknownFlag string | BadValue string

fun parse_flags :: "('f, 'o) flag_set \<Rightarrow> (string \<times> 'f flag_value) list \<Rightarrow> 'o \<Rightarrow> flag_error + 'o" where
  "parse_flags fs [] x = Inr x"
| "parse_flags fs ((name, v) # args) x = (case map_of fs name of
     None \<Rightarrow> Inl (UnknownFlag name)
   | Some (LibFlag ok) \<Rightarrow> if ok v then parse_flags fs args x else Inl (BadValue name)
   | Some (OwnFlag d put) \<Rightarrow> if same_kind d v then parse_flags fs args (put v x) else Inl (BadValue name))"

section \<open>Starting\<close>

text \<open>
  The reasons not to start, with the exit status of each: \<open>klog.Exit\<close> gives 1, \<open>klog.Fatalf\<close> and an
  error of \<open>Run\<close> or \<open>RunComparator\<close> 255.
\<close>

datatype 'e start_error = NoClientSet 'e | FatalProvider 'e | FatalNoProvider | WarmUpFailed 'e |
  ElectorConfigFailed "'e elect_error" | ElectorFailed 'e | ConfigFileClosed string | ConfigFileUnread 'e |
  NoRestConfig 'e | NoDynamicClient 'e | ExitDiscovery 'e | ExitMapper 'e | ExitDataSource string 'e

definition exit_status :: "'e start_error \<Rightarrow> int" where
  "exit_status e = (case e of ExitDiscovery x \<Rightarrow> 1 | ExitMapper x \<Rightarrow> 1 | ExitDataSource n x \<Rightarrow> 1 | _ \<Rightarrow> 255)"

text \<open>
  The constructors that a start calls: of clients, of the cloud by the options and the prices, of what it warms up, of
  the lock, of the elector, of the further clients, and of the three data sources, and how a file is opened and read.
\<close>

record ('f, 'x, 'e, 'k, 'c, 'l, 'h, 'm, 'p) start_env =
  Kube :: "('f, 'x, 'e, 'k) client_env"
  KubeLater :: "('f, 'x, 'e, 'k) client_env"
  InitProvider :: "cloud_options \<Rightarrow> CustomPricing \<Rightarrow> 'e + 'c option"
  WarmUpProvider :: "'c \<Rightarrow> 'e option"
  Hostname :: "'e + string"
  UUID :: string
  NewLock :: "string \<Rightarrow> string \<Rightarrow> string \<Rightarrow> string \<Rightarrow> 'e + 'l"
  NewElector :: "'l elector_config \<Rightarrow> 'e option"
  OpenFile :: "string \<Rightarrow> 'h option"
  ReadQMonitor :: "'h \<Rightarrow> 'e + 'm"
  DynamicError :: "('f, 'x) rest_config \<Rightarrow> 'e option"
  DiscoveryError :: "('f, 'x) rest_config \<Rightarrow> 'e option"
  MapperError :: "('f, 'x) rest_config \<Rightarrow> 'e option"
  NewMetricServer :: "('f, 'x) rest_config \<Rightarrow> 'e + 'p"
  NewQMonitor :: "'m option \<Rightarrow> 'e + 'p"
  NewProm :: "'m ComparatorOptions \<Rightarrow> 'e + 'p"

text \<open>The cloud of the options with the given prices, warmed up.\<close>

definition warm_cloud ::
    "('f, 'x, 'e, 'k, 'c, 'l, 'h, 'm, 'p) start_env \<Rightarrow> cloud_options \<Rightarrow> CustomPricing \<Rightarrow> 'e start_error + 'c" where
  "warm_cloud env cl price = (case InitProvider env cl price of
     Inl e \<Rightarrow> Inl (FatalProvider e)
   | Inr None \<Rightarrow> Inl FatalNoProvider
   | Inr (Some c) \<Rightarrow> (case WarmUpProvider env c of Some e \<Rightarrow> Inl (WarmUpFailed e) | None \<Rightarrow> Inr c))"

text \<open>\<open>Run\<close> up to the exporter's process: the cloud it prices with, and whether a leader is elected first.\<close>

definition Run_start ::
    "('f, 'x, 'e, 'k, 'c, 'l, 'h, 'm, 'p) start_env \<Rightarrow> ('f, 'm) Options \<Rightarrow> 'e start_error + 'c \<times> 'l elector_config option" where
  "Run_start env x = (case CreateK8sClient (Kube env) (ClientConfig x) of
     Inl e \<Rightarrow> Inl (NoClientSet e)
   | Inr creator \<Rightarrow> (case warm_cloud env (CloudOptions x) (CustomPrice x) of
       Inl e \<Rightarrow> Inl e
     | Inr c \<Rightarrow> (case CreateLeaderElectionConfig (Hostname env) (UUID env) (NewLock env) ''fadvisor''
           (LeaderElection x) of
         Inl e \<Rightarrow> Inl (ElectorConfigFailed e)
       | Inr None \<Rightarrow> Inr (c, None)
       | Inr (Some cfg) \<Rightarrow> (case NewElector env cfg of
           Some e \<Rightarrow> Inl (ElectorFailed e) | None \<Rightarrow> Inr (c, Some cfg)))))"

text \<open>The data source that the name chooses: only its constructor is called, and its failure ends the process.\<close>

definition make_data_source ::
    "('f, 'x, 'e, 'k, 'c, 'l, 'h, 'm, 'p) start_env \<Rightarrow> ('f, 'x) rest_config \<Rightarrow> 'm ComparatorOptions \<Rightarrow>
     'e start_error + 'p option \<times> 'p option \<times> 'p option" where
  "make_data_source env rc x =
     (let n = to_lower (DataSource x);
          made = (if n \<in> {''metricserver'', ''ms''} then NewMetricServer env rc
            else if n \<in> {''qmonitor'', ''qcloudmonitor'', ''qm''} then NewQMonitor env (QMonitorConfig x)
            else NewProm env x)
      in case made of Inl e \<Rightarrow> Inl (ExitDataSource (DataSource x) e)
         | Inr p \<Rightarrow> Inr (initializationDataSource (DataSource x) p p p))"

text \<open>
  \<open>RunComparator\<close> up to the comparator: the options with the prices, the cloud and the monitor's configuration copied in, the
  cloud, and the data source that the comparator is given.
\<close>

definition comparator_options ::
    "('f, 'x, 'e, 'k, 'c, 'l, 'h, 'm, 'p) start_env \<Rightarrow> ('f, 'm) Options \<Rightarrow> 'e start_error + 'm ComparatorOptions" where
  "comparator_options env x =
     (let o1 = (Comparator x)\<lparr>ComparatorPrice := CustomPrice x, ComparatorCloud := CloudOptions x\<rparr>
      in case OpenFile env (CloudConfigFile (CloudOptions x)) of
           None \<Rightarrow> Inl (ConfigFileClosed (CloudConfigFile (CloudOptions x)))
         | Some f \<Rightarrow> (case ReadQMonitor env f of
             Inl e \<Rightarrow> Inl (ConfigFileUnread e)
           | Inr cfg \<Rightarrow> Inr (o1\<lparr>QMonitorConfig := Some cfg\<rparr>)))"

definition comparator_clients ::
    "('f, 'x, 'e, 'k, 'c, 'l, 'h, 'm, 'p) start_env \<Rightarrow> ('f, 'm) Options \<Rightarrow> 'e start_error + ('f, 'x) rest_config" where
  "comparator_clients env x = (case NewK8sConfig (KubeLater env) (ClientConfig x) of
     Inl e \<Rightarrow> Inl (NoRestConfig e)
   | Inr rc \<Rightarrow> (case DynamicError env (AddUserAgent (KubeLater env) rc ''fadvisor-comparator-dynamic'') of
       Some e \<Rightarrow> Inl (NoDynamicClient e)
     | None \<Rightarrow> (case DiscoveryError env rc of
         Some e \<Rightarrow> Inl (ExitDiscovery e)
       | None \<Rightarrow> (case MapperError env rc of Some e \<Rightarrow> Inl (ExitMapper e) | None \<Rightarrow> Inr rc))))"

definition RunComparator_start ::
    "('f, 'x, 'e, 'k, 'c, 'l, 'h, 'm, 'p) start_env \<Rightarrow> ('f, 'm) Options \<Rightarrow>
     'e start_error + 'm ComparatorOptions \<times> 'c \<times> 'p option" where
  "RunComparator_start env x = (case CreateK8sClient (Kube env) (ClientConfig x) of
     Inl e \<Rightarrow> Inl (NoClientSet e)
   | Inr creator \<Rightarrow> (case comparator_options env x of
       Inl e \<Rightarrow> Inl e
     | Inr co \<Rightarrow> (case warm_cloud env (ComparatorCloud co) (ComparatorPrice co) of
         Inl e \<Rightarrow> Inl e
       | Inr c \<Rightarrow> (case comparator_clients env x of
           Inl e \<Rightarrow> Inl e
         | Inr rc \<Rightarrow> (case make_data_source env rc co of
             Inl e \<Rightarrow> Inl e
           | Inr (realtime, past, hybrid) \<Rightarrow> Inr (co, c, hybrid))))))"

text \<open>
  What cobra adds when the command is executed: the flags of the process that libraries define with its own flag
  library, and a flag for help, whose last value counts.
\<close>

definition executed_flags :: "'f lib_flag list \<Rightarrow> ('f, 'o) flag_set \<Rightarrow> ('f, 'o) flag_set" where
  "executed_flags pflags fs = AddFlagSet [(''help'', same_kind (VBool False))] (AddFlagSet pflags fs)"

definition help_given :: "(string \<times> 'f flag_value) list \<Rightarrow> bool" where
  "help_given args = (case rev (filter (\<lambda>(n, v). n = ''help'') args) of [] \<Rightarrow> False | (n, v) # _ \<Rightarrow> v = VBool True)"

text \<open>
  The command: the flags of Go's flag library that other libraries have defined, the program's own, and those that
  cobra adds. A flag that is not known or a value that is not taken ends \<open>main\<close> with 1, and help with 0. Then completing and validating, which ask for
  nothing, and one of the two runs.
\<close>

datatype ('e, 'r, 's) command_run = Ended int | Exports 'r | Compares 's

definition run_command ::
    "('f, 'x, 'e, 'k, 'c, 'l, 'h, 'm, 'p) start_env \<Rightarrow> ('f, 'm) Options \<Rightarrow>
     ('e, 'c \<times> 'l elector_config option, 'm ComparatorOptions \<times> 'c \<times> 'p option) command_run" where
  "run_command env x = (if ComparatorMode x
     then (case RunComparator_start env x of Inl e \<Rightarrow> Ended (exit_status e) | Inr r \<Rightarrow> Compares r)
     else (case Run_start env x of Inl e \<Rightarrow> Ended (exit_status e) | Inr r \<Rightarrow> Exports r))"

definition exporter_command ::
    "'f lib_flag list \<Rightarrow> 'f lib_flag list \<Rightarrow> ('f::zero, 'x, 'e, 'k, 'c, 'l, 'h, 'm, 'p) start_env \<Rightarrow>
     (string \<times> 'f flag_value) list \<Rightarrow>
     ('e, 'c \<times> 'l elector_config option, 'm ComparatorOptions \<times> 'c \<times> 'p option) command_run option" where
  "exporter_command goflags pflags env args = (case AddFlags (AddFlagSet goflags []) NewOptions of
     None \<Rightarrow> None
   | Some (fs, x) \<Rightarrow> Some (case parse_flags (executed_flags pflags fs) args x of
       Inl e \<Rightarrow> Ended 1
     | Inr x \<Rightarrow> if help_given args then Ended 0 else run_command env x))"

section \<open>What the options come to\<close>

text \<open>All names of the program's own flags are different, and every field has its default.\<close>

definition own :: "('f, 'o) flag list \<Rightarrow> ('f, 'o) flag_set" where
  "own fl = map (\<lambda>(n, d, put). (n, OwnFlag d put)) fl"

lemma own_names [simp]: "fst ` set (own fl) = fst ` set fl"
  by (force simp: own_def)

lemma map_of_own: "map_of (own fl) n = map_option (\<lambda>(d, put). OwnFlag d put) (map_of fl n)"
  by (induction fl) (auto simp: own_def)

lemma add_flags_fresh:
  "distinct (map fst fl) \<Longrightarrow> fst ` set fs \<inter> fst ` set fl = {} \<Longrightarrow>
     add_flags fl (fs, x) = Some (fs @ own fl, fold (\<lambda>(n, d, put). put d) fl x)"
proof (induction fl arbitrary: fs x)
  case (Cons f fl)
  obtain n d put where f: "f = (n, d, put)" by (cases f) auto
  from Cons.prems have "n \<notin> fst ` set fs" "distinct (map fst fl)"
    "fst ` set (fs @ [(n, OwnFlag d put)]) \<inter> fst ` set fl = {}" by (auto simp: f)
  with Cons.IH [of "fs @ [(n, OwnFlag d put)]" "put d x"] show ?case by (simp add: f own_def)
qed (simp add: own_def)

lemma add_flags_taken: "fst ` set fs \<inter> fst ` set fl \<noteq> {} \<Longrightarrow> add_flags fl (fs, x) = None"
proof (induction fl arbitrary: fs x)
  case (Cons f fl)
  obtain n d put where f: "f = (n, d, put)" by (cases f) auto
  show ?case
  proof (cases "n \<in> fst ` set fs")
    case False
    with Cons.prems have "fst ` set (fs @ [(n, OwnFlag d put)]) \<inter> fst ` set fl \<noteq> {}" by (auto simp: f)
    from Cons.IH [OF this] False show ?thesis by (simp add: f)
  qed (simp add: f)
qed simp

lemma map_of_AddFlagSet:
  "map_of (AddFlagSet libs fs) n = (case map_of fs n of Some e \<Rightarrow> Some e | None \<Rightarrow> map_option LibFlag (map_of libs n))"
proof (induction libs fs rule: AddFlagSet.induct)
  case (2 name ok libs fs)
  have "name \<in> fst ` set fs \<longleftrightarrow> map_of fs name \<noteq> None" by (simp add: map_of_eq_None_iff)
  with 2 show ?case by (auto simp: map_add_def split: option.splits)
qed (simp split: option.split)

lemma names_AddFlagSet: "fst ` set (AddFlagSet libs fs) = fst ` set fs \<union> fst ` set libs"
  by (induction libs fs rule: AddFlagSet.induct) auto

definition flag_names :: "string list" where
  "flag_names = map fst (option_flags (NewOptions :: (nat, unit) Options))"

lemma flag_names: "map fst (option_flags x) = flag_names"
  by (simp add: flag_names_def option_flags_def comparator_flags_def)

lemma flag_names_set: "fst ` set (option_flags x) = set flag_names"
  by (simp only: flag_names [of x, symmetric] set_map)

lemma flag_names_distinct: "distinct flag_names" "''help'' \<notin> set flag_names"
  by (simp_all add: flag_names_def option_flags_def comparator_flags_def)

definition default_options :: "('f::zero, 'm) Options" where
  "default_options = fold (\<lambda>(n, d, put). put d) (option_flags NewOptions) NewOptions"

text \<open>The flags of a command that is executed.\<close>

definition all_flags :: "'f lib_flag list \<Rightarrow> 'f lib_flag list \<Rightarrow> ('f::zero, ('f, 'm) Options) flag_set" where
  "all_flags goflags pflags = executed_flags pflags (AddFlagSet goflags [] @ own (option_flags NewOptions))"

lemma AddFlags_own:
  "AddFlags (AddFlagSet goflags []) NewOptions = (if fst ` set goflags \<inter> set flag_names = {}
     then Some (AddFlagSet goflags [] @ own (option_flags NewOptions), default_options) else None)"
proof (cases "fst ` set goflags \<inter> set flag_names = {}")
  case True
  then show ?thesis
    by (simp add: AddFlags_def default_options_def) (rule add_flags_fresh; simp add: flag_names flag_names_distinct
        flag_names_set names_AddFlagSet)
next
  case False
  then show ?thesis
    by (simp add: AddFlags_def) (rule add_flags_taken; simp add: flag_names_set names_AddFlagSet)
qed

lemma all_flags_get:
  fixes goflags :: "'f::zero lib_flag list"
  assumes "fst ` set goflags \<inter> set flag_names = {}"
  shows "map_of (all_flags goflags pflags :: ('f, ('f, 'm) Options) flag_set) n =
    (if n \<in> set flag_names then map_option (\<lambda>(d, put). OwnFlag d put) (map_of (option_flags NewOptions) n)
     else case map_of (goflags @ pflags) n of Some ok \<Rightarrow> Some (LibFlag ok)
       | None \<Rightarrow> if n = ''help'' then Some (LibFlag (same_kind (VBool False))) else None)"
proof (cases "n \<in> set flag_names")
  case True
  with assms have "n \<notin> fst ` set goflags" by blast
  then have "map_of goflags n = None" by (simp add: map_of_eq_None_iff)
  moreover from True have "n \<in> fst ` set (option_flags (NewOptions :: ('f, 'm) Options))" by (simp only: flag_names_set)
  then obtain d put where "map_of (option_flags (NewOptions :: ('f, 'm) Options)) n = Some (d, put)"
    using map_of_eq_None_iff [of "option_flags (NewOptions :: ('f, 'm) Options)" n] by fastforce
  ultimately show ?thesis
    using True by (simp add: all_flags_def executed_flags_def map_of_AddFlagSet map_of_own map_add_def
        del: AddFlagSet.simps)
next
  case False
  then have "n \<notin> fst ` set (option_flags (NewOptions :: ('f, 'm) Options))" by (simp only: flag_names_set not_False_eq_True)
  then have "map_of (option_flags (NewOptions :: ('f, 'm) Options)) n = None" by (simp add: map_of_eq_None_iff)
  with False show ?thesis
    by (auto simp: all_flags_def executed_flags_def map_of_AddFlagSet map_of_own map_add_def
        simp del: AddFlagSet.simps split: option.split)
qed

lemma command_parsed:
  assumes "fst ` set goflags \<inter> set flag_names = {}"
  shows "exporter_command goflags pflags env args =
    Some (case parse_flags (all_flags goflags pflags) args default_options of
      Inl e \<Rightarrow> Ended 1 | Inr x \<Rightarrow> if help_given args then Ended 0 else run_command env x)"
  using assms by (simp add: exporter_command_def AddFlags_own all_flags_def)

lemma help_given_simps [simp]:
  "\<not> help_given []" "n \<noteq> ''help'' \<Longrightarrow> help_given ((n, v) # args) = help_given args"
  "help_given [(''help'', v)] = (v = VBool True)"
  by (simp_all add: help_given_def)

text \<open>A first flag that is known by the program, by a library or by nobody.\<close>

lemma command_lib:
  assumes "fst ` set goflags \<inter> set flag_names = {}" "n \<notin> set flag_names" "n \<noteq> ''help''"
    and "map_of (goflags @ pflags) n = Some ok"
  shows "exporter_command goflags pflags env ((n, v) # args) =
    (if ok v then exporter_command goflags pflags env args else Some (Ended 1))"
  using assms by (simp add: command_parsed all_flags_get del: map_of_append split: sum.split)

lemma command_unknown:
  assumes "fst ` set goflags \<inter> set flag_names = {}" "n \<notin> set flag_names" "n \<noteq> ''help''"
    and "n \<notin> fst ` set (goflags @ pflags)"
  shows "exporter_command goflags pflags env ((n, v) # args) = Some (Ended 1)"
proof -
  from assms(4) have "map_of (goflags @ pflags) n = None" by (simp only: map_of_eq_None_iff not_False_eq_True)
  with assms(1-3) show ?thesis by (simp add: command_parsed all_flags_get del: map_of_append)
qed

lemma command_help:
  assumes "fst ` set goflags \<inter> set flag_names = {}" "''help'' \<notin> fst ` set (goflags @ pflags)"
  shows "exporter_command goflags pflags env [(''help'', VBool True)] = Some (Ended 0)"
proof -
  from assms(2) have "map_of (goflags @ pflags) ''help'' = None" by (simp only: map_of_eq_None_iff not_False_eq_True)
  with assms(1) flag_names_distinct(2) show ?thesis by (simp add: command_parsed all_flags_get del: map_of_append)
qed

lemmas default_defs = default_options_def option_flags_def comparator_flags_def NewOptions_def
  NewComparatorOptions_def no_pricing_def var_defs

lemma default_facts:
  "LeaderElection default_options = \<lparr>LeaderElect = True, LeaseDuration = 15 * second, RenewDeadline = 10 * second,
     RetryPeriod = 2 * second, ResourceLock = ''leases'', ResourceName = ''fadvisor'',
     ResourceNamespace = ''crane-system''\<rparr>"
  "CloudOptions default_options = \<lparr>ProviderName = ''default'', CloudConfigFile = []\<rparr>"
  "\<not> ComparatorMode default_options"
  by (simp_all add: default_defs)

lemma option_mode:
  "map_of (option_flags NewOptions) ''comparator-mode'' = Some (VBool False, bool_var ComparatorMode_update)"
  "''comparator-mode'' \<in> set flag_names"
  by (simp_all add: option_flags_def flag_names_def)

lemma command_mode:
  assumes "fst ` set goflags \<inter> set flag_names = {}"
  shows "exporter_command goflags pflags env [(''comparator-mode'', VBool True)] =
    Some (run_command env (default_options\<lparr>ComparatorMode := True\<rparr>))"
  using assms by (simp add: command_parsed all_flags_get option_mode bool_var_def)

lemma comparator_started:
  assumes "RunComparator_start env x = Inr (co, c, h)"
  shows "ComparatorPrice co = CustomPrice x \<and> ComparatorCloud co = CloudOptions x \<and> QMonitorConfig co \<noteq> None \<and>
    DataSource co = DataSource (Comparator x) \<and> InitProvider env (CloudOptions x) (CustomPrice x) = Inr (Some c) \<and>
    WarmUpProvider env c = None \<and> (h = None \<longleftrightarrow> to_lower (DataSource co) \<in> {''metricserver'', ''ms''})"
proof -
  from assms have co: "comparator_options env x = Inr co" and c: "warm_cloud env (ComparatorCloud co) (ComparatorPrice co) = Inr c"
    by (auto simp: RunComparator_start_def split: sum.splits)
  from assms obtain rc r p where d: "make_data_source env rc co = Inr (r, p, h)"
    by (auto simp: RunComparator_start_def split: sum.splits)
  from co have o: "ComparatorPrice co = CustomPrice x" "ComparatorCloud co = CloudOptions x" "QMonitorConfig co \<noteq> None"
    "DataSource co = DataSource (Comparator x)"
    by (auto simp: comparator_options_def Let_def split: option.splits sum.splits)
  from c have w: "InitProvider env (ComparatorCloud co) (ComparatorPrice co) = Inr (Some c)" "WarmUpProvider env c = None"
    by (auto simp: warm_cloud_def split: sum.splits option.splits)
  have "h = None \<longleftrightarrow> to_lower (DataSource co) \<in> {''metricserver'', ''ms''}"
    using d by (auto simp: make_data_source_def initializationDataSource_def Let_def split: sum.splits if_splits)
  with o w show ?thesis by simp
qed

lemma exit_status_range: "exit_status e \<in> {1, 255}"
  by (simp add: exit_status_def split: start_error.split)

text \<open>
  C33. What the command comes to, whatever flags the libraries define, as long as none of the program's names is among Go's.
  With no flags the exporter elects a leader, with a lease of 15 seconds that it
  tries to get every two. In the comparator's mode alone it ends with 255 wherever an empty path can not be opened: a file for the
  cloud is asked for even though the cloud is the default one. A flag of a library, such as those of the log, is taken and
  changes nothing of what the command comes to, unless it does not take its value; that, or a flag that neither the
  program nor a library nor cobra knows, ends it with 1, and a call for help with 0. When a comparator
  starts it has the cloud and the prices of the options, a warm cloud, and a data source unless that is the
  metrics server. Every other end is 1 or 255. A Go flag with one of the program's names is a panic.
\<close>

theorem command_starts:
  assumes "CreateK8sClient (Kube env) (ClientConfig (default_options :: ('f, 'm) Options)) = Inr creator"
    and "OpenFile env [] = None" "fst ` set goflags \<inter> set flag_names = {}"
  shows "exporter_command goflags pflags (env :: ('f::zero, 'x, 'e, 'k, 'c, 'l, 'h, 'm, 'p) start_env)
      [(''comparator-mode'', VBool True)] = Some (Ended 255) \<and>
    (exporter_command goflags pflags env [] = Some (Exports (c, el)) \<longrightarrow>
      (\<exists>cfg. el = Some cfg \<and> ElectorLease cfg = 15 * second \<and> ElectorRetry cfg = 2 * second)) \<and>
    (n \<notin> set flag_names \<and> n \<noteq> ''help'' \<and> map_of (goflags @ pflags) n = Some ok \<longrightarrow>
      exporter_command goflags pflags env ((n, v) # args) =
        (if ok v then exporter_command goflags pflags env args else Some (Ended 1))) \<and>
    (n \<notin> set flag_names \<and> n \<noteq> ''help'' \<and> n \<notin> fst ` set (goflags @ pflags) \<longrightarrow>
      exporter_command goflags pflags env ((n, v) # args) = Some (Ended 1)) \<and>
    (''help'' \<notin> fst ` set (goflags @ pflags) \<longrightarrow>
      exporter_command goflags pflags env [(''help'', VBool True)] = Some (Ended 0)) \<and>
    (exporter_command goflags pflags env args = Some (Compares (co, c, h)) \<longrightarrow>
      InitProvider env (ComparatorCloud co) (ComparatorPrice co) = Inr (Some c) \<and> WarmUpProvider env c = None \<and>
      (h = None \<longleftrightarrow> to_lower (DataSource co) \<in> {''metricserver'', ''ms''})) \<and>
    (exporter_command goflags pflags env args = Some (Ended k) \<longrightarrow> k = 0 \<and> help_given args \<or> k \<in> {1, 255}) \<and>
    (fst ` set taken \<inter> set flag_names \<noteq> {} \<longrightarrow> exporter_command taken pflags env args = None)"
proof (intro conjI impI)
  have "comparator_options env (default_options\<lparr>ComparatorMode := True\<rparr>) = Inl (ConfigFileClosed [])"
    using assms(2) by (simp add: comparator_options_def default_facts Let_def)
  then have "RunComparator_start env (default_options\<lparr>ComparatorMode := True\<rparr>) = Inl (ConfigFileClosed [])"
    using assms(1) by (simp add: RunComparator_start_def)
  then show "exporter_command goflags pflags env [(''comparator-mode'', VBool True)] = Some (Ended 255)"
    by (simp add: command_mode [OF assms(3)] run_command_def exit_status_def)
next
  assume "exporter_command goflags pflags env [] = Some (Exports (c, el))"
  then have "Run_start env default_options = Inr (c, el)"
    by (simp add: command_parsed [OF assms(3)] run_command_def default_facts split: sum.splits)
  then show "\<exists>cfg. el = Some cfg \<and> ElectorLease cfg = 15 * second \<and> ElectorRetry cfg = 2 * second"
    by (auto simp: Run_start_def CreateLeaderElectionConfig_def default_facts split: sum.splits option.splits)
next
  assume "n \<notin> set flag_names \<and> n \<noteq> ''help'' \<and> map_of (goflags @ pflags) n = Some ok"
  then show "exporter_command goflags pflags env ((n, v) # args) =
      (if ok v then exporter_command goflags pflags env args else Some (Ended 1))"
    using command_lib [OF assms(3)] by blast
next
  assume "n \<notin> set flag_names \<and> n \<noteq> ''help'' \<and> n \<notin> fst ` set (goflags @ pflags)"
  then show "exporter_command goflags pflags env ((n, v) # args) = Some (Ended 1)"
    using command_unknown [OF assms(3)] by blast
next
  assume "''help'' \<notin> fst ` set (goflags @ pflags)"
  then show "exporter_command goflags pflags env [(''help'', VBool True)] = Some (Ended 0)"
    by (rule command_help [OF assms(3)])
next
  assume "exporter_command goflags pflags env args = Some (Compares (co, c, h))"
  then obtain x where "RunComparator_start env x = Inr (co, c, h)"
    by (auto simp: command_parsed [OF assms(3)] run_command_def split: sum.splits if_splits)
  note s = comparator_started [OF this]
  then show "InitProvider env (ComparatorCloud co) (ComparatorPrice co) = Inr (Some c)" by simp
  from s show "WarmUpProvider env c = None" by simp
  from s show "h = None \<longleftrightarrow> to_lower (DataSource co) \<in> {''metricserver'', ''ms''}" by simp
next
  assume "exporter_command goflags pflags env args = Some (Ended k)"
  then show "k = 0 \<and> help_given args \<or> k \<in> {1, 255}" using exit_status_range
    by (fastforce simp: command_parsed [OF assms(3)] run_command_def split: sum.splits if_splits)
next
  assume "fst ` set taken \<inter> set flag_names \<noteq> {}"
  then show "exporter_command taken pflags env args = None" by (simp add: exporter_command_def AddFlags_own)
qed

text \<open>
  Some of the flags of the log, and an environment in which everything can be made but the empty path can not be opened.
\<close>

definition log_flags :: "float64 lib_flag list" where
  "log_flags = [(''v'', same_kind (VInt 0)), (''logtostderr'', same_kind (VBool True)),
     (''log_dir'', same_kind (VString []))]"

definition example_env :: "(float64, unit, string, unit, unit, unit, unit, unit, unit) start_env" where
  "example_env =
     (let kube = \<lparr>ClientConfigFile = (\<lambda>f. Inl ''no file''), InClusterConfig = Inr \<lparr>DisableCompression = False,
            RestAcceptContentTypes = [], RestContentType = [], RestQPS = 0, RestBurst = 0, RestOther = ()\<rparr>,
            NewForConfig = (\<lambda>c. Inr ()), AddUserAgent = (\<lambda>c n. c)\<rparr>
      in \<lparr>Kube = kube, KubeLater = kube, InitProvider = (\<lambda>o1 p. Inr (Some ())), WarmUpProvider = (\<lambda>c. None),
        Hostname = Inr ''host'', UUID = ''1'', NewLock = (\<lambda>a b c d. Inr ()), NewElector = (\<lambda>c. None),
        OpenFile = (\<lambda>f. if f = [] then None else Some ()), ReadQMonitor = (\<lambda>f. Inr ()), DynamicError = (\<lambda>c. None),
        DiscoveryError = (\<lambda>c. None), MapperError = (\<lambda>c. None), NewMetricServer = (\<lambda>c. Inr ()),
        NewQMonitor = (\<lambda>m. Inr ()), NewProm = (\<lambda>o1. Inr ())\<rparr>)"

theorem command_starts_witness:
  "exporter_command log_flags [] example_env [(''comparator-mode'', VBool True)] = Some (Ended 255) \<and>
   exporter_command log_flags [] example_env [(''v'', VInt 4), (''comparator-mode'', VBool True)] = Some (Ended 255)"
proof -
  have k: "Kubeconfig (ClientConfig (default_options :: (float64, unit) Options)) = []" by (simp add: default_defs)
  have "\<exists>creator. CreateK8sClient (Kube example_env) (ClientConfig (default_options :: (float64, unit) Options)) = Inr creator"
    by (simp add: CreateK8sClient_def NewK8sConfig_def example_env_def Let_def k)
  then obtain creator where c: "CreateK8sClient (Kube example_env) (ClientConfig (default_options :: (float64, unit) Options)) = Inr creator" by blast
  have f: "OpenFile example_env [] = None" by (simp add: example_env_def Let_def)
  have fresh: "fst ` set log_flags \<inter> set flag_names = {}" "''v'' \<notin> set flag_names"
    by (simp_all add: log_flags_def flag_names_def option_flags_def comparator_flags_def)
  have "map_of (log_flags @ []) ''v'' = Some (same_kind (VInt 0))" by (simp add: log_flags_def)
  with command_starts [OF c f fresh(1), where n = "''v''" and v = "VInt 4" and ok = "same_kind (VInt 0)" and
      pflags = "[]" and args = "[(''comparator-mode'', VBool True)]"] fresh(2)
  show ?thesis by simp
qed

end
