(* ===== verification/Go_Csv.thy ===== *)
theory Go_Csv
  imports Prelude
begin

text \<open>
  Go's \<open>encoding/csv\<close>, as far as the program uses it: a writer and a reader whose fields are separated by
  one ASCII character, the comma, with the other options as they are by default. A file is its
  bytes. Shown is what comes back of a table that was written.
\<close>

abbreviation newline :: char where
  "newline \<equiv> CHR 0x0A"

abbreviation cr :: char where
  "cr \<equiv> CHR 0x0D"

abbreviation quotation :: char where
  "quotation \<equiv> CHR 0x22"

section \<open>Writing\<close>

text \<open>The encodings of the runes that \<open>unicode.IsSpace\<close> knows.\<close>

definition space_runes :: "string list" where
  "space_runes = [[CHR 0x09], [CHR 0x0A], [CHR 0x0B], [CHR 0x0C], [CHR 0x0D], [CHR 0x20],
     [CHR 0xC2, CHR 0x85], [CHR 0xC2, CHR 0xA0], [CHR 0xE1, CHR 0x9A, CHR 0x80]] @
     map (\<lambda>n. [CHR 0xE2, CHR 0x80, char_of (n :: nat)]) ([0x80..<0x8B] @ [0xA8, 0xA9, 0xAF]) @
     [[CHR 0xE2, CHR 0x81, CHR 0x9F], [CHR 0xE3, CHR 0x80, CHR 0x80]]"

definition fieldNeedsQuotes :: "char \<Rightarrow> string \<Rightarrow> bool" where
  "fieldNeedsQuotes comma f = (if f = [] then False else if f = [CHR 0x5C, CHR ''.''] then True
     else list_ex (\<lambda>c. c = newline \<or> c = cr \<or> c = quotation \<or> c = comma) f \<or>
       list_ex (has_prefix f) space_runes)"

definition double_quotes :: "string \<Rightarrow> string" where
  "double_quotes f = concat (map (\<lambda>c. if c = quotation then [quotation, quotation] else [c]) f)"

definition write_field :: "char \<Rightarrow> string \<Rightarrow> string" where
  "write_field comma f =
     (if fieldNeedsQuotes comma f then quotation # double_quotes f @ [quotation] else f)"

definition write_record :: "char \<Rightarrow> string list \<Rightarrow> string" where
  "write_record comma fs = join_with [comma] (map (write_field comma) fs) @ [newline]"

definition csv_write :: "char \<Rightarrow> string list list \<Rightarrow> string" where
  "csv_write comma t = concat (map (write_record comma) t)"

section \<open>Reading\<close>

datatype csv_error = ErrBareQuote | ErrQuote | FieldCount

text \<open>
  \<open>readLine\<close>: the next line with its end, and the input that is left; nothing at the end of the input.
  A carriage return before the end of a line, or of the input, is dropped.
\<close>

definition end_line :: "string \<Rightarrow> string" where
  "end_line l = (if l \<noteq> [] \<and> last l = cr then butlast l else l)"

definition readLine :: "string \<Rightarrow> (string \<times> string) option" where
  "readLine s = (case dropWhile (\<lambda>c. c \<noteq> newline) s of
     [] \<Rightarrow> if s = [] then None else Some (end_line s, [])
   | c # r \<Rightarrow> Some (end_line (takeWhile (\<lambda>c. c \<noteq> newline) s) @ [newline], r))"

lemma length_end_line: "length (end_line l) \<le> length l"
  by (simp add: end_line_def)

lemma readLine_length: "readLine s = Some (l, r) \<Longrightarrow> length l + length r \<le> length s \<and> length r < length s"
proof -
  assume a: "readLine s = Some (l, r)"
  let ?P = "\<lambda>c. c \<noteq> newline"
  have len: "length (takeWhile ?P s) + length (dropWhile ?P s) = length s"
    using arg_cong [OF takeWhile_dropWhile_id [of ?P s], of length] by (simp only: length_append)
  show ?thesis
  proof (cases "dropWhile ?P s")
    case Nil
    from a [unfolded readLine_def Nil] have "s \<noteq> []" "l = end_line s" "r = []"
      by (simp_all split: if_splits)
    then show ?thesis by (simp add: length_end_line)
  next
    case (Cons c q)
    with a have "l = end_line (takeWhile ?P s) @ [newline]" "r = q" by (simp_all add: readLine_def)
    with len Cons length_end_line [of "takeWhile ?P s"] show ?thesis by simp
  qed
qed

lemma length_dropWhile_Cons: "dropWhile P s = c # r \<Longrightarrow> length r < length s"
  using length_dropWhile_le [of P s] by simp

text \<open>
  The fields of a record, from the line that is being read and the input after it. In a quoted field
  the buffer is the field so far. The line ends inside quotes when the field goes on in the
  next one.
\<close>

definition nl_only :: "string \<Rightarrow> bool" where
  "nl_only l \<longleftrightarrow> l = [] \<or> l = [newline]"

definition trim_nl :: "string \<Rightarrow> string" where
  "trim_nl l = (if l \<noteq> [] \<and> last l = newline then butlast l else l)"

function parseField ::
    "char \<Rightarrow> string option \<Rightarrow> string \<Rightarrow> string \<Rightarrow> csv_error + string list \<times> string" where
  "parseField comma None line s =
     (case line of
        q # l \<Rightarrow> if q = quotation then parseField comma (Some []) l s
          else (let f = takeWhile (\<lambda>c. c \<noteq> comma) line
                in case dropWhile (\<lambda>c. c \<noteq> comma) line of
                     [] \<Rightarrow> if quotation \<in> set (trim_nl f) then Inl ErrBareQuote else Inr ([trim_nl f], s)
                   | c # rest \<Rightarrow> if quotation \<in> set f then Inl ErrBareQuote
                       else map_sum id (apfst (Cons f)) (parseField comma None rest s))
      | [] \<Rightarrow> Inr ([[]], s))"
| "parseField comma (Some b) line s =
     (let a = takeWhile (\<lambda>c. c \<noteq> quotation) line
      in case dropWhile (\<lambda>c. c \<noteq> quotation) line of
           q # rest \<Rightarrow> (case rest of
               c # r \<Rightarrow> if c = quotation then parseField comma (Some (b @ a @ [quotation])) r s
                 else if c = comma then map_sum id (apfst (Cons (b @ a))) (parseField comma None r s)
                 else if nl_only rest then Inr ([b @ a], s) else Inl ErrQuote
             | [] \<Rightarrow> Inr ([b @ a], s))
         | [] \<Rightarrow> if line = [] then Inl ErrQuote
           else (case readLine s of
               None \<Rightarrow> parseField comma (Some (b @ line)) [] []
             | Some (l, s') \<Rightarrow> parseField comma (Some (b @ line)) l s'))"
  by pat_completeness auto
termination
proof (relation "measure (\<lambda>(comma, b, line, s). length line + length s)", goal_cases)
  case 1
  show ?case by simp
next
  case 2
  then show ?case by simp
next
  case 3
  from length_dropWhile_Cons [OF 3(4)] show ?case by simp
next
  case 4
  then show ?case by simp
next
  case 5
  from 5(3-5) show ?case by (auto dest!: readLine_length simp flip: length_greater_0_conv)
next
  case 6
  from length_dropWhile_Cons [OF 6(2)] 6(3) show ?case by simp
next
  case 7
  from length_dropWhile_Cons [OF 7(2)] 7(3) show ?case by simp
qed

declare parseField.simps [simp del]

text \<open>\<open>readRecord\<close>, which skips empty lines, and \<open>ReadAll\<close>.\<close>

function readRecord :: "char \<Rightarrow> string \<Rightarrow> (csv_error + string list \<times> string) option" where
  "readRecord comma s = (case readLine s of
     None \<Rightarrow> None
   | Some (l, s') \<Rightarrow> if nl_only l then readRecord comma s' else Some (parseField comma None l s'))"
  by pat_completeness auto
termination by (relation "measure (length \<circ> snd)") (auto dest: readLine_length)

declare readRecord.simps [simp del]

lemma map_sum_Inr: "map_sum f g x = Inr y \<longleftrightarrow> (\<exists>z. x = Inr z \<and> y = g z)"
  by (cases x) auto

lemma parseField_length: "parseField comma b l s = Inr (fs, s') \<Longrightarrow> length s' \<le> length s"
proof (induction comma b l s arbitrary: fs rule: parseField.induct)
  case (1 comma line s)
  note eq = parseField.simps(1) [of comma line s]
  show ?case
  proof (cases line)
    case Nil
    with "1.prems" [unfolded eq] show ?thesis by simp
  next
    case (Cons q l)
    show ?thesis
    proof (cases "q = quotation")
      case True
      with "1.prems" Cons have "parseField comma (Some []) l s = Inr (fs, s')"
        unfolding eq by simp
      with "1.IH"(1) [OF Cons True] show ?thesis by blast
    next
      case False
      show ?thesis
      proof (cases "dropWhile (\<lambda>c. c \<noteq> comma) line")
        case Nil
        with "1.prems" [unfolded eq] Cons False show ?thesis by (auto simp: Let_def split: if_splits)
      next
        case (Cons c rest)
        from "1.prems" [unfolded eq] \<open>line = q # l\<close> False Cons obtain gs where
          "parseField comma None rest s = Inr (gs, s')" "quotation \<notin> set (takeWhile (\<lambda>c. c \<noteq> comma) line)"
          by (auto simp: Let_def map_sum_Inr simp del: takeWhile.simps dropWhile.simps split: if_splits)
        with "1.IH"(2) [OF \<open>line = q # l\<close> False refl Cons] show ?thesis by blast
      qed
    qed
  qed
next
  case (2 comma b line s)
  note eq = parseField.simps(2) [of comma b line s]
  show ?case
  proof (cases "dropWhile (\<lambda>c. c \<noteq> quotation) line")
    case Nil
    show ?thesis
    proof (cases "readLine s")
      case None
      with "2.prems" [unfolded eq] Nil have "line \<noteq> []" "parseField comma (Some (b @ line)) [] [] = Inr (fs, s')"
        by (auto simp: Let_def split: if_splits)
      with "2.IH"(1) [OF refl Nil _ None] show ?thesis by simp
    next
      case (Some p)
      obtain l r where p: "p = (l, r)" by fastforce
      with "2.prems" [unfolded eq] Nil Some have l: "line \<noteq> []" "parseField comma (Some (b @ line)) l r = Inr (fs, s')"
        by (auto simp: Let_def split: if_splits)
      with "2.IH"(2) [OF refl Nil l(1) Some p [symmetric] l(2)] readLine_length [of s l r] Some p show ?thesis by simp
    qed
  next
    case (Cons q rest)
    show ?thesis
    proof (cases rest)
      case Nil
      with "2.prems" [unfolded eq] Cons show ?thesis by (auto simp: Let_def)
    next
      case c: (Cons c r)
      with "2.prems" [unfolded eq] Cons "2.IH"(3) [OF refl Cons c] "2.IH"(4) [OF refl Cons c] show ?thesis
        by (auto simp: Let_def map_sum_Inr split: if_splits)
    qed
  qed
qed

lemma readRecord_length: "readRecord comma s = Some (Inr (fs, s')) \<Longrightarrow> length s' < length s"
proof (induction comma s rule: readRecord.induct)
  case (1 comma s)
  from "1.prems" obtain l r where l: "readLine s = Some (l, r)"
    unfolding readRecord.simps [of comma s] by (auto split: option.splits)
  show ?case
  proof (cases "nl_only l")
    case True
    with "1.prems" l have "readRecord comma r = Some (Inr (fs, s'))"
      unfolding readRecord.simps [of comma s] by simp
    from "1.IH" [OF l refl True this] readLine_length [OF l] show ?thesis by simp
  next
    case False
    with "1.prems" l have "parseField comma None l r = Inr (fs, s')"
      unfolding readRecord.simps [of comma s] by simp
    from parseField_length [OF this] readLine_length [OF l] show ?thesis by simp
  qed
qed

text \<open>Every record must have as many fields as the first.\<close>

function readAll :: "char \<Rightarrow> nat option \<Rightarrow> string \<Rightarrow> csv_error + string list list" where
  "readAll comma n s = (case readRecord comma s of
     None \<Rightarrow> Inr []
   | Some (Inl e) \<Rightarrow> Inl e
   | Some (Inr (fs, s')) \<Rightarrow> if n \<noteq> None \<and> n \<noteq> Some (length fs) then Inl FieldCount
       else map_sum id (Cons fs) (readAll comma (Some (length fs)) s'))"
  by pat_completeness auto
termination by (relation "measure (\<lambda>(comma, n, s). length s)") (auto dest: readRecord_length)

declare readAll.simps [simp del]

definition csv_read :: "char \<Rightarrow> string \<Rightarrow> csv_error + string list list" where
  "csv_read comma s = readAll comma None s"

section \<open>Reading what is left of an input\<close>

definition line_at :: "string \<Rightarrow> string \<times> string" where
  "line_at z = (case readLine z of None \<Rightarrow> ([], []) | Some p \<Rightarrow> p)"

definition parse_at :: "char \<Rightarrow> string option \<Rightarrow> string \<Rightarrow> csv_error + string list \<times> string" where
  "parse_at comma b z = parseField comma b (fst (line_at z)) (snd (line_at z))"

definition good_comma :: "char \<Rightarrow> bool" where
  "good_comma c \<longleftrightarrow> c \<noteq> newline \<and> c \<noteq> cr \<and> c \<noteq> quotation"

lemma drop_to_newline:
  assumes "newline \<in> set z"
  obtains r where "dropWhile (\<lambda>c. c \<noteq> newline) z = newline # r"
proof -
  from split_list_first [OF assms] obtain ys zs where "z = ys @ newline # zs" "newline \<notin> set ys" by blast
  then have "dropWhile (\<lambda>c. c \<noteq> newline) z = newline # zs" by (simp add: dropWhile_append)
  then show thesis by (rule that)
qed

lemma line_at_newline: "line_at (newline # z) = ([newline], z)"
  by (simp add: line_at_def readLine_def end_line_def)

lemma line_at_crlf: "line_at (cr # newline # z) = line_at (newline # z)"
  by (simp add: line_at_def readLine_def end_line_def)

lemma line_at_Cons:
  assumes "newline \<in> set z" "c \<noteq> newline" "c = cr \<longrightarrow> hd z \<noteq> newline"
  shows "line_at (c # z) = (c # fst (line_at z), snd (line_at z))"
proof -
  let ?t = "takeWhile (\<lambda>c. c \<noteq> newline) z"
  obtain r where r: "dropWhile (\<lambda>c. c \<noteq> newline) z = newline # r" by (rule drop_to_newline [OF assms(1)])
  have "?t = [] \<Longrightarrow> c \<noteq> cr" using assms(1,3) by (cases z) (auto split: if_splits)
  then have "end_line (c # ?t) = c # end_line ?t" by (auto simp: end_line_def)
  with r assms(2) show ?thesis by (simp add: line_at_def readLine_def)
qed

lemma line_at_nonempty: "newline \<in> set z \<Longrightarrow> fst (line_at z) \<noteq> []"
  by (erule drop_to_newline) (simp add: line_at_def readLine_def)

lemma at_crlf: "parse_at m b (cr # newline # z) = parse_at m b (newline # z)"
  by (simp add: parse_at_def line_at_crlf)

lemma at_other:
  assumes "newline \<in> set z" "c \<noteq> newline" "c \<noteq> quotation" "c = cr \<longrightarrow> hd z \<noteq> newline"
  shows "parse_at m (Some b) (c # z) = parse_at m (Some (b @ [c])) z"
proof -
  obtain l s where l: "line_at z = (l, s)" by fastforce
  then have ne: "l \<noteq> []" using line_at_nonempty [OF assms(1)] by simp
  note eqs = parseField.simps(2) [of m b "c # l" s] parseField.simps(2) [of m "b @ [c]" l s]
  have "parseField m (Some b) (c # l) s = parseField m (Some (b @ [c])) l s"
  proof (cases "dropWhile (\<lambda>c. c \<noteq> quotation) l")
    case Nil
    then have "takeWhile (\<lambda>c. c \<noteq> quotation) l = l" by (simp add: dropWhile_eq_Nil_conv takeWhile_eq_all_conv)
    with Nil ne assms(3) show ?thesis
      unfolding eqs by (simp add: Let_def del: dropWhile_eq_Nil_conv split: option.split)
  next
    case (Cons q r)
    with ne assms(3) show ?thesis unfolding eqs by (simp add: Let_def split: list.split)
  qed
  then show ?thesis by (simp add: parse_at_def line_at_Cons [OF assms(1,2,4)] l)
qed

lemma at_newline: "parse_at m (Some b) (newline # z) = parse_at m (Some (b @ [newline])) z"
proof -
  have "parseField m (Some b) [newline] z = parseField m (Some (b @ [newline])) (fst (line_at z)) (snd (line_at z))"
    by (simp add: parseField.simps(2) [of m b "[newline]" z] Let_def line_at_def split: option.split)
  then show ?thesis by (simp add: parse_at_def line_at_newline)
qed

lemma line_at_quotation:
  "newline \<in> set z \<Longrightarrow> line_at (quotation # z) = (quotation # fst (line_at z), snd (line_at z))"
  by (simp add: line_at_Cons)

lemma at_two_quotes:
  assumes "newline \<in> set z"
  shows "parse_at m (Some b) (quotation # quotation # z) = parse_at m (Some (b @ [quotation])) z"
  using assms
  by (simp add: parse_at_def line_at_quotation parseField.simps(2) [of m b "quotation # quotation # _"] Let_def)

lemma at_open: "newline \<in> set z \<Longrightarrow> parse_at m None (quotation # z) = parse_at m (Some []) z"
  by (simp add: parse_at_def line_at_quotation parseField.simps(1) [of m "quotation # _"])

lemma at_close_comma:
  assumes "newline \<in> set z" "good_comma m"
  shows "parse_at m (Some b) (quotation # m # z) = map_sum id (apfst (Cons b)) (parse_at m None z)"
proof -
  have "line_at (m # z) = (m # fst (line_at z), snd (line_at z))"
    using assms by (intro line_at_Cons) (auto simp: good_comma_def)
  then show ?thesis
    using assms
    by (simp add: parse_at_def line_at_quotation parseField.simps(2) [of m b "quotation # m # _"] Let_def
        good_comma_def)
qed

lemma at_close_newline:
  assumes "good_comma m"
  shows "parse_at m (Some b) (quotation # newline # z) = Inr ([b], z)"
  using assms
  by (auto simp: parse_at_def line_at_quotation line_at_newline parseField.simps(2) [of m b "[quotation, newline]"]
      Let_def good_comma_def nl_only_def)

lemma parse_plain:
  "line = [] \<or> hd line \<noteq> quotation \<Longrightarrow> parseField m None line s =
     (let f = takeWhile (\<lambda>c. c \<noteq> m) line
      in case dropWhile (\<lambda>c. c \<noteq> m) line of
           [] \<Rightarrow> if quotation \<in> set (trim_nl f) then Inl ErrBareQuote else Inr ([trim_nl f], s)
         | c # rest \<Rightarrow> if quotation \<in> set f then Inl ErrBareQuote
             else map_sum id (apfst (Cons f)) (parseField m None rest s))"
  unfolding parseField.simps(1) [of m line s] by (cases line) (auto simp: trim_nl_def)

lemma at_plain_comma:
  assumes "newline \<in> set z" "good_comma m" "\<forall>c \<in> set f. c \<noteq> newline \<and> c \<noteq> cr \<and> c \<noteq> quotation \<and> c \<noteq> m"
  shows "parse_at m None (f @ m # z) = map_sum id (apfst (Cons f)) (parse_at m None z)"
proof -
  let ?l = "fst (line_at z)" and ?s = "snd (line_at z)"
  have "line_at (f @ m # z) = (f @ m # ?l, ?s)"
    using assms(3)
  proof (induction f)
    case Nil
    from assms(1,2) show ?case by (simp add: line_at_Cons good_comma_def)
  next
    case (Cons c f)
    then show ?case using assms(1) by (subst append_Cons, subst line_at_Cons) auto
  qed
  moreover have "takeWhile (\<lambda>c. c \<noteq> m) (f @ m # ?l) = f" "dropWhile (\<lambda>c. c \<noteq> m) (f @ m # ?l) = m # ?l"
    using assms(3) by (simp_all add: takeWhile_append dropWhile_append)
  moreover have "quotation \<notin> set f" using assms(3) by blast
  moreover have "hd (f @ m # ?l) \<noteq> quotation"
    using assms(2,3) by (cases f) (auto simp: good_comma_def)
  ultimately show ?thesis by (simp add: parse_at_def parse_plain Let_def)
qed

lemma at_plain_newline:
  assumes "good_comma m" "\<forall>c \<in> set f. c \<noteq> newline \<and> c \<noteq> cr \<and> c \<noteq> quotation \<and> c \<noteq> m"
  shows "parse_at m None (f @ newline # z) = Inr ([f], z)"
proof -
  have "line_at (f @ newline # z) = (f @ [newline], z)"
    using assms(2)
  proof (induction f)
    case Nil
    show ?case by (simp add: line_at_newline)
  next
    case (Cons c f)
    then show ?case by (subst append_Cons, subst line_at_Cons) auto
  qed
  moreover have "takeWhile (\<lambda>c. c \<noteq> m) (f @ [newline]) = f @ [newline]" "dropWhile (\<lambda>c. c \<noteq> m) (f @ [newline]) = []"
    using assms by (auto simp: takeWhile_eq_all_conv good_comma_def)
  moreover have "quotation \<notin> set f" using assms(2) by blast
  moreover have "hd (f @ [newline]) \<noteq> quotation"
    using assms(2) by (cases f) auto
  ultimately show ?thesis by (simp add: parse_at_def parse_plain Let_def trim_nl_def del: dropWhile_eq_Nil_conv)
qed

section \<open>What comes back\<close>

text \<open>Inside quotes a carriage return before the end of a line is lost, and nothing else.\<close>

fun norm_crlf :: "string \<Rightarrow> string" where
  "norm_crlf [] = []"
| "norm_crlf (c # s) = (if c = cr \<and> s \<noteq> [] \<and> hd s = newline then norm_crlf s else c # norm_crlf s)"

lemma norm_crlf_id: "cr \<notin> set f \<Longrightarrow> norm_crlf f = f"
  by (induction f) auto

lemma double_quotes_simps [simp]:
  "double_quotes [] = []"
  "double_quotes (c # f) = (if c = quotation then [quotation, quotation] else [c]) @ double_quotes f"
  by (simp_all add: double_quotes_def)

lemma at_quoted:
  assumes "good_comma m" "newline \<in> set (d # z)"
  shows "parse_at m (Some b) (double_quotes f @ quotation # d # z) =
    parse_at m (Some (b @ norm_crlf f)) (quotation # d # z)"
proof (induction f arbitrary: b)
  case (Cons c f)
  let ?z = "double_quotes f @ quotation # d # z"
  have z: "newline \<in> set ?z" using assms(2) by auto
  have hd: "hd ?z = newline \<longleftrightarrow> f \<noteq> [] \<and> hd f = newline" by (cases f) auto
  consider "c = quotation" | "c = newline" | "c = cr" "f \<noteq> [] \<and> hd f = newline"
    | "c \<noteq> quotation" "c \<noteq> newline" "c = cr \<longrightarrow> \<not> (f \<noteq> [] \<and> hd f = newline)" by blast
  then show ?case
  proof cases
    case 1
    with Cons at_two_quotes [OF z] show ?thesis by simp
  next
    case 2
    with Cons at_newline [of m b ?z] show ?thesis by simp
  next
    case 3
    then obtain g where "f = newline # g" by (cases f) auto
    with 3(1) Cons at_crlf [of m "Some b"] show ?thesis by simp
  next
    case 4
    with Cons at_other [OF z 4(2,1)] hd show ?thesis by auto
  qed
qed simp

lemma plain_field:
  "\<not> fieldNeedsQuotes m f \<Longrightarrow> \<forall>c \<in> set f. c \<noteq> newline \<and> c \<noteq> cr \<and> c \<noteq> quotation \<and> c \<noteq> m"
  by (auto simp: fieldNeedsQuotes_def list_ex_iff split: if_splits)

lemma plain_norm: "\<not> fieldNeedsQuotes m f \<Longrightarrow> norm_crlf f = f"
  by (rule norm_crlf_id) (blast dest: plain_field)

lemma field_comma:
  assumes "newline \<in> set z" "good_comma m"
  shows "parse_at m None (write_field m f @ m # z) = map_sum id (apfst (Cons (norm_crlf f))) (parse_at m None z)"
proof (cases "fieldNeedsQuotes m f")
  case True
  then have "write_field m f @ m # z = quotation # double_quotes f @ quotation # m # z"
    by (simp add: write_field_def)
  moreover have "newline \<in> set (double_quotes f @ quotation # m # z)" using assms(1) by simp
  ultimately show ?thesis
    using at_quoted [OF assms(2), of m z "[]" f] assms by (simp add: at_open at_close_comma)
next
  case False
  then show ?thesis
    by (simp add: write_field_def plain_norm at_plain_comma [OF assms plain_field [OF False]])
qed

lemma field_newline:
  assumes "good_comma m"
  shows "parse_at m None (write_field m f @ newline # z) = Inr ([norm_crlf f], z)"
proof (cases "fieldNeedsQuotes m f")
  case True
  then have "write_field m f @ newline # z = quotation # double_quotes f @ quotation # newline # z"
    by (simp add: write_field_def)
  then show ?thesis
    using at_quoted [OF assms, of newline z "[]" f] assms by (simp add: at_open at_close_newline)
next
  case False
  then show ?thesis
    by (simp add: write_field_def plain_norm at_plain_newline [OF assms plain_field [OF False]])
qed

lemma parse_record:
  assumes "good_comma m" "fs \<noteq> []"
  shows "parse_at m None (write_record m fs @ z) = Inr (map norm_crlf fs, z)"
  using assms(2)
proof (induction fs)
  case (Cons f fs)
  show ?case
  proof (cases "fs = []")
    case True
    then show ?thesis by (simp add: write_record_def field_newline [OF assms(1)])
  next
    case False
    then have "write_record m (f # fs) @ z = write_field m f @ m # (write_record m fs @ z)"
      by (simp add: write_record_def join_with_cons)
    moreover have "newline \<in> set (write_record m fs @ z)" by (simp add: write_record_def)
    ultimately show ?thesis using field_comma [OF _ assms(1)] Cons.IH [OF False] by simp
  qed
qed simp

text \<open>A record of one empty field, or of none, is an empty line, which the reader skips.\<close>

definition blank :: "string list \<Rightarrow> bool" where
  "blank fs \<longleftrightarrow> fs = [] \<or> fs = [[]]"

lemma write_record_head:
  assumes "good_comma m" "\<not> blank fs"
  obtains c r where "write_record m fs @ z = c # r @ newline # z" "c \<noteq> newline" "c \<noteq> cr"
proof (cases fs)
  case (Cons f gs)
  have "\<exists>c r. join_with [m] (map (write_field m) fs) = c # r \<and> c \<noteq> newline \<and> c \<noteq> cr"
  proof (cases f)
    case Nil
    with assms Cons show ?thesis
      by (cases gs) (auto simp: blank_def write_field_def fieldNeedsQuotes_def good_comma_def join_with_cons)
  next
    case c: (Cons c r)
    have "\<exists>c r. write_field m f = c # r \<and> c \<noteq> newline \<and> c \<noteq> cr"
      using plain_field [of m f] c by (auto simp: write_field_def)
    then show ?thesis by (cases gs) (auto simp: Cons join_with_cons)
  qed
  then show thesis using that by (auto simp: write_record_def)
qed (use assms in \<open>simp add: blank_def\<close>)

lemma read_record:
  assumes "good_comma m"
  shows "readRecord m (write_record m fs @ z) =
    (if blank fs then readRecord m z else Some (Inr (map norm_crlf fs, z)))"
proof (cases "blank fs")
  case True
  then have "write_record m fs @ z = newline # z"
    by (auto simp: blank_def write_record_def write_field_def fieldNeedsQuotes_def)
  with True show ?thesis
    by (simp add: readRecord.simps [of m "newline # z"] readLine_def end_line_def nl_only_def)
next
  case False
  let ?z = "write_record m fs @ z"
  from write_record_head [OF assms False, of z] obtain c r where
    c: "?z = c # r @ newline # z" "c \<noteq> newline" "c \<noteq> cr" by blast
  then have "line_at ?z = (c # fst (line_at (r @ newline # z)), snd (line_at (r @ newline # z)))"
    using line_at_Cons [of "r @ newline # z" c] by simp
  moreover from c have "readLine ?z \<noteq> None" by (simp add: readLine_def split: list.split)
  moreover from False have "fs \<noteq> []" by (simp add: blank_def)
  ultimately show ?thesis
    using parse_record [OF assms, of fs z] c(2) False
    by (auto simp: readRecord.simps [of m ?z] parse_at_def line_at_def nl_only_def)
qed

lemma read_none: "readRecord m [] = None"
  by (simp add: readRecord.simps [of m "[]"] readLine_def)

theorem csv_roundtrip:
  assumes "good_comma m" "\<forall>fs \<in> set t. \<not> blank fs \<longrightarrow> length fs = n"
  shows "csv_read m (csv_write m t) = Inr (map (map norm_crlf) (filter (\<lambda>fs. \<not> blank fs) t))"
proof -
  have "k = None \<or> k = Some n \<Longrightarrow> readAll m k (csv_write m t) =
      Inr (map (map norm_crlf) (filter (\<lambda>fs. \<not> blank fs) t))" for k
    using assms(2)
  proof (induction t arbitrary: k)
    case Nil
    show ?case by (simp add: csv_write_def readAll.simps [of m k "[]"] read_none)
  next
    case (Cons fs t)
    have w: "csv_write m (fs # t) = write_record m fs @ csv_write m t" by (simp add: csv_write_def)
    show ?case
    proof (cases "blank fs")
      case True
      then have "readAll m k (csv_write m (fs # t)) = readAll m k (csv_write m t)"
        by (simp add: w readAll.simps [of m k "write_record m fs @ csv_write m t"]
            readAll.simps [of m k "csv_write m t"] read_record [OF assms(1)])
      with Cons True show ?thesis by simp
    next
      case False
      with Cons.prems have "length fs = n" by simp
      with False Cons.prems Cons.IH [of "Some n"] show ?thesis
        by (auto simp: w readAll.simps [of m k "write_record m fs @ csv_write m t"] read_record [OF assms(1)])
    qed
  qed
  then show ?thesis by (simp add: csv_read_def)
qed

end
