(* ===== verification/Csv_Files.thy ===== *)
theory Csv_Files
  imports Report Go_Csv Go_Json
begin

text \<open>
  The bytes of the comparator's files: the checkpoints and the reports of \<open>pkg/cost-comparator\<close>, which are
  written and read by \<open>encoding/csv\<close> with tabs between the fields, and the JSON in the last column of
  a report. \<open>Checkpoint\<close> and \<open>Report\<close> have the tables; here is what is on the disk, and that what is on the
  disk gives back the tables.
\<close>

abbreviation tab :: char where
  "tab \<equiv> CHR 0x09"

lemma good_tab: "good_comma tab"
  by (simp add: good_comma_def)

definition clean :: "string \<Rightarrow> bool" where
  "clean s \<longleftrightarrow> cr \<notin> set s"

lemma clean_simps [simp]:
  "clean []" "clean (c # s) \<longleftrightarrow> c \<noteq> cr \<and> clean s" "clean (s @ t) \<longleftrightarrow> clean s \<and> clean t"
  "c \<noteq> cr \<Longrightarrow> clean (replicate n c)"
  by (auto simp: clean_def)

lemma norm_clean: "\<forall>r \<in> set t. list_all clean r \<Longrightarrow> map (map norm_crlf) t = t"
  by (intro map_idI) (auto simp: list_all_iff clean_def norm_crlf_id)

section \<open>The bytes of a checkpoint\<close>

datatype file_error = CsvFails csv_error | LoadFails checkpoint_error

definition container_checkpoint_bytes :: "container_cache \<Rightarrow> checkpoint_error + string" where
  "container_checkpoint_bytes cache = map_sum id (csv_write tab) (ContainerDataCheckpoint cache)"

definition workload_checkpoint_bytes :: "workload_cache \<Rightarrow> checkpoint_error + string" where
  "workload_checkpoint_bytes cache = map_sum id (csv_write tab) (workloadTimeSeriesDataCheckpoint cache)"

text \<open>The file is \<open>None\<close> when it does not open.\<close>

definition read_file ::
    "(table option \<Rightarrow> checkpoint_error + 'c) \<Rightarrow> string option \<Rightarrow> file_error + 'c" where
  "read_file load file = (case file of
     None \<Rightarrow> map_sum LoadFails id (load None)
   | Some bytes \<Rightarrow> (case csv_read tab bytes of
       Inl e \<Rightarrow> Inl (CsvFails e)
     | Inr lines \<Rightarrow> map_sum LoadFails id (load (Some lines))))"

definition load_container_bytes :: "string option \<Rightarrow> file_error + container_cache" where
  "load_container_bytes = read_file LoadContainerTimeSeriesDataFromCheckpoint"

definition load_workload_bytes :: "string option \<Rightarrow> file_error + workload_cache" where
  "load_workload_bytes = read_file LoadWorkloadTimeSeriesDataFromCheckpoint"

text \<open>What the reader returns has passed the check of the number of fields, whatever the bytes.\<close>

lemma readAll_length:
  "readAll m k s = Inr t \<Longrightarrow> \<exists>n. (k \<noteq> None \<longrightarrow> k = Some n) \<and> (\<forall>r \<in> set t. length r = n)"
proof (induction m k s arbitrary: t rule: readAll.induct)
  case (1 m k s)
  from "1.prems" consider "readRecord m s = None" "t = []"
    | fs s' u where "readRecord m s = Some (Inr (fs, s'))" "k = None \<or> k = Some (length fs)"
      "readAll m (Some (length fs)) s' = Inr u" "t = fs # u"
    unfolding readAll.simps [of m k s]
    by (auto simp: map_sum_Inr split: option.splits sum.splits prod.splits if_splits)
  then show ?case
  proof cases
    case 1
    then show ?thesis by (cases k) auto
  next
    case (2 fs s' u)
    from "1.IH" [OF 2(1) refl refl _ 2(3)] 2(2) obtain n where "Some (length fs) = Some n" "\<forall>r \<in> set u. length r = n" by auto
    with 2(2,4) show ?thesis by auto
  qed
qed

lemma csv_read_rectangular: "csv_read m s = Inr t \<Longrightarrow> read_all t = Inr t"
  using readAll_length [of m None s t] by (auto simp: csv_read_def read_all_def list_all_iff split: list.split)

section \<open>What a checkpoint writes has no carriage return\<close>

lemma clean_digits: "set s \<subseteq> set ''0123456789'' \<Longrightarrow> clean s"
  by (auto simp: clean_def)

lemma clean_format_nat [simp]: "clean (format_nat n)"
  by (rule clean_digits [OF format_nat_digits])

lemma clean_format_int [simp]: "clean (format_int i)"
  by (simp add: format_int_def)

lemma clean_Float642Str [simp]: "clean (Float642Str x)"
proof -
  have "clean (digits_acc n [])" for n
    using set_digits_acc [of n "[]"] by (intro clean_digits) simp
  then have "clean (fixed_digits p n)" for p n
    by (simp add: fixed_digits_def pad_left_def)
  then show ?thesis by (cases x) (simp_all add: Float642Str_def format_fixed_def)
qed

definition good_header :: "string \<Rightarrow> bool" where
  "good_header h \<longleftrightarrow> (\<exists>p n ot. h = hdr p n ot \<and> 0 \<le> n \<and> CHR ''-'' \<notin> set p \<and> clean p)"

lemma good_header_clean: "good_header h \<Longrightarrow> clean h"
proof -
  have "clean p \<Longrightarrow> clean (hdr p n ot)" for p n ot by (cases ot) (simp_all add: hdr.simps)
  then show "good_header h \<Longrightarrow> clean h" by (auto simp: good_header_def)
qed

lemma good_retime: "good_header h \<Longrightarrow> good_header (retime h t)"
  using retime_hdr by (fastforce simp: good_header_def)

lemma save_cells_clean:
  "list_all good_header hs \<Longrightarrow> list_all good_header (fst (save_cells hs ss)) \<and> list_all clean (snd (save_cells hs ss))"
  by (induction hs ss rule: save_cells.induct) (auto simp: good_retime split: prod.splits)

lemma save_blocks_clean:
  "save_blocks hss xss = Inr (hss', row) \<Longrightarrow> list_all (list_all good_header) hss \<Longrightarrow>
     list_all (list_all good_header) hss' \<and> list_all clean row"
proof (induction hss xss arbitrary: hss' row rule: save_blocks.induct)
  case (1 hs hss xs xss)
  from "1.prems"(1) obtain hs' cs hss1 css
    where b: "save_block hs xs = Inr (hs', cs)" "save_blocks hss xss = Inr (hss1, css)"
      and r: "hss' = hs' # hss1" "row = cs @ css"
    by (auto split: sum.splits prod.splits)
  from save_block_cases [OF b(1)] save_cells_clean [of hs "first_samples xs"] "1.prems"(2)
  have "list_all good_header hs' \<and> list_all clean cs" by (simp add: prod_eq_iff)
  with "1.IH" [OF b(1) refl b(2)] r "1.prems"(2) show ?case by simp
qed auto

lemma save_rows_clean:
  "save_rows hss rows = Inr (hss', data) \<Longrightarrow> list_all (list_all good_header) hss \<Longrightarrow>
     \<forall>(key, cols) \<in> set rows. list_all clean key \<Longrightarrow>
     list_all (list_all good_header) hss' \<and> list_all (list_all clean) data"
proof (induction hss rows arbitrary: hss' data rule: save_rows.induct)
  case (2 hss key cols rows)
  from "2.prems"(1) obtain hss1 cs data1
    where b: "save_blocks hss cols = Inr (hss1, cs)" "save_rows hss1 rows = Inr (hss', data1)"
      and d: "data = (key @ cs) # data1"
    by (auto split: sum.splits prod.splits)
  from save_blocks_clean [OF b(1) "2.prems"(2)]
  have c: "list_all (list_all good_header) hss1" "list_all clean cs" by simp_all
  from "2.IH" [OF b(1) refl b(2) c(1)] "2.prems"(3) c(2) d show ?case by simp
qed simp

lemma save_table_clean:
  assumes "save_table keys prefixes rows = Inr t" "list_all clean keys"
    and "\<forall>p \<in> set prefixes. clean p \<and> CHR ''-'' \<notin> set p"
    and "\<forall>(key, cols) \<in> set rows. list_all clean key"
  shows "\<forall>r \<in> set t. list_all clean r"
proof -
  from assms(1) obtain lens hss data where
    r: "save_rows (map2 numbered prefixes lens) rows = Inr (hss, data)" and t: "t = (keys @ concat hss) # data"
    by (auto simp: save_table_def Let_def split: sum.splits prod.splits)
  have "good_header h" if "clean p \<and> CHR ''-'' \<notin> set p" "h \<in> set (numbered p n)" for p n h
  proof -
    from that(2) obtain i where "h = hdr p (int i) None" by (auto simp: numbered_def hdr.simps)
    with that(1) show ?thesis unfolding good_header_def by (intro exI [of _ p] exI [of _ "int i"] exI [of _ None]) simp
  qed
  with assms(3) have "list_all (list_all good_header) (map2 numbered prefixes lens)"
    by (fastforce simp: list_all_iff dest: set_zip_leftD)
  from save_rows_clean [OF r this assms(4)]
  have "list_all (list_all good_header) hss" "list_all (list_all clean) data" by simp_all
  with assms(2) t good_header_clean show ?thesis by (auto simp: list_all_iff)
qed

lemma prefixes_clean: "\<forall>p \<in> set workload_prefixes. clean p \<and> CHR ''-'' \<notin> set p"
  by (simp add: workload_prefixes_def container_prefixes_def)

text \<open>The kinds, namespaces, names and containers of the entries.\<close>

definition clean_keys :: "(string list \<times> 'a) list \<Rightarrow> bool" where
  "clean_keys rows \<longleftrightarrow> (\<forall>(key, cols) \<in> set rows. list_all clean key)"

lemma written_table:
  assumes "\<forall>r \<in> set t. list_all clean r" "read_all t = Inr t" "\<forall>r \<in> set t. 2 \<le> length r"
  shows "csv_read tab (csv_write tab t) = Inr t"
proof -
  have nb: "\<not> blank r" if "r \<in> set t" for r using assms(3) that by (fastforce simp: blank_def)
  then have "filter (\<lambda>fs. \<not> blank fs) t = t" by (simp add: filter_id_conv)
  moreover have "\<forall>r \<in> set t. length r = length (hd t)"
    using assms(2) by (cases t) (auto simp: read_all_def list_all_iff split: if_splits)
  ultimately show ?thesis
    using csv_roundtrip [OF good_tab, of t "length (hd t)"] norm_clean [OF assms(1)] by simp
qed


lemma saved_bytes:
  assumes "save_table keys prefixes rows = Inr t" "clean_keys rows"
    and "\<forall>(key, cols) \<in> set rows. length cols = length prefixes \<and> length key = length keys"
    and "list_all clean keys" "2 \<le> length keys" "\<forall>p \<in> set prefixes. clean p \<and> CHR ''-'' \<notin> set p"
  shows "csv_read tab (csv_write tab t) = Inr t"
proof (rule written_table)
  show "\<forall>r \<in> set t. list_all clean r"
    using save_table_clean [OF assms(1,4,6)] assms(2) by (simp add: clean_keys_def)
  show rect: "read_all t = Inr t" using save_table_rectangular [OF assms(1,3)] by simp
  from assms(3) have "\<forall>(key, cols) \<in> set rows. length cols = length prefixes" by auto
  from save_table_Inr [OF assms(1) this] obtain hss data where "t = (keys @ concat hss) # data" by blast
  with rect assms(5) show "\<forall>r \<in> set t. 2 \<le> length r"
    by (auto simp: read_all_def list_all_iff split: if_splits)
qed

lemma container_bytes:
  assumes "ContainerDataCheckpoint cache = Inr t" "clean_keys (container_entries cache)"
  shows "csv_read tab (csv_write tab t) = Inr t"
proof (rule saved_bytes [OF _ assms(2)])
  show "save_table container_keys container_prefixes (container_entries cache) = Inr t"
    using assms(1) by (simp add: ContainerDataCheckpoint_def)
  show "\<forall>(key, cols) \<in> set (container_entries cache).
      length cols = length container_prefixes \<and> length key = length container_keys"
    using container_entries_shape container_prefixes_facts(2) by (fastforce simp: container_keys_def)
  show "\<forall>p \<in> set container_prefixes. clean p \<and> CHR ''-'' \<notin> set p"
    using prefixes_clean by (simp add: workload_prefixes_def)
qed (simp_all add: container_keys_def)

lemma workload_bytes:
  assumes "workloadTimeSeriesDataCheckpoint cache = Inr t" "clean_keys (workload_entries cache)"
  shows "csv_read tab (csv_write tab t) = Inr t"
proof (rule saved_bytes [OF _ assms(2)])
  show "save_table [''Kind'', ''Namespace'', ''Name''] workload_prefixes (workload_entries cache) = Inr t"
    using assms(1) by (simp add: workloadTimeSeriesDataCheckpoint_def)
  show "\<forall>(key, cols) \<in> set (workload_entries cache).
      length cols = length workload_prefixes \<and> length key = length [''Kind'', ''Namespace'', ''Name'']"
    using workload_entries_shape container_prefixes_facts(2) by (fastforce simp: workload_prefixes_def)
  show "\<forall>p \<in> set workload_prefixes. clean p \<and> CHR ''-'' \<notin> set p" by (rule prefixes_clean)
qed simp_all

lemma clean_container_keys:
  "clean_keys (container_entries cache) \<longleftrightarrow>
     (\<forall>((k, ns, n, c), d) \<in> set (flat cache). clean k \<and> clean ns \<and> clean n \<and> clean c)"
  by (fastforce simp: clean_keys_def container_entries_flat)

text \<open>
  C6. What is on the disk: the bytes of a checkpoint of the containers, written and read as files are, give back
  exactly the containers that were saved, with the timestamps of the first series of each column and the values
  that their five decimals parse to. The file of the workloads is read as the table that was written. This is for
  containers whose samples at an index of a column all have one timestamp, as range queries with one range and step
  return them: the file has one timestamp for an index of a column, and otherwise a container is read with the times of
  another (\<open>unaligned_times_move\<close>). There must be a sample at all, without which the file has no columns of series,
  no container twice, and no carriage return in a name, since the reader drops one before the end of a line.
\<close>

theorem checkpoint_bytes_roundtrip:
  assumes "container_checkpoint_bytes cache = Inr bytes" "aligned_cache T cache" "times_ok T"
    and "distinct (map fst (flat cache))"
    and "\<exists>(key, d) \<in> set (flat cache). \<exists>k < 6. first_samples (container_columns d ! k) \<noteq> []"
    and "\<forall>((k, ns, n, c), d) \<in> set (flat cache). clean k \<and> clean ns \<and> clean n \<and> clean c"
    and "workload_checkpoint_bytes wcache = Inr wbytes" "clean_keys (workload_entries wcache)"
  shows "(\<exists>m. load_container_bytes (Some bytes) = Inr m \<and>
      (\<forall>k ns n c. lookup3 m k (ns, n) c = map_option reload (map_of (flat cache) (k, ns, n, c)))) \<and>
    (\<exists>t. workloadTimeSeriesDataCheckpoint wcache = Inr t \<and>
      load_workload_bytes (Some wbytes) = map_sum LoadFails id (LoadWorkloadTimeSeriesDataFromCheckpoint (Some t)))"
proof
  from assms(1) obtain t where t: "ContainerDataCheckpoint cache = Inr t" "bytes = csv_write tab t"
    by (auto simp: container_checkpoint_bytes_def map_sum_Inr)
  from container_reload [OF t(1) assms(2-5)] obtain m where
    m: "LoadContainerTimeSeriesDataFromCheckpoint (Some t) = Inr m"
      "\<forall>k ns n c. lookup3 m k (ns, n) c = map_option reload (map_of (flat cache) (k, ns, n, c))" by blast
  have "csv_read tab bytes = Inr t"
    using container_bytes [OF t(1)] assms(6) by (simp add: t(2) clean_container_keys)
  with m show "\<exists>m. load_container_bytes (Some bytes) = Inr m \<and>
      (\<forall>k ns n c. lookup3 m k (ns, n) c = map_option reload (map_of (flat cache) (k, ns, n, c)))"
    by (simp add: load_container_bytes_def read_file_def)
  from assms(7) obtain u where u: "workloadTimeSeriesDataCheckpoint wcache = Inr u" "wbytes = csv_write tab u"
    by (auto simp: workload_checkpoint_bytes_def map_sum_Inr)
  with workload_bytes [OF u(1) assms(8)] show "\<exists>t. workloadTimeSeriesDataCheckpoint wcache = Inr t \<and>
      load_workload_bytes (Some wbytes) = map_sum LoadFails id (LoadWorkloadTimeSeriesDataFromCheckpoint (Some t))"
    by (simp add: load_workload_bytes_def read_file_def)
qed

theorem checkpoint_bytes_roundtrip_witness:
  "\<exists>bytes m. container_checkpoint_bytes example_cache = Inr bytes \<and>
     load_container_bytes (Some bytes) = Inr m \<and>
     lookup3 m ''Deployment'' (''ns'', ''web'') ''main'' = Some (reload (Checkpoint.example_data [60, 120] 5))"
proof -
  have "\<not> isl (container_checkpoint_bytes example_cache)"
    unfolding container_checkpoint_bytes_def isl_map_sum by code_simp
  then obtain bytes where b: "container_checkpoint_bytes example_cache = Inr bytes"
    by (cases "container_checkpoint_bytes example_cache") simp_all
  have "\<not> isl (workload_checkpoint_bytes [])"
    unfolding workload_checkpoint_bytes_def isl_map_sum by code_simp
  then obtain wbytes where w: "workload_checkpoint_bytes [] = Inr wbytes"
    by (cases "workload_checkpoint_bytes []") simp_all
  have "\<forall>((k, ns, n, c), d) \<in> set (flat example_cache). clean k \<and> clean ns \<and> clean n \<and> clean c"
    by (simp add: flat_example)
  moreover have "clean_keys (workload_entries [])" by (simp add: clean_keys_def workload_entries_def)
  ultimately show ?thesis
    using checkpoint_bytes_roundtrip [OF b example_cache_facts _ w] b by (fastforce simp: flat_example)
qed

section \<open>The files of the reports\<close>

lemma each_workload_length:
  "(\<And>k nn d. length (f k nn d) = n) \<Longrightarrow> \<forall>row \<in> set (each_workload f m). length row = n"
  by (auto simp: each_workload_def)

lemma report_rectangular:
  assumes "r \<in> set (reports ops pops json serverless virtual pods nodes workloads ctx)"
  shows "3 \<le> length (ReportHeader r) \<and> (\<forall>row \<in> set (ReportRows r). length row = length (ReportHeader r))"
proof -
  have o: "length (original_row ops pops k nn s) = 11" for k nn s
    by (simp add: original_row_def resource_cells_def split: prod.split)
  have c: "length (recommended_row ops json k nn d) = 11" for k nn d
    by (simp add: recommended_row_def resource_cells_def Let_def)
  from assms show ?thesis
    using each_workload_length [where f = "original_row ops pops", OF o]
      each_workload_length [where f = "recommended_row ops json", OF c]
    by (auto simp: reports_def ReportOriginalResourceSummary_def ReportOriginalCostSummary_def
        ReportRawServerlessCostSummary_def ReportRecommendedResourceSummary_def ReportRecommendedCostSummary_def
        ReportOriginalWorkloadsResourceDistribution_def ReportRecommendedWorkloadsResourceDistribution_def
        total_row_def cost_header_def cost_row_def rec_cost_row_def distribution_header_def Let_def
        split: prod.splits)
qed

definition report_bytes :: "table \<Rightarrow> string" where
  "report_bytes t = csv_write tab t"

lemma report_reads_back:
  assumes "r \<in> set (reports ops pops json serverless virtual pods nodes workloads ctx)"
  shows "csv_read tab (report_bytes (ReportHeader r # ReportRows r)) =
    Inr (map (map norm_crlf) (ReportHeader r # ReportRows r))"
proof -
  let ?t = "ReportHeader r # ReportRows r"
  note rect = report_rectangular [OF assms]
  have nb: "\<not> blank row" if "row \<in> set ?t" for row using rect that by (fastforce simp: blank_def)
  then have "filter (\<lambda>fs. \<not> blank fs) ?t = ?t" by (subst filter_id_conv) blast
  with csv_roundtrip [OF good_tab, of ?t "length (ReportHeader r)"] rect show ?thesis
    by (auto simp: report_bytes_def)
qed

text \<open>
  The files of an analysis: each of them, read as CSV with tabs, is its header and its rows as they
  were computed, except that a carriage return before a line end inside a cell is lost; and each is the
  file of one of the seven reports.
\<close>

theorem report_files_read_back:
  assumes "DoAnalysis cfg duration writable ops pops json st cl pods nodes c w = (Inr out, w')"
    and "(path, t) \<in> set (Written out)"
  shows "csv_read tab (report_bytes t) = Inr (map (map norm_crlf) t) \<and>
    (list_all (list_all clean) t \<longrightarrow> csv_read tab (report_bytes t) = Inr t)"
proof -
  from assms(1) obtain podsSpec recs where
    out: "out = fold (publish cfg writable) (reports ops pops json (CIsServerlessPod cl)
      (CIsVirtualNode cl) pods nodes (workloadsSpecCache c) (coster_context cl duration podsSpec
      (GetAllNodesSpec (CNode2Spec cl) nodes) (workloadsSpecCache c) recs)) no_outputs"
    by (auto simp: DoAnalysis_def Let_def split: prod.splits sum.splits)
  define rs where "rs = reports ops pops json (CIsServerlessPod cl)
      (CIsVirtualNode cl) pods nodes (workloadsSpecCache c) (coster_context cl duration podsSpec
      (GetAllNodesSpec (CNode2Spec cl) nodes) (workloadsSpecCache c) recs)"
  have "out = published cfg writable rs"
    using fold_publish [of no_outputs cfg writable rs] out
    by (simp add: no_outputs_def published_def Let_def rs_def)
  with assms(2) obtain r where r: "r \<in> set rs" "t = ReportHeader r # ReportRows r"
    by (auto simp: published_def Let_def csv_of_def dest: set_takeWhileD split: if_splits)
  from report_reads_back [OF r(1) [unfolded rs_def]] r(2)
  have whole: "csv_read tab (report_bytes t) = Inr (map (map norm_crlf) t)" by simp
  with norm_clean [of t] show ?thesis by (simp add: list_all_iff)
qed

text \<open>The seven files of an analysis in the mode that writes files only.\<close>

theorem report_files_read_back_witness:
  "\<exists>out t. DoAnalysis ((example_config True)\<lparr>OutputMode := ''csv''\<rparr>) (3600, 1) (\<lambda>f. True) nat_ops nat_pod_ops
      (\<lambda>m. []) const_stats example_cloud example_pods [] first_start 0 = (Inr out, 7) \<and>
    length (Written out) = 7 \<and> t = snd (Written out ! 6) \<and>
    csv_read tab (report_bytes t) = Inr (map (map norm_crlf) t)"
proof -
  let ?cfg = "(example_config True)\<lparr>OutputMode := ''csv''\<rparr>"
  have "\<exists>m. GetAllPodsSpec plain_spec example_pods [] 0 = (Inr m, 3)"
    by (simp add: example_pods_def plain_spec_def)
  then obtain m where m: "GetAllPodsSpec plain_spec example_pods [] 0 = (Inr m, 3)" by blast
  have "\<exists>rs. length rs = 7 \<and> DoAnalysis ?cfg (3600, 1) (\<lambda>f. True) nat_ops nat_pod_ops (\<lambda>m. []) const_stats
      example_cloud example_pods [] first_start 0 = (Inr (fold (publish ?cfg (\<lambda>f. True)) rs no_outputs), 7)"
    by (simp add: DoAnalysis_def example_cloud_def m first_start_def analysed_recs_eq Let_def)
       (rule exI, rule conjI [OF _ refl], simp add: reports_def)
  then obtain rs where rs: "length rs = 7" "DoAnalysis ?cfg (3600, 1) (\<lambda>f. True) nat_ops nat_pod_ops (\<lambda>m. [])
      const_stats example_cloud example_pods [] first_start 0 =
        (Inr (fold (publish ?cfg (\<lambda>f. True)) rs no_outputs), 7)" by blast
  have all: "takeWhile (\<lambda>r. True) rs = rs" by (simp add: takeWhile_eq_all_conv)
  let ?out = "fold (publish ?cfg (\<lambda>f. True)) rs no_outputs"
  have w: "length (Written ?out) = 7"
    using fold_publish [of no_outputs ?cfg "\<lambda>f. True" rs] rs(1)
    by (simp add: no_outputs_def published_def Let_def writes_def all)
  then have "(fst (Written ?out ! 6), snd (Written ?out ! 6)) \<in> set (Written ?out)" by simp
  from report_files_read_back [OF rs(2) this] rs(2) w show ?thesis by blast
qed

section \<open>The statistics of a row\<close>

text \<open>
  \<open>json.Marshal(workload.Containers)\<close>: a map of structs without tags, where a number that is not there is
  \<open>null\<close>. The error of a number that is not finite is ignored, and the cell is empty.
\<close>

definition float_or_null :: "float64 option \<Rightarrow> (string + json) option" where
  "float_or_null x = Some (case x of None \<Rightarrow> Inr JNull | Some v \<Rightarrow> json_float v)"

definition statistic_json :: "Statistic \<Rightarrow> string + json" where
  "statistic_json s = marshal_struct [(''Percentile'', float_or_null (Percentile s)), (''Max'', float_or_null (Max s)),
     (''MaxRecommended'', float_or_null (MaxRecommended s)), (''Recommended'', float_or_null (Recommended s))]"

definition container_stats_json :: stats_json where
  "container_stats_json m = (case marshal_text (marshal_map (\<lambda>(cpu, mem).
       marshal_struct [(''Cpu'', Some (statistic_json cpu)), (''Mem'', Some (statistic_json mem))]) m) of
     Inl e \<Rightarrow> [] | Inr s \<Rightarrow> s)"


text \<open>A reader of such a cell.\<close>

definition read_float :: "json \<Rightarrow> float64 option" where
  "read_float v = (case v of JNum t \<Rightarrow> Some (fst (ParseFloat t)) | _ \<Rightarrow> None)"

definition member :: "json \<Rightarrow> string \<Rightarrow> json" where
  "member v k = (case v of JObj kvs \<Rightarrow> (case map_of kvs k of None \<Rightarrow> JNull | Some w \<Rightarrow> w) | _ \<Rightarrow> JNull)"

definition read_statistic :: "json \<Rightarrow> Statistic" where
  "read_statistic v = \<lparr>Percentile = read_float (member v ''Percentile''), Max = read_float (member v ''Max''),
     MaxRecommended = read_float (member v ''MaxRecommended''), Recommended = read_float (member v ''Recommended'')\<rparr>"

definition read_stats :: "json \<Rightarrow> Statistic \<times> Statistic" where
  "read_stats v = (read_statistic (member v ''Cpu''), read_statistic (member v ''Mem''))"

definition stat_values :: "Statistic \<Rightarrow> float64 option list" where
  "stat_values s = [Percentile s, Max s, MaxRecommended s, Recommended s]"

definition stat_finite :: "Statistic \<Rightarrow> bool" where
  "stat_finite s \<longleftrightarrow> (\<forall>x. Some x \<in> set (stat_values s) \<longrightarrow> canonical x)"

lemma float_or_null_ok:
  assumes "\<forall>v. x = Some v \<longrightarrow> canonical v"
  obtains j where "float_or_null x = Some (Inr j)" "json_ok d j" "read_float j = x"
proof (cases x)
  case None
  with that [of JNull] show ?thesis by (simp add: float_or_null_def read_float_def)
next
  case (Some v)
  with assms json_float_finite [of v] obtain t where "json_float v = Inr (JNum t)" "number t" "ParseFloat t = (v, None)"
    by auto
  with Some that [of "JNum t"] show ?thesis by (simp add: float_or_null_def read_float_def)
qed

lemma statistic_json_ok:
  assumes "stat_finite s"
  obtains j where "statistic_json s = Inr j" "json_ok (Suc d) j" "read_statistic j = s"
proof -
  from assms have fin: "\<forall>v. Percentile s = Some v \<longrightarrow> canonical v" "\<forall>v. Max s = Some v \<longrightarrow> canonical v"
    "\<forall>v. MaxRecommended s = Some v \<longrightarrow> canonical v" "\<forall>v. Recommended s = Some v \<longrightarrow> canonical v"
    by (simp_all add: stat_finite_def stat_values_def)
  obtain a where a: "float_or_null (Percentile s) = Some (Inr a)" "json_ok d a" "read_float a = Percentile s"
    by (rule float_or_null_ok [OF fin(1)])
  obtain b where b: "float_or_null (Max s) = Some (Inr b)" "json_ok d b" "read_float b = Max s"
    by (rule float_or_null_ok [OF fin(2)])
  obtain c where c: "float_or_null (MaxRecommended s) = Some (Inr c)" "json_ok d c" "read_float c = MaxRecommended s"
    by (rule float_or_null_ok [OF fin(3)])
  obtain e where e: "float_or_null (Recommended s) = Some (Inr e)" "json_ok d e" "read_float e = Recommended s"
    by (rule float_or_null_ok [OF fin(4)])
  have utf8: "valid_utf8 ''Percentile''" "valid_utf8 ''Max''" "valid_utf8 ''MaxRecommended''" "valid_utf8 ''Recommended''"
    by (rule ascii_utf8, simp)+
  show thesis
  proof (rule that)
    show "statistic_json s = Inr (JObj [(''Percentile'', a), (''Max'', b), (''MaxRecommended'', c), (''Recommended'', e)])"
      by (simp add: statistic_json_def marshal_struct_def a(1) b(1) c(1) e(1))
  qed (simp_all add: utf8 a b c e read_statistic_def member_def)
qed

definition stats_pair_json :: "Statistic \<times> Statistic \<Rightarrow> string + json" where
  "stats_pair_json = (\<lambda>(cpu, mem).
     marshal_struct [(''Cpu'', Some (statistic_json cpu)), (''Mem'', Some (statistic_json mem))])"

lemma stats_pair_ok:
  assumes "stat_finite (fst p)" "stat_finite (snd p)"
  shows "\<exists>j. stats_pair_json p = Inr j \<and> json_ok (Suc (Suc 0)) j \<and> read_stats j = p"
proof -
  obtain a where a: "statistic_json (fst p) = Inr a" "json_ok (Suc 0) a" "read_statistic a = fst p"
    by (rule statistic_json_ok [OF assms(1)])
  obtain b where b: "statistic_json (snd p) = Inr b" "json_ok (Suc 0) b" "read_statistic b = snd p"
    by (rule statistic_json_ok [OF assms(2)])
  have "valid_utf8 ''Cpu''" "valid_utf8 ''Mem''" by (rule ascii_utf8, simp)+
  with a b show ?thesis
    by (intro exI [of _ "JObj [(''Cpu'', a), (''Mem'', b)]"])
       (simp add: stats_pair_json_def marshal_struct_def read_stats_def member_def split_def)
qed

lemma statistic_json_error:
  assumes "\<not> stat_finite s" "\<forall>x. Some x \<in> set (stat_values s) \<longrightarrow> proper x"
  shows "\<exists>e. statistic_json s = Inl e"
proof -
  from assms obtain x where x: "Some x \<in> set (stat_values s)" "\<not> canonical x" "proper x"
    by (auto simp: stat_finite_def)
  then obtain e where "json_float x = Inl e"
    by (cases x) (auto simp: json_float_def proper_def)
  then have f: "float_or_null (Some x) = Some (Inl e)" by (simp add: float_or_null_def)
  let ?fs = "[(''Percentile'', float_or_null (Percentile s)), (''Max'', float_or_null (Max s)),
    (''MaxRecommended'', float_or_null (MaxRecommended s)), (''Recommended'', float_or_null (Recommended s))]"
  from x(1) consider "Percentile s = Some x" | "Max s = Some x" | "MaxRecommended s = Some x" | "Recommended s = Some x"
    unfolding stat_values_def by force
  then obtain k where "(k, Some (Inl e)) \<in> set ?fs"
  proof cases
    case 1
    show ?thesis by (rule that [of "''Percentile''"]) (simp add: 1 f)
  next
    case 2
    show ?thesis by (rule that [of "''Max''"]) (simp add: 2 f)
  next
    case 3
    show ?thesis by (rule that [of "''MaxRecommended''"]) (simp add: 3 f)
  next
    case 4
    show ?thesis by (rule that [of "''Recommended''"]) (simp add: 4 f)
  qed
  from marshal_fields_error [OF this] show ?thesis by (auto simp: statistic_json_def marshal_struct_def)
qed

lemma stats_pair_error:
  assumes "\<exists>e. statistic_json (fst p) = Inl e \<or> statistic_json (snd p) = Inl e"
  shows "\<exists>e. stats_pair_json p = Inl e"
  using assms
  by (cases "statistic_json (fst p)") (auto simp: stats_pair_json_def marshal_struct_def split_def)

text \<open>
  C14. The last cell of a row of the recommendations is JSON that reads back as the statistics of the
  containers, exactly, one object for each container in the order of the names; when one number is not
  finite the cell is empty, and the statistics of all containers of the workload are lost.
\<close>

theorem container_stats_read_back:
  assumes "wf_map m"
    and "\<forall>(k, cpu, mem) \<in> set m. valid_utf8 k \<and>
      (\<forall>x. Some x \<in> set (stat_values cpu) \<union> set (stat_values mem) \<longrightarrow> proper x)"
  shows "if \<forall>(k, cpu, mem) \<in> set m. stat_finite cpu \<and> stat_finite mem
    then \<exists>kvs. parse_json (container_stats_json m) = Some (JObj kvs) \<and> map fst kvs = sort (map fst m) \<and>
      (\<forall>k. map_option read_stats (map_of kvs k) = mget m k)
    else container_stats_json m = []"
proof (cases "\<forall>(k, cpu, mem) \<in> set m. stat_finite cpu \<and> stat_finite mem")
  case True
  let ?g = "\<lambda>p. projr (stats_pair_json p)"
  note sorted = set_sorted_entries [OF assms(1)]
  have ok: "stats_pair_json p = Inr (?g p) \<and> json_ok (Suc (Suc 0)) (?g p) \<and> read_stats (?g p) = p"
    if "(k, p) \<in> set m" for k p
    using stats_pair_ok [of p] True that by force
  define kvs where "kvs = map (\<lambda>(k, p). (k, ?g p)) (sorted_entries m)"
  have j: "marshal_map stats_pair_json m = Inr (JObj kvs)"
    unfolding kvs_def using ok by (intro map_ok) (auto simp: sorted)
  have "json_ok (Suc (Suc (Suc 0))) (JObj kvs)"
    using ok assms(2) by (fastforce simp: kvs_def list_all_iff sorted)
  then have "json_ok 10000 (JObj kvs)" by (rule json_ok_mono) simp
  from parse_print [OF this] j have "parse_json (container_stats_json m) = Some (JObj kvs)"
    by (simp add: container_stats_json_def stats_pair_json_def marshal_text_def)
  moreover have "map fst kvs = sort (map fst m)"
    by (simp add: kvs_def comp_def split_def sorted_entries_keys [symmetric])
  moreover have "map_option read_stats (map_of kvs k) = mget m k" for k
  proof (cases "mget m k")
    case None
    then have "k \<notin> set (map fst m)" by (simp add: mget_None_iff)
    then have "k \<notin> fst ` set kvs" using \<open>map fst kvs = sort (map fst m)\<close> by (metis set_map set_sort)
    then have "mget kvs k = None" by (simp add: mget_None_iff)
    then show ?thesis using None by simp
  next
    case (Some p)
    then have p: "(k, p) \<in> set m" using wf_map_mget [OF assms(1)] by blast
    then have "(k, ?g p) \<in> set kvs" by (force simp: kvs_def sorted)
    moreover have "distinct (map fst kvs)" using assms(1) \<open>map fst kvs = sort (map fst m)\<close> by (simp add: wf_map_def)
    ultimately have "map_of kvs k = Some (?g p)" by simp
    with Some ok [OF p] show ?thesis by simp
  qed
  ultimately show ?thesis using True by auto
next
  case False
  then obtain k p where p: "(k, p) \<in> set m" "\<not> (stat_finite (fst p) \<and> stat_finite (snd p))" by force
  with assms(2) have "\<forall>x. Some x \<in> set (stat_values (fst p)) \<longrightarrow> proper x"
    "\<forall>x. Some x \<in> set (stat_values (snd p)) \<longrightarrow> proper x" by force+
  with p(2) statistic_json_error have "\<exists>e. statistic_json (fst p) = Inl e \<or> statistic_json (snd p) = Inl e" by blast
  from stats_pair_error [OF this] obtain e where "stats_pair_json p = Inl e" by blast
  from map_error [where f = stats_pair_json, OF assms(1) p(1) this] obtain e' where
    "marshal_map stats_pair_json m = Inl e'" by blast
  then have "container_stats_json m = []"
    by (simp add: container_stats_json_def stats_pair_json_def marshal_text_def)
  then show ?thesis unfolding if_not_P [OF False] .
qed

definition shown_statistic :: "float64 \<Rightarrow> Statistic" where
  "shown_statistic x = \<lparr>Percentile = Some (lit 5 10), Max = Some x, MaxRecommended = None, Recommended = None\<rparr>"

theorem container_stats_read_back_witness:
  "(\<exists>kvs. parse_json (container_stats_json [(''main'', shown_statistic (lit 3 2), shown_statistic (lit 5 2))]) = Some (JObj kvs) \<and>
      map_option read_stats (mget kvs ''main'') = Some (shown_statistic (lit 3 2), shown_statistic (lit 5 2))) \<and>
   container_stats_json [(''main'', shown_statistic (lit 3 2), shown_statistic NaN)] = []"
proof -
  have "canonical (lit 5 10)" "canonical (lit 3 2)" "canonical (lit 5 2)" "\<not> canonical NaN" by code_simp+
  note c = this
  have "valid_utf8 ''main''" by (rule ascii_utf8) simp
  with c have all: "\<forall>(k, cpu, mem) \<in> set [(''main'', shown_statistic x, shown_statistic y)]. valid_utf8 k \<and>
      (\<forall>x. Some x \<in> set (stat_values cpu) \<union> set (stat_values mem) \<longrightarrow> proper x)"
    if "proper x" "proper y" for x y
    using that by (simp add: shown_statistic_def stat_values_def proper_def)
  have fin: "stat_finite (shown_statistic x) \<longleftrightarrow> canonical x" for x
    using c(1) by (simp add: stat_finite_def stat_values_def shown_statistic_def)
  have wf: "wf_map [(''main'', shown_statistic x, shown_statistic y)]" for x y by (simp add: wf_map_def)
  have p: "proper (lit 3 2)" "proper (lit 5 2)" "proper NaN" using c by (simp_all add: proper_def)
  let ?m = "[(''main'', shown_statistic (lit 3 2), shown_statistic (lit 5 2))]"
  have "\<forall>(k, cpu, mem) \<in> set ?m. stat_finite cpu \<and> stat_finite mem" by (simp add: fin c)
  note container_stats_read_back [OF wf all [OF p(1,2)], unfolded if_P [OF this]]
  then obtain kvs where "parse_json (container_stats_json ?m) = Some (JObj kvs)"
    "\<forall>k. map_option read_stats (mget kvs k) = mget ?m k" by blast
  then have "\<exists>kvs. parse_json (container_stats_json ?m) = Some (JObj kvs) \<and>
      map_option read_stats (mget kvs ''main'') = Some (shown_statistic (lit 3 2), shown_statistic (lit 5 2))"
    by (intro exI [of _ kvs]) (simp only: map_of.simps fst_conv snd_conv fun_upd_same)
  moreover from container_stats_read_back [OF wf all [OF p(1,3)]] c
  have "container_stats_json [(''main'', shown_statistic (lit 3 2), shown_statistic NaN)] = []"
    by (simp add: fin)
  ultimately show ?thesis by blast
qed

section \<open>The labels of a row\<close>

text \<open>Characters that JSON leaves as they are; the keys and values of labels have no others.\<close>

definition label_char :: "char \<Rightarrow> bool" where
  "label_char c \<longleftrightarrow> 0x20 \<le> byte c \<and> byte c < 0x80 \<and> c \<noteq> CHR 0x22 \<and> c \<noteq> CHR 0x5C \<and>
     c \<noteq> CHR ''<'' \<and> c \<noteq> CHR ''>'' \<and> c \<noteq> CHR ''&''"

lemma escape_label: "list_all label_char s \<Longrightarrow> escape s = s"
proof (induction s)
  case Nil
  show ?case by (simp add: escape.simps [of "[]"])
next
  case (Cons c s)
  then have "rune_len (c # s) = 1" by (intro rune_len_1) (simp add: label_char_def)
  moreover have c: "0x20 \<le> byte c" "c \<noteq> CHR 0x22" "c \<noteq> CHR 0x5C" "c \<noteq> CHR ''<''" "c \<noteq> CHR ''>''" "c \<noteq> CHR ''&''"
    using Cons.prems by (simp_all add: label_char_def)
  have "c \<noteq> CHR 0x0A" "c \<noteq> CHR 0x0D" "c \<noteq> CHR 0x09" using c(1) by (intro notI; simp)+
  with c have "escape_ascii c = [c]" by (simp add: escape_ascii_def)
  ultimately show ?case using Cons by (simp add: escape_one)
qed

text \<open>The first distribution's last cell is JSON, which reads back as the labels in the order of their keys.\<close>

theorem labels_read_back:
  assumes "\<forall>(k, v) \<in> set m. list_all label_char k \<and> list_all label_char v" "wf_map m"
  shows "parse_json (json_labels m) = Some (JObj (map (\<lambda>(k, v). (k, JStr v)) (sorted_entries m)))"
proof -
  let ?v = "JObj (map (\<lambda>(k, v). (k, JStr v)) (sorted_entries m))"
  have lab: "list_all label_char k \<and> list_all label_char v" if "(k, v) \<in> set (sorted_entries m)" for k v
    using assms(1) that by (auto simp: set_sorted_entries [OF assms(2)])
  have "map (\<lambda>k. quoted k @ '':'' @ quoted (mget_default [] m k)) (sort (map fst m)) =
      map (\<lambda>(k, v). quoted k @ '':'' @ quoted v) (sorted_entries m)"
  proof -
    have "mget_default [] m k = the (mget m k)" if "k \<in> set (sort (map fst m))" for k
    proof -
      from that have "mget m k \<noteq> None" by (simp add: mget_None_iff)
      then show ?thesis by (auto simp: mget_default_def)
    qed
    then show ?thesis by (simp add: sorted_entries_def comp_def)
  qed
  also have "\<dots> = map (\<lambda>(k, v). quote k @ '':'' @ print_json v) (map (\<lambda>(k, v). (k, JStr v)) (sorted_entries m))"
    using lab by (auto simp: quoted_def quote_def escape_label)
  finally have "json_labels m = print_json ?v" by (simp add: json_labels_def)
  moreover have "ascii s" if "list_all label_char s" for s
    using that by (auto simp: ascii_def list_all_iff label_char_def)
  then have "json_ok (Suc 0) ?v" using lab by (auto simp: list_all_iff intro!: ascii_utf8)
  then have "json_ok 10000 ?v" by (rule json_ok_mono) simp
  from parse_print [OF this] have "parse_json (print_json ?v) = Some ?v" .
  ultimately show ?thesis by (simp only:)
qed

section \<open>The names of the files\<close>

text \<open>
  \<open>filepath.Join\<close> of a directory and a name, with \<open>filepath.Clean\<close>: the elements of the path without the
  empty ones and the dots, where two dots take the element before them away.
\<close>

definition clean_step :: "bool \<Rightarrow> string list \<Rightarrow> string \<Rightarrow> string list" where
  "clean_step rooted acc c =
     (if c = [] \<or> c = ''.'' then acc
      else if c = ''..'' then
        (if acc \<noteq> [] \<and> last acc \<noteq> ''..'' then butlast acc else if rooted then acc else acc @ [c])
      else acc @ [c])"

definition path_clean :: "string \<Rightarrow> string" where
  "path_clean p =
     (if p = [] then ''.''
      else let rooted = (hd p = CHR ''/'');
               s = (if rooted then ''/'' else []) @
                 join_with ''/'' (foldl (clean_step rooted) [] (split_on CHR ''/'' p))
           in if s = [] then ''.'' else s)"

definition path_join :: "string \<Rightarrow> string \<Rightarrow> string" where
  "path_join dir name =
     (if dir = [] then if name = [] then [] else path_clean name
      else path_clean (dir @ ''/'' @ name))"

definition containerTimeSeriesDataCheckpointName :: "string \<Rightarrow> comparator_config \<Rightarrow> string" where
  "containerTimeSeriesDataCheckpointName dataPath cfg =
     path_join dataPath (ClusterId cfg @ ''-workloads-container-timeseries.csv'')"

definition workloadTimeSeriesDataCheckpointName :: "string \<Rightarrow> comparator_config \<Rightarrow> string" where
  "workloadTimeSeriesDataCheckpointName dataPath cfg =
     path_join dataPath (ClusterId cfg @ ''-workloads-timeseries.csv'')"

definition report_path :: "string \<Rightarrow> comparator_config \<Rightarrow> report \<Rightarrow> string" where
  "report_path dataPath cfg r = path_join dataPath (file_of cfg r)"

text \<open>A name that is one element of a path stays the last one.\<close>

definition element :: "string \<Rightarrow> bool" where
  "element f \<longleftrightarrow> f \<noteq> [] \<and> f \<noteq> ''.'' \<and> f \<noteq> ''..'' \<and> CHR ''/'' \<notin> set f"

definition dir_prefix :: "string \<Rightarrow> string" where
  "dir_prefix dir =
     (let rooted = (dir \<noteq> [] \<and> hd dir = CHR ''/''); es = foldl (clean_step rooted) [] (split_on CHR ''/'' dir)
      in (if rooted then ''/'' else []) @ (if es = [] then [] else join_with ''/'' es @ ''/''))"

lemma split_on_snoc: "c \<notin> set f \<Longrightarrow> split_on c (d @ c # f) = split_on c d @ [f]"
proof (induction "split_on c d" arbitrary: d)
  case (Cons w ws)
  show ?case
  proof (cases "c \<in> set d")
    case True
    from split_list_first [OF this] obtain x y where d: "d = x @ c # y" "c \<notin> set x" by blast
    with Cons.hyps(2) have "ws = split_on c y" by (simp add: split_on_append)
    from Cons.hyps(1) [OF this] Cons.prems d show ?thesis by (simp add: split_on_append)
  next
    case False
    with Cons.prems show ?thesis by (simp add: split_on_append split_on_no_sep)
  qed
next
  case Nil
  then show ?case using split_on_nonempty [of c d] by simp
qed

lemma join_with_snoc: "es \<noteq> [] \<Longrightarrow> join_with sep (es @ [f]) = join_with sep es @ sep @ f"
proof (induction es)
  case (Cons e es)
  then show ?case by (cases es) (simp_all add: join_with_cons)
qed simp

lemma path_join_element:
  assumes "element f" shows "path_join dir f = dir_prefix dir @ f"
proof (cases "dir = []")
  case True
  with assms have "hd f \<noteq> CHR ''/''" "split_on CHR ''/'' f = [f]" "split_on CHR ''/'' [] = [[]]"
    by (cases f; auto simp: element_def split_on_no_sep)+
  with assms True show ?thesis
    by (simp add: path_join_def path_clean_def dir_prefix_def element_def clean_step_def)
next
  case False
  let ?r = "hd dir = CHR ''/''"
  from assms have "split_on CHR ''/'' (dir @ ''/'' @ f) = split_on CHR ''/'' dir @ [f]"
    by (simp add: split_on_snoc element_def)
  moreover have "clean_step ?r acc f = acc @ [f]" for acc
    using assms by (simp add: clean_step_def element_def)
  ultimately show ?thesis
    using assms False
    by (auto simp: path_join_def path_clean_def dir_prefix_def Let_def element_def join_with_snoc)
qed

text \<open>
  No file of a run takes the place of another one: the seven reports and the two checkpoints have nine different
  paths, whatever the directory is, when the identifier of the cluster has no slash.
\<close>

theorem files_distinct:
  assumes "CHR ''/'' \<notin> set (ClusterId cfg)"
  shows "distinct (containerTimeSeriesDataCheckpointName dataPath cfg # workloadTimeSeriesDataCheckpointName dataPath cfg #
    map (report_path dataPath cfg) (reports ops pops json serverless virtual pods nodes workloads ctx))"
proof -
  let ?names = "''-workloads-container-timeseries.csv'' # ''-workloads-timeseries.csv'' #
    map (\<lambda>r. ReportName r @ ''.csv'') (reports ops pops json serverless virtual pods nodes workloads ctx)"
  have names: "?names = [''-workloads-container-timeseries.csv'', ''-workloads-timeseries.csv'',
      ''-original-resource-summary.csv'', ''-original-cost-summary.csv'', ''-direct-migrate-serverless-cost-summary.csv'',
      ''-recommended-serverless-resource-summary.csv'', ''-recommended-cost-summary.csv'',
      ''-original-workloads-distribution.csv'', ''-recommended-workloads-distribution.csv'']"
    by (simp add: reports_def ReportOriginalResourceSummary_def ReportOriginalCostSummary_def
        ReportRawServerlessCostSummary_def ReportRecommendedResourceSummary_def ReportRecommendedCostSummary_def
        ReportOriginalWorkloadsResourceDistribution_def ReportRecommendedWorkloadsResourceDistribution_def Let_def
        split: prod.split)
  have "\<forall>n \<in> set ?names. CHR ''/'' \<notin> set n \<and> 2 < length n" unfolding names by simp
  then have join: "path_join dataPath (ClusterId cfg @ n) = (dir_prefix dataPath @ ClusterId cfg) @ n" if "n \<in> set ?names" for n
    using assms that by (subst path_join_element) (fastforce simp: element_def append_eq_Cons_conv)+
  have "distinct ?names" unfolding names by simp
  then have "distinct (map (\<lambda>n. path_join dataPath (ClusterId cfg @ n)) ?names)"
    using join by (subst map_cong [OF refl, of _ _ "\<lambda>n. (dir_prefix dataPath @ ClusterId cfg) @ n"])
      (simp_all only: distinct_map inj_on_def same_append_eq, blast)
  moreover have "report_path dataPath cfg = (\<lambda>r. path_join dataPath (ClusterId cfg @ ReportName r @ ''.csv''))"
    by (simp add: fun_eq_iff report_path_def file_of_def)
  ultimately show ?thesis
    by (simp add: containerTimeSeriesDataCheckpointName_def workloadTimeSeriesDataCheckpointName_def comp_def)
qed

end
