(* ===== verification/Default_Cloud.thy ===== *)
theory Default_Cloud
  imports Report
begin

text \<open>
  The methods of \<open>pkg/cloudproviders/default/defaultcloud.go\<close> that the comparator calls. The default cloud prices
  the nodes for the exporter; what the comparator asks of a cloud panics, \<open>NotImplemented\<close>, and the
  handlers of node events do nothing.
\<close>

section \<open>The methods\<close>

definition default_Pod2ServerlessSpec :: "('q, 'w) spec_fun" where
  "default_Pod2ServerlessSpec pod w = (Inl NotImplemented, w)"

definition default_Pod2Spec :: "('q, 'w) spec_fun" where
  "default_Pod2Spec pod w = (Inl NotImplemented, w)"

definition default_Node2Spec :: "'q node \<Rightarrow> cloud_error + 'q CloudNodeSpec" where
  "default_Node2Spec node = Inl NotImplemented"

definition default_NodePrice :: "'q CloudNodeSpec \<Rightarrow> cloud_error + BaseInstancePrice" where
  "default_NodePrice spec = Inl NotImplemented"

definition default_ServerlessPodPrice :: "'q CloudPodSpec \<Rightarrow> cloud_error + BaseInstancePrice" where
  "default_ServerlessPodPrice spec = Inl NotImplemented"

definition default_PodPrice :: "'q CloudPodSpec \<Rightarrow> cloud_error + BaseInstancePrice" where
  "default_PodPrice spec = Inl NotImplemented"

definition default_PlatformPrice :: "PlatformParameter \<Rightarrow> cloud_error + Prices" where
  "default_PlatformPrice cp = Inl NotImplemented"

definition default_IsServerlessPod :: "'q pod \<Rightarrow> cloud_error + bool" where
  "default_IsServerlessPod pod = Inl NotImplemented"

definition default_OnNodeDelete :: "'q node \<Rightarrow> 'e option" where
  "default_OnNodeDelete node = None"

definition default_OnNodeAdd :: "'q node \<Rightarrow> 'e option" where
  "default_OnNodeAdd node = None"

definition default_OnNodeUpdate :: "'q node \<Rightarrow> 'q node \<Rightarrow> 'e option" where
  "default_OnNodeUpdate old new = None"

definition default_IsVirtualNode :: "'q node \<Rightarrow> bool" where
  "default_IsVirtualNode node = False"

definition default_WarmUp :: "'e option" where
  "default_WarmUp = None"

section \<open>The comparator over the default cloud\<close>

text \<open>The first pod that is asked for ends the collection.\<close>

lemma default_GetAllPodsSpec:
  "pods \<noteq> [] \<Longrightarrow> GetAllPodsSpec default_Pod2Spec pods m w = (Inl NotImplemented, w)"
  by (cases pods) (simp_all add: default_Pod2Spec_def)

lemma default_analysis_panics:
  assumes "CPod2Spec cl = default_Pod2Spec" "pods \<noteq> []"
  shows "DoAnalysis cfg duration writable ops pops json st cl pods nodes c w = (Inl NotImplemented, w)"
  by (simp add: DoAnalysis_def assms(1) default_GetAllPodsSpec [OF assms(2)])

end
