(* ===== verification/Report_Run.thy ===== *)
theory Report_Run
  imports Csv_Files
begin

text \<open>
  The report methods of \<open>comparator_reporter.go\<close> as they run: the title each of them prints, the table with
  its colours, the file it creates and fills, and the end of the process when that fails. \<open>Report\<close> says
  which tables and files come out of an analysis; here the methods themselves are shown to do that, event by
  event, at the paths and with the bytes of \<open>Csv_Files\<close>.
\<close>

section \<open>What a report does\<close>

text \<open>A table as it is set up before it is rendered.\<close>

datatype color = Bold | FgHiRedColor | FgGreenColor | BgBlackColor

record styled_table =
  HeaderLine :: bool
  AutoFormatHeaders :: bool
  TableBorder :: bool
  TableHeader :: "string list"
  HeaderColor :: "color list list"
  ColumnColor :: "color list list"
  TableRows :: table

text \<open>
  Lines and tables go to standard output. A file is first created, and so emptied, and its rows are in it
  once the writer has been flushed.
\<close>

datatype event = Line string | Rendered styled_table | Created string | Stored string string

record run =
  Events :: "event list"
  Exit :: "int option"

text \<open>
  The directory of the files and what the file system answers for a path when a file is created there and
  when it is written: nothing, or an error. No path is written twice in a run.
\<close>

record disk =
  DataPath :: string
  CreateError :: "string \<Rightarrow> string option"
  StoreError :: "string \<Rightarrow> string option"

definition emit :: "event \<Rightarrow> run \<Rightarrow> run" where
  "emit e r = r\<lparr>Events := Events r @ [e]\<rparr>"

definition fatal :: "string \<Rightarrow> run \<Rightarrow> run" where
  "fatal e r = (emit (Line e) r)\<lparr>Exit := Some 255\<rparr>"

definition styled :: "color list list \<Rightarrow> color list list \<Rightarrow> report \<Rightarrow> styled_table" where
  "styled headers columns rep =
     \<lparr>HeaderLine = True, AutoFormatHeaders = False, TableBorder = False, TableHeader = ReportHeader rep,
      HeaderColor = headers, ColumnColor = columns, TableRows = ReportRows rep\<rparr>"

text \<open>The header is buffered, so that an error of the disk shows when the rows are written.\<close>

definition write_csv :: "disk \<Rightarrow> string \<Rightarrow> table \<Rightarrow> run \<Rightarrow> run" where
  "write_csv d filename t r =
     (case CreateError d filename of
        Some e \<Rightarrow> fatal e r
      | None \<Rightarrow> (let r = emit (Created filename) r
                in case StoreError d filename of
                     Some e \<Rightarrow> fatal e r
                   | None \<Rightarrow> emit (Stored filename (report_bytes t)) r))"

definition show_report ::
    "disk \<Rightarrow> comparator_config \<Rightarrow> string \<Rightarrow> color list list \<Rightarrow> color list list \<Rightarrow> report \<Rightarrow> run \<Rightarrow> run" where
  "show_report d cfg title headers columns rep r =
     (if Exit r \<noteq> None then r
      else let mode = OutputMode cfg;
               r = emit (Line title) r;
               r = (if mode = [] \<or> mode = ''stdout'' then emit (Rendered (styled headers columns rep)) r else r);
               r = (if mode = [] \<or> mode = ''csv''
                    then write_csv d (report_path (DataPath d) cfg rep) (ReportHeader rep # ReportRows rep) r else r)
           in if Exit r \<noteq> None then r else emit (Line []) r)"

section \<open>The seven methods\<close>

definition dots :: "nat \<Rightarrow> string" where
  "dots n = replicate n CHR ''.''"

definition over :: "int \<times> float64 \<Rightarrow> string" where
  "over duration = ''(TimeSpan: '' @ format_int (fst duration) @ '', Discount: '' @ format_v (snd duration) @ '')''"

definition red_on_black :: "nat \<Rightarrow> color list list" where
  "red_on_black n = replicate n [FgHiRedColor, Bold, BgBlackColor]"

definition bold_red :: "nat \<Rightarrow> color list list" where
  "bold_red n = replicate n [Bold, FgHiRedColor]"

definition green_first :: "nat \<Rightarrow> color list list" where
  "green_first n = [Bold, FgGreenColor] # bold_red (n - 1)"

definition print_OriginalWorkloadsResourceDistribution ::
    "disk \<Rightarrow> comparator_config \<Rightarrow> 'q quantity_ops \<Rightarrow> 'q pod_ops \<Rightarrow> 'q workloads \<Rightarrow> run \<Rightarrow> run" where
  "print_OriginalWorkloadsResourceDistribution d cfg ops pops workloads =
     show_report d cfg (''Reporting, Original Workloads Resource Distribution'' @ dots 101)
       (red_on_black 11) (bold_red 11) (ReportOriginalWorkloadsResourceDistribution ops pops workloads)"

definition print_RecommendedWorkloadsResourceDistribution ::
    "disk \<Rightarrow> comparator_config \<Rightarrow> 'q quantity_ops \<Rightarrow> 'q recommendations \<Rightarrow> run \<Rightarrow> run" where
  "print_RecommendedWorkloadsResourceDistribution d cfg ops recs =
     show_report d cfg (''Reporting, Recommended Workloads Resource Distribution'' @ dots 101)
       (red_on_black 11) (bold_red 11)
       (ReportRecommendedWorkloadsResourceDistribution ops container_stats_json recs)"

definition print_OriginalResourceSummary ::
    "disk \<Rightarrow> comparator_config \<Rightarrow> 'q quantity_ops \<Rightarrow> 'q pod_ops \<Rightarrow> ('q pod \<Rightarrow> bool) \<Rightarrow> ('q node \<Rightarrow> bool) \<Rightarrow>
     'q pod list \<Rightarrow> 'q node list \<Rightarrow> run \<Rightarrow> run" where
  "print_OriginalResourceSummary d cfg ops pops serverless virtual pods nodes =
     show_report d cfg (''Reporting, Original Resource Summary'' @ dots 101)
       (red_on_black 3) (green_first 3) (ReportOriginalResourceSummary ops pops serverless virtual pods nodes)"

definition print_OriginalCostSummary ::
    "disk \<Rightarrow> comparator_config \<Rightarrow> int \<times> float64 \<Rightarrow> ('q, 'e) CosterContext \<Rightarrow> run \<Rightarrow> run" where
  "print_OriginalCostSummary d cfg duration ctx =
     show_report d cfg (''Reporting, Original Cost Summary'' @ over duration @ dots 76)
       (red_on_black 6) (green_first 6) (ReportOriginalCostSummary ctx)"

definition print_RawServerlessCostSummary ::
    "disk \<Rightarrow> comparator_config \<Rightarrow> int \<times> float64 \<Rightarrow> ('q, 'e) CosterContext \<Rightarrow> run \<Rightarrow> run" where
  "print_RawServerlessCostSummary d cfg duration ctx =
     show_report d cfg (''Reporting, Direct Migrating to Serverless Cost Summary'' @ over duration @ dots 76)
       (red_on_black 6) (green_first 6) (ReportRawServerlessCostSummary ctx)"

definition print_RecommendedResourceSummary ::
    "disk \<Rightarrow> comparator_config \<Rightarrow> 'q quantity_ops \<Rightarrow> 'q recommendations \<Rightarrow> run \<Rightarrow> run" where
  "print_RecommendedResourceSummary d cfg ops recs =
     show_report d cfg (''Reporting, Recommended Resource Summary After Migrating to Serverless'' @ dots 69)
       (red_on_black 3) (green_first 3) (ReportRecommendedResourceSummary ops recs)"

definition print_RecommendedCostSummary ::
    "disk \<Rightarrow> comparator_config \<Rightarrow> int \<times> float64 \<Rightarrow> ('q, 'e) CosterContext \<Rightarrow> run \<Rightarrow> run" where
  "print_RecommendedCostSummary d cfg duration ctx =
     show_report d cfg (''Reporting, Recommended Cost Summary After Migrating to Serverless'' @ over duration @ dots 45)
       (red_on_black 4) (green_first 4) (ReportRecommendedCostSummary ctx)"

definition no_events :: run where
  "no_events = \<lparr>Events = [], Exit = None\<rparr>"

text \<open>\<open>DoAnalysis\<close> with its seven calls.\<close>

definition run_reports ::
    "disk \<Rightarrow> comparator_config \<Rightarrow> int \<times> float64 \<Rightarrow> 'q quantity_ops \<Rightarrow> 'q pod_ops \<Rightarrow> ('q, 'w, 'e) baseline_cloud \<Rightarrow>
     'q pod list \<Rightarrow> 'q node list \<Rightarrow> 'q workloads \<Rightarrow> ('q, 'e) CosterContext \<Rightarrow> run" where
  "run_reports d cfg duration ops pops cl pods nodes workloads ctx =
     (let r = print_OriginalResourceSummary d cfg ops pops (CIsServerlessPod cl) (CIsVirtualNode cl) pods nodes no_events;
          r = print_OriginalCostSummary d cfg duration ctx r;
          r = print_RawServerlessCostSummary d cfg duration ctx r;
          r = print_RecommendedResourceSummary d cfg ops (WorkloadsRecSpec ctx) r;
          r = print_RecommendedCostSummary d cfg duration ctx r;
          r = print_OriginalWorkloadsResourceDistribution d cfg ops pops workloads r
      in print_RecommendedWorkloadsResourceDistribution d cfg ops (WorkloadsRecSpec ctx) r)"

definition run_analysis ::
    "disk \<Rightarrow> comparator_config \<Rightarrow> int \<times> float64 \<Rightarrow> 'q quantity_ops \<Rightarrow> 'q pod_ops \<Rightarrow> 'x stats_ops \<Rightarrow>
     ('q, 'w, 'e) baseline_cloud \<Rightarrow> 'q pod list \<Rightarrow> 'q node list \<Rightarrow> 'q comparator \<Rightarrow> 'w \<Rightarrow> (cloud_error + run) \<times> 'w" where
  "run_analysis d cfg duration ops pops st cl pods nodes c w =
     (case GetAllPodsSpec (CPod2Spec cl) pods [] w of
        (Inl e, w1) \<Rightarrow> (Inl e, w1)
      | (Inr podsSpec, w1) \<Rightarrow>
          (let nodesSpec = GetAllNodesSpec (CNode2Spec cl) nodes
           in case GetAllWorkloadRecommendedData ops st [] (CPod2ServerlessSpec cl)
                (containersTimeSeriesDataCache c) (pod_specs (workloadsSpecCache c)) w1 of
                (Inl e, w2) \<Rightarrow> (Inl e, w2)
              | (Inr recs, w2) \<Rightarrow>
                  (let ctx = coster_context cl duration podsSpec nodesSpec (workloadsSpecCache c) recs
                   in (Inr (run_reports d cfg duration ops pops cl pods nodes (workloadsSpecCache c) ctx), w2))))"

section \<open>The methods and the outputs\<close>

definition tables :: "run \<Rightarrow> styled_table list" where
  "tables r = List.map_filter (\<lambda>e. case e of Rendered t \<Rightarrow> Some t | _ \<Rightarrow> None) (Events r)"

definition files :: "run \<Rightarrow> (string \<times> string) list" where
  "files r = List.map_filter (\<lambda>e. case e of Stored p b \<Rightarrow> Some (p, b) | _ \<Rightarrow> None) (Events r)"

text \<open>The table library panics unless there is one list of colours for each column.\<close>

definition well_styled :: "styled_table \<Rightarrow> bool" where
  "well_styled t \<longleftrightarrow> length (HeaderColor t) = length (TableHeader t) \<and>
     length (ColumnColor t) = length (TableHeader t) \<and> (\<forall>row \<in> set (TableRows t). length row = length (TableHeader t))"

definition writable_at :: "disk \<Rightarrow> string \<Rightarrow> bool" where
  "writable_at d f \<longleftrightarrow> (let p = path_join (DataPath d) f in CreateError d p = None \<and> StoreError d p = None)"

definition stored_as :: "disk \<Rightarrow> string \<times> table \<Rightarrow> string \<times> string" where
  "stored_as d = (\<lambda>(f, t). (path_join (DataPath d) f, report_bytes t))"

text \<open>A run of the methods and the outputs it stands for.\<close>

definition implements :: "disk \<Rightarrow> outputs \<Rightarrow> run \<Rightarrow> bool" where
  "implements d out r \<longleftrightarrow>
     map (\<lambda>t. (TableHeader t, TableRows t)) (tables r) = Printed out \<and>
     list_all well_styled (tables r) \<and>
     files r = map (stored_as d) (Written out) \<and>
     Exit r = (if Alive out then None else Some 255)"

lemma emit_simps [simp]:
  "Events (emit e r) = Events r @ [e]" "Exit (emit e r) = Exit r"
  "Events (fatal s r) = Events r @ [Line s]" "Exit (fatal s r) = Some 255"
  by (simp_all add: emit_def fatal_def)

lemma seen_simps [simp]:
  "tables (emit e r) = tables r @ (case e of Rendered t \<Rightarrow> [t] | _ \<Rightarrow> [])"
  "files (emit e r) = files r @ (case e of Stored p b \<Rightarrow> [(p, b)] | _ \<Rightarrow> [])"
  "tables (fatal s r) = tables r" "files (fatal s r) = files r"
  by (simp_all add: tables_def files_def map_filter_def split: event.split)

lemma write_csv_seen:
  "tables (write_csv d p t r) = tables r"
  "files (write_csv d p t r) = files r @ (if CreateError d p = None \<and> StoreError d p = None then [(p, report_bytes t)] else [])"
  "Exit (write_csv d p t r) = (if CreateError d p = None \<and> StoreError d p = None then Exit r else Some 255)"
  by (simp_all add: write_csv_def Let_def split: option.split)

lemma show_report_implements:
  assumes "implements d out r" "well_styled (styled headers columns rep)"
  shows "implements d (publish cfg (writable_at d) rep out) (show_report d cfg title headers columns rep r)"
proof (cases "Alive out")
  case True
  with assms(1) have "Exit r = None" by (simp add: implements_def)
  with assms True show ?thesis
    by (simp add: implements_def publish_simps show_report_def Let_def write_csv_seen prints_def writes_def
        writable_at_def report_path_def table_of_def csv_of_def stored_as_def styled_def)
next
  case False
  with assms(1) show ?thesis by (simp add: implements_def publish_simps show_report_def)
qed

lemma styled_ok:
  assumes "rep \<in> set (reports ops pops json serverless virtual pods nodes workloads ctx)"
    and "length headers = length (ReportHeader rep)" "length columns = length (ReportHeader rep)"
  shows "well_styled (styled headers columns rep)"
  using report_rectangular [OF assms(1)] assms(2,3) by (simp add: well_styled_def styled_def)

lemmas print_defs = print_OriginalResourceSummary_def print_OriginalCostSummary_def
  print_RawServerlessCostSummary_def print_RecommendedResourceSummary_def print_RecommendedCostSummary_def
  print_OriginalWorkloadsResourceDistribution_def print_RecommendedWorkloadsResourceDistribution_def

lemma run_reports_implements:
  "implements d (fold (publish cfg (writable_at d)) (reports ops pops container_stats_json (CIsServerlessPod cl)
     (CIsVirtualNode cl) pods nodes workloads ctx) no_outputs)
   (run_reports d cfg duration ops pops cl pods nodes workloads ctx)"
proof -
  note ok = styled_ok [where ops = ops and pops = pops and json = container_stats_json and
      serverless = "CIsServerlessPod cl" and virtual = "CIsVirtualNode cl" and pods = pods and nodes = nodes and
      workloads = workloads and ctx = ctx]
  have "implements d no_outputs no_events"
    by (simp add: implements_def no_outputs_def no_events_def tables_def files_def map_filter_def)
  then show ?thesis
    unfolding run_reports_def print_defs reports_def Let_def fold_simps
    by (intro show_report_implements ok)
      (simp_all add: reports_def red_on_black_def bold_red_def green_first_def ReportOriginalResourceSummary_def
        ReportOriginalCostSummary_def ReportRawServerlessCostSummary_def ReportRecommendedResourceSummary_def
        ReportRecommendedCostSummary_def ReportOriginalWorkloadsResourceDistribution_def
        ReportRecommendedWorkloadsResourceDistribution_def cost_header_def distribution_header_def Let_def
        split: prod.split)
qed

text \<open>
  C11. The methods that report do what the outputs of an analysis say, for every answer of the file system: the
  tables rendered are the printed ones in their order, each with as many colours as columns and no short row,
  so that rendering does not panic; the files are the written ones, at their paths and with their bytes;
  and the process ends with 255 exactly when a report could not be written. An analysis stops on the same errors.
\<close>

theorem run_analysis_refines:
  "rel_sum (=) (implements d)
     (fst (DoAnalysis cfg duration (writable_at d) ops pops container_stats_json st cl pods nodes c w))
     (fst (run_analysis d cfg duration ops pops st cl pods nodes c w)) \<and>
   snd (run_analysis d cfg duration ops pops st cl pods nodes c w) =
     snd (DoAnalysis cfg duration (writable_at d) ops pops container_stats_json st cl pods nodes c w)"
  by (simp add: DoAnalysis_def run_analysis_def Let_def split: prod.split sum.split)
    (intro allI impI run_reports_implements)

end
