(* ===== verification/Spec2Isabelle.thy ===== *)
theory Spec2Isabelle
  imports Tencent_Baseline Exporter_Http Monitor_Client Metric_Server Tke_Client Command Csv_Files Default_Cloud Report_Run
begin

text \<open>
  A model of fadvisor (github.com/gocrane/fadvisor), a program that prices the nodes and pods of a
  Kubernetes cluster. It runs in one of two ways, both of which \<open>cmd/fadvisor/app/fadvisor.go\<close>
  starts. As an exporter it asks a cloud for the prices of the nodes, again and again, and publishes
  them as gauges of Prometheus and over HTTP. As a comparator it runs once: it collects the workloads of
  the cluster and their past usage, prices the cluster as it is, as serverless pods, and as it would be
  with recommended resources, and prints seven tables.

  The parts, and the theories that model them, in the order in which they build on each other:

  \<^bold>\<open>Go.\<close> \<open>Prelude\<close>: integers of fixed width, strings, maps, results with an error, and the loop that tries
  one after the other. \<open>Go_Float\<close>: \<open>float64\<close>, computed. \<open>Go_Strconv\<close> and \<open>Go_Ftoa\<close>: numbers to text and back,
  and that the shortest text of a number reads back as that number. \<open>Go_Json\<close>: \<open>encoding/json\<close>, as trees,
  their bytes and the scanner that reads them. \<open>Go_Csv\<close>: \<open>encoding/csv\<close>, the writer and the reader of
  tables. \<open>Registry\<close>: the interface of all registries, a locale.

  \<^bold>\<open>Data sources.\<close> \<open>Time_Series\<close>: samples, series and the merge of sorted ones. \<open>Metric_Query\<close>: metrics,
  their keys, the namers and the query builders (\<open>pkg/metricquery\<close>, \<open>pkg/metricnaming\<close>,
  \<open>pkg/querybuilder\<close>). \<open>Prom_Builder\<close>: the PromQL of a metric. \<open>Prom_Query\<close>: a range query cut into windows,
  and the answers put together (\<open>prom/ctx.go\<close>). \<open>Prom_Limiter\<close> and \<open>Prom_Client\<close>: the two HTTP clients,
  the requests they send and the bound on the requests in flight (\<open>prom/prom.go\<close>). \<open>Prom_Provider\<close>: the
  Prometheus data source and the choice of the data source. \<open>Metric_Server\<close>: the metrics server.
  \<open>QMonitor\<close>: Tencent's cloud monitor as a data source; \<open>Monitor_Client\<close>: the rest of its client
  (\<open>qmonitor.go\<close>). \<open>Datasource_Proxy\<close>: the proxies over several data sources, and
  the credentials of a request (\<open>pkg/datasource\<close>).

  \<^bold>\<open>Clouds.\<close> \<open>Regions\<close>: the two tables of regions. \<open>Cloud_Core\<close>: specs, prices, custom pricing and the
  providers (\<open>pkg/cloud\<close>, \<open>pkg/spec\<close>). \<open>Qcloud_SDK\<close>: retries, paging and the query over all regions
  (\<open>cvm.go\<close>). \<open>Qcloud_Platform\<close>: the fees of a cluster (\<open>tke.go\<close>, \<open>eks.go\<close>). \<open>Qcloud_Cache\<close>: the price
  caches (\<open>price_cache.go\<close>); the state is the record \<open>TencentCloud\<close>. \<open>Qcloud_Price\<close> and \<open>Qcloud_Spec\<close>:
  the prices and specs of nodes and pods (\<open>qcloud.go\<close>), and the default cloud. \<open>Startup\<close>: the factories
  of the clouds and the stores of credentials. \<open>Sdk_Client\<close>: the SDK clients a cloud keeps, and whose
  credentials they sign with. \<open>Tke_Sdk\<close>: the calls of the container service, with the requests and responses
  of the SDK under \<open>staging\<close> and their JSON; \<open>Tke_Client\<close>: the program's client that makes them.

  \<^bold>\<open>Exporter.\<close> \<open>Emitter\<close>: the cost model and the loop that keeps the gauges, whose state is the record
  \<open>emitter\<close>. \<open>Exporter\<close>: both clouds behind them, and what the HTTP handlers look up. \<open>Exporter_Http\<close>: the bodies of
  the responses, and the way of a price through decimal texts to the gauges.

  \<^bold>\<open>Comparator.\<close> \<open>Workload_Target\<close>: the root owner of a pod, its replicas and selector (\<open>pkg/util/owner\<close>,
  \<open>pkg/util/target\<close>). \<open>Resource_Totals\<close>: sums over the cluster. \<open>Estimator\<close>, \<open>Coster\<close>: statistics and the
  three ways to cost a cluster. \<open>Checkpoint\<close>: the two CSV files that keep the series between runs.
  \<open>Recommendation\<close>: recommended resources. \<open>Collection\<close>: \<open>Init\<close>, with the comparator's state, the record
  \<open>comparator\<close>. \<open>Report\<close>: \<open>DoAnalysis\<close> and its seven reports. \<open>Csv_Files\<close>: the bytes of the checkpoints and of the
  reports' files, and their paths. \<open>Report_Run\<close>: the report methods event by event, which refine \<open>Report\<close>. \<open>Tencent_Baseline\<close>: Tencent's cloud as the comparator's.
  \<open>Default_Cloud\<close>: the default cloud as the comparator's, which panics. This theory: the whole run.

  \<^bold>\<open>Process.\<close> \<open>Kube_Util\<close>: the clients of Kubernetes, the event recorders, the request handlers and the cluster
  cache (\<open>pkg/util\<close>, \<open>pkg/cache\<close>). \<open>Serving\<close>: the HTTP server, the leader election and the signals as a step
  relation, with the status the process ends with. \<open>Command\<close>: the options, their flags and validation, and what
  the command does with them (\<open>cmd/fadvisor/app\<close>).

  \<^bold>\<open>How the code is rendered.\<close> A method of a Go object is a function of the object's state that returns the
  new state; an operation under one lock is one step. An error is the left of a sum; a panic, an
  exit and a nil dereference are errors of their own, or \<open>None\<close> where the text says so. A map is an
  association list with distinct keys, whose order is that of one iteration: what is proved for every
  such list holds in every order. Counts are unbounded where the text does not convert them with
  \<open>int64\<close>, \<open>int32\<close> or \<open>uint64\<close>. Floating point is IEEE binary64 with every operation rounded, as on amd64.
  A loop that may not end is a \<open>partial_function (option)\<close>, and \<open>None\<close> is that it does not: the count of
  points of a range, the pages of a query, the search for the root owner. No definition has fuel; when these
  return is proved for each.

  \<^bold>\<open>What is a parameter.\<close> The remote services, in a state that their calls pass on; the flags that libraries define for the process; the informers' lists of pods
  and nodes; the library's quantities, label selectors, statistics and sorting by time; base64 and the
  formats of times; the reading of the configuration file; the clock. Hypotheses on these state what is
  documented, such as that sorting sorts. JSON and CSV are not parameters: the HTTP bodies, the requests
  of the SDK, the checkpoints and the reports' files are bytes that the model computes.

  \<^bold>\<open>What is shown.\<close> From end to end: the rows of the last reports are the analysed workloads
  (\<open>pods_to_report\<close>), the gauges show the nodes that can be priced (\<open>exporter_shows_nodes\<close>), with the configured prices
  to the last bit (\<open>gauges_exact\<close>), and the comparator's cost of the
  machines is the sum of the prices that the exporter shows (\<open>tencent_original_cost\<close>); the report methods
  implement the outputs of an analysis (\<open>run_analysis_refines\<close>). Round trips of
  the checkpoints, as tables and as the bytes of their files, and the restart that rests on them; of the JSON
  of the HTTP responses and of the SDK's requests. The windows of a
  range query: their number, size and cover, and the points they lose. Invariants of the price caches,
  the gauges, the limiter, the nested maps of workloads and of recommendations. The rule by which each
  map of prices, specs and costs is filled, on all branches, errors among them. When the loops end.
  That a stop of the server is graceful, and with which status the process ends. What the command comes to
  for each group of options.
  Where the code does what it does not mean to, the theorem says what it does, and the manifest's
  findings name it.

  \<^bold>\<open>Not modelled.\<close> The splitting of the command line into flags and values, help texts and usage; debug
  output, the log's set-up and the request metrics (\<open>pkg/cloudsdk/qcloud/metrics\<close>); how a table is laid out on the terminal;
  the handlers of the profiler and of Prometheus, which are libraries; constants without a use; the
  interface and the stubs of the data fetcher, which do nothing. Of \<open>staging\<close>, the container service's SDK
  of 2022 is generated and no file imports it; the SDK's common part, with signatures and transport, is
  another module, and a parameter here.
\<close>

section \<open>From the pods to the report\<close>

lemma Init_workloads:
  assumes "Init cfg env conv p2s fetchC fetchW pods c w = Some (Inr c', w')"
  shows "initWorkloadsSpec env conv p2s pods w = Some (Inr (workloadsSpecCache c'), w')"
proof -
  from assms obtain m where m: "initWorkloadsSpec env conv p2s pods w = Some (Inr m, w')"
    "init_caches cfg fetchC fetchW (c\<lparr>workloadsSpecCache := m\<rparr>) = Inr c'"
    by (auto simp: Init_def split: option.splits sum.splits prod.splits)
  obtain c1 r1 where c1: "ContainerTsDataInit cfg fetchC (c\<lparr>workloadsSpecCache := m\<rparr>) = (c1, r1)" by fastforce
  from ContainerTsDataInit_other [OF c1] have "workloadsSpecCache c1 = m" by simp
  moreover have "WorkloadTsDataInit cfg fetchW c1 = (c2, r2) \<Longrightarrow> workloadsSpecCache c2 = workloadsSpecCache c1"
    for c2 r2
    by (auto simp: WorkloadTsDataInit_def Let_def split: sum.splits if_splits)
  ultimately have "workloadsSpecCache c' = m"
    using m(2) by (auto simp: init_caches_def c1 split: option.splits if_splits prod.splits)
  with m(1) show ?thesis by simp
qed

text \<open>
  The last two calls of \<open>RunComparator\<close> in \<open>fadvisor.go\<close>: \<open>Init\<close>, which ends the process when it fails,
  and \<open>DoAnalysis\<close>.
\<close>

datatype run_error = InitEnds init_error | AnalysisPanics cloud_error

definition RunComparator ::
    "comparator_config \<Rightarrow> int \<times> float64 \<Rightarrow> (string \<Rightarrow> bool) \<Rightarrow> 'q quantity_ops \<Rightarrow> 'q pod_ops \<Rightarrow>
     stats_json \<Rightarrow> 'x stats_ops \<Rightarrow> ('e, 'm, 'l, 's) target_env \<Rightarrow> ('q pod \<Rightarrow> 'e + kube_object) \<Rightarrow>
     ('q, 'w, 'c) baseline_cloud \<Rightarrow> ('q workloads \<Rightarrow> container_cache) \<Rightarrow> ('q workloads \<Rightarrow> workload_cache) \<Rightarrow>
     'q pod list \<Rightarrow> 'q node list \<Rightarrow> 'q comparator \<Rightarrow> 'w \<Rightarrow> ((run_error + outputs) \<times> 'w) option" where
  "RunComparator cfg horizon writable ops pops json st env conv cl fetchC fetchW pods nodes c w =
     (case Init cfg env conv (CPod2Spec cl) fetchC fetchW pods c w of
        None \<Rightarrow> None
      | Some (Inl e, w1) \<Rightarrow> Some (Inl (InitEnds e), w1)
      | Some (Inr c', w1) \<Rightarrow> Some (case DoAnalysis cfg horizon writable ops pops json st cl pods nodes c' w1 of
          (Inl e, w2) \<Rightarrow> (Inl (AnalysisPanics e), w2)
        | (Inr out, w2) \<Rightarrow> (Inr out, w2)))"

lemma RunComparator_Inr:
  "RunComparator cfg horizon writable ops pops json st env conv cl fetchC fetchW pods nodes c w = Some (Inr out, w2) \<longleftrightarrow>
     (\<exists>c' w1. Init cfg env conv (CPod2Spec cl) fetchC fetchW pods c w = Some (Inr c', w1) \<and>
       DoAnalysis cfg horizon writable ops pops json st cl pods nodes c' w1 = (Inr out, w2))"
  by (auto simp: RunComparator_def split: option.splits sum.splits prod.splits)

text \<open>
  The comparator is of no use over the default cloud: as soon as the cluster has a pod, no run prints its
  reports. It panics, ends with an error, or does not return.
\<close>

theorem default_never_compares:
  assumes "CPod2Spec cl = default_Pod2Spec" "pods \<noteq> []"
  shows "RunComparator cfg horizon writable ops pops json st env conv cl fetchC fetchW pods nodes c w \<noteq>
    Some (Inr out, w')"
  by (simp add: RunComparator_Inr default_analysis_panics [OF assms])

text \<open>
  C1. The pipeline of the comparator, from the pods of the cluster to its last report: when a run has
  printed its tables, the last of the seven has a row for a workload exactly when some pod of the
  cluster leads to that workload and it is analysed, and the table before it has a row for exactly
  the same ones.
\<close>

theorem pods_to_report:
  assumes "RunComparator cfg horizon writable ops pops json st env conv cl fetchC fetchW pods nodes c w =
      Some (Inr out, w2)"
    and "Alive out" "prints cfg"
  shows "length (Printed out) = 7 \<and>
    ([kind, ns, n] \<in> take 3 ` set (snd (Printed out ! 6)) \<longleftrightarrow>
       (\<exists>p \<in> set pods. analysed env conv p kind (ns, n))) \<and>
    (take 3 ` set (snd (Printed out ! 5)) = take 3 ` set (snd (Printed out ! 6)))"
proof -
  from assms(1) obtain c' w1 where
    run: "Init cfg env conv (CPod2Spec cl) fetchC fetchW pods c w = Some (Inr c', w1)"
      "DoAnalysis cfg horizon writable ops pops json st cl pods nodes c' w1 = (Inr out, w2)"
    unfolding RunComparator_Inr by blast
  let ?m = "workloadsSpecCache c'"
  note init = Init_workloads [OF run(1)]
  from workload_loop_entries [OF init [unfolded initWorkloadsSpec_def], of kind "(ns, n)"]
  have entry: "entry_ok env conv (CPod2Spec cl) pods [] ?m kind (ns, n)" and wf: "wf2 ?m" by simp_all
  from run(2) obtain ps recs w3 where
    recs: "GetAllWorkloadRecommendedData ops st [] (CPod2ServerlessSpec cl) (containersTimeSeriesDataCache c')
      (pod_specs ?m) w3 = (Inr recs, w2)"
    and out: "out = fold (publish cfg writable) (reports ops pops json (CIsServerlessPod cl) (CIsVirtualNode cl)
      pods nodes ?m (coster_context cl horizon ps (GetAllNodesSpec (CNode2Spec cl) nodes) ?m recs)) no_outputs"
    by (auto simp: DoAnalysis_def Let_def split: prod.splits sum.splits)
  define rs where "rs = reports ops pops json (CIsServerlessPod cl) (CIsVirtualNode cl)
      pods nodes ?m (coster_context cl horizon ps (GetAllNodesSpec (CNode2Spec cl) nodes) ?m recs)"
  have out: "out = published cfg writable rs"
    using fold_publish [of no_outputs cfg writable rs] out
    by (simp add: no_outputs_def published_def Let_def rs_def)
  have len: "length rs = 7" by (simp add: rs_def reports_def)
  have printed: "Printed out = map table_of rs"
    using assms(2, 3) by (simp add: out published_def Let_def list_all_iff takeWhile_eq_all_conv [THEN iffD2])
  have rows: "snd (Printed out ! 5) = each_workload (original_row ops pops) ?m"
    "snd (Printed out ! 6) = each_workload (recommended_row ops json) recs"
    by (simp_all add: printed len table_of_def) (simp_all add: rs_def reports_def coster_context_def
        ReportOriginalWorkloadsResourceDistribution_def ReportRecommendedWorkloadsResourceDistribution_def)
  have keys: "take 3 ` set (snd (Printed out ! 5)) = {[k, fst nn, snd nn] | k nn. lookup2 ?m k nn \<noteq> None}"
    "take 3 ` set (snd (Printed out ! 6)) = {[k, fst nn, snd nn] | k nn. lookup2 recs k nn \<noteq> None}"
    by (auto simp: rows each_workload_keys [OF wf] each_workload_keys [OF recs_shape [OF recs]] row_keys)
  have same: "lookup2 recs k nn = None \<longleftrightarrow> lookup2 ?m k nn = None" for k nn
    using recs_lookup2 [OF recs wf, of k nn] by (cases "lookup2 ?m k nn") auto
  have "(\<exists>p \<in> set pods. analysed env conv p kind (ns, n)) \<longleftrightarrow> lookup2 ?m kind (ns, n) \<noteq> None"
    using entry by (auto simp: entry_ok_def find_None_iff find_Some_iff split: option.splits) 
  with keys same len printed show ?thesis by simp
qed

definition print_config :: comparator_config where
  "print_config = (example_config True)\<lparr>OutputMode := ''stdout''\<rparr>"

definition started :: "nat comparator" where
  "started = first_start\<lparr>ContainerFile := Some (projr (ContainerDataCheckpoint [])),
     WorkloadFile := Some (projr (workloadTimeSeriesDataCheckpoint []))\<rparr>"

lemma started_eq:
  "Init print_config example_target_env example_conv (CPod2Spec example_cloud) (\<lambda>ws. []) (\<lambda>ws. [])
     example_pods first_start 0 = Some (Inr started, 2)"
proof -
  have "\<not> isl (ContainerDataCheckpoint [])" "\<not> isl (workloadTimeSeriesDataCheckpoint [])"
    by code_simp+
  then obtain t u where tu: "ContainerDataCheckpoint [] = Inr t" "workloadTimeSeriesDataCheckpoint [] = Inr u"
    by (cases "ContainerDataCheckpoint []"; cases "workloadTimeSeriesDataCheckpoint []") simp_all
  show ?thesis
    by (simp add: tu Init_def init_caches_def ContainerTsDataInit_def WorkloadTsDataInit_def Let_def panics_def
        example_cloud_def example_workloads_eq first_start_def print_config_def example_config_def started_def
        LoadContainerTimeSeriesDataFromCheckpoint_def LoadWorkloadTimeSeriesDataFromCheckpoint_def)
qed

theorem pods_to_report_witness:
  "\<exists>out. RunComparator print_config (3600, 1) (\<lambda>f. True) nat_ops nat_pod_ops (\<lambda>m. []) const_stats
      example_target_env example_conv example_cloud (\<lambda>ws. []) (\<lambda>ws. []) example_pods [] first_start 0 =
        Some (Inr out, 9) \<and>
    [''Deployment'', ''default'', ''web''] \<in> take 3 ` set (snd (Printed out ! 6))"
proof -
  let ?recs = "GetAllWorkloadRecommendedData nat_ops const_stats [] plain_spec [] (pod_specs example_workloads) 5"
  have "\<not> isl (fst ?recs) \<and> snd ?recs = 9" by code_simp
  then obtain recs where recs: "?recs = (Inr recs, 9)"
    by (cases ?recs; cases "fst ?recs") simp_all
  have "\<exists>m. GetAllPodsSpec plain_spec example_pods [] 2 = (Inr m, 5)"
    by (simp add: example_pods_def plain_spec_def)
  then obtain m where m: "GetAllPodsSpec plain_spec example_pods [] 2 = (Inr m, 5)" by blast
  have "\<exists>rs. DoAnalysis print_config (3600, 1) (\<lambda>f. True) nat_ops nat_pod_ops (\<lambda>m. []) const_stats
      example_cloud example_pods [] started 2 = (Inr (fold (publish print_config (\<lambda>f. True)) rs no_outputs), 9)"
    using m recs by (simp add: DoAnalysis_def example_cloud_def started_def first_start_def Let_def) blast
  then obtain rs where out: "DoAnalysis print_config (3600, 1) (\<lambda>f. True) nat_ops nat_pod_ops (\<lambda>m. [])
      const_stats example_cloud example_pods [] started 2 =
        (Inr (fold (publish print_config (\<lambda>f. True)) rs no_outputs), 9)" by blast
  have alive: "Alive (fold (publish print_config (\<lambda>f. True)) rs no_outputs)"
    using fold_publish [of no_outputs print_config "\<lambda>f. True" rs]
    by (simp add: no_outputs_def published_def Let_def list_all_iff)
  have run: "RunComparator print_config (3600, 1) (\<lambda>f. True) nat_ops nat_pod_ops (\<lambda>m. []) const_stats
      example_target_env example_conv example_cloud (\<lambda>ws. []) (\<lambda>ws. []) example_pods [] first_start 0 =
        Some (Inr (fold (publish print_config (\<lambda>f. True)) rs no_outputs), 9)"
    unfolding RunComparator_Inr using started_eq out by blast
  have prints: "prints print_config" by (simp add: prints_def print_config_def)
  have "owned_pod ''a'' ''web'' \<in> set example_pods" by (simp add: example_pods_def)
  moreover have "analysed example_target_env example_conv (owned_pod ''a'' ''web'') ''Deployment'' (''default'', ''web'')"
    by (simp add: analysed_def example_roots example_objects example_goods)
  ultimately show ?thesis
    using pods_to_report [OF run alive prints, of "''Deployment''" "''default''" "''web''"] run by blast
qed

end
